(* ===== verification/Prelude.thy ===== *)
theory Prelude
  imports Complex_Main "HOL-Library.AList"
begin

text \<open>
  Shared vocabulary of the development: results of fallible code, the insertion-ordered
  \<open>Map\<close> of JavaScript and its interface, the string operations the source uses, and the
  sources of non-determinism (clock, random numbers, UUIDs) as an explicit environment.

  Strings are lists of characters; one character stands for one UTF-16 code unit of the
  source, so \<open>length\<close> is JavaScript's \<open>length\<close>. Finite numbers are rationals (time stamps
  are integers, in milliseconds): the rounding of doubles is not modelled.
\<close>

named_theorems jmap_simps \<open>lookup laws of insertion-ordered maps\<close>
named_theorems jmap_wf \<open>operations that keep the keys of a map distinct\<close>
named_theorems frame_simps \<open>fields an operation leaves unchanged\<close>

section \<open>Results\<close>

text \<open>A result is \<open>Inl\<close> of the error thrown or \<open>Inr\<close> of the value returned.\<close>

fun is_ok :: "'e + 'a \<Rightarrow> bool" where
  "is_ok (Inl e) = False"
| "is_ok (Inr x) = True"

lemma is_ok_iff: "is_ok r \<longleftrightarrow> (\<exists>x. r = Inr x)"
  by (cases r) auto

lemma not_is_ok_iff: "\<not> is_ok r \<longleftrightarrow> (\<exists>e. r = Inl e)"
  by (cases r) auto

fun res_bind :: "'e + 'a \<Rightarrow> ('a \<Rightarrow> 'e + 'b) \<Rightarrow> 'e + 'b" where
  "res_bind (Inl e) f = Inl e"
| "res_bind (Inr x) f = f x"

lemma res_bind_Inr: "res_bind r f = Inr y \<longleftrightarrow> (\<exists>x. r = Inr x \<and> f x = Inr y)"
  by (cases r) auto

lemma res_bind_Inl: "res_bind r f = Inl e \<longleftrightarrow> r = Inl e \<or> (\<exists>x. r = Inr x \<and> f x = Inl e)"
  by (cases r) auto

text \<open>\<open>x ?? d\<close> of the source: the value, or the default where it is absent.\<close>

definition or_default :: "'a option \<Rightarrow> 'a \<Rightarrow> 'a" where
  "or_default x d = (case x of None \<Rightarrow> d | Some v \<Rightarrow> v)"

lemma or_default_simps [simp]: "or_default None d = d" "or_default (Some v) d = v"
  by (simp_all add: or_default_def)

section \<open>Insertion-ordered maps\<close>

text \<open>
  JavaScript's \<open>Map\<close> iterates in insertion order and keeps the place of a key that is set
  again. It is an association list with distinct keys: \<open>jset\<close> replaces in place or appends,
  \<open>jdel\<close> removes.
\<close>

type_synonym ('k, 'v) jmap = "('k \<times> 'v) list"

definition jempty :: "('k, 'v) jmap" where
  "jempty = []"

definition jget :: "('k, 'v) jmap \<Rightarrow> 'k \<Rightarrow> 'v option" where
  "jget m k = map_of m k"

definition jset :: "'k \<Rightarrow> 'v \<Rightarrow> ('k, 'v) jmap \<Rightarrow> ('k, 'v) jmap" where
  "jset k v m = AList.update k v m"

definition jdel :: "'k \<Rightarrow> ('k, 'v) jmap \<Rightarrow> ('k, 'v) jmap" where
  "jdel k m = filter (\<lambda>p. fst p \<noteq> k) m"

definition jhas :: "('k, 'v) jmap \<Rightarrow> 'k \<Rightarrow> bool" where
  "jhas m k \<longleftrightarrow> jget m k \<noteq> None"

definition jkeys :: "('k, 'v) jmap \<Rightarrow> 'k list" where
  "jkeys m = map fst m"

definition jvals :: "('k, 'v) jmap \<Rightarrow> 'v list" where
  "jvals m = map snd m"

definition jwf :: "('k, 'v) jmap \<Rightarrow> bool" where
  "jwf m \<longleftrightarrow> distinct (map fst m)"

text \<open>
  The interface the components use. The laws are those of a finite map; iteration order is
  the business of the components that depend on it.
\<close>

locale map_store =
  fixes emp :: "'m"
    and lookup :: "'m \<Rightarrow> 'k \<Rightarrow> 'v option"
    and put :: "'k \<Rightarrow> 'v \<Rightarrow> 'm \<Rightarrow> 'm"
    and drop_key :: "'k \<Rightarrow> 'm \<Rightarrow> 'm"
    and wf :: "'m \<Rightarrow> bool"
  assumes lookup_emp: "lookup emp k = None"
    and lookup_put: "lookup (put k v m) k' = (if k' = k then Some v else lookup m k')"
    and lookup_drop: "lookup (drop_key k m) k' = (if k' = k then None else lookup m k')"
    and wf_emp: "wf emp"
    and wf_put: "wf m \<Longrightarrow> wf (put k v m)"
    and wf_drop: "wf m \<Longrightarrow> wf (drop_key k m)"
begin

lemma lookup_put_fun: "lookup (put k v m) = (lookup m)(k \<mapsto> v)"
  by (rule ext) (simp add: lookup_put)

lemma lookup_drop_fun: "lookup (drop_key k m) = (lookup m)(k := None)"
  by (rule ext) (simp add: lookup_drop)

lemma lookup_drop_list:
  "lookup (foldr drop_key ks m) k = (if k \<in> set ks then None else lookup m k)"
  by (induction ks) (auto simp: lookup_drop)

lemma wf_drop_list: "wf m \<Longrightarrow> wf (foldr drop_key ks m)"
  by (induction ks) (auto intro: wf_drop)

lemma put_keeps_other: "k' \<noteq> k \<Longrightarrow> lookup (put k v m) k' = lookup m k'"
  by (simp add: lookup_put)

lemma drop_keeps_other: "k' \<noteq> k \<Longrightarrow> lookup (drop_key k m) k' = lookup m k'"
  by (simp add: lookup_drop)

lemma inj_on_put:
  assumes inj: "\<And>k1 k2 w. lookup m k1 = Some w \<Longrightarrow> lookup m k2 = Some w \<Longrightarrow> k1 = k2"
    and new: "\<And>k'. lookup m k' \<noteq> Some v"
    and l1: "lookup (put k v m) k1 = Some w"
    and l2: "lookup (put k v m) k2 = Some w"
  shows "k1 = k2"
  using assms by (auto simp: lookup_put split: if_splits)

end

lemma map_of_filter_key: "map_of (filter (\<lambda>p. fst p \<noteq> k) m) k' = (if k' = k then None else map_of m k')"
  by (induction m) auto

interpretation jm: map_store jempty jget jset jdel jwf
  by unfold_locales
    (auto simp: jempty_def jget_def jset_def jdel_def jwf_def AList.update_conv'
      map_of_filter_key distinct_map_filter intro: AList.distinct_update)

lemmas jget_simps [jmap_simps] =
  jm.lookup_emp jm.lookup_put jm.lookup_drop jm.lookup_drop_list

lemmas jwf_intros [jmap_wf] = jm.wf_emp jm.wf_put jm.wf_drop jm.wf_drop_list

declare jget_simps [simp] jwf_intros [intro]

lemma jget_Nil [simp]: "jget [] k = None"
  by (simp add: jget_def)

lemma jwf_Nil [simp]: "jwf []"
  by (simp add: jwf_def)

lemma jget_SomeD: "jget m k = Some v \<Longrightarrow> (k, v) \<in> set m"
  by (simp add: jget_def map_of_SomeD)

lemma jget_in_set: "jwf m \<Longrightarrow> (k, v) \<in> set m \<longleftrightarrow> jget m k = Some v"
  by (auto simp: jwf_def jget_def intro: map_of_SomeD)

lemma jhas_iff: "jhas m k \<longleftrightarrow> k \<in> set (jkeys m)"
  by (auto simp: jhas_def jget_def jkeys_def map_of_eq_None_iff)

lemma jget_None_iff: "jget m k = None \<longleftrightarrow> k \<notin> set (jkeys m)"
  by (auto simp: jget_def jkeys_def map_of_eq_None_iff)

lemma jkeys_jset: "set (jkeys (jset k v m)) = insert k (set (jkeys m))"
  by (auto simp: jkeys_def jset_def AList.update_keys)

lemma jkeys_jdel: "set (jkeys (jdel k m)) = set (jkeys m) - {k}"
  by (auto simp: jkeys_def jdel_def)

lemma jset_fresh: "jget m k = None \<Longrightarrow> jset k v m = m @ [(k, v)]"
  unfolding jget_def jset_def by (induction m) (auto split: if_splits)

lemma jset_same: "jget m k = Some v \<Longrightarrow> jset k v m = m"
  by (simp add: jget_def jset_def AList.update_triv)

lemma jvals_in: "jwf m \<Longrightarrow> v \<in> set (jvals m) \<longleftrightarrow> (\<exists>k. jget m k = Some v)"
  by (force simp: jvals_def jget_in_set [symmetric])

end
