(* ===== verification/JsValue.thy ===== *)
theory JsValue
  imports Prelude
begin

text \<open>
  The JavaScript values that reach the program from outside (request bodies, socket
  payloads, token claims), with the operations of the language the source applies to them,
  and the environment: successive readings of the clock (\<open>Date.now()\<close>, \<open>new Date()\<close>), of
  \<open>Math.random()\<close> and of \<open>randomUUID()\<close>.
\<close>

section \<open>Values\<close>

datatype jsnum = NFin rat | NNaN | NInf bool

datatype jsval =
    JUndef
  | JNull
  | JBool bool
  | JNum jsnum
  | JStr string
  | JArr "jsval list"
  | JObj "(string \<times> jsval) list"
  | JFun
  | JSym

text \<open>\<open>typeof value === 'object'\<close> holds of objects, arrays and \<open>null\<close>.\<close>

fun typeof_object :: "jsval \<Rightarrow> bool" where
  "typeof_object JNull = True"
| "typeof_object (JArr _) = True"
| "typeof_object (JObj _) = True"
| "typeof_object _ = False"

text \<open>
  Property access by a name that is neither an index nor inherited: the own property of an
  object, \<open>undefined\<close> on everything else (arrays and strings have no such own property).
\<close>

fun js_prop :: "string \<Rightarrow> jsval \<Rightarrow> jsval" where
  "js_prop k (JObj fs) = (case map_of fs k of None \<Rightarrow> JUndef | Some v \<Rightarrow> v)"
| "js_prop k _ = JUndef"

text \<open>\<open>typeof v === 'string' && v.length > 0\<close>, with the string.\<close>

fun nonempty_str :: "jsval \<Rightarrow> string option" where
  "nonempty_str (JStr s) = (if s = [] then None else Some s)"
| "nonempty_str _ = None"

lemma nonempty_str_Some: "nonempty_str v = Some s \<longleftrightarrow> v = JStr s \<and> s \<noteq> []"
  by (cases v) auto

fun js_is_finite :: "jsnum \<Rightarrow> bool" where
  "js_is_finite (NFin _) = True"
| "js_is_finite _ = False"

text \<open>\<open>!value\<close>.\<close>

fun js_falsy :: "jsval \<Rightarrow> bool" where
  "js_falsy JUndef = True"
| "js_falsy JNull = True"
| "js_falsy (JBool b) = (\<not> b)"
| "js_falsy (JNum (NFin r)) = (r = 0)"
| "js_falsy (JNum NNaN) = True"
| "js_falsy (JStr s) = (s = [])"
| "js_falsy _ = False"

section \<open>Strings\<close>

definition starts_with :: "string \<Rightarrow> string \<Rightarrow> bool" where
  "starts_with p s \<longleftrightarrow> take (length p) s = p"

lemma starts_with_iff: "starts_with p s \<longleftrightarrow> (\<exists>r. s = p @ r)"
  unfolding starts_with_def by (metis append_eq_conv_conj append_take_drop_id)

text \<open>White space as \<open>String.prototype.trim\<close> and the regular expression \<open>\s\<close> see it.\<close>

definition is_space :: "char \<Rightarrow> bool" where
  "is_space c \<longleftrightarrow> c \<in> {CHR 0x09, CHR 0x0A, CHR 0x0B, CHR 0x0C, CHR 0x0D, CHR '' '', CHR 0xA0}"

definition js_trim :: "string \<Rightarrow> string" where
  "js_trim s = rev (dropWhile is_space (rev (dropWhile is_space s)))"

lemma js_trim_first: "js_trim s = c # r \<Longrightarrow> \<not> is_space c"
proof -
  assume a: "js_trim s = c # r"
  let ?u = "dropWhile is_space s"
  have "?u = rev (takeWhile is_space (rev ?u) @ dropWhile is_space (rev ?u))"
    by simp
  then have "?u = js_trim s @ rev (takeWhile is_space (rev ?u))"
    by (simp add: js_trim_def flip: rev_append)
  with a have "?u \<noteq> []" and "hd ?u = c"
    by (metis append_is_Nil_conv list.distinct(1), metis append_Cons list.sel(1))
  then show ?thesis
    using hd_dropWhile by metis
qed

text \<open>\<open>toLowerCase\<close>, on the letters that matter here.\<close>

definition lower :: "char \<Rightarrow> char" where
  "lower c = (if 65 \<le> (of_char c :: nat) \<and> (of_char c :: nat) \<le> 90 then char_of ((of_char c :: nat) + 32) else c)"

text \<open>\<open>Array.prototype.join\<close> and \<open>String.prototype.split\<close> at a character.\<close>

fun js_join :: "string \<Rightarrow> string list \<Rightarrow> string" where
  "js_join sep [] = []"
| "js_join sep [x] = x"
| "js_join sep (x # y # ys) = x @ sep @ js_join sep (y # ys)"

fun js_split :: "char \<Rightarrow> string \<Rightarrow> string list" where
  "js_split c [] = [[]]"
| "js_split c (x # xs) =
     (if x = c then [] # js_split c xs
      else case js_split c xs of [] \<Rightarrow> [[x]] | y # ys \<Rightarrow> (x # y) # ys)"

lemma js_split_plain: "c \<notin> set xs \<Longrightarrow> js_split c xs = [xs]"
  by (induction xs) auto

lemma js_split_sep: "c \<notin> set xs \<Longrightarrow> js_split c (xs @ c # ys) = xs # js_split c ys"
  by (induction xs) auto

lemma js_split_join:
  "xs \<noteq> [] \<Longrightarrow> list_all (\<lambda>x. c \<notin> set x) xs \<Longrightarrow> js_split c (js_join [c] xs) = xs"
  by (induction "[c]" xs rule: js_join.induct) (auto simp: js_split_plain js_split_sep)

section \<open>The environment\<close>

text \<open>
  Each source is an infinite sequence of readings and the number of readings taken so far;
  theorems hold for every sequence, or state what they need of it.
\<close>

record env =
  e_clock :: "nat \<Rightarrow> int"
  e_rand :: "nat \<Rightarrow> rat"
  e_uuid :: "nat \<Rightarrow> string"
  n_clock :: nat
  n_rand :: nat
  n_uuid :: nat

definition read_clock :: "env \<Rightarrow> int \<times> env" where
  "read_clock e = (e_clock e (n_clock e), e\<lparr>n_clock := Suc (n_clock e)\<rparr>)"

definition read_rand :: "env \<Rightarrow> rat \<times> env" where
  "read_rand e = (e_rand e (n_rand e), e\<lparr>n_rand := Suc (n_rand e)\<rparr>)"

definition read_uuid :: "env \<Rightarrow> string \<times> env" where
  "read_uuid e = (e_uuid e (n_uuid e), e\<lparr>n_uuid := Suc (n_uuid e)\<rparr>)"

text \<open>\<open>Math.random()\<close> returns a number in \<open>[0, 1)\<close>.\<close>

definition rand_ok :: "env \<Rightarrow> bool" where
  "rand_ok e \<longleftrightarrow> (\<forall>n. 0 \<le> e_rand e n \<and> e_rand e n < 1)"

text \<open>\<open>randomUUID()\<close> does not repeat and is not the empty string.\<close>

definition uuid_ok :: "env \<Rightarrow> bool" where
  "uuid_ok e \<longleftrightarrow> inj (e_uuid e) \<and> (\<forall>n. e_uuid e n \<noteq> [])"

lemma snd_read_env [simp]:
  "e_rand (snd (read_clock e)) = e_rand e"
  "e_uuid (snd (read_clock e)) = e_uuid e"
  "n_uuid (snd (read_clock e)) = n_uuid e"
  "e_rand (snd (read_rand e)) = e_rand e"
  "e_uuid (snd (read_rand e)) = e_uuid e"
  "n_uuid (snd (read_rand e)) = n_uuid e"
  "e_rand (snd (read_uuid e)) = e_rand e"
  "e_uuid (snd (read_uuid e)) = e_uuid e"
  "n_uuid (snd (read_uuid e)) = Suc (n_uuid e)"
  by (simp_all add: read_clock_def read_rand_def read_uuid_def)

section \<open>Decimal numerals\<close>

text \<open>How the source prints integers inside template strings.\<close>

definition digit_char :: "nat \<Rightarrow> char" where
  "digit_char d = char_of (48 + d)"

fun show_nat :: "nat \<Rightarrow> string" where
  "show_nat n = (if n < 10 then [digit_char n] else show_nat (n div 10) @ [digit_char (n mod 10)])"

declare show_nat.simps [simp del]

definition show_int :: "int \<Rightarrow> string" where
  "show_int i = (if i < 0 then CHR ''-'' # show_nat (nat (- i)) else show_nat (nat i))"

fun read_nat :: "string \<Rightarrow> nat \<Rightarrow> nat" where
  "read_nat [] acc = acc"
| "read_nat (c # cs) acc = read_nat cs (10 * acc + (of_char c - 48))"

lemma read_nat_append: "read_nat (xs @ ys) acc = read_nat ys (read_nat xs acc)"
  by (induction xs arbitrary: acc) auto

lemma read_digit: "d < 10 \<Longrightarrow> (of_char (digit_char d) :: nat) - 48 = d"
  by (simp add: digit_char_def)

lemma read_show_nat: "read_nat (show_nat n) 0 = n"
proof (induction n rule: show_nat.induct)
  case (1 n)
  show ?case
  proof (cases "n < 10")
    case True
    then show ?thesis by (simp add: show_nat.simps [of n] read_digit)
  next
    case False
    with 1 show ?thesis by (simp add: show_nat.simps [of n] read_nat_append read_digit)
  qed
qed

lemma show_nat_inj: "show_nat m = show_nat n \<longleftrightarrow> m = n"
  by (metis read_show_nat)

lemma show_nat_nonempty: "show_nat n \<noteq> []"
  by (subst show_nat.simps) simp

lemma show_nat_digits: "c \<in> set (show_nat n) \<Longrightarrow> \<exists>d<10. c = digit_char d"
proof (induction n rule: show_nat.induct)
  case (1 n)
  have "n mod 10 < 10" by simp
  with 1 show ?case
    unfolding show_nat.simps [of n] by (fastforce split: if_splits)
qed

end
