(* ===== verification/Routes.thy ===== *)
theory Routes
  imports JsValue
begin

text \<open>
  The routes of the server: the decorators of the controllers under \<open>src/src\<close>, the global prefix with
  its exclusions in \<open>src/src/main.ts\<close>, and the choice of the handler for a request. A path is the list
  of its decoded segments; the router compares literal segments without regard to case, and a
  \<open>:name\<close> segment stands for any one that is not empty. The framework tries routes in their order.
\<close>

section \<open>Routes\<close>

text \<open>
  The methods the controllers declare. Requests with another one never reach a handler of their own: the
  framework answers the CORS preflight (\<open>OPTIONS\<close>) from the options of \<open>main.ts\<close>, serves \<open>HEAD\<close> as a
  \<open>GET\<close> without its body, and gives the rest the 404 of an unknown path.
\<close>

datatype http_method = GET | POST

datatype handler =
    HHello | HInfo | HHealth | HMetrics | HLivekit
  | HProviders | HGoogleStart | HGoogleCallback | HGuestLogin | HLogout | HMe | HWsToken
  | HCallCreate | HCallMine | HCallGet | HCallInvite | HCallAccept | HCallJoin | HCallEnd
  | HCallTurn | HCallSfu | HCallEvents
  | HStats | HFailed

text \<open>
  The guards of a route: the JWT guard of \<open>auth/jwt-auth.guard.ts\<close>, and the two of
  \<open>observability/auth.guards.ts\<close>.
\<close>

datatype route_guard = SessionGuard | StatsGuard | AdminGuard

record route =
  rt_handler :: handler
  rt_method :: http_method
  rt_controller :: string
  rt_path :: string
  rt_guard :: "route_guard option"
  rt_status :: nat

subsection \<open>\<open>AppController\<close>, \<open>PrometheusController\<close>, \<open>LiveKitHealthController\<close>\<close>

definition public_get :: "handler \<Rightarrow> string \<Rightarrow> string \<Rightarrow> route" where
  "public_get h controller path = \<lparr>rt_handler = h, rt_method = GET, rt_controller = controller, rt_path = path,
     rt_guard = None, rt_status = 200\<rparr>"

definition route_hello :: route where "route_hello = public_get HHello [] []"
definition route_info :: route where "route_info = public_get HInfo [] ''info''"
definition route_health :: route where "route_health = public_get HHealth [] ''health''"
definition route_metrics :: route where "route_metrics = public_get HMetrics ''metrics'' []"
definition route_livekit :: route where "route_livekit = public_get HLivekit ''info/livekit'' []"

subsection \<open>\<open>AuthController\<close>\<close>

definition auth_route :: "handler \<Rightarrow> http_method \<Rightarrow> string \<Rightarrow> route_guard option \<Rightarrow> route" where
  "auth_route h m path guard = \<lparr>rt_handler = h, rt_method = m, rt_controller = ''auth'', rt_path = path,
     rt_guard = guard, rt_status = 200\<rparr>"

definition route_providers :: route where "route_providers = auth_route HProviders GET ''providers'' None"
definition route_google_start :: route where "route_google_start = auth_route HGoogleStart GET ''google/start'' None"
definition route_google_callback :: route where
  "route_google_callback = auth_route HGoogleCallback GET ''google/callback'' None"
definition route_guest_login :: route where "route_guest_login = auth_route HGuestLogin POST ''anonymous/login'' None"
definition route_logout :: route where "route_logout = auth_route HLogout POST ''logout'' (Some SessionGuard)"
definition route_me :: route where "route_me = auth_route HMe GET ''me'' (Some SessionGuard)"
definition route_ws_token :: route where "route_ws_token = auth_route HWsToken GET ''ws-token'' (Some SessionGuard)"

subsection \<open>\<open>CallsController\<close>, under its class guard\<close>

definition calls_route :: "handler \<Rightarrow> http_method \<Rightarrow> string \<Rightarrow> nat \<Rightarrow> route" where
  "calls_route h m path status = \<lparr>rt_handler = h, rt_method = m, rt_controller = ''calls'', rt_path = path,
     rt_guard = Some SessionGuard, rt_status = status\<rparr>"

definition route_create :: route where "route_create = calls_route HCallCreate POST [] 201"
definition route_mine :: route where "route_mine = calls_route HCallMine GET ''mine'' 200"
definition route_get :: route where "route_get = calls_route HCallGet GET '':id'' 200"
definition route_invite :: route where "route_invite = calls_route HCallInvite POST '':id/invite'' 200"
definition route_accept :: route where "route_accept = calls_route HCallAccept POST '':id/accept'' 200"
definition route_join :: route where "route_join = calls_route HCallJoin POST '':id/join'' 200"
definition route_end :: route where "route_end = calls_route HCallEnd POST '':id/end'' 200"
definition route_turn :: route where "route_turn = calls_route HCallTurn GET '':id/turn-credentials'' 200"
definition route_sfu :: route where "route_sfu = calls_route HCallSfu POST '':id/sfu-token'' 200"
definition route_events :: route where "route_events = calls_route HCallEvents GET '':id/events'' 200"

subsection \<open>\<open>CallStatsController\<close>, \<open>FailedCallsController\<close>\<close>

definition route_stats :: route where
  "route_stats = \<lparr>rt_handler = HStats, rt_method = POST, rt_controller = ''calls'', rt_path = '':id/stats'',
     rt_guard = Some StatsGuard, rt_status = 202\<rparr>"

definition route_failed :: route where
  "route_failed = \<lparr>rt_handler = HFailed, rt_method = GET, rt_controller = ''observability/calls'', rt_path = ''failed'',
     rt_guard = Some AdminGuard, rt_status = 200\<rparr>"

definition routes :: "route list" where
  "routes =
     [route_hello, route_info, route_health,
      route_providers, route_google_start, route_google_callback, route_guest_login, route_logout, route_me,
      route_ws_token,
      route_create, route_mine, route_get, route_invite, route_accept, route_join, route_end, route_turn, route_sfu,
      route_events,
      route_livekit, route_metrics, route_stats, route_failed]"

lemmas route_defs =
  routes_def public_get_def auth_route_def calls_route_def
  route_hello_def route_info_def route_health_def route_metrics_def route_livekit_def
  route_providers_def route_google_start_def route_google_callback_def route_guest_login_def route_logout_def
  route_me_def route_ws_token_def
  route_create_def route_mine_def route_get_def route_invite_def route_accept_def route_join_def route_end_def
  route_turn_def route_sfu_def route_events_def route_stats_def route_failed_def

section \<open>Paths\<close>

definition segments :: "string \<Rightarrow> string list" where
  "segments path = filter (\<lambda>s. s \<noteq> []) (js_split (CHR ''/'') path)"

text \<open>\<open>bootstrap\<close> puts every route under \<open>api\<close> but those that match one of these; \<open>(.*)\<close> stands for any rest.\<close>

definition prefix_exclude :: "string list" where
  "prefix_exclude = [''/'', ''/info'', ''/info/(.*)'', ''/metrics'', ''/health'', ''/auth/google/(.*)'']"

definition excludes :: "string list \<Rightarrow> string list \<Rightarrow> bool" where
  "excludes pattern path =
     (if pattern \<noteq> [] \<and> last pattern = ''(.*)''
      then length pattern \<le> length path \<and> take (length pattern - 1) path = butlast pattern
      else pattern = path)"

definition full_path :: "route \<Rightarrow> string list" where
  "full_path r =
     (let path = segments (rt_controller r) @ segments (rt_path r)
      in if list_ex (\<lambda>p. excludes (segments p) path) prefix_exclude then path else ''api'' # path)"

section \<open>Dispatch\<close>

definition is_param :: "string \<Rightarrow> bool" where
  "is_param p \<longleftrightarrow> starts_with '':'' p"

definition seg_matches :: "string \<Rightarrow> string \<Rightarrow> bool" where
  "seg_matches p s \<longleftrightarrow> (if is_param p then s \<noteq> [] else map lower s = map lower p)"

definition route_matches :: "http_method \<Rightarrow> string list \<Rightarrow> route \<Rightarrow> bool" where
  "route_matches m path r \<longleftrightarrow> rt_method r = m \<and> list_all2 seg_matches (full_path r) path"

definition dispatch :: "http_method \<Rightarrow> string list \<Rightarrow> route option" where
  "dispatch m path = find (route_matches m path) routes"

text \<open>The value of the route's parameter, of which no route has more than one.\<close>

definition route_param :: "route \<Rightarrow> string list \<Rightarrow> string" where
  "route_param r path =
     (case filter (\<lambda>ps. is_param (fst ps)) (zip (full_path r) path) of
        [] \<Rightarrow> []
      | ps # rest \<Rightarrow> snd ps)"

section \<open>The table of paths\<close>

definition path_table :: "(handler \<times> http_method \<times> string list) list" where
  "path_table = map (\<lambda>r. (rt_handler r, rt_method r, full_path r)) routes"

lemma path_table_eq:
  "path_table =
     [(HHello, GET, []), (HInfo, GET, [''info'']), (HHealth, GET, [''health'']),
      (HProviders, GET, [''api'', ''auth'', ''providers'']),
      (HGoogleStart, GET, [''auth'', ''google'', ''start'']),
      (HGoogleCallback, GET, [''auth'', ''google'', ''callback'']),
      (HGuestLogin, POST, [''api'', ''auth'', ''anonymous'', ''login'']),
      (HLogout, POST, [''api'', ''auth'', ''logout'']), (HMe, GET, [''api'', ''auth'', ''me'']),
      (HWsToken, GET, [''api'', ''auth'', ''ws-token'']),
      (HCallCreate, POST, [''api'', ''calls'']), (HCallMine, GET, [''api'', ''calls'', ''mine'']),
      (HCallGet, GET, [''api'', ''calls'', '':id'']), (HCallInvite, POST, [''api'', ''calls'', '':id'', ''invite'']),
      (HCallAccept, POST, [''api'', ''calls'', '':id'', ''accept'']),
      (HCallJoin, POST, [''api'', ''calls'', '':id'', ''join'']),
      (HCallEnd, POST, [''api'', ''calls'', '':id'', ''end'']),
      (HCallTurn, GET, [''api'', ''calls'', '':id'', ''turn-credentials'']),
      (HCallSfu, POST, [''api'', ''calls'', '':id'', ''sfu-token'']),
      (HCallEvents, GET, [''api'', ''calls'', '':id'', ''events'']),
      (HLivekit, GET, [''info'', ''livekit'']), (HMetrics, GET, [''metrics'']),
      (HStats, POST, [''api'', ''calls'', '':id'', ''stats'']),
      (HFailed, GET, [''api'', ''observability'', ''calls'', ''failed''])]"
  by code_simp

section \<open>No route hides another\<close>

text \<open>Two patterns some segment could match both; the literal patterns are in lower case.\<close>

definition seg_overlap :: "string \<Rightarrow> string \<Rightarrow> bool" where
  "seg_overlap p q \<longleftrightarrow> is_param p \<or> is_param q \<or> p = q"

definition plain_pattern :: "string \<Rightarrow> bool" where
  "plain_pattern p \<longleftrightarrow> is_param p \<or> map lower p = p"

lemma patterns_plain: "r \<in> set routes \<Longrightarrow> list_all plain_pattern (full_path r)"
proof -
  have "list_all plain_pattern (remdups (concat (map (\<lambda>e. snd (snd e)) path_table)))"
    unfolding path_table_eq by code_simp
  then show "r \<in> set routes \<Longrightarrow> list_all plain_pattern (full_path r)"
    by (force simp: list_all_iff path_table_def)
qed

lemma list_all2_overlap:
  "list_all2 seg_matches ps path \<Longrightarrow> list_all2 seg_matches qs path \<Longrightarrow> list_all plain_pattern ps \<Longrightarrow>
   list_all plain_pattern qs \<Longrightarrow> list_all2 seg_overlap ps qs"
proof (induction ps path arbitrary: qs rule: list_all2_induct)
  case (Cons p ps s path)
  from Cons.prems obtain q qs' where qs: "qs = q # qs'" "seg_matches q s" "list_all2 seg_matches qs' path"
    by (auto simp: list_all2_Cons2)
  with Cons show ?case by (auto simp: seg_overlap_def seg_matches_def plain_pattern_def split: if_splits)
qed simp

definition may_clash :: "handler \<times> http_method \<times> string list \<Rightarrow> handler \<times> http_method \<times> string list \<Rightarrow> bool" where
  "may_clash a b \<longleftrightarrow> fst a \<noteq> fst b \<and> fst (snd a) = fst (snd b) \<and> list_all2 seg_overlap (snd (snd a)) (snd (snd b))"

lemma clashes:
  "[(fst a, fst b). a \<leftarrow> path_table, b \<leftarrow> path_table, may_clash a b] = [(HCallMine, HCallGet), (HCallGet, HCallMine)]"
  unfolding path_table_eq by (simp add: may_clash_def seg_overlap_def is_param_def starts_with_def)

lemma handlers_distinct: "distinct (map rt_handler routes)"
  by (simp add: route_defs)

lemma route_by_handler: "r \<in> set routes \<Longrightarrow> q \<in> set routes \<Longrightarrow> rt_handler r = rt_handler q \<Longrightarrow> r = q"
  using handlers_distinct by (auto simp: distinct_map inj_on_def)

lemma matching_routes:
  assumes "r \<in> set routes" "q \<in> set routes" "route_matches m path r" "route_matches m path q" "r \<noteq> q"
  shows "{rt_handler r, rt_handler q} = {HCallMine, HCallGet}"
proof -
  let ?e = "\<lambda>r. (rt_handler r, rt_method r, full_path r)"
  have "may_clash (?e r) (?e q)"
    using assms list_all2_overlap [of "full_path r" path "full_path q"] route_by_handler [of r q] patterns_plain
    by (auto simp: may_clash_def route_matches_def)
  moreover have "?e r \<in> set path_table" "?e q \<in> set path_table"
    using assms(1,2) by (auto simp: path_table_def)
  ultimately have "(rt_handler r, rt_handler q) \<in> set [(fst a, fst b). a \<leftarrow> path_table, b \<leftarrow> path_table, may_clash a b]"
    by force
  then show ?thesis unfolding clashes by auto
qed

lemma dispatch_Some:
  "dispatch m path = Some r \<Longrightarrow> r \<in> set routes \<and> route_matches m path r"
  by (auto simp: dispatch_def find_Some_iff)

lemma lower_mine: "map lower ''mine'' = ''mine''"
  by code_simp

lemma seg_mine: "seg_matches ''mine'' s \<longleftrightarrow> map lower s = ''mine''"
proof -
  have "\<not> is_param ''mine''" by code_simp
  then show ?thesis unfolding seg_matches_def lower_mine by simp
qed

lemma mine_get:
  "route_mine \<in> set routes" "rt_handler route_mine = HCallMine" "route_get \<in> set routes" "rt_handler route_get = HCallGet"
  "full_path route_mine = [''api'', ''calls'', ''mine'']" "full_path route_get = [''api'', ''calls'', '':id'']"
  "rt_method route_mine = GET" "rt_method route_get = GET"
proof -
  show "route_mine \<in> set routes" "route_get \<in> set routes" by (simp_all add: routes_def)
  show "rt_handler route_mine = HCallMine" "rt_handler route_get = HCallGet" "rt_method route_mine = GET"
    "rt_method route_get = GET" by (simp_all add: route_mine_def route_get_def calls_route_def)
  show "full_path route_mine = [''api'', ''calls'', ''mine'']" "full_path route_get = [''api'', ''calls'', '':id'']"
    by code_simp+
qed

lemma mine_matches: "route_matches m path route_mine \<Longrightarrow> map lower (last path) = ''mine''"
  unfolding route_matches_def mine_get(5)
  by (auto simp: list_all2_Cons1 seg_mine simp del: map_eq_Cons_conv)

lemma find_first: "P a \<Longrightarrow> find P (us @ a # vs) = Some b \<Longrightarrow> b \<in> set us \<or> b = a"
  by (induction us) (auto split: if_splits)

lemma find_not_later: "distinct (us @ a # vs) \<Longrightarrow> P a \<Longrightarrow> find P (us @ a # vs) = Some b \<Longrightarrow> b \<notin> set vs"
  using find_first [of P a us vs b] by auto

lemma mine_before_get: "find P routes = Some b \<Longrightarrow> P route_mine \<Longrightarrow> b \<noteq> route_get"
proof -
  assume b: "find P routes = Some b" "P route_mine"
  have "distinct routes" using handlers_distinct by (simp add: distinct_map)
  moreover obtain us vs where "routes = us @ route_mine # vs" "route_get \<in> set vs"
  proof
    show "routes = take 11 routes @ route_mine # drop 12 routes" "route_get \<in> set (drop 12 routes)"
      by (simp_all add: routes_def)
  qed
  ultimately show "b \<noteq> route_get" using find_not_later [of us route_mine vs P b] b by auto
qed

text \<open>The order in which the routes are tried matters for the list of the user's calls only: any other route that
  matches a request is the one that serves it.\<close>

theorem dispatch_unique:
  assumes "r \<in> set routes" and "route_matches m path r" and "rt_handler r \<noteq> HCallGet \<or> map lower (last path) \<noteq> ''mine''"
  shows "dispatch m path = Some r"
proof -
  obtain q where q: "dispatch m path = Some q"
    using assms(1,2) by (cases "dispatch m path") (auto simp: dispatch_def find_None_iff)
  note d = dispatch_Some [OF q]
  have "q = r"
  proof (rule ccontr)
    assume "q \<noteq> r"
    then have "{rt_handler q, rt_handler r} = {HCallMine, HCallGet}"
      using matching_routes [of q r m path] d assms by blast
    then consider "q = route_get" "r = route_mine" | "q = route_mine" "r = route_get"
      using route_by_handler [OF _ mine_get(1)] route_by_handler [OF _ mine_get(3)] mine_get(2,4) d assms(1)
      by (auto simp: doubleton_eq_iff)
    then show False
    proof cases
      case 1
      then show False using mine_before_get [of "route_matches m path" q] q assms(2) by (simp add: dispatch_def)
    next
      case 2
      then have "map lower (last path) = ''mine''" using d mine_matches by blast
      then show False using assms(3) 2 mine_get(4) by simp
    qed
  qed
  with q show ?thesis by simp
qed

lemma dispatch_unique_witness: "dispatch POST [''api'', ''Calls'', ''k1'', ''JOIN''] = Some route_join"
proof (rule dispatch_unique)
  show "route_join \<in> set routes" by (simp add: routes_def)
  show "route_matches POST [''api'', ''Calls'', ''k1'', ''JOIN''] route_join" by code_simp
  show "rt_handler route_join \<noteq> HCallGet \<or> map lower (last [''api'', ''Calls'', ''k1'', ''JOIN'']) \<noteq> ''mine''"
    by (simp add: route_join_def calls_route_def)
qed

section \<open>What is open\<close>

definition open_handlers :: "handler list" where
  "open_handlers = [HHello, HInfo, HHealth, HMetrics, HLivekit, HProviders, HGoogleStart, HGoogleCallback, HGuestLogin]"

lemma open_routes: "r \<in> set routes \<Longrightarrow> rt_guard r = None \<longleftrightarrow> rt_handler r \<in> set open_handlers"
proof -
  have "list_all (\<lambda>r. rt_guard r = None \<longleftrightarrow> rt_handler r \<in> set open_handlers) routes" by code_simp
  then show "r \<in> set routes \<Longrightarrow> rt_guard r = None \<longleftrightarrow> rt_handler r \<in> set open_handlers"
    by (auto simp: list_all_iff)
qed

lemma dispatch_None:
  assumes "list_all (\<lambda>e. case snd (snd e) of [] \<Rightarrow> True | p # ps \<Rightarrow> \<not> seg_matches p s) path_table"
  shows "dispatch m (s # rest) = None"
proof -
  have "\<not> route_matches m (s # rest) r" if "r \<in> set routes" for r
  proof -
    have "case full_path r of [] \<Rightarrow> True | p # ps \<Rightarrow> \<not> seg_matches p s"
      using assms that by (auto simp: list_all_iff path_table_def)
    then show ?thesis by (cases "full_path r") (auto simp: route_matches_def)
  qed
  then show ?thesis by (auto simp: dispatch_def find_None_iff)
qed

text \<open>Nothing of the calls is outside the prefix, so a request for \<open>/calls\<close> finds no route. The path the
  cookies of a sign-in are sent to is the one both Google routes are served under, and the URL the
  list of providers gives for guests is not served, with either method.\<close>

theorem paths_served:
  "dispatch m (''calls'' # rest) = None
   \<and> take 2 (full_path route_google_start) = segments ''/auth/google''
   \<and> take 2 (full_path route_google_callback) = segments ''/auth/google''
   \<and> dispatch GET (segments ''/auth/google/start'') = Some route_google_start
   \<and> dispatch m (segments ''/auth/anonymous/login'') = None
   \<and> dispatch POST (segments ''/api/auth/anonymous/login'') = Some route_guest_login"
proof -
  have "dispatch m (''calls'' # rest) = None"
    by (rule dispatch_None, unfold path_table_eq) code_simp
  moreover have "dispatch m (segments ''/auth/anonymous/login'') = None"
    by (cases m) (simp_all only:, code_simp+)
  moreover have "take 2 (full_path route_google_start) = segments ''/auth/google''"
    "take 2 (full_path route_google_callback) = segments ''/auth/google''"
    "dispatch GET (segments ''/auth/google/start'') = Some route_google_start"
    "dispatch POST (segments ''/api/auth/anonymous/login'') = Some route_guest_login" by code_simp+
  ultimately show ?thesis by blast
qed

end
