(* ===== verification/CallTypes.thy ===== *)
theory CallTypes
  imports JsValue
begin

text \<open>
  The data of the calls component: \<open>src/src/calls/call.types.ts\<close> and the error classes of
  \<open>src/src/calls/calls.service.ts\<close>. An ISO time stamp is represented by the instant it
  denotes, in milliseconds (the strings of \<open>toISOString\<close> order as the instants do for the
  years 0 to 9999); an absent optional field is \<open>None\<close>.
\<close>

datatype call_status = Pending | Active | Ended

text \<open>The life cycle orders the statuses: a call moves from pending to active to ended.\<close>

instantiation call_status :: linorder
begin

fun rank_call_status :: "call_status \<Rightarrow> nat" where
  "rank_call_status Pending = 0"
| "rank_call_status Active = 1"
| "rank_call_status Ended = 2"

definition less_eq_call_status :: "call_status \<Rightarrow> call_status \<Rightarrow> bool" where
  "less_eq_call_status a b \<longleftrightarrow> rank_call_status a \<le> rank_call_status b"

definition less_call_status :: "call_status \<Rightarrow> call_status \<Rightarrow> bool" where
  "less_call_status a b \<longleftrightarrow> rank_call_status a < rank_call_status b"

instance
proof
  fix a b :: call_status
  show "a \<le> b \<Longrightarrow> b \<le> a \<Longrightarrow> a = b"
    by (cases a; cases b) (simp_all add: less_eq_call_status_def)
qed (auto simp: less_eq_call_status_def less_call_status_def)

end

lemma call_status_le [simp]:
  "Pending \<le> s" "s \<le> Ended" "Active \<le> Pending \<longleftrightarrow> False"
  "Ended \<le> s \<longleftrightarrow> s = Ended"
  by (cases s; simp add: less_eq_call_status_def)+

datatype call_visibility = Private | Link

datatype participant_role = Creator | Invitee

datatype participant_status = Invited | Joined | Left | Declined

record participant =
  p_userId :: string
  p_role :: participant_role
  p_status :: participant_status
  p_invitedAt :: int
  p_joinedAt :: "int option"
  p_leftAt :: "int option"

record call =
  c_id :: string
  c_roomId :: string
  c_status :: call_status
  c_visibility :: call_visibility
  c_creatorId :: string
  c_participants :: "participant list"
  c_createdAt :: int
  c_startedAt :: "int option"
  c_endedAt :: "int option"
  c_endedBy :: "string option"

record create_input =
  ci_creatorId :: string
  ci_roomId :: "string option"
  ci_invitees :: "string list option"
  ci_visibility :: "call_visibility option"

datatype call_event_type = EvCreated | EvInvited | EvAccepted | EvJoined | EvLeft | EvEnded

record call_event =
  ev_id :: nat
  ev_callId :: string
  ev_type :: call_event_type
  ev_userId :: string
  ev_payload :: "(string \<times> jsval) list option"
  ev_createdAt :: int

text \<open>The error classes of the service; the message is what the constructor composes.\<close>

datatype call_error =
    CallNotFoundError string
  | CallForbiddenError string
  | CallConflictError string
  | CallInvalidStateError string
  | CallCodeCollisionError

fun call_error_message :: "call_error \<Rightarrow> string" where
  "call_error_message (CallNotFoundError callId) = ''Call '' @ callId @ '' not found''"
| "call_error_message (CallForbiddenError m) = m"
| "call_error_message (CallConflictError m) = m"
| "call_error_message (CallInvalidStateError m) = m"
| "call_error_message CallCodeCollisionError =
     ''Could not generate a unique room code after several attempts''"

fun status_str :: "call_status \<Rightarrow> string" where
  "status_str Pending = ''pending''"
| "status_str Active = ''active''"
| "status_str Ended = ''ended''"

fun visibility_str :: "call_visibility \<Rightarrow> string" where
  "visibility_str Private = ''private''"
| "visibility_str Link = ''link''"

end
