(* ===== verification/CallsService.thy ===== *)
theory CallsService
  imports CallTypes
begin

text \<open>
  The calls service and its event store, \<open>src/src/calls/calls.service.ts\<close>. The state is the
  two maps of \<open>CallsService\<close> (\<open>calls\<close>, \<open>codeIndex\<close>), the log and counter of
  \<open>CallEventsStore\<close> (\<open>events\<close>, \<open>nextId\<close>) and the environment. Every operation is a function
  from the state to its result (the call, or the error thrown) and the new state.
  The source mutates the call object the map holds: the model stores the changed record
  under the call's id (\<open>put_call\<close>) and passes it on.
\<close>

section \<open>State\<close>

record calls_state =
  cs_calls :: "(string, call) jmap"
  cs_codes :: "(string, string) jmap"
  cs_events :: "call_event list"
  cs_nextId :: nat
  cs_env :: env

definition init_calls :: "env \<Rightarrow> calls_state" where
  "init_calls e = \<lparr>cs_calls = jempty, cs_codes = jempty, cs_events = [], cs_nextId = 1, cs_env = e\<rparr>"

definition cs_now :: "calls_state \<Rightarrow> int \<times> calls_state" where
  "cs_now s = (fst (read_clock (cs_env s)), s\<lparr>cs_env := snd (read_clock (cs_env s))\<rparr>)"

definition put_call :: "call \<Rightarrow> calls_state \<Rightarrow> calls_state" where
  "put_call c s = s\<lparr>cs_calls := jset (c_id c) c (cs_calls s)\<rparr>"

section \<open>Room codes\<close>

definition ROOM_CODE_ALPHABET :: string where
  "ROOM_CODE_ALPHABET = ''ABCDEFGHJKLMNPQRSTUVWXYZ23456789''"

definition ROOM_CODE_SEGMENT_LENGTH :: nat where
  "ROOM_CODE_SEGMENT_LENGTH = 3"

definition ROOM_CODE_SEGMENTS :: nat where
  "ROOM_CODE_SEGMENTS = 3"

definition ROOM_CODE_MAX_ATTEMPTS :: nat where
  "ROOM_CODE_MAX_ATTEMPTS = 16"

text \<open>Indexing a string out of range gives \<open>undefined\<close>, which \<open>+=\<close> prints.\<close>

definition code_char :: "rat \<Rightarrow> string" where
  "code_char r =
     (let idx = \<lfloor>r * of_nat (length ROOM_CODE_ALPHABET)\<rfloor>
      in if 0 \<le> idx \<and> idx < int (length ROOM_CODE_ALPHABET)
         then [ROOM_CODE_ALPHABET ! nat idx] else ''undefined'')"

fun code_part :: "nat \<Rightarrow> env \<Rightarrow> string \<times> env" where
  "code_part 0 e = ([], e)"
| "code_part (Suc n) e =
     (let (r, e1) = read_rand e; (out, e2) = code_part n e1 in (code_char r @ out, e2))"

fun code_parts :: "nat \<Rightarrow> env \<Rightarrow> string list \<times> env" where
  "code_parts 0 e = ([], e)"
| "code_parts (Suc n) e =
     (let (p, e1) = code_part ROOM_CODE_SEGMENT_LENGTH e; (ps, e2) = code_parts n e1
      in (p # ps, e2))"

definition generateRoomCode :: "env \<Rightarrow> string \<times> env" where
  "generateRoomCode e = (let (ps, e1) = code_parts ROOM_CODE_SEGMENTS e in (js_join ''-'' ps, e1))"

fun reserve_loop :: "nat \<Rightarrow> (string, string) jmap \<Rightarrow> env \<Rightarrow> (call_error + string) \<times> env" where
  "reserve_loop 0 idx e = (Inl CallCodeCollisionError, e)"
| "reserve_loop (Suc n) idx e =
     (let (code, e1) = generateRoomCode e
      in if \<not> jhas idx code then (Inr code, e1) else reserve_loop n idx e1)"

definition reserveRoomCode :: "calls_state \<Rightarrow> (call_error + string) \<times> calls_state" where
  "reserveRoomCode s =
     (let (r, e) = reserve_loop ROOM_CODE_MAX_ATTEMPTS (cs_codes s) (cs_env s)
      in (r, s\<lparr>cs_env := e\<rparr>))"

section \<open>The event store\<close>

definition record_event ::
    "string \<Rightarrow> call_event_type \<Rightarrow> string \<Rightarrow> (string \<times> jsval) list option \<Rightarrow> calls_state
     \<Rightarrow> call_event \<times> calls_state" where
  "record_event callId ty userId payload s =
     (let (t, s1) = cs_now s;
          ev = \<lparr>ev_id = cs_nextId s, ev_callId = callId, ev_type = ty, ev_userId = userId,
                ev_payload = payload, ev_createdAt = t\<rparr>
      in (ev, s1\<lparr>cs_events := cs_events s1 @ [ev], cs_nextId := Suc (cs_nextId s1)\<rparr>))"

definition forCall :: "string \<Rightarrow> calls_state \<Rightarrow> call_event list" where
  "forCall callId s = filter (\<lambda>e. ev_callId e = callId) (cs_events s)"

definition all_events :: "calls_state \<Rightarrow> call_event list" where
  "all_events s = cs_events s"

definition clear_events :: "calls_state \<Rightarrow> calls_state" where
  "clear_events s = s\<lparr>cs_events := [], cs_nextId := 1\<rparr>"

section \<open>Look-up\<close>

definition isParticipant :: "call \<Rightarrow> string \<Rightarrow> bool" where
  "isParticipant c userId \<longleftrightarrow> list_ex (\<lambda>p. p_userId p = userId) (c_participants c)"

definition isActive :: "call \<Rightarrow> bool" where
  "isActive c \<longleftrightarrow> c_status c \<noteq> Ended"

definition requireParticipant :: "call \<Rightarrow> string \<Rightarrow> call_error + participant" where
  "requireParticipant c userId =
     (case find (\<lambda>p. p_userId p = userId) (c_participants c) of
        None \<Rightarrow> Inl (CallForbiddenError
          (''User '' @ userId @ '' is not a participant of call '' @ c_id c))
      | Some p \<Rightarrow> Inr p)"

definition getCall :: "string \<Rightarrow> calls_state \<Rightarrow> call_error + call" where
  "getCall callId s =
     (case jget (cs_calls s) callId of None \<Rightarrow> Inl (CallNotFoundError callId) | Some c \<Rightarrow> Inr c)"

text \<open>The look-up of the code also refuses an empty id, which is falsy.\<close>

definition getCallByRoomCode :: "string \<Rightarrow> calls_state \<Rightarrow> call_error + call" where
  "getCallByRoomCode roomCode s =
     (case jget (cs_codes s) roomCode of
        None \<Rightarrow> Inl (CallNotFoundError roomCode)
      | Some callId \<Rightarrow>
          (if callId = [] then Inl (CallNotFoundError roomCode)
           else case jget (cs_calls s) callId of
                  None \<Rightarrow> Inl (CallNotFoundError roomCode)
                | Some c \<Rightarrow> Inr c))"

definition getCallByIdOrCode :: "string \<Rightarrow> calls_state \<Rightarrow> call_error + call" where
  "getCallByIdOrCode idOrCode s =
     (case jget (cs_calls s) idOrCode of
        Some c \<Rightarrow> Inr c
      | None \<Rightarrow> getCallByRoomCode idOrCode s)"

text \<open>\<open>None\<close> is the filter \<open>'all'\<close>. JavaScript's sort is stable, and so is \<open>sort_key\<close>.\<close>

definition listForUser :: "string \<Rightarrow> call_status option \<Rightarrow> calls_state \<Rightarrow> call list" where
  "listForUser userId status s =
     sort_key (\<lambda>c. - c_createdAt c)
       (filter (\<lambda>c. isParticipant c userId \<and> (status = None \<or> status = Some (c_status c)))
         (jvals (cs_calls s)))"


section \<open>Operations\<close>

text \<open>\<open>inviteInternal\<close>: nothing for a participant, else a new invitee and its event.\<close>

definition inviteInternal :: "call \<Rightarrow> string \<Rightarrow> calls_state \<Rightarrow> call \<times> calls_state" where
  "inviteInternal c inviteeId s =
     (if isParticipant c inviteeId then (c, s)
      else let (t, s1) = cs_now s;
               p = \<lparr>p_userId = inviteeId, p_role = Invitee, p_status = Invited,
                    p_invitedAt = t, p_joinedAt = None, p_leftAt = None\<rparr>;
               c1 = c\<lparr>c_participants := c_participants c @ [p]\<rparr>;
               (_, s2) = record_event (c_id c) EvInvited inviteeId
                           (Some [(''by'', JStr (c_creatorId c))]) (put_call c1 s1)
           in (c1, s2))"

fun inviteAll :: "string list \<Rightarrow> call \<Rightarrow> calls_state \<Rightarrow> call \<times> calls_state" where
  "inviteAll [] c s = (c, s)"
| "inviteAll (i # is) c s =
     (if i = c_creatorId c then inviteAll is c s
      else let (c1, s1) = inviteInternal c i s in inviteAll is c1 s1)"

definition createCall :: "create_input \<Rightarrow> calls_state \<Rightarrow> (call_error + call) \<times> calls_state" where
  "createCall inp s =
     (let (callId, e1) = read_uuid (cs_env s);
          (t, s2) = cs_now (s\<lparr>cs_env := e1\<rparr>)
      in case reserveRoomCode s2 of
           (Inl err, s3) \<Rightarrow> (Inl err, s3)
         | (Inr roomId, s3) \<Rightarrow>
             let vis = or_default (ci_visibility inp) Link;
                 creator = \<lparr>p_userId = ci_creatorId inp, p_role = Creator, p_status = Joined,
                            p_invitedAt = t, p_joinedAt = Some t, p_leftAt = None\<rparr>;
                 c = \<lparr>c_id = callId, c_roomId = roomId, c_status = Pending, c_visibility = vis,
                      c_creatorId = ci_creatorId inp, c_participants = [creator],
                      c_createdAt = t, c_startedAt = None, c_endedAt = None, c_endedBy = None\<rparr>;
                 s4 = put_call c s3;
                 s5 = s4\<lparr>cs_codes := jset roomId callId (cs_codes s4)\<rparr>;
                 (_, s6) = record_event callId EvCreated (ci_creatorId inp)
                    (Some [(''roomId'', JStr roomId), (''visibility'', JStr (visibility_str vis))]) s5;
                 (c', s7) = inviteAll (or_default (ci_invitees inp) []) c s6
             in (Inr c', s7))"

definition invite :: "string \<Rightarrow> string \<Rightarrow> string \<Rightarrow> calls_state \<Rightarrow> (call_error + call) \<times> calls_state" where
  "invite callId inviterId inviteeId s =
     (if inviterId = inviteeId then (Inl (CallConflictError ''Cannot invite yourself''), s)
      else case getCall callId s of
        Inl e \<Rightarrow> (Inl e, s)
      | Inr c \<Rightarrow>
          if c_status c = Ended
          then (Inl (CallInvalidStateError ''Cannot invite to an ended call''), s)
          else if \<not> isParticipant c inviterId
          then (Inl (CallForbiddenError ''Only participants can invite''), s)
          else let (c1, s1) = inviteInternal c inviteeId s in (Inr c1, s1))"

text \<open>Writing through the reference \<open>find\<close> returned: the first participant with the id.\<close>

fun upd_participant :: "string \<Rightarrow> (participant \<Rightarrow> participant) \<Rightarrow> participant list \<Rightarrow> participant list" where
  "upd_participant u f [] = []"
| "upd_participant u f (p # ps) = (if p_userId p = u then f p # ps else p # upd_participant u f ps)"

definition accept :: "string \<Rightarrow> string \<Rightarrow> calls_state \<Rightarrow> (call_error + call) \<times> calls_state" where
  "accept callId userId s =
     (case getCall callId s of
        Inl e \<Rightarrow> (Inl e, s)
      | Inr c \<Rightarrow>
          if c_status c = Ended
          then (Inl (CallInvalidStateError ''Cannot accept an ended call''), s)
          else case requireParticipant c userId of
            Inl e \<Rightarrow> (Inl e, s)
          | Inr p \<Rightarrow>
              if p_status p = Joined then (Inr c, s)
              else let (t1, s1) = cs_now s;
                       c1 = c\<lparr>c_participants := upd_participant userId
                              (\<lambda>p. p\<lparr>p_status := Joined, p_joinedAt := Some t1\<rparr>) (c_participants c)\<rparr>;
                       (c2, s2) = (if c_status c = Pending
                                   then let (t2, s2) = cs_now s1
                                        in (c1\<lparr>c_status := Active, c_startedAt := Some t2\<rparr>, s2)
                                   else (c1, s1));
                       (_, s3) = record_event callId EvAccepted userId None (put_call c2 s2);
                       (_, s4) = record_event callId EvJoined userId None s3
                   in (Inr c2, s4))"

definition joinAsLinkParticipant :: "call \<Rightarrow> string \<Rightarrow> calls_state \<Rightarrow> call \<times> calls_state" where
  "joinAsLinkParticipant c userId s =
     (let (t, s1) = cs_now s;
          p = \<lparr>p_userId = userId, p_role = Invitee, p_status = Joined,
               p_invitedAt = t, p_joinedAt = Some t, p_leftAt = None\<rparr>;
          c1 = c\<lparr>c_participants := c_participants c @ [p]\<rparr>;
          c2 = (if c_status c = Pending then c1\<lparr>c_status := Active, c_startedAt := Some t\<rparr> else c1);
          (_, s2) = record_event (c_id c) EvJoined userId (Some [(''via'', JStr ''link'')])
                      (put_call c2 s1)
      in (c2, s2))"

definition join :: "string \<Rightarrow> string \<Rightarrow> calls_state \<Rightarrow> (call_error + call) \<times> calls_state" where
  "join callId userId s =
     (case getCall callId s of
        Inl e \<Rightarrow> (Inl e, s)
      | Inr c \<Rightarrow>
          if c_status c = Ended then (Inl (CallInvalidStateError ''Call has ended''), s)
          else if isParticipant c userId then (Inr c, s)
          else if c_visibility c = Link
          then let (c1, s1) = joinAsLinkParticipant c userId s in (Inr c1, s1)
          else case requireParticipant c userId of Inl e \<Rightarrow> (Inl e, s) | Inr p \<Rightarrow> (Inr c, s))"

definition leave :: "string \<Rightarrow> string \<Rightarrow> calls_state \<Rightarrow> (call_error + call) \<times> calls_state" where
  "leave callId userId s =
     (case getCall callId s of
        Inl e \<Rightarrow> (Inl e, s)
      | Inr c \<Rightarrow>
          case requireParticipant c userId of
            Inl e \<Rightarrow> (Inl e, s)
          | Inr p \<Rightarrow>
              if p_status p = Left then (Inr c, s)
              else let (t, s1) = cs_now s;
                       c1 = c\<lparr>c_participants := upd_participant userId
                              (\<lambda>p. p\<lparr>p_status := Left, p_leftAt := Some t\<rparr>) (c_participants c)\<rparr>;
                       (_, s2) = record_event callId EvLeft userId None (put_call c1 s1)
                   in (Inr c1, s2))"

definition end_call :: "string \<Rightarrow> string \<Rightarrow> calls_state \<Rightarrow> (call_error + call) \<times> calls_state" where
  "end_call callId userId s =
     (case getCall callId s of
        Inl e \<Rightarrow> (Inl e, s)
      | Inr c \<Rightarrow>
          if \<not> isParticipant c userId
          then (Inl (CallForbiddenError ''Only participants can end the call''), s)
          else if c_status c = Ended then (Inr c, s)
          else let (t, s1) = cs_now s;
                   c1 = c\<lparr>c_status := Ended, c_endedAt := Some t, c_endedBy := Some userId\<rparr>;
                   (_, s2) = record_event callId EvEnded userId None (put_call c1 s1)
               in (Inr c1, s2\<lparr>cs_codes := jdel (c_roomId c) (cs_codes s2)\<rparr>))"

definition reset_calls :: "calls_state \<Rightarrow> calls_state" where
  "reset_calls s = clear_events (s\<lparr>cs_calls := jempty, cs_codes := jempty\<rparr>)"

end
