(* ===== verification/CallsInv.thy ===== *)
theory CallsInv
  imports CallsService
begin

text \<open>
  Invariants of the calls service. \<open>call_ok\<close> is the shape of one call, \<open>store_ok\<close> relates
  the two maps, \<open>log_ok\<close> says that the event log, replayed, gives the calls: the log is an
  abstract specification of the store, and every operation refines it.
\<close>

section \<open>What the primitive steps change\<close>

lemma cs_now_simps [simp]:
  "cs_calls (snd (cs_now s)) = cs_calls s"
  "cs_codes (snd (cs_now s)) = cs_codes s"
  "cs_events (snd (cs_now s)) = cs_events s"
  "cs_nextId (snd (cs_now s)) = cs_nextId s"
  "e_uuid (cs_env (snd (cs_now s))) = e_uuid (cs_env s)"
  "n_uuid (cs_env (snd (cs_now s))) = n_uuid (cs_env s)"
  "e_rand (cs_env (snd (cs_now s))) = e_rand (cs_env s)"
  by (simp_all add: cs_now_def)

lemma put_call_simps [simp]:
  "cs_calls (put_call c s) = jset (c_id c) c (cs_calls s)"
  "cs_codes (put_call c s) = cs_codes s"
  "cs_events (put_call c s) = cs_events s"
  "cs_nextId (put_call c s) = cs_nextId s"
  "cs_env (put_call c s) = cs_env s"
  by (simp_all add: put_call_def)

lemma record_event_simps [simp]:
  "cs_calls (snd (record_event k ty u pl s)) = cs_calls s"
  "cs_codes (snd (record_event k ty u pl s)) = cs_codes s"
  "cs_nextId (snd (record_event k ty u pl s)) = Suc (cs_nextId s)"
  "e_uuid (cs_env (snd (record_event k ty u pl s))) = e_uuid (cs_env s)"
  "n_uuid (cs_env (snd (record_event k ty u pl s))) = n_uuid (cs_env s)"
  "e_rand (cs_env (snd (record_event k ty u pl s))) = e_rand (cs_env s)"
  by (simp_all add: record_event_def split_def Let_def)

lemma cs_events_record_event:
  "cs_events (snd (record_event k ty u pl s)) =
     cs_events s @ [\<lparr>ev_id = cs_nextId s, ev_callId = k, ev_type = ty, ev_userId = u,
                     ev_payload = pl, ev_createdAt = fst (cs_now s)\<rparr>]"
  by (simp add: record_event_def split_def Let_def)

section \<open>Participants\<close>

lemma isParticipant_iff: "isParticipant c u \<longleftrightarrow> u \<in> set (map p_userId (c_participants c))"
  by (auto simp: isParticipant_def list_ex_iff)

lemma requireParticipant_Inr:
  "requireParticipant c u = Inr p \<Longrightarrow> p \<in> set (c_participants c) \<and> p_userId p = u"
  by (auto simp: requireParticipant_def find_Some_iff split: option.splits)

lemma requireParticipant_Inl:
  "requireParticipant c u = Inl e \<Longrightarrow> \<not> isParticipant c u"
  by (auto simp: requireParticipant_def find_None_iff isParticipant_iff split: option.splits)

lemma requireParticipant_ok: "is_ok (requireParticipant c u) \<longleftrightarrow> isParticipant c u"
proof (cases "find (\<lambda>p. p_userId p = u) (c_participants c)")
  case None
  then have "\<not> is_ok (requireParticipant c u)" by (simp add: requireParticipant_def)
  moreover from None have "\<not> isParticipant c u"
    by (auto simp: find_None_iff isParticipant_iff)
  ultimately show ?thesis by simp
next
  case (Some p)
  then have "p \<in> set (c_participants c) \<and> p_userId p = u"
    by (auto simp: find_Some_iff)
  with Some show ?thesis
    by (auto simp: requireParticipant_def isParticipant_iff)
qed

lemma ids_upd_participant:
  "(\<And>p. p_userId (f p) = p_userId p) \<Longrightarrow>
   map p_userId (upd_participant u f ps) = map p_userId ps"
  by (induction ps) auto

lemma roles_upd_participant:
  "(\<And>p. p_role (f p) = p_role p) \<Longrightarrow> map p_role (upd_participant u f ps) = map p_role ps"
  by (induction ps) auto

lemma set_upd_participant:
  "q \<in> set (upd_participant u f ps) \<Longrightarrow>
   q \<in> set ps \<or> (\<exists>p \<in> set ps. p_userId p = u \<and> q = f p)"
  by (induction ps) (auto split: if_splits)

definition member_view :: "participant list \<Rightarrow> (string \<times> participant_status) list" where
  "member_view ps = map (\<lambda>p. (p_userId p, p_status p)) ps"

lemma member_view_upd:
  assumes "u \<in> set (map p_userId ps)"
    and "\<And>p. p_userId (f p) = p_userId p" and "\<And>p. p_status (f p) = st"
  shows "member_view (upd_participant u f ps) = jset u st (member_view ps)"
  using assms(1)
  by (induction ps) (auto simp: member_view_def jset_def assms(2,3))

lemma member_view_append:
  "member_view (ps @ [p]) = member_view ps @ [(p_userId p, p_status p)]"
  by (simp add: member_view_def)

lemma jget_member_view_None: "jget (member_view ps) u = None \<longleftrightarrow> u \<notin> set (map p_userId ps)"
  by (simp add: jget_None_iff jkeys_def member_view_def comp_def)

section \<open>One call\<close>

definition participant_ok :: "participant \<Rightarrow> bool" where
  "participant_ok p \<longleftrightarrow>
     p_status p \<noteq> Declined \<and>
     (p_status p = Joined \<longrightarrow> p_joinedAt p \<noteq> None) \<and>
     (p_status p = Left \<longrightarrow> p_leftAt p \<noteq> None)"

text \<open>The creator is the first participant and the only one with that role; ids are distinct.\<close>

definition roles_ok :: "string \<Rightarrow> participant list \<Rightarrow> bool" where
  "roles_ok creator ps \<longleftrightarrow>
     (case ps of [] \<Rightarrow> False
      | p # qs \<Rightarrow> p_role p = Creator \<and> p_userId p = creator \<and> (\<forall>q \<in> set qs. p_role q = Invitee))"

definition participants_ok :: "call \<Rightarrow> bool" where
  "participants_ok c \<longleftrightarrow>
     distinct (map p_userId (c_participants c)) \<and>
     roles_ok (c_creatorId c) (c_participants c) \<and>
     (\<forall>p \<in> set (c_participants c). participant_ok p)"

text \<open>The time stamps and \<open>endedBy\<close> agree with the status.\<close>

definition times_ok :: "call \<Rightarrow> bool" where
  "times_ok c \<longleftrightarrow>
     (c_status c = Pending \<longrightarrow> c_startedAt c = None) \<and>
     (c_status c = Active \<longrightarrow> c_startedAt c \<noteq> None) \<and>
     (c_endedAt c \<noteq> None \<longleftrightarrow> c_status c = Ended) \<and>
     (c_status c \<noteq> Ended \<longrightarrow> c_endedBy c = None) \<and>
     (c_status c = Ended \<longrightarrow> (\<exists>u. c_endedBy c = Some u \<and> isParticipant c u))"

definition call_ok :: "call \<Rightarrow> bool" where
  "call_ok c \<longleftrightarrow> participants_ok c \<and> times_ok c"

lemma roles_ok_append:
  "roles_ok cr ps \<Longrightarrow> p_role p = Invitee \<Longrightarrow> roles_ok cr (ps @ [p])"
  by (cases ps) (auto simp: roles_ok_def)

lemma roles_ok_upd:
  assumes "roles_ok cr ps"
    and ids: "\<And>p. p_userId (f p) = p_userId p" and rol: "\<And>p. p_role (f p) = p_role p"
  shows "roles_ok cr (upd_participant u f ps)"
proof (cases ps)
  case Nil
  with assms(1) show ?thesis by (simp add: roles_ok_def)
next
  case (Cons p qs)
  with assms show ?thesis
    by (auto simp: roles_ok_def dest: set_upd_participant)
qed

lemma call_ok_add:
  assumes "call_ok c" and "\<not> isParticipant c (p_userId p)" and "p_role p = Invitee"
    and "participant_ok p"
  shows "call_ok (c\<lparr>c_participants := c_participants c @ [p]\<rparr>)"
  using assms unfolding call_ok_def participants_ok_def times_ok_def isParticipant_iff
  by (auto simp: roles_ok_append)

lemma call_ok_upd:
  assumes ok: "call_ok c"
    and ids: "\<And>p. p_userId (f p) = p_userId p" and rol: "\<And>p. p_role (f p) = p_role p"
    and pok: "\<And>p. participant_ok p \<Longrightarrow> participant_ok (f p)"
  shows "call_ok (c\<lparr>c_participants := upd_participant u f (c_participants c)\<rparr>)"
proof -
  let ?ps = "upd_participant u f (c_participants c)"
  have "\<forall>p \<in> set ?ps. participant_ok p"
    using ok pok by (auto simp: call_ok_def participants_ok_def dest: set_upd_participant)
  moreover have "isParticipant (c\<lparr>c_participants := ?ps\<rparr>) v = isParticipant c v" for v
    by (simp add: isParticipant_iff ids_upd_participant [OF ids] del: set_map)
  ultimately show ?thesis
    using ok ids_upd_participant [of f u "c_participants c", OF ids]
      roles_ok_upd [OF _ ids rol]
    by (simp add: call_ok_def participants_ok_def times_ok_def del: set_map)
qed

lemma call_ok_activate:
  "call_ok c \<Longrightarrow> c_status c = Pending \<Longrightarrow>
   call_ok (c\<lparr>c_status := Active, c_startedAt := Some t\<rparr>)"
  by (simp add: call_ok_def participants_ok_def times_ok_def)

lemma call_ok_end:
  "call_ok c \<Longrightarrow> isParticipant c u \<Longrightarrow>
   call_ok (c\<lparr>c_status := Ended, c_endedAt := Some t, c_endedBy := Some u\<rparr>)"
  by (simp add: call_ok_def participants_ok_def times_ok_def isParticipant_def)


section \<open>The maps\<close>

text \<open>
  Every call is stored under its own id, which came from \<open>randomUUID\<close>; a room code leads to
  a call exactly when it is the code of that call and the call has not ended.
\<close>

definition store_ok :: "calls_state \<Rightarrow> bool" where
  "store_ok s \<longleftrightarrow>
     uuid_ok (cs_env s) \<and> jwf (cs_calls s) \<and> jwf (cs_codes s) \<and>
     (\<forall>k c. jget (cs_calls s) k = Some c \<longrightarrow>
        c_id c = k \<and> call_ok c \<and> (\<exists>n < n_uuid (cs_env s). k = e_uuid (cs_env s) n)) \<and>
     (\<forall>code k. jget (cs_codes s) code = Some k \<longleftrightarrow>
        (\<exists>c. jget (cs_calls s) k = Some c \<and> c_roomId c = code \<and> c_status c \<noteq> Ended))"

lemma store_ok_callD:
  "store_ok s \<Longrightarrow> jget (cs_calls s) k = Some c \<Longrightarrow> c_id c = k \<and> call_ok c"
  by (simp add: store_ok_def)

lemma store_ok_cong:
  assumes "store_ok s" and "cs_calls s' = cs_calls s" and "cs_codes s' = cs_codes s"
    and "e_uuid (cs_env s') = e_uuid (cs_env s)" and "n_uuid (cs_env s) \<le> n_uuid (cs_env s')"
  shows "store_ok s'"
  using assms unfolding store_ok_def uuid_ok_def by (auto dest: less_le_trans) (meson less_le_trans)

lemma store_ok_cs_now [intro]: "store_ok s \<Longrightarrow> store_ok (snd (cs_now s))"
  by (erule store_ok_cong) simp_all

lemma store_ok_record [intro]: "store_ok s \<Longrightarrow> store_ok (snd (record_event k ty u pl s))"
  by (erule store_ok_cong) simp_all

text \<open>Replacing a call by a changed one that has the same id and code and has ended if it had.\<close>

lemma store_ok_put:
  assumes ok: "store_ok s" and old: "jget (cs_calls s) k = Some c"
    and new: "c_id c' = k" "c_roomId c' = c_roomId c" "call_ok c'"
    and live: "c_status c' = Ended \<longleftrightarrow> c_status c = Ended"
  shows "store_ok (put_call c' s)"
  using ok old new live unfolding store_ok_def
  by (auto split: if_splits)

section \<open>The log as an abstract specification\<close>

record call_view =
  v_creator :: string
  v_status :: call_status
  v_members :: "(string \<times> participant_status) list"
  v_endedBy :: "string option"

definition abs_call :: "call \<Rightarrow> call_view" where
  "abs_call c = \<lparr>v_creator = c_creatorId c, v_status = c_status c,
                 v_members = member_view (c_participants c), v_endedBy = c_endedBy c\<rparr>"

definition view :: "calls_state \<Rightarrow> string \<Rightarrow> call_view option" where
  "view s k = map_option abs_call (jget (cs_calls s) k)"

fun apply_event :: "call_event_type \<Rightarrow> string \<Rightarrow> call_view option \<Rightarrow> call_view option" where
  "apply_event EvCreated u _ =
     Some \<lparr>v_creator = u, v_status = Pending, v_members = [(u, Joined)], v_endedBy = None\<rparr>"
| "apply_event _ u None = None"
| "apply_event EvInvited u (Some v) = Some (v\<lparr>v_members := jset u Invited (v_members v)\<rparr>)"
| "apply_event EvAccepted u (Some v) =
     Some (v\<lparr>v_members := jset u Joined (v_members v), v_status := max Active (v_status v)\<rparr>)"
| "apply_event EvJoined u (Some v) =
     Some (v\<lparr>v_members := jset u Joined (v_members v), v_status := max Active (v_status v)\<rparr>)"
| "apply_event EvLeft u (Some v) = Some (v\<lparr>v_members := jset u Left (v_members v)\<rparr>)"
| "apply_event EvEnded u (Some v) = Some (v\<lparr>v_status := Ended, v_endedBy := Some u\<rparr>)"

fun replay_from :: "string \<Rightarrow> call_event list \<Rightarrow> call_view option \<Rightarrow> call_view option" where
  "replay_from k [] v = v"
| "replay_from k (e # es) v =
     replay_from k es (if ev_callId e = k then apply_event (ev_type e) (ev_userId e) v else v)"

definition replay :: "call_event list \<Rightarrow> string \<Rightarrow> call_view option" where
  "replay es k = replay_from k es None"

lemma replay_from_append: "replay_from k (xs @ ys) v = replay_from k ys (replay_from k xs v)"
  by (induction xs arbitrary: v) auto

lemma replay_snoc:
  "replay (es @ [e]) k =
     (if ev_callId e = k then apply_event (ev_type e) (ev_userId e) (replay es k) else replay es k)"
  by (simp add: replay_def replay_from_append)

text \<open>
  \<open>log_rel s k v\<close>: the replay of call \<open>k\<close> is \<open>v\<close>, of every other call what the store holds.
  It is the relation that holds between the single steps of an operation on \<open>k\<close>.
\<close>

definition log_rel :: "calls_state \<Rightarrow> string \<Rightarrow> call_view option \<Rightarrow> bool" where
  "log_rel s k v \<longleftrightarrow>
     map ev_id (cs_events s) = [1..<cs_nextId s] \<and> 1 \<le> cs_nextId s \<and>
     (\<forall>k'. replay (cs_events s) k' = (if k' = k then v else view s k'))"

definition log_ok :: "calls_state \<Rightarrow> bool" where
  "log_ok s \<longleftrightarrow>
     map ev_id (cs_events s) = [1..<cs_nextId s] \<and> 1 \<le> cs_nextId s \<and>
     (\<forall>k. replay (cs_events s) k = view s k)"

lemma log_rel_start: "log_ok s \<Longrightarrow> log_rel s k (view s k)"
  by (simp add: log_ok_def log_rel_def)

lemma log_rel_done: "log_rel s k v \<Longrightarrow> view s k = v \<Longrightarrow> log_ok s"
  by (auto simp: log_ok_def log_rel_def)

lemma log_rel_cong:
  assumes "log_rel s k v" and "cs_events s' = cs_events s" and "cs_nextId s' = cs_nextId s"
    and "\<And>k'. k' \<noteq> k \<Longrightarrow> jget (cs_calls s') k' = jget (cs_calls s) k'"
  shows "log_rel s' k v"
  using assms by (auto simp: log_rel_def view_def)

lemma log_rel_cs_now [intro]: "log_rel s k v \<Longrightarrow> log_rel (snd (cs_now s)) k v"
  by (erule log_rel_cong) simp_all

lemma log_rel_put [intro]: "log_rel s k v \<Longrightarrow> c_id c = k \<Longrightarrow> log_rel (put_call c s) k v"
  by (erule log_rel_cong) simp_all

lemma log_rel_record [intro]:
  assumes "log_rel s k v"
  shows "log_rel (snd (record_event k ty u pl s)) k (apply_event ty u v)"
  using assms by (auto simp: log_rel_def cs_events_record_event replay_snoc view_def)


section \<open>Operations keep the invariants\<close>

text \<open>
  \<open>at_call s k c\<close>: the store is well formed, holds \<open>c\<close> under \<open>k\<close>, and the log is complete
  up to the present value of \<open>c\<close>.
\<close>

definition at_call :: "calls_state \<Rightarrow> string \<Rightarrow> call \<Rightarrow> bool" where
  "at_call s k c \<longleftrightarrow>
     store_ok s \<and> jget (cs_calls s) k = Some c \<and> log_rel s k (Some (abs_call c))"

definition calls_ok :: "calls_state \<Rightarrow> bool" where
  "calls_ok s \<longleftrightarrow> store_ok s \<and> log_ok s"

lemma at_callI: "calls_ok s \<Longrightarrow> getCall k s = Inr c \<Longrightarrow> at_call s k c"
  using log_rel_start [of s k]
  by (auto simp: at_call_def calls_ok_def getCall_def view_def split: option.splits)

lemma at_callD: "at_call s k c \<Longrightarrow> calls_ok s"
  by (auto simp: at_call_def calls_ok_def view_def intro: log_rel_done)

lemma at_call_facts:
  "at_call s k c \<Longrightarrow> c_id c = k" "at_call s k c \<Longrightarrow> call_ok c"
  by (auto simp: at_call_def dest: store_ok_callD)

text \<open>One changed call with the event that describes the change.\<close>

lemma at_call_change:
  assumes at: "at_call s k c"
    and new: "c_id c' = k" "c_roomId c' = c_roomId c" "call_ok c'"
    and live: "c_status c' = Ended \<longleftrightarrow> c_status c = Ended"
    and ev: "apply_event ty u (Some (abs_call c)) = Some (abs_call c')"
  shows "at_call (snd (record_event k ty u pl (put_call c' s))) k c'"
  using assms unfolding at_call_def
  by (auto simp flip: ev intro!: store_ok_record log_rel_record store_ok_put log_rel_put)

lemma at_call_cs_now: "at_call s k c \<Longrightarrow> at_call (snd (cs_now s)) k c"
  by (auto simp: at_call_def)

lemma at_call_event:
  assumes "at_call s k c" and "apply_event ty u (Some (abs_call c)) = Some (abs_call c)"
  shows "at_call (snd (record_event k ty u pl s)) k c"
  using assms log_rel_record [of s k "Some (abs_call c)" ty u pl]
  by (auto simp: at_call_def)

text \<open>How the view follows the changes of a call.\<close>

lemma abs_call_add:
  "\<not> isParticipant c (p_userId p) \<Longrightarrow>
   abs_call (c\<lparr>c_participants := c_participants c @ [p]\<rparr>) =
     (abs_call c)\<lparr>v_members := jset (p_userId p) (p_status p) (v_members (abs_call c))\<rparr>"
  by (simp add: abs_call_def member_view_append jset_fresh jget_member_view_None isParticipant_iff
      del: set_map)

lemma abs_call_upd:
  assumes "isParticipant c u"
    and "\<And>p. p_userId (f p) = p_userId p" and "\<And>p. p_status (f p) = st"
  shows "abs_call (c\<lparr>c_participants := upd_participant u f (c_participants c)\<rparr>) =
     (abs_call c)\<lparr>v_members := jset u st (v_members (abs_call c))\<rparr>"
  using assms by (simp add: abs_call_def member_view_upd isParticipant_iff del: set_map)

lemma abs_call_fields [simp]:
  "abs_call (c\<lparr>c_status := st\<rparr>) = (abs_call c)\<lparr>v_status := st\<rparr>"
  "abs_call (c\<lparr>c_startedAt := t\<rparr>) = abs_call c"
  "abs_call (c\<lparr>c_endedAt := t\<rparr>) = abs_call c"
  "abs_call (c\<lparr>c_endedBy := b\<rparr>) = (abs_call c)\<lparr>v_endedBy := b\<rparr>"
  "v_status (abs_call c) = c_status c"
  "v_members (abs_call c) = member_view (c_participants c)"
  by (simp_all add: abs_call_def)

lemma at_call_inviteInternal:
  assumes "at_call s k c"
  shows "at_call (snd (inviteInternal c i s)) k (fst (inviteInternal c i s))"
proof (cases "isParticipant c i")
  case True
  with assms show ?thesis by (simp add: inviteInternal_def)
next
  case False
  let ?p = "\<lparr>p_userId = i, p_role = Invitee, p_status = Invited,
             p_invitedAt = fst (cs_now s), p_joinedAt = None, p_leftAt = None\<rparr>"
  let ?c = "c\<lparr>c_participants := c_participants c @ [?p]\<rparr>"
  from assms have id: "c_id c = k" and ok: "call_ok c"
    by (rule at_call_facts)+
  have "call_ok ?c"
    using ok False by (intro call_ok_add) (auto simp: participant_ok_def)
  moreover have "apply_event EvInvited i (Some (abs_call c)) = Some (abs_call ?c)"
    using False by (subst abs_call_add) simp_all
  ultimately have "at_call (snd (record_event k EvInvited i pl (put_call ?c (snd (cs_now s))))) k ?c" for pl
    using at_call_cs_now [OF assms] id by (intro at_call_change) simp_all
  with False id show ?thesis
    by (simp add: inviteInternal_def Let_def split_def)
qed

lemma at_call_inviteAll:
  "at_call s k c \<Longrightarrow> at_call (snd (inviteAll is c s)) k (fst (inviteAll is c s))"
proof (induction "is" arbitrary: c s)
  case Nil
  then show ?case by simp
next
  case (Cons i "is")
  then show ?case
    using at_call_inviteInternal [OF Cons.prems, of i] by (simp add: split_def Let_def)
qed

lemma at_call_joinLink:
  assumes at: "at_call s k c" and new: "\<not> isParticipant c u" and live: "c_status c \<noteq> Ended"
  shows "at_call (snd (joinAsLinkParticipant c u s)) k (fst (joinAsLinkParticipant c u s))"
proof -
  let ?t = "fst (cs_now s)"
  let ?p = "\<lparr>p_userId = u, p_role = Invitee, p_status = Joined,
             p_invitedAt = ?t, p_joinedAt = Some ?t, p_leftAt = None\<rparr>"
  let ?c1 = "c\<lparr>c_participants := c_participants c @ [?p]\<rparr>"
  let ?c2 = "if c_status c = Pending then ?c1\<lparr>c_status := Active, c_startedAt := Some ?t\<rparr> else ?c1"
  from at have id: "c_id c = k" and ok: "call_ok c"
    by (rule at_call_facts)+
  have ok1: "call_ok ?c1"
    using ok new by (intro call_ok_add) (auto simp: participant_ok_def)
  then have ok2: "call_ok ?c2"
    using call_ok_activate [of ?c1 ?t] by simp
  have ev: "apply_event EvJoined u (Some (abs_call c)) = Some (abs_call ?c2)"
    using abs_call_add [of c ?p] new live by (cases "c_status c") (simp_all add: max_def)
  have "at_call (snd (record_event k EvJoined u pl (put_call ?c2 (snd (cs_now s))))) k ?c2" for pl
    using at_call_cs_now [OF at] id ok2 ev live by (intro at_call_change) simp_all
  then show ?thesis
    using id by (simp add: joinAsLinkParticipant_def Let_def split_def)
qed


lemma joined_after_accepted:
  "apply_event EvAccepted u (Some v) = Some w \<Longrightarrow> apply_event EvJoined u (Some w) = Some w"
  by (auto simp: jset_same)

lemma calls_ok_accept:
  assumes "calls_ok s"
  shows "calls_ok (snd (accept k u s))"
proof (cases "getCall k s")
  case (Inl e)
  with assms show ?thesis by (simp add: accept_def)
next
  case (Inr c)
  with assms have at: "at_call s k c" by (rule at_callI)
  show ?thesis
  proof (cases "c_status c \<noteq> Ended \<and> (\<exists>p. requireParticipant c u = Inr p \<and> p_status p \<noteq> Joined)")
    case False
    with assms Inr show ?thesis by (auto simp: accept_def split: sum.split)
  next
    case True
    then obtain p where live: "c_status c \<noteq> Ended" and p: "requireParticipant c u = Inr p"
      and nj: "p_status p \<noteq> Joined" by blast
    let ?s1 = "snd (cs_now s)"
    let ?f = "\<lambda>p. p\<lparr>p_status := Joined, p_joinedAt := Some (fst (cs_now s))\<rparr>"
    let ?c1 = "c\<lparr>c_participants := upd_participant u ?f (c_participants c)\<rparr>"
    let ?c2 = "if c_status c = Pending
               then ?c1\<lparr>c_status := Active, c_startedAt := Some (fst (cs_now ?s1))\<rparr> else ?c1"
    let ?s2 = "if c_status c = Pending then snd (cs_now ?s1) else ?s1"
    have part: "isParticipant c u" using p requireParticipant_ok [of c u] by simp
    from at have id: "c_id c = k" and ok: "call_ok c" by (rule at_call_facts)+
    have "call_ok ?c1" using ok by (rule call_ok_upd) (simp_all add: participant_ok_def)
    then have ok2: "call_ok ?c2" using call_ok_activate by simp
    have ev: "apply_event EvAccepted u (Some (abs_call c)) = Some (abs_call ?c2)"
      using abs_call_upd [OF part, of ?f Joined] live
      by (cases "c_status c") (simp_all add: max_def)
    have at2: "at_call ?s2 k c" using at by (simp add: at_call_cs_now)
    have "at_call (snd (record_event k EvAccepted u None (put_call ?c2 ?s2))) k ?c2"
      by (rule at_call_change [OF at2 _ _ ok2 _ ev]) (use id live in simp_all)
    moreover have "apply_event EvJoined u (Some (abs_call ?c2)) = Some (abs_call ?c2)"
      using ev by (rule joined_after_accepted)
    ultimately have "at_call (snd (record_event k EvJoined u None
        (snd (record_event k EvAccepted u None (put_call ?c2 ?s2))))) k ?c2"
      by (rule at_call_event)
    then show ?thesis
      using Inr live p nj by (auto simp: accept_def Let_def split_def dest: at_callD)
  qed
qed

lemma calls_ok_leave:
  assumes "calls_ok s"
  shows "calls_ok (snd (leave k u s))"
proof (cases "getCall k s")
  case (Inl e)
  with assms show ?thesis by (simp add: leave_def)
next
  case (Inr c)
  with assms have at: "at_call s k c" by (rule at_callI)
  show ?thesis
  proof (cases "\<exists>p. requireParticipant c u = Inr p \<and> p_status p \<noteq> Left")
    case False
    with assms Inr show ?thesis by (auto simp: leave_def split: sum.split)
  next
    case True
    then obtain p where p: "requireParticipant c u = Inr p" and nl: "p_status p \<noteq> Left" by blast
    let ?f = "\<lambda>p. p\<lparr>p_status := Left, p_leftAt := Some (fst (cs_now s))\<rparr>"
    let ?c1 = "c\<lparr>c_participants := upd_participant u ?f (c_participants c)\<rparr>"
    have part: "isParticipant c u" using p requireParticipant_ok [of c u] by simp
    from at have id: "c_id c = k" and ok: "call_ok c" by (rule at_call_facts)+
    have ok1: "call_ok ?c1" using ok by (rule call_ok_upd) (simp_all add: participant_ok_def)
    have ev: "apply_event EvLeft u (Some (abs_call c)) = Some (abs_call ?c1)"
      using abs_call_upd [OF part, of ?f Left] by simp
    have "at_call (snd (record_event k EvLeft u None (put_call ?c1 (snd (cs_now s))))) k ?c1"
      by (rule at_call_change [OF at_call_cs_now [OF at] _ _ ok1 _ ev]) (use id in simp_all)
    then show ?thesis
      using Inr p nl by (auto simp: leave_def Let_def split_def dest: at_callD)
  qed
qed

text \<open>Ending frees the room code with the same step that ends the call.\<close>

lemma store_ok_end:
  assumes ok: "store_ok s" and old: "jget (cs_calls s) k = Some c"
    and live: "c_status c \<noteq> Ended"
    and new: "c_id c' = k" "call_ok c'" "c_status c' = Ended"
  shows "store_ok (put_call c' s\<lparr>cs_codes := jdel (c_roomId c) (cs_codes s)\<rparr>)"
proof -
  have uniq: "jget (cs_calls s) k' = Some d \<Longrightarrow> c_status d \<noteq> Ended \<Longrightarrow>
      c_roomId d = c_roomId c \<Longrightarrow> k' = k" for k' d
    using ok old live unfolding store_ok_def by (metis option.inject)
  show ?thesis
    using ok old live new unfolding store_ok_def
    by (auto split: if_splits dest: uniq)
qed

lemma calls_ok_end:
  assumes "calls_ok s"
  shows "calls_ok (snd (end_call k u s))"
proof (cases "getCall k s")
  case (Inl e)
  with assms show ?thesis by (simp add: end_call_def)
next
  case (Inr c)
  with assms have at: "at_call s k c" by (rule at_callI)
  show ?thesis
  proof (cases "isParticipant c u \<and> c_status c \<noteq> Ended")
    case False
    with assms Inr show ?thesis by (auto simp: end_call_def)
  next
    case True
    then have part: "isParticipant c u" and live: "c_status c \<noteq> Ended" by auto
    let ?s1 = "snd (cs_now s)"
    let ?c1 = "c\<lparr>c_status := Ended, c_endedAt := Some (fst (cs_now s)), c_endedBy := Some u\<rparr>"
    let ?s2 = "snd (record_event k EvEnded u None (put_call ?c1 ?s1))"
    let ?s3 = "?s2\<lparr>cs_codes := jdel (c_roomId c) (cs_codes ?s2)\<rparr>"
    from at have id: "c_id c = k" and ok: "call_ok c" and old: "jget (cs_calls s) k = Some c"
      by (auto simp: at_call_facts at_call_def)
    have "store_ok (put_call ?c1 ?s1\<lparr>cs_codes := jdel (c_roomId c) (cs_codes ?s1)\<rparr>)"
      using assms old live id call_ok_end [OF ok part]
      by (intro store_ok_end) (auto simp: calls_ok_def)
    then have st: "store_ok ?s3" by (rule store_ok_cong) simp_all
    have "log_rel ?s2 k (apply_event EvEnded u (Some (abs_call c)))"
      using at id by (intro log_rel_record log_rel_put log_rel_cs_now) (auto simp: at_call_def)
    then have "log_rel ?s3 k (apply_event EvEnded u (Some (abs_call c)))"
      by (rule log_rel_cong) simp_all
    then have "log_rel ?s3 k (Some (abs_call ?c1))" by simp
    moreover have "view ?s3 k = Some (abs_call ?c1)" using id by (simp add: view_def)
    ultimately have "log_ok ?s3" by (blast intro: log_rel_done)
    with st show ?thesis
      using Inr part live by (simp add: calls_ok_def end_call_def Let_def split_def)
  qed
qed

lemma calls_ok_invite: "calls_ok s \<Longrightarrow> calls_ok (snd (invite k u i s))"
  using at_call_inviteInternal [of s k _ i]
  by (auto simp: invite_def split_def Let_def split: sum.split dest: at_callI at_callD)

lemma calls_ok_join:
  assumes "calls_ok s"
  shows "calls_ok (snd (join k u s))"
  using assms at_call_joinLink [OF at_callI [OF assms]]
  by (auto simp: join_def split_def Let_def split: sum.split dest: at_callD)

end
