(* ===== verification/CallsSteps.thy ===== *)
theory CallsSteps
  imports CallsInv
begin

text \<open>
  The calls service as a state machine: creation and reset, the operations as one function
  on a request, the step relation and the reachable states.
\<close>

section \<open>Room codes\<close>

lemma code_part_env:
  "e_uuid (snd (code_part n e)) = e_uuid e" "n_uuid (snd (code_part n e)) = n_uuid e"
  "e_rand (snd (code_part n e)) = e_rand e"
  by (induction n arbitrary: e) (simp_all add: split_def Let_def)

lemma code_parts_env:
  "e_uuid (snd (code_parts n e)) = e_uuid e" "n_uuid (snd (code_parts n e)) = n_uuid e"
  "e_rand (snd (code_parts n e)) = e_rand e"
  by (induction n arbitrary: e) (simp_all add: split_def Let_def code_part_env)

lemma generateRoomCode_env [simp]:
  "e_uuid (snd (generateRoomCode e)) = e_uuid e" "n_uuid (snd (generateRoomCode e)) = n_uuid e"
  "e_rand (snd (generateRoomCode e)) = e_rand e"
  by (simp_all add: generateRoomCode_def split_def Let_def code_parts_env)

lemma reserve_loop_env [simp]:
  "e_uuid (snd (reserve_loop n idx e)) = e_uuid e"
  "n_uuid (snd (reserve_loop n idx e)) = n_uuid e"
  by (induction n arbitrary: e) (simp_all add: split_def Let_def)

lemma reserve_loop_fresh: "fst (reserve_loop n idx e) = Inr code \<Longrightarrow> jget idx code = None"
  by (induction n arbitrary: e) (auto simp: split_def Let_def jhas_def split: if_splits)

lemma reserve_loop_made:
  "fst (reserve_loop n idx e) = Inr code \<Longrightarrow>
   \<exists>e'. e_rand e' = e_rand e \<and> code = fst (generateRoomCode e')"
proof (induction n arbitrary: e)
  case 0
  then show ?case by simp
next
  case (Suc n)
  show ?case
  proof (cases "jhas idx (fst (generateRoomCode e))")
    case True
    with Suc.prems have "fst (reserve_loop n idx (snd (generateRoomCode e))) = Inr code"
      by (simp add: split_def Let_def)
    with Suc.IH show ?thesis by fastforce
  next
    case False
    with Suc.prems show ?thesis by (auto simp: split_def Let_def)
  qed
qed

lemma reserve_loop_error: "fst (reserve_loop n idx e) = Inl err \<Longrightarrow> err = CallCodeCollisionError"
  by (induction n arbitrary: e) (auto simp: split_def Let_def split: if_splits)

lemma reserveRoomCode_simps [simp]:
  "cs_calls (snd (reserveRoomCode s)) = cs_calls s"
  "cs_codes (snd (reserveRoomCode s)) = cs_codes s"
  "cs_events (snd (reserveRoomCode s)) = cs_events s"
  "cs_nextId (snd (reserveRoomCode s)) = cs_nextId s"
  "e_uuid (cs_env (snd (reserveRoomCode s))) = e_uuid (cs_env s)"
  "n_uuid (cs_env (snd (reserveRoomCode s))) = n_uuid (cs_env s)"
  by (simp_all add: reserveRoomCode_def split_def Let_def)

lemma reserveRoomCode_fresh: "fst (reserveRoomCode s) = Inr code \<Longrightarrow> jget (cs_codes s) code = None"
  by (auto simp: reserveRoomCode_def split_def Let_def dest: reserve_loop_fresh)

section \<open>Creating a call\<close>

text \<open>The state in which a new call is registered: id and code taken, clock read.\<close>

definition create_env :: "calls_state \<Rightarrow> calls_state" where
  "create_env s = snd (cs_now (s\<lparr>cs_env := snd (read_uuid (cs_env s))\<rparr>))"

definition new_call :: "create_input \<Rightarrow> string \<Rightarrow> calls_state \<Rightarrow> call" where
  "new_call inp roomId s =
     (let t = fst (cs_now (s\<lparr>cs_env := snd (read_uuid (cs_env s))\<rparr>))
      in \<lparr>c_id = fst (read_uuid (cs_env s)), c_roomId = roomId, c_status = Pending,
          c_visibility = or_default (ci_visibility inp) Link, c_creatorId = ci_creatorId inp,
          c_participants = [\<lparr>p_userId = ci_creatorId inp, p_role = Creator, p_status = Joined,
                             p_invitedAt = t, p_joinedAt = Some t, p_leftAt = None\<rparr>],
          c_createdAt = t, c_startedAt = None, c_endedAt = None, c_endedBy = None\<rparr>)"

definition registered :: "create_input \<Rightarrow> string \<Rightarrow> calls_state \<Rightarrow> calls_state" where
  "registered inp roomId s =
     (let c = new_call inp roomId s; s3 = put_call c (snd (reserveRoomCode (create_env s)))
      in snd (record_event (c_id c) EvCreated (ci_creatorId inp)
           (Some [(''roomId'', JStr roomId), (''visibility'', JStr (visibility_str (c_visibility c)))])
           (s3\<lparr>cs_codes := jset roomId (c_id c) (cs_codes s3)\<rparr>)))"

lemma createCall_eq:
  "createCall inp s =
     (case fst (reserveRoomCode (create_env s)) of
        Inl err \<Rightarrow> (Inl err, snd (reserveRoomCode (create_env s)))
      | Inr roomId \<Rightarrow>
          (let r = inviteAll (or_default (ci_invitees inp) []) (new_call inp roomId s)
                     (registered inp roomId s)
           in (Inr (fst r), snd r)))"
  by (simp add: createCall_def create_env_def new_call_def registered_def split_def Let_def
      read_uuid_def split: sum.split)

lemma create_env_simps [simp]:
  "cs_calls (create_env s) = cs_calls s" "cs_codes (create_env s) = cs_codes s"
  "cs_events (create_env s) = cs_events s" "cs_nextId (create_env s) = cs_nextId s"
  "e_uuid (cs_env (create_env s)) = e_uuid (cs_env s)"
  "n_uuid (cs_env (create_env s)) = Suc (n_uuid (cs_env s))"
  by (simp_all add: create_env_def)

lemma new_call_simps [simp]:
  "c_id (new_call inp r s) = e_uuid (cs_env s) (n_uuid (cs_env s))"
  "c_roomId (new_call inp r s) = r" "c_status (new_call inp r s) = Pending"
  "c_creatorId (new_call inp r s) = ci_creatorId inp"
  "c_visibility (new_call inp r s) = or_default (ci_visibility inp) Link"
  by (simp_all add: new_call_def Let_def read_uuid_def)

lemma call_ok_new: "call_ok (new_call inp r s)"
  by (simp add: call_ok_def participants_ok_def times_ok_def roles_ok_def participant_ok_def
      new_call_def Let_def)

lemma abs_new_call:
  "Some (abs_call (new_call inp r s)) = apply_event EvCreated (ci_creatorId inp) v"
  by (simp add: abs_call_def new_call_def Let_def member_view_def)

lemma fresh_uuid: "store_ok s \<Longrightarrow> jget (cs_calls s) (e_uuid (cs_env s) (n_uuid (cs_env s))) = None"
  unfolding store_ok_def uuid_ok_def
  by (metis inj_eq less_irrefl not_None_eq)

lemma store_ok_new:
  assumes ok: "store_ok s" and free: "jget (cs_codes s) r = None"
    and k: "k = e_uuid (cs_env s) n" and n: "n_uuid (cs_env s) = Suc n"
    and fresh: "jget (cs_calls s) k = None"
    and c: "c_id c = k" "call_ok c" "c_roomId c = r" "c_status c \<noteq> Ended"
  shows "store_ok (put_call c s\<lparr>cs_codes := jset r k (cs_codes s)\<rparr>)"
proof -
  have old: "jget (cs_calls s) k' = Some d \<Longrightarrow> c_status d \<noteq> Ended \<Longrightarrow> c_roomId d \<noteq> r" for k' d
    using ok free unfolding store_ok_def by (metis not_None_eq)
  show ?thesis
    using ok c n k fresh unfolding store_ok_def
    by (auto split: if_splits dest: old)
qed

lemma at_call_registered:
  assumes ok: "calls_ok s" and r: "fst (reserveRoomCode (create_env s)) = Inr roomId"
  shows "at_call (registered inp roomId s) (e_uuid (cs_env s) (n_uuid (cs_env s)))
           (new_call inp roomId s)"
proof -
  let ?k = "e_uuid (cs_env s) (n_uuid (cs_env s))"
  let ?c = "new_call inp roomId s"
  let ?s2 = "snd (reserveRoomCode (create_env s))"
  let ?s3 = "put_call ?c ?s2\<lparr>cs_codes := jset roomId ?k (cs_codes ?s2)\<rparr>"
  have st: "store_ok s" and lg: "log_ok s" using ok by (auto simp: calls_ok_def)
  have fr: "jget (cs_calls s) ?k = None" using st by (rule fresh_uuid)
  have "store_ok ?s2" using st by (rule store_ok_cong) simp_all
  moreover have "jget (cs_codes ?s2) roomId = None"
    using reserveRoomCode_fresh [OF r] by simp
  ultimately have s3: "store_ok ?s3"
    by (rule store_ok_new) (use fr call_ok_new in simp_all)
  have "log_rel s ?k (view s ?k)" using lg by (rule log_rel_start)
  then have "log_rel ?s3 ?k (view s ?k)" by (rule log_rel_cong) simp_all
  then have "log_rel (snd (record_event ?k EvCreated (ci_creatorId inp) pl ?s3)) ?k
      (Some (abs_call ?c))" for pl
    unfolding abs_new_call [of inp roomId s "view s ?k"] by (rule log_rel_record)
  with s3 show ?thesis
    unfolding registered_def at_call_def by (simp add: Let_def store_ok_record)
qed

lemma calls_ok_create:
  assumes "calls_ok s"
  shows "calls_ok (snd (createCall inp s))"
proof (cases "fst (reserveRoomCode (create_env s))")
  case (Inl e)
  have "store_ok (snd (reserveRoomCode (create_env s)))"
    using assms unfolding calls_ok_def by (auto elim: store_ok_cong)
  then have "calls_ok (snd (reserveRoomCode (create_env s)))"
    using assms by (simp add: calls_ok_def log_ok_def view_def)
  with Inl show ?thesis by (simp add: createCall_eq)
next
  case (Inr roomId)
  then show ?thesis
    using at_callD [OF at_call_inviteAll [OF at_call_registered [OF assms Inr]]]
    by (simp add: createCall_eq Let_def)
qed

lemma calls_ok_reset: "calls_ok s \<Longrightarrow> calls_ok (reset_calls s)"
  by (simp add: calls_ok_def store_ok_def log_ok_def reset_calls_def clear_events_def view_def
      replay_def jempty_def)

lemma calls_ok_init: "uuid_ok e \<Longrightarrow> calls_ok (init_calls e)"
  by (simp add: calls_ok_def store_ok_def log_ok_def init_calls_def view_def replay_def jempty_def)

section \<open>The state machine\<close>

datatype calls_op =
    OpCreate create_input
  | OpInvite string string string
  | OpAccept string string
  | OpJoin string string
  | OpLeave string string
  | OpEnd string string
  | OpReset

fun exec_op :: "calls_op \<Rightarrow> calls_state \<Rightarrow> (call_error + call option) \<times> calls_state" where
  "exec_op (OpCreate inp) s = apfst (map_sum id Some) (createCall inp s)"
| "exec_op (OpInvite k u i) s = apfst (map_sum id Some) (invite k u i s)"
| "exec_op (OpAccept k u) s = apfst (map_sum id Some) (accept k u s)"
| "exec_op (OpJoin k u) s = apfst (map_sum id Some) (join k u s)"
| "exec_op (OpLeave k u) s = apfst (map_sum id Some) (leave k u s)"
| "exec_op (OpEnd k u) s = apfst (map_sum id Some) (end_call k u s)"
| "exec_op OpReset s = (Inr None, reset_calls s)"

inductive calls_step :: "calls_state \<Rightarrow> calls_op \<Rightarrow> calls_state \<Rightarrow> bool" where
  step: "snd (exec_op op s) = s' \<Longrightarrow> calls_step s op s'"

inductive_simps calls_step_iff [simp]: "calls_step s op s'"

inductive calls_reach :: "env \<Rightarrow> calls_state \<Rightarrow> bool" for e where
  reach_init: "calls_reach e (init_calls e)"
| reach_step: "calls_reach e s \<Longrightarrow> calls_step s op s' \<Longrightarrow> calls_reach e s'"

lemmas calls_ok_ops =
  calls_ok_create calls_ok_invite calls_ok_accept calls_ok_join calls_ok_leave calls_ok_end
  calls_ok_reset

lemma calls_ok_exec: "calls_ok s \<Longrightarrow> calls_ok (snd (exec_op op s))"
  by (cases op) (simp_all add: calls_ok_ops)

lemma calls_reach_ok: "calls_reach e s \<Longrightarrow> uuid_ok e \<Longrightarrow> calls_ok s"
  by (induction rule: calls_reach.induct) (auto intro: calls_ok_init calls_ok_exec)

end
