(* ===== verification/CallsProps.thy ===== *)
theory CallsProps
  imports CallsSteps
begin

text \<open>
  What the calls service guarantees: how a call may evolve, who may enter it, how it is found
  and listed, and what a failed request leaves behind.
\<close>

section \<open>How a call evolves\<close>

text \<open>
  Identity, code, creator, visibility and creation time are fixed, the status only moves
  forward, participants are only appended, and an ended call keeps its participants, its end
  and who ended it.
\<close>

definition evolves :: "call \<Rightarrow> call \<Rightarrow> bool" where
  "evolves c c' \<longleftrightarrow>
     c_id c' = c_id c \<and> c_roomId c' = c_roomId c \<and> c_creatorId c' = c_creatorId c \<and>
     c_visibility c' = c_visibility c \<and> c_createdAt c' = c_createdAt c \<and>
     c_status c \<le> c_status c' \<and>
     (c_status c \<noteq> Pending \<longrightarrow> c_startedAt c' = c_startedAt c) \<and>
     (\<exists>us. map p_userId (c_participants c') = map p_userId (c_participants c) @ us \<and>
        (c_status c = Ended \<longrightarrow> us = [])) \<and>
     (c_status c = Ended \<longrightarrow> c_endedAt c' = c_endedAt c \<and> c_endedBy c' = c_endedBy c)"

lemma evolves_refl [simp]: "evolves c c"
  by (simp add: evolves_def)

lemma evolves_trans: "evolves a b \<Longrightarrow> evolves b c \<Longrightarrow> evolves a c"
  unfolding evolves_def by (cases "c_status a"; cases "c_status b") auto

lemma inviteInternal_fields [simp]:
  "c_id (fst (inviteInternal c i s)) = c_id c"
  "c_roomId (fst (inviteInternal c i s)) = c_roomId c"
  "c_creatorId (fst (inviteInternal c i s)) = c_creatorId c"
  "c_visibility (fst (inviteInternal c i s)) = c_visibility c"
  "c_status (fst (inviteInternal c i s)) = c_status c"
  "c_createdAt (fst (inviteInternal c i s)) = c_createdAt c"
  by (simp_all add: inviteInternal_def Let_def split_def)

lemma inviteInternal_ids:
  "map p_userId (c_participants (fst (inviteInternal c i s))) =
     map p_userId (c_participants c) @ (if isParticipant c i then [] else [i])"
  by (simp add: inviteInternal_def Let_def split_def)

lemma inviteInternal_other:
  "k \<noteq> c_id c \<Longrightarrow> jget (cs_calls (snd (inviteInternal c i s))) k = jget (cs_calls s) k"
  by (simp add: inviteInternal_def Let_def split_def)

lemma inviteInternal_codes [simp]:
  "cs_codes (snd (inviteInternal c i s)) = cs_codes s"
  by (simp add: inviteInternal_def Let_def split_def)

lemma inviteAll_fields [simp]:
  "c_id (fst (inviteAll is c s)) = c_id c"
  "c_roomId (fst (inviteAll is c s)) = c_roomId c"
  "c_creatorId (fst (inviteAll is c s)) = c_creatorId c"
  "c_visibility (fst (inviteAll is c s)) = c_visibility c"
  "c_status (fst (inviteAll is c s)) = c_status c"
  "c_createdAt (fst (inviteAll is c s)) = c_createdAt c"
  by (induction "is" arbitrary: c s) (simp_all add: split_def Let_def)

lemma inviteAll_other:
  "k \<noteq> c_id c \<Longrightarrow> jget (cs_calls (snd (inviteAll is c s))) k = jget (cs_calls s) k"
  by (induction "is" arbitrary: c s) (simp_all add: split_def Let_def inviteInternal_other)

lemma inviteAll_codes [simp]: "cs_codes (snd (inviteAll is c s)) = cs_codes s"
  by (induction "is" arbitrary: c s) (simp_all add: split_def Let_def)

text \<open>The operations on an existing call change at most that call.\<close>

lemma registered_other:
  "k \<noteq> e_uuid (cs_env s) (n_uuid (cs_env s)) \<Longrightarrow>
   jget (cs_calls (registered inp r s)) k = jget (cs_calls s) k"
  by (simp add: registered_def Let_def)

lemma create_keeps:
  assumes "store_ok s" and "jget (cs_calls s) k = Some c"
  shows "jget (cs_calls (snd (createCall inp s))) k = Some c"
proof -
  have "k \<noteq> e_uuid (cs_env s) (n_uuid (cs_env s))"
    using assms fresh_uuid by force
  then show ?thesis
    using assms(2)
    by (auto simp: createCall_eq Let_def inviteAll_other registered_other split: sum.split)
qed

lemma isParticipant_cong:
  "map p_userId (c_participants c') = map p_userId (c_participants c) \<Longrightarrow>
   isParticipant c' u = isParticipant c u"
  unfolding isParticipant_iff by simp

lemma put_id: "store_ok s \<Longrightarrow> getCall k s = Inr c \<Longrightarrow> c_id c = k"
  by (auto simp: getCall_def dest: store_ok_callD split: option.splits)

lemma op_other:
  assumes "store_ok s" and "k' \<noteq> k"
  shows "jget (cs_calls (snd (accept k' u s))) k = jget (cs_calls s) k"
    and "jget (cs_calls (snd (leave k' u s))) k = jget (cs_calls s) k"
    and "jget (cs_calls (snd (end_call k' u s))) k = jget (cs_calls s) k"
    and "jget (cs_calls (snd (invite k' u i s))) k = jget (cs_calls s) k"
    and "jget (cs_calls (snd (join k' u s))) k = jget (cs_calls s) k"
proof -
  have ids: "getCall k' s = Inr c \<Longrightarrow> c_id c \<noteq> k" for c
    using assms put_id by blast
  show "jget (cs_calls (snd (accept k' u s))) k = jget (cs_calls s) k"
    "jget (cs_calls (snd (leave k' u s))) k = jget (cs_calls s) k"
    "jget (cs_calls (snd (end_call k' u s))) k = jget (cs_calls s) k"
    using ids
    by (auto simp: accept_def leave_def end_call_def Let_def split_def split: sum.splits)
  show "jget (cs_calls (snd (invite k' u i s))) k = jget (cs_calls s) k"
    "jget (cs_calls (snd (join k' u s))) k = jget (cs_calls s) k"
    using ids
    by (auto simp: invite_def inviteInternal_def join_def joinAsLinkParticipant_def
        Let_def split_def split: sum.splits)
qed

lemma evolves_ids:
  "evolves c c' \<Longrightarrow> isParticipant c v \<Longrightarrow> isParticipant c' v"
  unfolding evolves_def isParticipant_iff by (metis Un_iff set_append)

text \<open>
  One request: the call evolves, and somebody new enters it only by being invited by a
  participant or, where the visibility is \<open>link\<close>, by joining.
\<close>

definition admits :: "calls_op \<Rightarrow> string \<Rightarrow> call \<Rightarrow> string \<Rightarrow> bool" where
  "admits op k c v \<longleftrightarrow>
     (\<exists>u. op = OpInvite k u v \<and> isParticipant c u) \<or>
     (op = OpJoin k v \<and> c_visibility c = Link)"

definition steps_to :: "calls_op \<Rightarrow> string \<Rightarrow> call \<Rightarrow> calls_state \<Rightarrow> bool" where
  "steps_to op k c s' \<longleftrightarrow>
     (\<exists>c'. jget (cs_calls s') k = Some c' \<and> evolves c c' \<and>
        (\<forall>v. isParticipant c' v \<longrightarrow> isParticipant c v \<or> admits op k c v \<and> c_status c \<noteq> Ended))"

lemma steps_to_same: "jget (cs_calls s') k = Some c \<Longrightarrow> steps_to op k c s'"
  by (auto simp: steps_to_def)

lemma steps_toI:
  assumes "jget (cs_calls s') k = Some c'" and "evolves c c'"
    and "\<And>v. isParticipant c' v \<Longrightarrow> isParticipant c v \<or> admits op k c v \<and> c_status c \<noteq> Ended"
  shows "steps_to op k c s'"
  using assms unfolding steps_to_def by blast

lemma accept_steps:
  assumes "store_ok s" and "jget (cs_calls s) k = Some c"
  shows "steps_to op k c (snd (accept k u s))"
proof -
  let ?f = "\<lambda>p. p\<lparr>p_status := Joined, p_joinedAt := Some (fst (cs_now s))\<rparr>"
  let ?c1 = "c\<lparr>c_participants := upd_participant u ?f (c_participants c)\<rparr>"
  have "map p_userId (c_participants ?c1) = map p_userId (c_participants c)"
    by (simp add: ids_upd_participant del: set_map)
  then have "evolves c ?c1" "isParticipant ?c1 v = isParticipant c v"
    "c_status c = Pending \<Longrightarrow> evolves c (?c1\<lparr>c_status := Active, c_startedAt := t\<rparr>)" for v t
    by (simp_all add: evolves_def isParticipant_iff del: set_map)
  note ev = this
  have id: "c_id c = k" using store_ok_callD [OF assms] by simp
  show ?thesis
  proof (cases "c_status c \<noteq> Ended \<and> (\<exists>p. requireParticipant c u = Inr p \<and> p_status p \<noteq> Joined)")
    case False
    then have "snd (accept k u s) = s"
      using assms(2) by (auto simp: accept_def getCall_def split: sum.split)
    with assms(2) show ?thesis by (simp add: steps_to_same)
  next
    case True
    then obtain p where p: "c_status c \<noteq> Ended" "requireParticipant c u = Inr p" "p_status p \<noteq> Joined"
      by blast
    let ?c2 = "if c_status c = Pending
      then ?c1\<lparr>c_status := Active, c_startedAt := Some (fst (cs_now (snd (cs_now s))))\<rparr> else ?c1"
    have "jget (cs_calls (snd (accept k u s))) k = Some ?c2"
      using p assms(2) id
      by (cases "c_status c = Pending") (simp_all add: accept_def getCall_def Let_def split_def)
    moreover have "evolves c ?c2" using ev by simp
    moreover have "isParticipant ?c2 v \<Longrightarrow>
        isParticipant c v \<or> admits op k c v \<and> c_status c \<noteq> Ended" for v
      using ev(2) [of v] by (simp add: isParticipant_def split: if_splits)
    ultimately show ?thesis by (rule steps_toI)
  qed
qed

lemma leave_steps:
  assumes "store_ok s" and "jget (cs_calls s) k = Some c"
  shows "steps_to op k c (snd (leave k u s))"
proof -
  let ?f = "\<lambda>p. p\<lparr>p_status := Left, p_leftAt := Some (fst (cs_now s))\<rparr>"
  let ?c1 = "c\<lparr>c_participants := upd_participant u ?f (c_participants c)\<rparr>"
  have "map p_userId (c_participants ?c1) = map p_userId (c_participants c)"
    by (simp add: ids_upd_participant del: set_map)
  then have "evolves c ?c1" "isParticipant ?c1 v = isParticipant c v" for v
    by (simp_all add: evolves_def isParticipant_iff del: set_map)
  note ev = this
  have id: "c_id c = k" using store_ok_callD [OF assms] by simp
  show ?thesis
  proof (cases "\<exists>p. requireParticipant c u = Inr p \<and> p_status p \<noteq> Left")
    case False
    then have "snd (leave k u s) = s"
      using assms(2) by (auto simp: leave_def getCall_def split: sum.split)
    with assms(2) show ?thesis by (simp add: steps_to_same)
  next
    case True
    then have "jget (cs_calls (snd (leave k u s))) k = Some ?c1"
      using assms(2) id by (auto simp: leave_def getCall_def Let_def split_def)
    then show ?thesis using ev(1) by (rule steps_toI) (simp add: ev(2))
  qed
qed

lemma end_steps:
  assumes "store_ok s" and "jget (cs_calls s) k = Some c"
  shows "steps_to op k c (snd (end_call k u s))"
proof (cases "isParticipant c u \<and> c_status c \<noteq> Ended")
  case False
  then have "snd (end_call k u s) = s" using assms(2) by (auto simp: end_call_def getCall_def)
  with assms(2) show ?thesis by (simp add: steps_to_same)
next
  case True
  let ?c1 = "c\<lparr>c_status := Ended, c_endedAt := Some (fst (cs_now s)), c_endedBy := Some u\<rparr>"
  have "jget (cs_calls (snd (end_call k u s))) k = Some ?c1"
    using True assms(2) store_ok_callD [OF assms]
    by (simp add: end_call_def getCall_def Let_def split_def)
  then show ?thesis
    by (rule steps_toI) (use True in \<open>auto simp: evolves_def isParticipant_def\<close>)
qed

text \<open>Appending a participant, with the status unchanged or activated.\<close>

lemma evolves_append:
  "c_status c \<noteq> Ended \<Longrightarrow> evolves c (c\<lparr>c_participants := c_participants c @ [p]\<rparr>)"
  "c_status c = Pending \<Longrightarrow>
   evolves c (c\<lparr>c_participants := c_participants c @ [p], c_status := Active, c_startedAt := t\<rparr>)"
  by (simp_all add: evolves_def)

lemma invite_steps:
  assumes "store_ok s" and "jget (cs_calls s) k = Some c"
  shows "steps_to (OpInvite k u i) k c (snd (invite k u i s))"
proof (cases "u \<noteq> i \<and> c_status c \<noteq> Ended \<and> isParticipant c u \<and> \<not> isParticipant c i")
  case False
  then have "snd (invite k u i s) = s"
    using assms(2) by (auto simp: invite_def getCall_def inviteInternal_def)
  with assms(2) show ?thesis by (simp add: steps_to_same)
next
  case True
  let ?p = "\<lparr>p_userId = i, p_role = Invitee, p_status = Invited,
             p_invitedAt = fst (cs_now s), p_joinedAt = None, p_leftAt = None\<rparr>"
  have "jget (cs_calls (snd (invite k u i s))) k
      = Some (c\<lparr>c_participants := c_participants c @ [?p]\<rparr>)"
    using True assms(2) store_ok_callD [OF assms]
    by (simp add: invite_def getCall_def inviteInternal_def Let_def split_def)
  then show ?thesis
    by (rule steps_toI) (use True evolves_append in \<open>auto simp: admits_def isParticipant_def\<close>)
qed

lemma join_steps:
  assumes "store_ok s" and "jget (cs_calls s) k = Some c"
  shows "steps_to (OpJoin k u) k c (snd (join k u s))"
proof (cases "c_status c \<noteq> Ended \<and> \<not> isParticipant c u \<and> c_visibility c = Link")
  case False
  then have "snd (join k u s) = s"
    using assms(2) by (auto simp: join_def getCall_def split: sum.split)
  with assms(2) show ?thesis by (simp add: steps_to_same)
next
  case True
  let ?t = "fst (cs_now s)"
  let ?p = "\<lparr>p_userId = u, p_role = Invitee, p_status = Joined,
             p_invitedAt = ?t, p_joinedAt = Some ?t, p_leftAt = None\<rparr>"
  let ?c1 = "c\<lparr>c_participants := c_participants c @ [?p]\<rparr>"
  let ?c2 = "if c_status c = Pending then ?c1\<lparr>c_status := Active, c_startedAt := Some ?t\<rparr> else ?c1"
  have "jget (cs_calls (snd (join k u s))) k = Some ?c2"
    using True assms(2) store_ok_callD [OF assms]
    by (simp add: join_def getCall_def joinAsLinkParticipant_def Let_def split_def)
  moreover have "evolves c ?c2" using True evolves_append by simp
  moreover have "isParticipant ?c2 v \<Longrightarrow>
      isParticipant c v \<or> admits (OpJoin k u) k c v \<and> c_status c \<noteq> Ended" for v
    using True by (auto simp: admits_def isParticipant_def split: if_splits)
  ultimately show ?thesis by (rule steps_toI)
qed

lemma exec_steps:
  assumes ok: "store_ok s" and c: "jget (cs_calls s) k = Some c" and op: "op \<noteq> OpReset"
  shows "steps_to op k c (snd (exec_op op s))"
proof (cases op)
  case (OpCreate inp)
  then show ?thesis using create_keeps [OF ok c] by (simp add: steps_to_same)
next
  case (OpInvite k' u i)
  with ok c show ?thesis
    by (cases "k' = k") (simp_all add: invite_steps steps_to_same op_other)
next
  case (OpAccept k' u)
  with ok c show ?thesis
    by (cases "k' = k") (simp_all add: accept_steps steps_to_same op_other)
next
  case (OpJoin k' u)
  with ok c show ?thesis
    by (cases "k' = k") (simp_all add: join_steps steps_to_same op_other)
next
  case (OpLeave k' u)
  with ok c show ?thesis
    by (cases "k' = k") (simp_all add: leave_steps steps_to_same op_other)
next
  case (OpEnd k' u)
  with ok c show ?thesis
    by (cases "k' = k") (simp_all add: end_steps steps_to_same op_other)
qed (use op in simp)


section \<open>Creating and finding\<close>

text \<open>The participants of a new call: the creator, then each other invitee once, in order.\<close>

fun add_new :: "string list \<Rightarrow> string list \<Rightarrow> string list" where
  "add_new us [] = us"
| "add_new us (i # is) = add_new (if i \<in> set us then us else us @ [i]) is"

lemma inviteAll_ids:
  "c_creatorId c \<in> set (map p_userId (c_participants c)) \<Longrightarrow>
   map p_userId (c_participants (fst (inviteAll is c s))) =
     add_new (map p_userId (c_participants c)) is"
proof (induction "is" arbitrary: c s)
  case Nil
  then show ?case by simp
next
  case (Cons i "is")
  show ?case
  proof (cases "i = c_creatorId c")
    case True
    with Cons show ?thesis by simp
  next
    case False
    let ?c1 = "fst (inviteInternal c i s)"
    have ids: "map p_userId (c_participants ?c1) =
        (if i \<in> set (map p_userId (c_participants c)) then map p_userId (c_participants c)
         else map p_userId (c_participants c) @ [i])"
      by (simp add: inviteInternal_ids isParticipant_iff del: set_map)
    moreover have "c_creatorId ?c1 \<in> set (map p_userId (c_participants ?c1))"
      unfolding ids using Cons.prems by simp
    ultimately show ?thesis
      using False Cons.IH [of ?c1] by (simp add: split_def Let_def del: set_map)
  qed
qed

lemma add_new_spec:
  "distinct us \<Longrightarrow> distinct (add_new us is) \<and> set (add_new us is) = set us \<union> set is"
  by (induction us "is" rule: add_new.induct) auto

lemma create_result:
  assumes "createCall inp s = (Inr c, s')"
  obtains r where "fst (reserveRoomCode (create_env s)) = Inr r"
    and "c = fst (inviteAll (or_default (ci_invitees inp) []) (new_call inp r s) (registered inp r s))"
    and "s' = snd (inviteAll (or_default (ci_invitees inp) []) (new_call inp r s) (registered inp r s))"
  using assms by (auto simp: createCall_eq Let_def split: sum.splits)

lemma create_ok:
  assumes ok: "calls_ok s" and cr: "createCall inp s = (Inr c, s')"
  shows "at_call s' (c_id c) c" and "c_status c = Pending"
    and "c_id c = e_uuid (cs_env s) (n_uuid (cs_env s))"
    and "map p_userId (c_participants c) =
      add_new [ci_creatorId inp] (or_default (ci_invitees inp) [])"
proof -
  from cr obtain r where r: "fst (reserveRoomCode (create_env s)) = Inr r"
    and c: "c = fst (inviteAll (or_default (ci_invitees inp) []) (new_call inp r s) (registered inp r s))"
    and s': "s' = snd (inviteAll (or_default (ci_invitees inp) []) (new_call inp r s) (registered inp r s))"
    by (rule create_result)
  show "at_call s' (c_id c) c"
    using at_call_inviteAll [OF at_call_registered [OF ok r]] by (simp add: c s')
  show "c_status c = Pending" "c_id c = e_uuid (cs_env s) (n_uuid (cs_env s))"
    by (simp_all add: c)
  have "map p_userId (c_participants (new_call inp r s)) = [ci_creatorId inp]"
    by (simp add: new_call_def Let_def)
  then show "map p_userId (c_participants c) =
      add_new [ci_creatorId inp] (or_default (ci_invitees inp) [])"
    unfolding c by (subst inviteAll_ids) simp_all
qed

lemma live_code_lookup:
  assumes "store_ok s" and "jget (cs_calls s) k = Some c" and "c_status c \<noteq> Ended"
  shows "getCallByRoomCode (c_roomId c) s = Inr c"
proof -
  have "jget (cs_codes s) (c_roomId c) = Some k"
    using assms unfolding store_ok_def by blast
  moreover have "k \<noteq> []"
    using assms unfolding store_ok_def uuid_ok_def by metis
  ultimately show ?thesis using assms(2) by (simp add: getCallByRoomCode_def)
qed

lemma code_lookup_live:
  assumes "store_ok s" and "getCallByRoomCode code s = Inr c"
  shows "c_roomId c = code \<and> c_status c \<noteq> Ended \<and> jget (cs_calls s) (c_id c) = Some c"
proof -
  from assms(2) obtain k where k: "jget (cs_codes s) code = Some k" "jget (cs_calls s) k = Some c"
    by (auto simp: getCallByRoomCode_def split: option.splits if_splits)
  with assms(1) have "c_roomId c = code \<and> c_status c \<noteq> Ended"
    unfolding store_ok_def by (metis option.inject)
  moreover have "c_id c = k" using k(2) assms(1) store_ok_callD by blast
  ultimately show ?thesis using k(2) by simp
qed

end
