(* ===== verification/CallsClaims.thy ===== *)
theory CallsClaims
  imports CallsProps
begin

text \<open>
  The properties of the calls service, and a concrete run (a call created by \<open>ana\<close> with
  \<open>ben\<close> invited, accepted by \<open>ben\<close>) at which their hypotheses hold.
\<close>

section \<open>A concrete run\<close>

definition demo_env :: env where
  "demo_env = \<lparr>e_clock = (\<lambda>n. 1000 + int n), e_rand = (\<lambda>n. 0),
               e_uuid = (\<lambda>n. replicate (Suc n) CHR ''u''), n_clock = 0, n_rand = 0, n_uuid = 0\<rparr>"

definition demo_input :: create_input where
  "demo_input = \<lparr>ci_creatorId = ''ana'', ci_roomId = None, ci_invitees = Some [''ben''],
                 ci_visibility = Some Private\<rparr>"

definition demo_created :: calls_state where
  "demo_created = snd (exec_op (OpCreate demo_input) (init_calls demo_env))"

definition demo_active :: calls_state where
  "demo_active = snd (exec_op (OpAccept ''u'' ''ben'') demo_created)"

definition demo_ended :: calls_state where
  "demo_ended = snd (exec_op (OpEnd ''u'' ''ana'') demo_active)"

lemma replicate_Suc_inj: "inj (\<lambda>n. replicate (Suc n) c)"
  by (rule injI) (metis length_replicate nat.inject)

lemma demo_uuid: "uuid_ok demo_env"
  using replicate_Suc_inj by (simp add: uuid_ok_def demo_env_def)

lemma demo_rand: "rand_ok demo_env"
  by (simp add: rand_ok_def demo_env_def)

lemma reach_exec: "calls_reach e s \<Longrightarrow> calls_reach e (snd (exec_op op s))"
  by (rule reach_step) simp_all

lemma demo_reach:
  "calls_reach demo_env demo_created" "calls_reach demo_env demo_active"
  "calls_reach demo_env demo_ended"
  unfolding demo_ended_def demo_active_def demo_created_def
  by (intro reach_exec reach_init)+

lemma demo_store: "store_ok demo_created" "store_ok demo_active" "store_ok demo_ended"
  using calls_reach_ok [OF demo_reach(1) demo_uuid] calls_reach_ok [OF demo_reach(2) demo_uuid]
    calls_reach_ok [OF demo_reach(3) demo_uuid]
  by (simp_all add: calls_ok_def)

definition demo_call :: call where
  "demo_call = \<lparr>c_id = ''u'', c_roomId = ''AAA-AAA-AAA'', c_status = Pending, c_visibility = Private,
     c_creatorId = ''ana'',
     c_participants = [\<lparr>p_userId = ''ana'', p_role = Creator, p_status = Joined, p_invitedAt = 1000,
                        p_joinedAt = Some 1000, p_leftAt = None\<rparr>,
                       \<lparr>p_userId = ''ben'', p_role = Invitee, p_status = Invited, p_invitedAt = 1002,
                        p_joinedAt = None, p_leftAt = None\<rparr>],
     c_createdAt = 1000, c_startedAt = None, c_endedAt = None, c_endedBy = None\<rparr>"

lemma demo_code: "code_char 0 = ''A''"
  by (simp add: code_char_def ROOM_CODE_ALPHABET_def Let_def)

lemmas demo_eval =
  createCall_def Let_def read_uuid_def cs_now_def read_clock_def reserveRoomCode_def
  ROOM_CODE_MAX_ATTEMPTS_def generateRoomCode_def ROOM_CODE_SEGMENTS_def
  ROOM_CODE_SEGMENT_LENGTH_def read_rand_def eval_nat_numeral demo_code init_calls_def
  put_call_def record_event_def inviteInternal_def isParticipant_def jset_def jempty_def
  demo_env_def demo_input_def jhas_def jget_def accept_def end_call_def getCall_def
  requireParticipant_def

lemma demo_created_eq:
  "cs_calls demo_created = [(''u'', demo_call)] \<and> cs_codes demo_created = [(''AAA-AAA-AAA'', ''u'')]"
  by (simp add: demo_created_def demo_call_def demo_eval)

lemma demo_created_call: "jget (cs_calls demo_created) ''u'' = Some demo_call"
  by (simp add: demo_created_eq jget_def)

section \<open>The store and its log\<close>

text \<open>C1: in every state the service can reach, each call is stored under its own id, has
  distinct participants headed by its creator, time stamps that agree with its status and an
  \<open>endedBy\<close> that is a participant; the code index holds exactly the codes of the calls that
  have not ended.\<close>

theorem reachable_store_wf:
  assumes "calls_reach e s" and "uuid_ok e"
  shows "store_ok s"
  using calls_reach_ok [OF assms] by (simp add: calls_ok_def)

theorem reachable_store_wf_witness: "store_ok demo_ended"
  by (rule reachable_store_wf [OF demo_reach(3) demo_uuid])

lemma replay_from_filter:
  "replay_from k (filter (\<lambda>e. ev_callId e = k) es) v = replay_from k es v"
  by (induction es arbitrary: v) auto

text \<open>C2: the event log is a faithful record. Its ids are 1, 2, 3 and so on without a gap, and
  replaying the events of a call from nothing gives the creator, status, participants with
  their statuses and \<open>endedBy\<close> that the store holds for it (nothing, if it holds none).\<close>

theorem event_log_replays:
  assumes "calls_reach e s" and "uuid_ok e"
  shows "map ev_id (all_events s) = [1..<cs_nextId s]
    \<and> replay (forCall k s) k = map_option abs_call (jget (cs_calls s) k)"
  using calls_reach_ok [OF assms]
  by (simp add: calls_ok_def log_ok_def all_events_def forCall_def view_def replay_def
      replay_from_filter)

theorem event_log_replays_witness:
  "replay (forCall ''u'' demo_created) ''u'' = Some (abs_call demo_call)"
  using event_log_replays [OF demo_reach(1) demo_uuid, of "''u''"] by (simp add: demo_created_call)

lemma failed_create: "fst (createCall inp s) = Inl e \<Longrightarrow>
   cs_calls (snd (createCall inp s)) = cs_calls s \<and> cs_codes (snd (createCall inp s)) = cs_codes s \<and>
   cs_events (snd (createCall inp s)) = cs_events s \<and> cs_nextId (snd (createCall inp s)) = cs_nextId s \<and>
   e = CallCodeCollisionError"
  by (auto simp: createCall_eq Let_def reserveRoomCode_def split_def create_env_def
      dest: reserve_loop_error split: sum.splits)

lemma failed_others:
  "fst (invite k u i s) = Inl e \<Longrightarrow> snd (invite k u i s) = s"
  "fst (accept k u s) = Inl e \<Longrightarrow> snd (accept k u s) = s"
  "fst (join k u s) = Inl e \<Longrightarrow> snd (join k u s) = s"
  "fst (leave k u s) = Inl e \<Longrightarrow> snd (leave k u s) = s"
  "fst (end_call k u s) = Inl e \<Longrightarrow> snd (end_call k u s) = s"
  by (auto simp: invite_def accept_def join_def leave_def end_call_def Let_def split_def
      split: sum.splits if_splits)


text \<open>C34: a request that fails leaves calls, codes, event log and event counter as they were;
  only creation can fail after it read from the environment, and only with a code collision.\<close>

theorem failed_request_no_change:
  assumes "exec_op op s = (Inl err, s')"
  shows "cs_calls s' = cs_calls s \<and> cs_codes s' = cs_codes s \<and> cs_events s' = cs_events s
    \<and> cs_nextId s' = cs_nextId s
    \<and> (cs_env s' = cs_env s \<or> err = CallCodeCollisionError \<and> (\<exists>inp. op = OpCreate inp))"
proof (cases op)
  case (OpCreate inp)
  from assms have "fst (createCall inp s) = Inl err" "s' = snd (createCall inp s)"
    unfolding OpCreate by (cases "createCall inp s"; cases "fst (createCall inp s)"; simp)+
  with failed_create show ?thesis using OpCreate by blast
next
  case (OpInvite k u i)
  with assms failed_others(1) [of k u i s] show ?thesis
    by (cases "invite k u i s"; cases "fst (invite k u i s)") auto
next
  case (OpAccept k u)
  with assms failed_others(2) [of k u s] show ?thesis
    by (cases "accept k u s"; cases "fst (accept k u s)") auto
next
  case (OpJoin k u)
  with assms failed_others(3) [of k u s] show ?thesis
    by (cases "join k u s"; cases "fst (join k u s)") auto
next
  case (OpLeave k u)
  with assms failed_others(4) [of k u s] show ?thesis
    by (cases "leave k u s"; cases "fst (leave k u s)") auto
next
  case (OpEnd k u)
  with assms failed_others(5) [of k u s] show ?thesis
    by (cases "end_call k u s"; cases "fst (end_call k u s)") auto
qed (use assms in simp)

lemma demo_invite_fails:
  "exec_op (OpInvite ''u'' ''eve'' ''joe'') demo_created
     = (Inl (CallForbiddenError ''Only participants can invite''), demo_created)"
  using demo_created_call by (simp add: invite_def getCall_def demo_call_def isParticipant_def)

theorem failed_request_no_change_witness:
  "cs_calls (snd (exec_op (OpInvite ''u'' ''eve'' ''joe'') demo_created)) = cs_calls demo_created
    \<and> exec_op (OpInvite ''u'' ''eve'' ''joe'') demo_created
     = (Inl (CallForbiddenError ''Only participants can invite''), demo_created)"
  using failed_request_no_change [OF demo_invite_fails] demo_invite_fails by simp

section \<open>How a call evolves\<close>

text \<open>C30: in every reachable state, whatever request comes next (short of the reset), every call
  stays in the store; its identity, code, creator, visibility and creation time are fixed, its
  status only moves from pending to active to ended, participants are only appended, and an
  ended call keeps its participants, its end and who ended it.\<close>

theorem calls_evolve:
  assumes "calls_reach e s" and "uuid_ok e" and "jget (cs_calls s) k = Some c"
    and "calls_step s op s'" and "op \<noteq> OpReset"
  shows "\<exists>c'. jget (cs_calls s') k = Some c' \<and> evolves c c'"
  using exec_steps [OF _ assms(3,5)] calls_reach_ok [OF assms(1,2)] assms(4)
  by (auto simp: calls_ok_def steps_to_def)

theorem calls_evolve_witness: "\<exists>c'. jget (cs_calls demo_active) ''u'' = Some c' \<and> evolves demo_call c'"
  by (rule calls_evolve [OF demo_reach(1) demo_uuid demo_created_call, of "OpAccept ''u'' ''ben''"])
    (simp_all add: demo_active_def)

text \<open>C3: nobody enters a private call uninvited. Whoever is a participant after a request and was
  not before was named by an invitation from a participant; nobody at all enters an ended
  call.\<close>

theorem private_call_admission:
  assumes "calls_reach e s" and "uuid_ok e" and "jget (cs_calls s) k = Some c"
    and "calls_step s op s'" and "op \<noteq> OpReset"
    and "jget (cs_calls s') k = Some c'" and "isParticipant c' v" and "\<not> isParticipant c v"
    and "c_visibility c = Private"
  shows "c_status c \<noteq> Ended \<and> (\<exists>u. op = OpInvite k u v \<and> isParticipant c u)"
  using exec_steps [OF _ assms(3,5)] calls_reach_ok [OF assms(1,2)] assms(4,6-9)
  by (auto simp: calls_ok_def steps_to_def admits_def)


lemma demo_invited: "\<exists>c'. jget (cs_calls (snd (exec_op (OpInvite ''u'' ''ana'' ''eve'') demo_created))) ''u'' = Some c'
    \<and> isParticipant c' ''eve''"
  using demo_created_call
  by (simp add: invite_def getCall_def demo_call_def isParticipant_def inviteInternal_def Let_def
      split_def)

theorem private_call_admission_witness:
  "\<exists>u. OpInvite ''u'' ''ana'' ''eve'' = OpInvite ''u'' u ''eve'' \<and> isParticipant demo_call u"
proof -
  obtain c' where c': "jget (cs_calls (snd (exec_op (OpInvite ''u'' ''ana'' ''eve'') demo_created))) ''u''
      = Some c'" "isParticipant c' ''eve''"
    using demo_invited by blast
  show ?thesis
    using private_call_admission [OF demo_reach(1) demo_uuid demo_created_call _ _ c',
      of "OpInvite ''u'' ''ana'' ''eve''"]
    by (simp add: demo_call_def isParticipant_def)
qed

section \<open>Finding calls\<close>

text \<open>Looking up a room code finds a call exactly when that call is stored, has that code and
  has not ended; so the code of a live call determines it, and an ended call is not found by its
  code.\<close>

theorem room_code_lookup:
  assumes "calls_reach e s" and "uuid_ok e"
  shows "getCallByRoomCode code s = Inr c \<longleftrightarrow>
    (\<exists>k. jget (cs_calls s) k = Some c \<and> c_roomId c = code \<and> c_status c \<noteq> Ended)"
  using calls_reach_ok [OF assms] live_code_lookup [of s _ c] code_lookup_live [of s code c]
  by (auto simp: calls_ok_def)

theorem room_code_lookup_witness: "getCallByRoomCode ''AAA-AAA-AAA'' demo_created = Inr demo_call"
  using room_code_lookup [OF demo_reach(1) demo_uuid, of "''AAA-AAA-AAA''" demo_call]
    demo_created_call
  by (auto simp: demo_call_def)

text \<open>C33: a created call is found afterwards, by its id and by its room code. It is pending, has the
  creator it was asked for, the visibility asked for or \<open>link\<close>, the next id, and its
  participants are the creator and then each other invitee once, in the order given.\<close>

theorem createCall_found:
  assumes "calls_reach e s" and "uuid_ok e" and "createCall inp s = (Inr c, s')"
  shows "getCall (c_id c) s' = Inr c \<and> getCallByRoomCode (c_roomId c) s' = Inr c
    \<and> c_status c = Pending \<and> c_creatorId c = ci_creatorId inp
    \<and> c_visibility c = or_default (ci_visibility inp) Link
    \<and> jget (cs_calls s) (c_id c) = None
    \<and> map p_userId (c_participants c)
        = add_new [ci_creatorId inp] (or_default (ci_invitees inp) [])"
proof -
  have ok: "calls_ok s" using assms(1,2) by (rule calls_reach_ok)
  note cr = create_ok [OF ok assms(3)]
  have st: "store_ok s'" "jget (cs_calls s') (c_id c) = Some c"
    using cr(1) by (simp_all add: at_call_def)
  have "jget (cs_calls s) (c_id c) = None"
    using ok fresh_uuid [of s] cr(3) by (simp add: calls_ok_def)
  moreover have "c_creatorId c = ci_creatorId inp"
    "c_visibility c = or_default (ci_visibility inp) Link"
    using create_result [OF assms(3)] by (force, force)
  ultimately show ?thesis
    using cr live_code_lookup [OF st] st(2) by (simp add: getCall_def)
qed

lemma demo_create_result: "\<exists>c s'. createCall demo_input (init_calls demo_env) = (Inr c, s')"
  by (simp add: demo_eval)

theorem createCall_found_witness:
  "\<exists>c s'. createCall demo_input (init_calls demo_env) = (Inr c, s') \<and> getCall (c_id c) s' = Inr c
     \<and> map p_userId (c_participants c) = [''ana'', ''ben'']"
proof -
  obtain c s' where c: "createCall demo_input (init_calls demo_env) = (Inr c, s')"
    using demo_create_result by blast
  show ?thesis
    using createCall_found [OF reach_init demo_uuid c] c by (auto simp: demo_input_def)
qed


text \<open>The shape \<open>XXX-XXX-XXX\<close> over the alphabet without the look-alike characters.\<close>

definition code_shape :: "string \<Rightarrow> bool" where
  "code_shape code \<longleftrightarrow>
     (\<exists>p1 p2 p3. code = p1 @ ''-'' @ p2 @ ''-'' @ p3 \<and> length p1 = 3 \<and> length p2 = 3 \<and> length p3 = 3
        \<and> set (p1 @ p2 @ p3) \<subseteq> set ROOM_CODE_ALPHABET)"

lemma code_char_ok:
  assumes "0 \<le> r" and "r < 1"
  shows "length (code_char r) = 1 \<and> set (code_char r) \<subseteq> set ROOM_CODE_ALPHABET"
proof -
  let ?n = "length ROOM_CODE_ALPHABET"
  have n: "0 < ?n" by (simp add: ROOM_CODE_ALPHABET_def)
  have "r * of_nat ?n < 1 * of_nat ?n"
    using assms n by (intro mult_strict_right_mono) simp_all
  then have lt: "\<lfloor>r * of_nat ?n\<rfloor> < int ?n" by (simp add: floor_less_iff)
  have ge: "0 \<le> \<lfloor>r * of_nat ?n\<rfloor>" using assms by simp
  from lt ge have "nat \<lfloor>r * of_nat ?n\<rfloor> < ?n" by (simp add: nat_less_iff)
  then have "ROOM_CODE_ALPHABET ! nat \<lfloor>r * of_nat ?n\<rfloor> \<in> set ROOM_CODE_ALPHABET"
    by (rule nth_mem)
  moreover have "code_char r = [ROOM_CODE_ALPHABET ! nat \<lfloor>r * of_nat ?n\<rfloor>]"
    using lt ge unfolding code_char_def Let_def by argo
  ultimately show ?thesis by simp
qed

lemma rand_ok_read: "rand_ok e \<Longrightarrow> rand_ok (snd (read_rand e)) \<and> 0 \<le> fst (read_rand e) \<and> fst (read_rand e) < 1"
  by (simp add: rand_ok_def) (simp add: read_rand_def)

lemma code_part_ok:
  "rand_ok e \<Longrightarrow> rand_ok (snd (code_part n e)) \<and> length (fst (code_part n e)) = n
     \<and> set (fst (code_part n e)) \<subseteq> set ROOM_CODE_ALPHABET"
proof (induction n arbitrary: e)
  case 0
  then show ?case by simp
next
  case (Suc n)
  from rand_ok_read [OF Suc.prems] Suc.IH [of "snd (read_rand e)"] code_char_ok [of "fst (read_rand e)"]
  show ?case by (simp add: split_def Let_def)
qed

lemma generateRoomCode_shape:
  assumes "rand_ok e"
  shows "code_shape (fst (generateRoomCode e))"
proof -
  let ?e1 = "snd (code_part 3 e)" and ?e2 = "snd (code_part 3 (snd (code_part 3 e)))"
  have eq: "fst (generateRoomCode e) = fst (code_part 3 e) @ ''-'' @ fst (code_part 3 ?e1) @ ''-''
      @ fst (code_part 3 ?e2)"
    by (simp add: generateRoomCode_def ROOM_CODE_SEGMENTS_def ROOM_CODE_SEGMENT_LENGTH_def split_def
        Let_def numeral_3_eq_3)
  note 1 = code_part_ok [OF assms, of 3]
  note 2 = code_part_ok [of ?e1 3, OF conjunct1 [OF 1]]
  note 3 = code_part_ok [of ?e2 3, OF conjunct1 [OF 2]]
  from 1 2 3 show ?thesis unfolding code_shape_def eq by (metis Un_least set_append)
qed

text \<open>The room code of a created call has the form \<open>XXX-XXX-XXX\<close> over the alphabet without
  look-alikes, and no live call had it.\<close>

theorem created_code_shape:
  assumes "rand_ok (cs_env s)" and "createCall inp s = (Inr c, s')"
  shows "code_shape (c_roomId c) \<and> jget (cs_codes s) (c_roomId c) = None"
proof -
  from assms(2) obtain r where r: "fst (reserveRoomCode (create_env s)) = Inr r" and c: "c_roomId c = r"
    by (rule create_result) simp
  then obtain e' where e': "e_rand e' = e_rand (cs_env (create_env s))" "r = fst (generateRoomCode e')"
    by (auto simp: reserveRoomCode_def split_def Let_def dest: reserve_loop_made)
  moreover have "e_rand (cs_env (create_env s)) = e_rand (cs_env s)" by (simp add: create_env_def)
  ultimately have "rand_ok e'" using assms(1) by (simp add: rand_ok_def)
  then have "code_shape r" unfolding e'(2) by (rule generateRoomCode_shape)
  with c reserveRoomCode_fresh [OF r] show ?thesis by simp
qed

theorem created_code_shape_witness:
  "\<exists>c s'. createCall demo_input (init_calls demo_env) = (Inr c, s') \<and> code_shape (c_roomId c)"
proof -
  obtain c s' where c: "createCall demo_input (init_calls demo_env) = (Inr c, s')"
    using demo_create_result by blast
  have "rand_ok (cs_env (init_calls demo_env))" using demo_rand by (simp add: init_calls_def)
  from created_code_shape [OF this c] c show ?thesis by blast
qed


text \<open>The list for a user holds exactly the stored calls the user is a participant of, with the
  status asked for if one is, each once, the newest first, calls of the same instant in the
  order they were created.\<close>

theorem listForUser_spec:
  assumes "calls_reach e s" and "uuid_ok e"
  shows "set (listForUser u st s) =
      {c. (\<exists>k. jget (cs_calls s) k = Some c) \<and> isParticipant c u \<and> (st = None \<or> st = Some (c_status c))}
    \<and> distinct (map c_id (listForUser u st s))
    \<and> sorted_wrt (\<lambda>a b. c_createdAt b \<le> c_createdAt a) (listForUser u st s)
    \<and> filter (\<lambda>c. c_createdAt c = t) (listForUser u st s)
      = filter (\<lambda>c. c_createdAt c = t \<and> isParticipant c u \<and> (st = None \<or> st = Some (c_status c)))
          (jvals (cs_calls s))"
proof -
  have st: "store_ok s" using calls_reach_ok [OF assms] by (simp add: calls_ok_def)
  then have wf: "jwf (cs_calls s)" by (simp add: store_ok_def)
  let ?P = "\<lambda>c. isParticipant c u \<and> (st = None \<or> st = Some (c_status c))"
  have "(k, c) \<in> set (cs_calls s) \<Longrightarrow> c_id c = k" for k c
    using st store_ok_callD wf by (auto simp: jget_in_set)
  then have "map c_id (jvals (cs_calls s)) = map fst (cs_calls s)"
    by (auto simp: jvals_def)
  then have "distinct (map c_id (jvals (cs_calls s)))" using wf by (simp add: jwf_def)
  then have "distinct (map c_id (filter ?P (jvals (cs_calls s))))" by (rule distinct_map_filter)
  then have d: "distinct (map c_id (listForUser u st s))"
    by (simp add: listForUser_def distinct_map)
  have "sorted (map (\<lambda>c. - c_createdAt c) (listForUser u st s))"
    by (simp add: listForUser_def)
  then have srt: "sorted_wrt (\<lambda>a b. c_createdAt b \<le> c_createdAt a) (listForUser u st s)"
    by (simp add: sorted_map)
  have "filter (\<lambda>c. - c_createdAt c = - t) (listForUser u st s)
      = filter (\<lambda>c. - c_createdAt c = - t) (filter ?P (jvals (cs_calls s)))"
    unfolding listForUser_def by (rule sort_key_stable)
  then have "filter (\<lambda>c. c_createdAt c = t) (listForUser u st s)
      = filter (\<lambda>c. c_createdAt c = t \<and> ?P c) (jvals (cs_calls s))"
    by (simp add: conj_commute)
  with d srt show ?thesis using jvals_in [OF wf] by (auto simp: listForUser_def)
qed

theorem listForUser_spec_witness: "set (listForUser ''ben'' (Some Pending) demo_created) = {demo_call}"
proof -
  have "jget (cs_calls demo_created) k = Some c \<longleftrightarrow> k = ''u'' \<and> c = demo_call" for k c
    by (auto simp: demo_created_eq jget_def split: if_splits)
  moreover have "isParticipant demo_call ''ben''" "c_status demo_call = Pending"
    by (simp_all add: demo_call_def isParticipant_def)
  ultimately have "{c. (\<exists>k. jget (cs_calls demo_created) k = Some c) \<and> isParticipant c ''ben''
      \<and> (Some Pending = None \<or> Some Pending = Some (c_status c))} = {demo_call}"
    by (intro set_eqI) (simp, metis)
  then show ?thesis
    using conjunct1 [OF listForUser_spec [OF demo_reach(1) demo_uuid, of "''ben''" "Some Pending"]]
    by (rule trans [rotated])
qed

section \<open>The requests on a call\<close>

lemma requireParticipant_view:
  "requireParticipant c u = Inr p \<Longrightarrow> jget (member_view (c_participants c)) u = Some (p_status p)"
proof -
  have "find (\<lambda>p. p_userId p = u) ps = Some p \<Longrightarrow> jget (member_view ps) u = Some (p_status p)" for ps
    by (induction ps) (auto simp: member_view_def jget_def split: if_splits)
  then show "requireParticipant c u = Inr p \<Longrightarrow> ?thesis"
    by (auto simp: requireParticipant_def split: option.splits)
qed

lemma requireParticipant_err:
  "requireParticipant c u = Inl e \<Longrightarrow>
   e = CallForbiddenError (''User '' @ u @ '' is not a participant of call '' @ c_id c)"
  by (auto simp: requireParticipant_def split: option.splits)

text \<open>Accepting. An ended call refuses, then a stranger is refused; a participant who has joined
  changes nothing; any other participant is joined, the call becomes active if it was pending,
  and exactly the events \<open>accepted\<close> and \<open>joined\<close> are appended.\<close>

theorem accept_spec:
  assumes "store_ok s" and "jget (cs_calls s) k = Some c" and "accept k u s = (r, s')"
  shows "(c_status c = Ended \<longrightarrow> r = Inl (CallInvalidStateError ''Cannot accept an ended call''))
    \<and> (c_status c \<noteq> Ended \<and> \<not> isParticipant c u \<longrightarrow>
         r = Inl (CallForbiddenError (''User '' @ u @ '' is not a participant of call '' @ k)))
    \<and> (c_status c \<noteq> Ended \<and> jget (member_view (c_participants c)) u = Some Joined \<longrightarrow> r = Inr c \<and> s' = s)
    \<and> (c_status c \<noteq> Ended \<and> isParticipant c u \<and> jget (member_view (c_participants c)) u \<noteq> Some Joined \<longrightarrow>
         (\<exists>c'. r = Inr c' \<and> cs_calls s' = jset k c' (cs_calls s) \<and> c_status c' = Active
           \<and> member_view (c_participants c') = jset u Joined (member_view (c_participants c))
           \<and> (c_status c = Active \<longrightarrow> c_startedAt c' = c_startedAt c)
           \<and> map (\<lambda>ev. (ev_callId ev, ev_type ev, ev_userId ev)) (cs_events s')
             = map (\<lambda>ev. (ev_callId ev, ev_type ev, ev_userId ev)) (cs_events s)
               @ [(k, EvAccepted, u), (k, EvJoined, u)]))"
proof -
  have id: "c_id c = k" using store_ok_callD [OF assms(1,2)] by simp
  have get: "getCall k s = Inr c" using assms(2) by (simp add: getCall_def)
  have mv: "jget (member_view (c_participants c)) u = Some (p_status p)"
    if "requireParticipant c u = Inr p" for p
    using that by (rule requireParticipant_view)
  have part: "isParticipant c u \<longleftrightarrow> (\<exists>p. requireParticipant c u = Inr p)"
    by (simp add: is_ok_iff flip: requireParticipant_ok)
  have out: "jget (member_view (c_participants c)) u = None" if "\<not> isParticipant c u"
    using that by (simp add: jget_member_view_None isParticipant_iff)
  show ?thesis
  proof (cases "c_status c \<noteq> Ended \<and> (\<exists>p. requireParticipant c u = Inr p \<and> p_status p \<noteq> Joined)")
    case False
    then show ?thesis
      using assms(3) get mv part id out requireParticipant_err [of c u]
      by (auto simp: accept_def split: sum.splits)
  next
    case True
    then obtain p where live: "c_status c \<noteq> Ended" and p: "requireParticipant c u = Inr p"
      and nj: "p_status p \<noteq> Joined" by blast
    have pu: "isParticipant c u" using part p by blast
    have up: "member_view (upd_participant u (\<lambda>p. p\<lparr>p_status := Joined, p_joinedAt := t\<rparr>) (c_participants c))
        = jset u Joined (member_view (c_participants c))" for t
      using pu by (intro member_view_upd) (simp_all add: isParticipant_iff)
    show ?thesis
      using assms(3) get p nj pu id mv [OF p] live up
      by (cases "c_status c") (auto simp: accept_def Let_def split_def cs_events_record_event)
  qed
qed


theorem accept_spec_witness:
  "\<exists>c'. accept ''u'' ''ben'' demo_created = (Inr c', demo_active) \<and> c_status c' = Active"
proof -
  obtain r s' where a: "accept ''u'' ''ben'' demo_created = (r, s')" by fastforce
  have "c_status demo_call = Pending" "isParticipant demo_call ''ben''"
    "jget (member_view (c_participants demo_call)) ''ben'' \<noteq> Some Joined"
    by (simp_all add: demo_call_def isParticipant_def member_view_def jget_def)
  with accept_spec [OF demo_store(1) demo_created_call a] a show ?thesis
    by (auto simp: demo_active_def)
qed

text \<open>C35: joining, on every branch. An unknown call, an ended call and a stranger on a private call are refused and
  nothing changes; a participant, even one only invited, gets the call and nothing changes. A stranger on a
  live \<open>link\<close> call is appended as an invitee who has joined, invited and joined at the time read; the call is
  active, started now if it was pending and as before otherwise, and keeps its id, code, visibility, creator, creation
  and end; it alone is stored anew, and exactly one event tells that the user joined by the link.\<close>

theorem join_spec:
  assumes "store_ok s"
  shows "(case jget (cs_calls s) k of
      None \<Rightarrow> join k u s = (Inl (CallNotFoundError k), s)
    | Some c \<Rightarrow>
        if c_status c = Ended then join k u s = (Inl (CallInvalidStateError ''Call has ended''), s)
        else if list_ex (\<lambda>p. p_userId p = u) (c_participants c) then join k u s = (Inr c, s)
        else if c_visibility c = Private
        then join k u s = (Inl (CallForbiddenError (''User '' @ u @ '' is not a participant of call '' @ k)), s)
        else \<exists>c' s' p ev. join k u s = (Inr c', s') \<and> c_participants c' = c_participants c @ [p]
          \<and> p_userId p = u \<and> p_role p = Invitee \<and> p_status p = Joined \<and> p_leftAt p = None
          \<and> p_invitedAt p = fst (cs_now s) \<and> p_joinedAt p = Some (fst (cs_now s))
          \<and> c_status c' = Active
          \<and> c_startedAt c' = (if c_status c = Pending then Some (fst (cs_now s)) else c_startedAt c)
          \<and> c_id c' = k \<and> c_roomId c' = c_roomId c \<and> c_visibility c' = Link \<and> c_creatorId c' = c_creatorId c
          \<and> c_createdAt c' = c_createdAt c \<and> c_endedAt c' = c_endedAt c \<and> c_endedBy c' = c_endedBy c
          \<and> cs_calls s' = jset k c' (cs_calls s) \<and> cs_codes s' = cs_codes s
          \<and> cs_events s' = cs_events s @ [ev] \<and> cs_nextId s' = Suc (cs_nextId s)
          \<and> ev_id ev = cs_nextId s \<and> ev_callId ev = k \<and> ev_type ev = EvJoined \<and> ev_userId ev = u
          \<and> ev_payload ev = Some [(''via'', JStr ''link'')] \<and> ev_createdAt ev = fst (cs_now (snd (cs_now s))))"
proof (cases "jget (cs_calls s) k")
  case (Some c)
  have id: "c_id c = k" using store_ok_callD [OF assms Some] by simp
  have get: "getCall k s = Inr c" using Some by (simp add: getCall_def)
  have part: "isParticipant c u \<longleftrightarrow> list_ex (\<lambda>p. p_userId p = u) (c_participants c)"
    by (auto simp: isParticipant_iff list_ex_iff)
  show ?thesis
  proof (cases "c_status c \<noteq> Ended \<and> \<not> isParticipant c u \<and> c_visibility c = Link")
    case False
    then show ?thesis
      using Some get part id requireParticipant_err [of c u] requireParticipant_ok [of c u]
      by (cases "c_visibility c") (auto simp: join_def is_ok_iff split: sum.splits)
  next
    case True
    then show ?thesis
      using Some get id part
      by (cases "c_status c")
        (simp_all add: join_def joinAsLinkParticipant_def Let_def split_def cs_events_record_event cs_now_def put_call_def)
  qed
qed (simp add: join_def getCall_def)

theorem join_spec_witness:
  "join ''u'' ''eve'' demo_created = (Inl (CallForbiddenError ''User eve is not a participant of call u''), demo_created)
   \<and> join ''u'' ''ben'' demo_created = (Inr demo_call, demo_created)"
proof -
  have "c_status demo_call \<noteq> Ended" "c_visibility demo_call = Private"
    "\<not> list_ex (\<lambda>p. p_userId p = ''eve'') (c_participants demo_call)"
    "list_ex (\<lambda>p. p_userId p = ''ben'') (c_participants demo_call)"
    by (simp_all add: demo_call_def)
  with join_spec [OF demo_store(1), of "''u''"] demo_created_call show ?thesis by simp
qed

text \<open>Ending. Only a participant may end a call; ending an ended call changes nothing; ending a
  live one makes it ended, by that user, frees its room code and appends exactly one event
  \<open>ended\<close>, after which the code leads nowhere.\<close>

theorem end_call_spec:
  assumes "store_ok s" and "jget (cs_calls s) k = Some c" and "end_call k u s = (r, s')"
  shows "(\<not> isParticipant c u \<longrightarrow> r = Inl (CallForbiddenError ''Only participants can end the call''))
    \<and> (isParticipant c u \<and> c_status c = Ended \<longrightarrow> r = Inr c \<and> s' = s)
    \<and> (isParticipant c u \<and> c_status c \<noteq> Ended \<longrightarrow>
         (\<exists>c'. r = Inr c' \<and> cs_calls s' = jset k c' (cs_calls s) \<and> c_status c' = Ended
           \<and> c_endedBy c' = Some u \<and> c_participants c' = c_participants c
           \<and> getCallByRoomCode (c_roomId c) s' = Inl (CallNotFoundError (c_roomId c))
           \<and> map (\<lambda>ev. (ev_callId ev, ev_type ev, ev_userId ev)) (cs_events s')
             = map (\<lambda>ev. (ev_callId ev, ev_type ev, ev_userId ev)) (cs_events s) @ [(k, EvEnded, u)]))"
proof -
  have id: "c_id c = k" using store_ok_callD [OF assms(1,2)] by simp
  have get: "getCall k s = Inr c" using assms(2) by (simp add: getCall_def)
  show ?thesis
    using assms(3) get id
    by (cases "isParticipant c u"; cases "c_status c = Ended")
      (auto simp: end_call_def Let_def split_def cs_events_record_event getCallByRoomCode_def)
qed

theorem end_call_spec_witness:
  "\<exists>c'. fst (end_call ''u'' ''ben'' demo_created) = Inr c' \<and> c_endedBy c' = Some ''ben''"
proof -
  have "c_status demo_call = Pending" "isParticipant demo_call ''ben''"
    by (simp_all add: demo_call_def isParticipant_def)
  with end_call_spec [OF demo_store(1) demo_created_call surjective_pairing, of "''ben''"] show ?thesis
    by auto
qed

text \<open>Whoever invites, the event records the creator of the call as the one the invitation is
  by.\<close>

theorem invite_event_by_creator:
  assumes "store_ok s" and "jget (cs_calls s) k = Some c" and "c_status c \<noteq> Ended"
    and "u \<noteq> i" and "isParticipant c u" and "\<not> isParticipant c i"
  shows "ev_payload (last (cs_events (snd (invite k u i s)))) = Some [(''by'', JStr (c_creatorId c))]
    \<and> ev_type (last (cs_events (snd (invite k u i s)))) = EvInvited"
  using assms store_ok_callD [OF assms(1,2)]
  by (simp add: invite_def getCall_def inviteInternal_def Let_def split_def cs_events_record_event)

theorem invite_event_by_creator_witness:
  "ev_payload (last (cs_events (snd (invite ''u'' ''ben'' ''eve'' demo_created))))
     = Some [(''by'', JStr ''ana'')]"
proof -
  have "c_status demo_call = Pending" "isParticipant demo_call ''ben''"
    "\<not> isParticipant demo_call ''eve''" "c_creatorId demo_call = ''ana''"
    by (simp_all add: demo_call_def isParticipant_def)
  with invite_event_by_creator [OF demo_store(1) demo_created_call, of "''ben''" "''eve''"]
  show ?thesis by simp
qed

end
