(* ===== verification/Http.thy ===== *)
theory Http
  imports JsValue
begin

text \<open>
  The HTTP exceptions of the framework the handlers throw (\<open>BadRequestException\<close> and its
  siblings), each with its message, and the numbers the client sees.
\<close>

datatype http_error =
    BadRequest string
  | Unauthorized string
  | Forbidden string
  | NotFound string
  | Conflict string
  | ServiceUnavailable string

fun http_status :: "http_error \<Rightarrow> nat" where
  "http_status (BadRequest _) = 400"
| "http_status (Unauthorized _) = 401"
| "http_status (Forbidden _) = 403"
| "http_status (NotFound _) = 404"
| "http_status (Conflict _) = 409"
| "http_status (ServiceUnavailable _) = 503"

fun http_message :: "http_error \<Rightarrow> string" where
  "http_message (BadRequest m) = m"
| "http_message (Unauthorized m) = m"
| "http_message (Forbidden m) = m"
| "http_message (NotFound m) = m"
| "http_message (Conflict m) = m"
| "http_message (ServiceUnavailable m) = m"

end
