(* ===== verification/MediaTokens.thy ===== *)
theory MediaTokens
  imports Http
begin

text \<open>
  Credentials for the media plane: \<open>StaticTurnService\<close> (\<open>src/src/turn/turn.service.ts\<close>),
  \<open>StaticSfuService\<close> (\<open>src/src/sfu/sfu.service.ts\<close>), the two media providers and their
  selection (\<open>src/src/media-provider/\<close>), and \<open>deriveHttpUrl\<close>
  (\<open>src/src/config/livekit.config.ts\<close>). The HMAC of \<open>node:crypto\<close> and the LiveKit SDK are
  parameters: \<open>hmac secret text\<close> is the base64 digest, \<open>lk_jwt key secret request\<close> the token
  the SDK signs for an identity, a time to live and a grant. An expiry is the instant it
  denotes, in milliseconds.
\<close>

section \<open>TURN\<close>

record turn_config =
  turn_secret :: string
  turn_ttl :: "int option"
  turn_urls_cfg :: "string list option"

record turn_credentials =
  tc_urls :: "string list"
  tc_username :: string
  tc_credential :: string
  tc_ttl :: int
  tc_expiresAt :: int

definition turn_ttlSeconds :: "turn_config \<Rightarrow> int" where
  "turn_ttlSeconds cfg = or_default (turn_ttl cfg) 3600"

definition turn_default_urls :: "string list" where
  "turn_default_urls = [''turn:turn.koom.example.com:3478?transport=udp'',
                        ''turn:turn.koom.example.com:3478?transport=tcp'']"

definition turn_signed_text :: "string \<Rightarrow> string \<Rightarrow> int \<Rightarrow> string" where
  "turn_signed_text userId callId expiresAt = userId @ '':'' @ callId @ '':'' @ show_int expiresAt"

definition generateCredentials ::
    "(string \<Rightarrow> string \<Rightarrow> string) \<Rightarrow> turn_config \<Rightarrow> string \<Rightarrow> string \<Rightarrow> env \<Rightarrow> turn_credentials \<times> env" where
  "generateCredentials hmac cfg userId callId e =
     (let (t, e1) = read_clock e;
          issuedAt = t div 1000;
          expiresAt = issuedAt + turn_ttlSeconds cfg
      in (\<lparr>tc_urls = or_default (turn_urls_cfg cfg) turn_default_urls,
           tc_username = userId @ '':'' @ show_int expiresAt,
           tc_credential = hmac (turn_secret cfg) (turn_signed_text userId callId expiresAt),
           tc_ttl = turn_ttlSeconds cfg, tc_expiresAt = expiresAt * 1000\<rparr>, e1))"

text \<open>\<open>TurnController.getCredentials\<close>: an absent user id becomes \<open>anonymous\<close>.\<close>

definition turn_getCredentials ::
    "(string \<Rightarrow> string \<Rightarrow> string) \<Rightarrow> turn_config \<Rightarrow> string option \<Rightarrow> env \<Rightarrow> turn_credentials \<times> env" where
  "turn_getCredentials hmac cfg user e =
     generateCredentials hmac cfg (or_default user ''anonymous'') ''default'' e"

section \<open>Grants and tokens\<close>

datatype media_role = Host | MediaParticipant | Moderator

record video_grant =
  vg_room :: string
  vg_roomJoin :: bool
  vg_canPublish :: bool
  vg_canSubscribe :: bool
  vg_canPublishData :: bool
  vg_roomAdmin :: bool
  vg_canPublishSources :: "string list option"

record token_request =
  tr_identity :: string
  tr_ttl :: int
  tr_grant :: video_grant

type_synonym lk_signer = "string \<Rightarrow> string \<Rightarrow> token_request \<Rightarrow> string"

definition participant_grant :: "string \<Rightarrow> video_grant" where
  "participant_grant roomName =
     \<lparr>vg_room = roomName, vg_roomJoin = True, vg_canPublish = True, vg_canSubscribe = True,
      vg_canPublishData = True, vg_roomAdmin = False, vg_canPublishSources = None\<rparr>"

definition buildGrant :: "media_role \<Rightarrow> string \<Rightarrow> video_grant" where
  "buildGrant role roomName =
     (let base = participant_grant roomName
      in if role = Moderator then base\<lparr>vg_roomAdmin := True, vg_canPublishSources := Some []\<rparr>
         else if role = Host then base\<lparr>vg_roomAdmin := True\<rparr>
         else base)"

section \<open>The SFU service\<close>

record sfu_config =
  sfu_apiKey :: "string option"
  sfu_apiSecret :: "string option"
  sfu_url_cfg :: "string option"

record sfu_token =
  st_token :: string
  st_url :: string
  st_roomId :: string
  st_callId :: string
  st_userId :: string
  st_expiresAt :: int

definition sfu_ttlSeconds :: int where
  "sfu_ttlSeconds = 1800"

definition deriveRoomId :: "string \<Rightarrow> string" where
  "deriveRoomId callId = ''sfu-'' @ callId"

definition issueToken ::
    "lk_signer \<Rightarrow> sfu_config \<Rightarrow> string \<Rightarrow> string \<Rightarrow> env \<Rightarrow> (http_error + sfu_token) \<times> env" where
  "issueToken lk cfg callId userId e =
     (let apiKey = or_default (sfu_apiKey cfg) []; apiSecret = or_default (sfu_apiSecret cfg) []
      in if apiKey = [] \<or> apiSecret = []
         then (Inl (ServiceUnavailable
                 ''SFU no configurado: define LIVEKIT_API_KEY y LIVEKIT_API_SECRET''), e)
         else let (t, e1) = read_clock e;
                  expiresAt = t div 1000 + sfu_ttlSeconds;
                  roomId = deriveRoomId callId
              in (Inr \<lparr>st_token = lk apiKey apiSecret
                         \<lparr>tr_identity = userId, tr_ttl = sfu_ttlSeconds, tr_grant = participant_grant roomId\<rparr>,
                       st_url = or_default (sfu_url_cfg cfg) [], st_roomId = roomId,
                       st_callId = callId, st_userId = userId, st_expiresAt = expiresAt * 1000\<rparr>, e1))"


section \<open>Media providers\<close>

definition roomNameForCall :: "string \<Rightarrow> string" where
  "roomNameForCall callId = ''koom-call-'' @ callId"

record lk_client =
  lkc_url :: string
  lkc_apiKey :: string
  lkc_apiSecret :: string

record token_args =
  ta_userId :: string
  ta_callId :: string
  ta_role :: media_role
  ta_ttlSeconds :: "int option"

record token_result =
  tk_token :: string
  tk_url :: string
  tk_expiresAt :: int

record room_result =
  rr_roomName :: string
  rr_providerRoomId :: string

definition DEFAULT_TOKEN_TTL_SECONDS :: int where
  "DEFAULT_TOKEN_TTL_SECONDS = 60 * 60"

text \<open>
  \<open>LiveKitMediaProvider\<close>. \<open>rooms name\<close> is what the SDK's \<open>createRoom\<close> answers, or the error
  it rejects with.
\<close>

definition livekit_createRoom :: "(string \<Rightarrow> string + jsval) \<Rightarrow> string \<Rightarrow> string + room_result" where
  "livekit_createRoom rooms callId =
     (let roomName = roomNameForCall callId
      in res_bind (rooms roomName) (\<lambda>room.
           Inr \<lparr>rr_roomName = roomName,
                rr_providerRoomId = or_default (nonempty_str (js_prop ''sid'' room)) roomName\<rparr>))"

text \<open>\<open>gone name\<close> is what the SDK's \<open>deleteRoom\<close> answers.\<close>

definition livekit_deleteRoom :: "(string \<Rightarrow> string + unit) \<Rightarrow> string \<Rightarrow> string + unit" where
  "livekit_deleteRoom gone callId = gone (roomNameForCall callId)"

definition livekit_createAccessToken ::
    "lk_signer \<Rightarrow> lk_client \<Rightarrow> int option \<Rightarrow> token_args \<Rightarrow> env \<Rightarrow> token_result \<times> env" where
  "livekit_createAccessToken lk client defaultTtl args e =
     (let roomName = roomNameForCall (ta_callId args);
          ttl = or_default (ta_ttlSeconds args) (or_default defaultTtl DEFAULT_TOKEN_TTL_SECONDS);
          jwt = lk (lkc_apiKey client) (lkc_apiSecret client)
                  \<lparr>tr_identity = ta_userId args, tr_ttl = ttl, tr_grant = buildGrant (ta_role args) roomName\<rparr>;
          (t, e1) = read_clock e
      in (\<lparr>tk_token = jwt, tk_url = lkc_url client, tk_expiresAt = t + ttl * 1000\<rparr>, e1))"

definition livekit_validateWebhook :: "jsval \<Rightarrow> string \<Rightarrow> bool" where
  "livekit_validateWebhook payload signature = False"

fun role_str :: "media_role \<Rightarrow> string" where
  "role_str Host = ''host''"
| "role_str MediaParticipant = ''participant''"
| "role_str Moderator = ''moderator''"

definition NOOP_URL :: string where
  "NOOP_URL = ''noop://localhost''"

definition NOOP_TOKEN_TTL_SECONDS :: int where
  "NOOP_TOKEN_TTL_SECONDS = 60 * 60"

definition noop_createRoom :: "string \<Rightarrow> room_result" where
  "noop_createRoom callId = \<lparr>rr_roomName = roomNameForCall callId, rr_providerRoomId = ''noop-'' @ callId\<rparr>"

definition noop_createAccessToken ::
    "string option \<Rightarrow> int option \<Rightarrow> token_args \<Rightarrow> env \<Rightarrow> token_result \<times> env" where
  "noop_createAccessToken url ttl args e =
     (let ttlSeconds = or_default (ta_ttlSeconds args) (or_default ttl NOOP_TOKEN_TTL_SECONDS);
          token = ''noop-token:'' @ ta_userId args @ '':'' @ ta_callId args @ '':'' @ role_str (ta_role args);
          (t, e1) = read_clock e
      in (\<lparr>tk_token = token, tk_url = or_default url NOOP_URL, tk_expiresAt = t + ttlSeconds * 1000\<rparr>, e1))"

definition noop_validateWebhook :: "jsval \<Rightarrow> string \<Rightarrow> bool" where
  "noop_validateWebhook payload signature = False"

text \<open>The provider the module wires, chosen from the configuration.\<close>

definition deriveHttpUrl :: "string \<Rightarrow> string" where
  "deriveHttpUrl url =
     (if url = [] then []
      else if starts_with ''http://'' url \<or> starts_with ''https://'' url then url
      else if starts_with ''ws://'' url then ''http://'' @ drop (length ''ws://'') url
      else if starts_with ''wss://'' url then ''https://'' @ drop (length ''wss://'') url
      else url)"

record media_env =
  me_url :: "string option"
  me_httpUrl :: "string option"
  me_apiKey :: "string option"
  me_apiSecret :: "string option"

definition truthy_str :: "string option \<Rightarrow> bool" where
  "truthy_str x \<longleftrightarrow> x \<noteq> None \<and> x \<noteq> Some []"

definition readMediaProviderEnv :: "media_env \<Rightarrow> media_env" where
  "readMediaProviderEnv source =
     (let url = or_default (me_url source) [];
          httpUrl = (if truthy_str (me_httpUrl source) then me_httpUrl source
                     else Some (deriveHttpUrl url))
      in if url = [] \<or> \<not> truthy_str (me_apiKey source) \<or> \<not> truthy_str (me_apiSecret source)
         then \<lparr>me_url = None, me_httpUrl = None, me_apiKey = None, me_apiSecret = None\<rparr>
         else \<lparr>me_url = Some url, me_httpUrl = httpUrl, me_apiKey = me_apiKey source,
               me_apiSecret = me_apiSecret source\<rparr>)"

datatype media_provider = LiveKitProvider lk_client | NoopProvider

definition selectMediaProvider :: "media_env \<Rightarrow> media_provider" where
  "selectMediaProvider env =
     (if truthy_str (me_url env) \<and> truthy_str (me_apiKey env) \<and> truthy_str (me_apiSecret env)
      then LiveKitProvider
             \<lparr>lkc_url = or_default (me_httpUrl env) (or_default (me_url env) []),
              lkc_apiKey = or_default (me_apiKey env) [], lkc_apiSecret = or_default (me_apiSecret env) []\<rparr>
      else NoopProvider)"


section \<open>The contract of a provider\<close>

text \<open>
  What the interface \<open>MediaProvider\<close> promises: a room is named after its call and has an id
  with the provider, and a token expires the time to live after the clock was read.
\<close>

locale media_contract =
  fixes create :: "string \<Rightarrow> string + room_result"
    and mint :: "token_args \<Rightarrow> env \<Rightarrow> token_result \<times> env"
    and ttl :: int
  assumes create_name: "create k = Inr r \<Longrightarrow> rr_roomName r = roomNameForCall k"
    and create_id: "create k = Inr r \<Longrightarrow> rr_providerRoomId r \<noteq> []"
    and mint_expiry: "tk_expiresAt (fst (mint a e)) = e_clock e (n_clock e) + or_default (ta_ttlSeconds a) ttl * 1000"
    and mint_env: "snd (mint a e) = snd (read_clock e)"
begin

lemma rooms_apart: "create k = Inr r \<Longrightarrow> create k' = Inr r' \<Longrightarrow> rr_roomName r = rr_roomName r' \<Longrightarrow> k = k'"
  by (drule create_name)+ (simp add: roomNameForCall_def)

lemma later_expires_later:
  assumes "ta_ttlSeconds a = Some n" and "ta_ttlSeconds b = Some m" and "n \<le> m"
  shows "tk_expiresAt (fst (mint a e)) \<le> tk_expiresAt (fst (mint b e))"
  using assms by (simp add: mint_expiry)

end

lemma nonempty_or: "or_default (nonempty_str v) d = [] \<longleftrightarrow> nonempty_str v = None \<and> d = []"
  by (cases "nonempty_str v") (auto simp: nonempty_str_Some)

interpretation lkp: media_contract "livekit_createRoom rooms" "livekit_createAccessToken lk client dflt"
    "or_default dflt DEFAULT_TOKEN_TTL_SECONDS" for rooms lk client dflt
  by unfold_locales
    (auto simp: livekit_createRoom_def livekit_createAccessToken_def Let_def res_bind_Inr split_def
      read_clock_def nonempty_or roomNameForCall_def)

interpretation noopp: media_contract "\<lambda>k. Inr (noop_createRoom k)" "noop_createAccessToken url t"
    "or_default t NOOP_TOKEN_TTL_SECONDS" for url t
  by unfold_locales
    (auto simp: noop_createRoom_def noop_createAccessToken_def Let_def split_def read_clock_def)

text \<open>The rooms of the LiveKit provider are apart: two calls never share a media room, whatever
  the server answers, and every room it reports has a name made of the call id and a nonempty
  provider id.\<close>

theorem livekit_rooms_apart:
  assumes "livekit_createRoom rooms k = Inr r" and "livekit_createRoom rooms k' = Inr r'"
  shows "(rr_roomName r = rr_roomName r' \<longleftrightarrow> k = k') \<and> rr_roomName r = ''koom-call-'' @ k
    \<and> rr_providerRoomId r \<noteq> []"
  using lkp.rooms_apart [OF assms] lkp.create_id [OF assms(1)] lkp.create_name [OF assms(1)]
    lkp.create_name [OF assms(2)]
  by (auto simp: roomNameForCall_def)

theorem livekit_rooms_apart_witness:
  "livekit_createRoom (\<lambda>n. Inr (JObj [(''sid'', JStr n)])) ''a''
     = Inr \<lparr>rr_roomName = ''koom-call-a'', rr_providerRoomId = ''koom-call-a''\<rparr> \<and> ''koom-call-a'' \<noteq> ''koom-call-b''"
proof -
  let ?f = "livekit_createRoom (\<lambda>n. Inr (JObj [(''sid'', JStr n)]))"
  have a: "?f ''a'' = Inr \<lparr>rr_roomName = ''koom-call-a'', rr_providerRoomId = ''koom-call-a''\<rparr>"
    and b: "?f ''b'' = Inr \<lparr>rr_roomName = ''koom-call-b'', rr_providerRoomId = ''koom-call-b''\<rparr>"
    by (simp_all add: livekit_createRoom_def roomNameForCall_def Let_def)
  from livekit_rooms_apart [OF a b] a show ?thesis by simp
qed

section \<open>Properties of the credentials\<close>

text \<open>A separator that does not occur before it can be found again.\<close>

lemma split_at_sep:
  assumes "x \<notin> set u" and "x \<notin> set u'" and "u @ x # r = u' @ x # r'"
  shows "u = u' \<and> r = r'"
proof -
  have t: "takeWhile (\<lambda>c. c \<noteq> x) (v @ x # w) = v" if "x \<notin> set v" for v w
    using that by (induction v) auto
  from t [OF assms(1), of r] t [OF assms(2), of r'] assms(3) have "u = u'" by simp
  with assms(3) show ?thesis by simp
qed

lemma show_int_inj: "show_int i = show_int j \<longleftrightarrow> i = j"
proof -
  have nd: "show_nat n \<noteq> CHR ''-'' # r" for n r
  proof
    assume "show_nat n = CHR ''-'' # r"
    then have "CHR ''-'' \<in> set (show_nat n)" by simp
    then obtain d where "d < 10" "CHR ''-'' = digit_char d" using show_nat_digits by blast
    then have "(of_char (CHR ''-'') :: nat) = of_char (digit_char d)" by simp
    moreover have "(of_char (digit_char d) :: nat) = 48 + d"
      using \<open>d < 10\<close> by (simp add: digit_char_def)
    ultimately show False by simp
  qed
  show ?thesis
    using nd nd [symmetric] by (auto simp: show_int_def show_nat_inj)
qed


lemma show_int_no_colon: "CHR '':'' \<notin> set (show_int i)"
proof -
  have "CHR '':'' \<notin> set (show_nat n)" for n
  proof
    assume "CHR '':'' \<in> set (show_nat n)"
    then obtain d where "d < 10" "CHR '':'' = digit_char d" using show_nat_digits by blast
    then have "(of_char (CHR '':'') :: nat) = of_char (digit_char d)" by simp
    moreover have "(of_char (digit_char d) :: nat) = 48 + d"
      using \<open>d < 10\<close> by (simp add: digit_char_def)
    ultimately show False using \<open>d < 10\<close> by simp
  qed
  then show ?thesis by (simp add: show_int_def)
qed

text \<open>The text a TURN credential signs determines the user, the call and the expiry, as long as
  neither id contains a colon (with colons two users can share a credential), and it is never
  the user name handed out with it, which leaves the call out.\<close>

theorem turn_signed_text_unambiguous:
  assumes "CHR '':'' \<notin> set u" and "CHR '':'' \<notin> set u'" and "CHR '':'' \<notin> set k" and "CHR '':'' \<notin> set k'"
  shows "(turn_signed_text u k t = turn_signed_text u' k' t' \<longleftrightarrow> u = u' \<and> k = k' \<and> t = t')
    \<and> turn_signed_text u k t \<noteq> tc_username (fst (generateCredentials hmac cfg u k e))
    \<and> turn_signed_text ''a:b'' ''c'' t = turn_signed_text ''a'' ''b:c'' t"
proof -
  have "u = u' \<and> k = k' \<and> t = t'" if "turn_signed_text u k t = turn_signed_text u' k' t'"
  proof -
    from that have eq: "u @ CHR '':'' # (k @ CHR '':'' # show_int t) = u' @ CHR '':'' # (k' @ CHR '':'' # show_int t')"
      by (simp add: turn_signed_text_def)
    from split_at_sep [OF assms(1,2) eq] have "u = u'"
      and "k @ CHR '':'' # show_int t = k' @ CHR '':'' # show_int t'" by auto
    moreover from this(2) have "k = k' \<and> show_int t = show_int t'"
      by (rule split_at_sep [OF assms(3,4)])
    ultimately show ?thesis by (simp add: show_int_inj)
  qed
  moreover have "turn_signed_text u k t \<noteq> u @ '':'' @ show_int t'" for t'
  proof
    assume "turn_signed_text u k t = u @ '':'' @ show_int t'"
    then have "k @ '':'' @ show_int t = show_int t'" by (simp add: turn_signed_text_def)
    then have "CHR '':'' \<in> set (show_int t')" by (metis append_Cons in_set_conv_decomp append_Nil)
    then show False using show_int_no_colon by blast
  qed
  ultimately show ?thesis
    by (auto simp: generateCredentials_def Let_def split_def turn_signed_text_def)
qed

theorem turn_signed_text_unambiguous_witness:
  "turn_signed_text ''ana'' ''c1'' 7 \<noteq> turn_signed_text ''ben'' ''c1'' 7"
  using turn_signed_text_unambiguous [of "''ana''" "''ben''" "''c1''" "''c1''" 7 7 ] by simp

text \<open>A TURN credential expires its time to live after the second it was issued in, and within a
  second of that; the user name carries that expiry.\<close>

theorem turn_credentials_expiry:
  "let cr = fst (generateCredentials hmac cfg u k e); now = e_clock e (n_clock e)
   in tc_expiresAt cr \<le> now + turn_ttlSeconds cfg * 1000
    \<and> now + turn_ttlSeconds cfg * 1000 - 1000 < tc_expiresAt cr
    \<and> tc_username cr = u @ '':'' @ show_int (tc_expiresAt cr div 1000)
    \<and> tc_credential cr = hmac (turn_secret cfg) (turn_signed_text u k (tc_expiresAt cr div 1000))"
proof -
  let ?now = "e_clock e (n_clock e)"
  have "?now = ?now div 1000 * 1000 + ?now mod 1000" "0 \<le> ?now mod 1000" "?now mod 1000 < 1000"
    by simp_all
  then have "(?now div 1000 + T) * 1000 \<le> ?now + T * 1000"
    "?now + T * 1000 - 1000 < (?now div 1000 + T) * 1000" for T
    by (simp_all add: algebra_simps)
  then show ?thesis
    by (simp add: generateCredentials_def Let_def split_def read_clock_def)
qed

text \<open>An SFU token is issued exactly when key and secret are configured; it names the user, lives
  1800 seconds, and grants joining only the room of its call, without room administration.\<close>

theorem issueToken_spec:
  "case fst (issueToken lk cfg k u e) of
     Inl err \<Rightarrow> http_status err = 503 \<and> (or_default (sfu_apiKey cfg) [] = [] \<or> or_default (sfu_apiSecret cfg) [] = [])
   | Inr t \<Rightarrow> or_default (sfu_apiKey cfg) [] \<noteq> [] \<and> or_default (sfu_apiSecret cfg) [] \<noteq> []
       \<and> (\<exists>g. st_token t = lk (or_default (sfu_apiKey cfg) []) (or_default (sfu_apiSecret cfg) [])
                    \<lparr>tr_identity = u, tr_ttl = 1800, tr_grant = g\<rparr>
            \<and> vg_room g = ''sfu-'' @ k \<and> vg_roomJoin g \<and> \<not> vg_roomAdmin g)
       \<and> st_roomId t = ''sfu-'' @ k \<and> st_callId t = k \<and> st_userId t = u
       \<and> st_expiresAt t = (e_clock e (n_clock e) div 1000 + 1800) * 1000"
  by (auto simp: issueToken_def Let_def split_def deriveRoomId_def participant_grant_def
      sfu_ttlSeconds_def read_clock_def)

text \<open>The media provider is LiveKit exactly when url, key and secret are all set and nonempty,
  with the HTTP url given or else the one derived from the url, which replaces a WebSocket
  scheme by the matching HTTP scheme.\<close>

theorem provider_selection:
  "selectMediaProvider (readMediaProviderEnv m) =
     (if truthy_str (me_url m) \<and> truthy_str (me_apiKey m) \<and> truthy_str (me_apiSecret m)
      then LiveKitProvider
        \<lparr>lkc_url = (if truthy_str (me_httpUrl m) then the (me_httpUrl m) else deriveHttpUrl (the (me_url m))),
         lkc_apiKey = the (me_apiKey m), lkc_apiSecret = the (me_apiSecret m)\<rparr>
      else NoopProvider)
   \<and> deriveHttpUrl (''ws://'' @ r) = ''http://'' @ r \<and> deriveHttpUrl (''wss://'' @ r) = ''https://'' @ r"
  by (cases "me_url m"; cases "me_apiKey m"; cases "me_apiSecret m"; cases "me_httpUrl m")
    (auto simp: selectMediaProvider_def readMediaProviderEnv_def truthy_str_def Let_def
      deriveHttpUrl_def starts_with_def)

end
