(* ===== verification/CallsController.thy ===== *)
theory CallsController
  imports CallsClaims MediaTokens
begin

text \<open>
  The HTTP interface of the calls: the body parsers of \<open>src/src/calls/dto.ts\<close> and the handlers
  of \<open>src/src/calls/calls.controller.ts\<close>. A handler takes the authenticated user (\<open>None\<close> when
  the request carries none) and returns the exception thrown or the response, with the new
  state. The HMAC and the LiveKit signer are parameters, as in \<open>MediaTokens\<close>.
\<close>

section \<open>Bodies\<close>

record create_dto =
  cd_invitees :: "string list option"
  cd_visibility :: "call_visibility option"

text \<open>What a handler may throw: an error of the service, a plain \<open>Error\<close>, an HTTP exception.\<close>

datatype thrown = TCall call_error | TError string | THttp http_error

fun nonempty_strs :: "jsval list \<Rightarrow> string list option" where
  "nonempty_strs [] = Some []"
| "nonempty_strs (v # vs) =
     (case nonempty_str v of None \<Rightarrow> None | Some s \<Rightarrow> map_option (Cons s) (nonempty_strs vs))"

definition parse_invitees :: "jsval \<Rightarrow> thrown + string list option" where
  "parse_invitees v =
     (case v of
        JUndef \<Rightarrow> Inr None
      | JArr vs \<Rightarrow> (case nonempty_strs vs of
            None \<Rightarrow> Inl (TError ''invitees must be a list of non-empty strings'')
          | Some ids \<Rightarrow> Inr (Some ids))
      | _ \<Rightarrow> Inl (TError ''invitees must be an array of userIds''))"

definition parse_visibility :: "jsval \<Rightarrow> thrown + call_visibility option" where
  "parse_visibility v =
     (if v = JUndef then Inr None
      else if v = JStr ''private'' then Inr (Some Private)
      else if v = JStr ''link'' then Inr (Some Link)
      else Inl (TError (''visibility must be either '' @ [CHR 0x27] @ ''private'' @ [CHR 0x27] @ '' or ''
             @ [CHR 0x27] @ ''link'' @ [CHR 0x27])))"

definition parseCreateCallDto :: "jsval \<Rightarrow> thrown + create_dto" where
  "parseCreateCallDto body =
     (if body = JUndef \<or> body = JNull then Inr \<lparr>cd_invitees = None, cd_visibility = None\<rparr>
      else if \<not> typeof_object body then Inl (TError ''Body must be an object'')
      else res_bind (parse_invitees (js_prop ''invitees'' body)) (\<lambda>inv.
           res_bind (parse_visibility (js_prop ''visibility'' body)) (\<lambda>vis.
             Inr \<lparr>cd_invitees = inv, cd_visibility = vis\<rparr>)))"

definition parseInviteCallDto :: "jsval \<Rightarrow> thrown + string" where
  "parseInviteCallDto body =
     (if body = JUndef \<or> body = JNull then Inl (TError ''Body is required'')
      else if \<not> typeof_object body then Inl (TError ''Body must be an object'')
      else case nonempty_str (js_prop ''inviteeId'' body) of
             None \<Rightarrow> Inl (TError ''inviteeId is required'')
           | Some i \<Rightarrow> Inr i)"

definition status_error :: string where
  "status_error = ''status must be one of: '' @ [CHR 0x27] @ ''all'' @ [CHR 0x27] @ '', '' @ [CHR 0x27]
     @ ''pending'' @ [CHR 0x27] @ '', '' @ [CHR 0x27] @ ''active'' @ [CHR 0x27] @ '', '' @ [CHR 0x27]
     @ ''ended'' @ [CHR 0x27]"

text \<open>\<open>None\<close> in the result is \<open>'all'\<close>.\<close>

definition parseListStatus :: "jsval \<Rightarrow> thrown + call_status option" where
  "parseListStatus raw =
     (if raw = JUndef \<or> raw = JNull \<or> raw = JStr [] then Inr None
      else if raw = JStr ''all'' then Inr None
      else if raw = JStr ''pending'' then Inr (Some Pending)
      else if raw = JStr ''active'' then Inr (Some Active)
      else if raw = JStr ''ended'' then Inr (Some Ended)
      else Inl (THttp (BadRequest status_error)))"

section \<open>Responses and errors\<close>

definition userIdOrThrow :: "string option \<Rightarrow> thrown + string" where
  "userIdOrThrow user =
     (case user of None \<Rightarrow> Inl (THttp (Forbidden ''Authenticated user required'')) | Some u \<Rightarrow> Inr u)"

record call_list_item =
  li_id :: string
  li_roomId :: string
  li_status :: call_status
  li_visibility :: call_visibility
  li_creatorId :: string
  li_createdAt :: int
  li_startedAt :: "int option"
  li_endedAt :: "int option"
  li_participantCount :: nat

definition toResponse :: "call \<Rightarrow> call" where
  "toResponse c =
     \<lparr>c_id = c_id c, c_roomId = c_roomId c, c_status = c_status c, c_visibility = c_visibility c,
      c_creatorId = c_creatorId c, c_participants = c_participants c, c_createdAt = c_createdAt c,
      c_startedAt = c_startedAt c, c_endedAt = c_endedAt c, c_endedBy = c_endedBy c\<rparr>"

definition toListItem :: "call \<Rightarrow> call_list_item" where
  "toListItem c =
     \<lparr>li_id = c_id c, li_roomId = c_roomId c, li_status = c_status c, li_visibility = c_visibility c,
      li_creatorId = c_creatorId c, li_createdAt = c_createdAt c, li_startedAt = c_startedAt c,
      li_endedAt = c_endedAt c, li_participantCount = length (c_participants c)\<rparr>"

fun translateError :: "thrown \<Rightarrow> http_error" where
  "translateError (TCall (CallNotFoundError k)) = NotFound (call_error_message (CallNotFoundError k))"
| "translateError (TCall (CallForbiddenError m)) = Forbidden m"
| "translateError (TCall (CallConflictError m)) = Conflict m"
| "translateError (TCall (CallInvalidStateError m)) = Conflict m"
| "translateError (TCall CallCodeCollisionError) =
     ServiceUnavailable (call_error_message CallCodeCollisionError)"
| "translateError (TError m) = BadRequest m"
| "translateError (THttp e) = BadRequest (http_message e)"

definition of_service :: "(call_error + 'a) \<Rightarrow> thrown + 'a" where
  "of_service r = map_sum TCall id r"

definition answer :: "thrown + 'a \<Rightarrow> http_error + 'a" where
  "answer r = map_sum translateError id r"


section \<open>Handlers\<close>

definition http_create :: "jsval \<Rightarrow> string option \<Rightarrow> calls_state \<Rightarrow> (http_error + call) \<times> calls_state" where
  "http_create body user s =
     (case parseCreateCallDto body of
        Inl e \<Rightarrow> (Inl (translateError e), s)
      | Inr dto \<Rightarrow> case userIdOrThrow user of
          Inl e \<Rightarrow> (Inl (translateError e), s)
        | Inr u \<Rightarrow>
            let (r, s') = createCall \<lparr>ci_creatorId = u, ci_roomId = None, ci_invitees = cd_invitees dto,
                                      ci_visibility = cd_visibility dto\<rparr> s
            in (answer (map_sum id toResponse (of_service r)), s'))"

definition http_listMine :: "jsval \<Rightarrow> string option \<Rightarrow> calls_state \<Rightarrow> http_error + call_list_item list" where
  "http_listMine statusRaw user s =
     answer (res_bind (parseListStatus statusRaw) (\<lambda>status.
       res_bind (userIdOrThrow user) (\<lambda>u. Inr (map toListItem (listForUser u status s)))))"

definition not_a_participant :: thrown where
  "not_a_participant = TCall (CallForbiddenError ''Not a participant of this call'')"

text \<open>The call, for a participant only: the guard \<open>get\<close> and \<open>eventsFor\<close> share.\<close>

definition member_call :: "string \<Rightarrow> string option \<Rightarrow> calls_state \<Rightarrow> thrown + call" where
  "member_call idOrCode user s =
     res_bind (of_service (getCallByIdOrCode idOrCode s)) (\<lambda>c.
     res_bind (userIdOrThrow user) (\<lambda>u.
       if \<not> isParticipant c u then Inl not_a_participant else Inr c))"

definition http_get :: "string \<Rightarrow> string option \<Rightarrow> calls_state \<Rightarrow> http_error + call" where
  "http_get idOrCode user s = answer (map_sum id toResponse (member_call idOrCode user s))"

definition http_eventsFor :: "string \<Rightarrow> string option \<Rightarrow> calls_state \<Rightarrow> http_error + call_event list" where
  "http_eventsFor idOrCode user s =
     answer (map_sum id (\<lambda>c. forCall (c_id c) s) (member_call idOrCode user s))"

text \<open>The common frame of the handlers that change a call: find it, take the user, act.\<close>

definition on_call ::
    "(string \<Rightarrow> string \<Rightarrow> calls_state \<Rightarrow> (call_error + call) \<times> calls_state) \<Rightarrow>
     string \<Rightarrow> string option \<Rightarrow> calls_state \<Rightarrow> (http_error + call) \<times> calls_state" where
  "on_call act idOrCode user s =
     (case res_bind (of_service (getCallByIdOrCode idOrCode s)) (\<lambda>c.
             map_sum id (Pair (c_id c)) (userIdOrThrow user)) of
        Inl e \<Rightarrow> (Inl (translateError e), s)
      | Inr (callId, u) \<Rightarrow>
          let (r, s') = act callId u s in (answer (map_sum id toResponse (of_service r)), s'))"

definition http_invite ::
    "string \<Rightarrow> jsval \<Rightarrow> string option \<Rightarrow> calls_state \<Rightarrow> (http_error + call) \<times> calls_state" where
  "http_invite idOrCode body user s =
     (case parseInviteCallDto body of
        Inl e \<Rightarrow> (Inl (translateError e), s)
      | Inr inviteeId \<Rightarrow> on_call (\<lambda>k u. invite k u inviteeId) idOrCode user s)"

definition http_accept :: "string \<Rightarrow> string option \<Rightarrow> calls_state \<Rightarrow> (http_error + call) \<times> calls_state" where
  "http_accept idOrCode user s = on_call accept idOrCode user s"

definition http_join :: "string \<Rightarrow> string option \<Rightarrow> calls_state \<Rightarrow> (http_error + call) \<times> calls_state" where
  "http_join idOrCode user s = on_call join idOrCode user s"

definition http_end :: "string \<Rightarrow> string option \<Rightarrow> calls_state \<Rightarrow> (http_error + call) \<times> calls_state" where
  "http_end idOrCode user s = on_call end_call idOrCode user s"

text \<open>The guard of the two handlers that hand out media credentials.\<close>

definition media_call :: "string \<Rightarrow> string option \<Rightarrow> calls_state \<Rightarrow> thrown + call \<times> string" where
  "media_call idOrCode user s =
     res_bind (userIdOrThrow user) (\<lambda>u.
     res_bind (of_service (getCallByIdOrCode idOrCode s)) (\<lambda>c.
       if \<not> isParticipant c u then Inl not_a_participant
       else if c_status c = Ended then Inl (TCall (CallInvalidStateError ''Call has ended''))
       else Inr (c, u)))"

definition http_turnCredentials ::
    "(string \<Rightarrow> string \<Rightarrow> string) \<Rightarrow> turn_config \<Rightarrow> string \<Rightarrow> string option \<Rightarrow> calls_state
     \<Rightarrow> (http_error + turn_credentials) \<times> calls_state" where
  "http_turnCredentials hmac cfg idOrCode user s =
     (case media_call idOrCode user s of
        Inl e \<Rightarrow> (Inl (translateError e), s)
      | Inr (c, u) \<Rightarrow>
          let (creds, e1) = generateCredentials hmac cfg u (c_id c) (cs_env s)
          in (Inr creds, s\<lparr>cs_env := e1\<rparr>))"

definition http_sfuToken ::
    "lk_signer \<Rightarrow> sfu_config \<Rightarrow> string \<Rightarrow> string option \<Rightarrow> calls_state
     \<Rightarrow> (http_error + sfu_token) \<times> calls_state" where
  "http_sfuToken lk cfg idOrCode user s =
     (case media_call idOrCode user s of
        Inl e \<Rightarrow> (Inl (translateError e), s)
      | Inr (c, u) \<Rightarrow>
          let (r, e1) = issueToken lk cfg (c_id c) u (cs_env s)
          in (answer (map_sum THttp id r), s\<lparr>cs_env := e1\<rparr>))"

section \<open>The bodies accepted\<close>

lemma nonempty_strs_Some:
  "nonempty_strs vs = Some ids \<longleftrightarrow> vs = map JStr ids \<and> [] \<notin> set ids"
proof (induction vs arbitrary: ids)
  case Nil
  then show ?case by auto
next
  case (Cons v vs)
  show ?case
  proof (cases "nonempty_str v")
    case None
    then show ?thesis by (cases ids) (auto split: if_splits)
  next
    case (Some s)
    then have "v = JStr s" "s \<noteq> []" by (simp_all add: nonempty_str_Some)
    then show ?thesis using Cons.IH by (cases ids) auto
  qed
qed

lemma parse_invitees_Inr:
  "parse_invitees v = Inr x \<longleftrightarrow>
     v = (case x of None \<Rightarrow> JUndef | Some ids \<Rightarrow> JArr (map JStr ids)) \<and> [] \<notin> set (or_default x [])"
proof (cases v)
  case (JArr vs)
  show ?thesis
  proof (cases "nonempty_strs vs")
    case None
    then have "vs = map JStr ids \<Longrightarrow> [] \<in> set ids" for ids
      using nonempty_strs_Some [of vs ids] by simp
    with None JArr show ?thesis by (cases x) (auto simp: parse_invitees_def)
  next
    case (Some ids)
    then have "vs = map JStr ids" "[] \<notin> set ids" by (simp_all add: nonempty_strs_Some)
    moreover have "inj JStr" by (simp add: inj_def)
    ultimately show ?thesis using Some JArr
      by (cases x) (auto simp: parse_invitees_def inj_map_eq_map)
  qed
qed (cases x; auto simp: parse_invitees_def)+

lemma parse_visibility_Inr:
  "parse_visibility v = Inr x \<longleftrightarrow>
     v = (case x of None \<Rightarrow> JUndef | Some w \<Rightarrow> JStr (visibility_str w))"
proof (cases x)
  case (Some w)
  then show ?thesis by (cases w) (auto simp: parse_visibility_def)
qed (auto simp: parse_visibility_def)

text \<open>The body of a creation is accepted exactly when it is absent, or an object whose
  \<open>invitees\<close> is absent or a list of nonempty strings and whose \<open>visibility\<close> is absent, \<open>private\<close> or
  \<open>link\<close>; what is accepted is what was sent.\<close>

theorem parseCreateCallDto_spec:
  "parseCreateCallDto body = Inr dto \<longleftrightarrow>
     (body = JUndef \<or> body = JNull \<or> typeof_object body)
     \<and> js_prop ''invitees'' body =
         (case cd_invitees dto of None \<Rightarrow> JUndef | Some ids \<Rightarrow> JArr (map JStr ids))
     \<and> [] \<notin> set (or_default (cd_invitees dto) [])
     \<and> js_prop ''visibility'' body =
         (case cd_visibility dto of None \<Rightarrow> JUndef | Some v \<Rightarrow> JStr (visibility_str v))"
proof (cases "body = JUndef \<or> body = JNull")
  case True
  have "JUndef = (case x of None \<Rightarrow> JUndef | Some ids \<Rightarrow> JArr (map JStr ids)) \<longleftrightarrow> x = None"
    "JUndef = (case y of None \<Rightarrow> JUndef | Some v \<Rightarrow> JStr (visibility_str v)) \<longleftrightarrow> y = None" for x y
    by (auto split: option.splits)
  moreover have "js_prop k body = JUndef" for k using True by auto
  ultimately show ?thesis using True
    by (cases dto) (auto simp: parseCreateCallDto_def)
next
  case False
  then show ?thesis
    by (cases dto)
      (auto simp: parseCreateCallDto_def res_bind_Inr parse_invitees_Inr parse_visibility_Inr)
qed


section \<open>Who is answered\<close>

lemma is_ok_answer [simp]: "is_ok (answer r) \<longleftrightarrow> is_ok r"
  by (cases r) (simp_all add: answer_def)

lemma is_ok_map_sum [simp]: "is_ok (map_sum f g r) \<longleftrightarrow> is_ok r"
  by (cases r) simp_all

lemma of_service_Inr [simp]: "of_service r = Inr x \<longleftrightarrow> r = Inr x"
  by (cases r) (simp_all add: of_service_def)

lemma userIdOrThrow_Inr [simp]: "userIdOrThrow user = Inr u \<longleftrightarrow> user = Some u"
  by (cases user) (simp_all add: userIdOrThrow_def)

lemma member_call_Inr:
  "member_call i user s = Inr c \<longleftrightarrow>
     getCallByIdOrCode i s = Inr c \<and> (\<exists>u. user = Some u \<and> isParticipant c u)"
  by (auto simp: member_call_def res_bind_Inr)

lemma media_call_Inr:
  "media_call i user s = Inr (c, u) \<longleftrightarrow>
     getCallByIdOrCode i s = Inr c \<and> user = Some u \<and> isParticipant c u \<and> c_status c \<noteq> Ended"
  by (auto simp: media_call_def res_bind_Inr)

text \<open>A call and its events are shown exactly to its participants, and TURN credentials are
  issued exactly to a participant of a call that has not ended.\<close>

theorem http_read_guard:
  "(is_ok (http_get i user s) \<longleftrightarrow>
      (\<exists>c u. getCallByIdOrCode i s = Inr c \<and> user = Some u \<and> isParticipant c u))
   \<and> (is_ok (http_eventsFor i user s) \<longleftrightarrow>
      (\<exists>c u. getCallByIdOrCode i s = Inr c \<and> user = Some u \<and> isParticipant c u))
   \<and> (is_ok (fst (http_turnCredentials hmac cfg i user s)) \<longleftrightarrow>
      (\<exists>c u. getCallByIdOrCode i s = Inr c \<and> user = Some u \<and> isParticipant c u \<and> c_status c \<noteq> Ended))"
proof -
  have "is_ok (member_call i user s) \<longleftrightarrow>
      (\<exists>c u. getCallByIdOrCode i s = Inr c \<and> user = Some u \<and> isParticipant c u)"
    by (auto simp: is_ok_iff member_call_Inr)
  moreover have "is_ok (fst (http_turnCredentials hmac cfg i user s)) \<longleftrightarrow> is_ok (media_call i user s)"
    by (auto simp: http_turnCredentials_def split_def Let_def split: sum.split)
  moreover have "is_ok (media_call i user s) \<longleftrightarrow>
      (\<exists>c u. getCallByIdOrCode i s = Inr c \<and> user = Some u \<and> isParticipant c u \<and> c_status c \<noteq> Ended)"
    by (auto simp: is_ok_iff media_call_Inr)
  ultimately show ?thesis by (simp add: http_get_def http_eventsFor_def)
qed

text \<open>An SFU token names a call the user participates in and that has not ended, and the room of
  that call.\<close>

theorem http_sfu_guard:
  assumes "http_sfuToken lk cfg i user s = (Inr t, s')"
  shows "\<exists>c. getCallByIdOrCode i s = Inr c \<and> user = Some (st_userId t) \<and> isParticipant c (st_userId t)
    \<and> c_status c \<noteq> Ended \<and> st_callId t = c_id c \<and> st_roomId t = ''sfu-'' @ c_id c"
proof (cases "media_call i user s")
  case (Inl e)
  with assms show ?thesis by (simp add: http_sfuToken_def)
next
  case (Inr cu)
  obtain c u where cu: "cu = (c, u)" by fastforce
  have m: "media_call i user s = Inr (c, u)" using Inr cu by simp
  with assms have "fst (issueToken lk cfg (c_id c) u (cs_env s)) = Inr t"
    by (cases "fst (issueToken lk cfg (c_id c) u (cs_env s))")
      (auto simp: http_sfuToken_def split_def Let_def answer_def)
  then have "st_callId t = c_id c \<and> st_userId t = u \<and> st_roomId t = ''sfu-'' @ c_id c"
    by (auto simp: issueToken_def Let_def split_def deriveRoomId_def split: if_splits)
  with m show ?thesis by (auto simp: media_call_Inr)
qed

definition demo_sfu :: sfu_config where
  "demo_sfu = \<lparr>sfu_apiKey = Some ''key'', sfu_apiSecret = Some ''secret'', sfu_url_cfg = Some ''wss://sfu''\<rparr>"

theorem http_sfu_guard_witness:
  "\<exists>t s'. http_sfuToken (\<lambda>k s r. tr_identity r) demo_sfu ''AAA-AAA-AAA'' (Some ''ben'') demo_created = (Inr t, s')
     \<and> st_roomId t = ''sfu-u'' \<and> isParticipant demo_call ''ben''"
proof -
  let ?r = "http_sfuToken (\<lambda>k s r. tr_identity r) demo_sfu ''AAA-AAA-AAA'' (Some ''ben'') demo_created"
  have get: "getCallByIdOrCode ''AAA-AAA-AAA'' demo_created = Inr demo_call"
    by (simp add: getCallByIdOrCode_def getCallByRoomCode_def demo_created_eq jget_def)
  moreover have p: "isParticipant demo_call ''ben''" "c_status demo_call \<noteq> Ended" "c_id demo_call = ''u''"
    by (simp_all add: demo_call_def isParticipant_def)
  ultimately have "media_call ''AAA-AAA-AAA'' (Some ''ben'') demo_created = Inr (demo_call, ''ben'')"
    by (simp add: media_call_Inr)
  then obtain t s' where r: "?r = (Inr t, s')"
    by (simp add: http_sfuToken_def issueToken_def demo_sfu_def Let_def split_def answer_def)
  from http_sfu_guard [OF r] get p r show ?thesis by auto
qed

section \<open>The interface refines the service\<close>

datatype calls_http =
    HCreate jsval
  | HInvite string jsval
  | HAccept string
  | HJoin string
  | HEnd string

fun exec_http :: "calls_http \<Rightarrow> string option \<Rightarrow> calls_state \<Rightarrow> (http_error + call) \<times> calls_state" where
  "exec_http (HCreate body) user s = http_create body user s"
| "exec_http (HInvite i body) user s = http_invite i body user s"
| "exec_http (HAccept i) user s = http_accept i user s"
| "exec_http (HJoin i) user s = http_join i user s"
| "exec_http (HEnd i) user s = http_end i user s"

lemma toResponse_eq [simp]: "toResponse c = c"
  by (simp add: toResponse_def)

lemma map_toResponse [simp]: "map_sum id toResponse r = r"
  by (cases r) simp_all

lemma on_call_cases:
  "(\<exists>err. on_call act i user s = (Inl err, s)) \<or>
   (\<exists>c u. getCallByIdOrCode i s = Inr c \<and> user = Some u \<and>
      on_call act i user s = (answer (of_service (fst (act (c_id c) u s))), snd (act (c_id c) u s)))"
  by (cases "getCallByIdOrCode i s"; cases user)
    (auto simp: on_call_def of_service_def userIdOrThrow_def split_def Let_def)

lemma http_create_cases:
  "(\<exists>err. http_create body user s = (Inl err, s)) \<or>
   (\<exists>inp. user = Some (ci_creatorId inp) \<and>
      http_create body user s = (answer (of_service (fst (createCall inp s))), snd (createCall inp s)))"
proof (cases "parseCreateCallDto body")
  case (Inr dto)
  show ?thesis
  proof (cases user)
    case (Some u)
    let ?inp = "\<lparr>ci_creatorId = u, ci_roomId = None, ci_invitees = cd_invitees dto,
                ci_visibility = cd_visibility dto\<rparr>"
    have "http_create body user s = (answer (of_service (fst (createCall ?inp s))), snd (createCall ?inp s))"
      using Inr Some by (simp add: http_create_def userIdOrThrow_def split_def Let_def)
    moreover have "user = Some (ci_creatorId ?inp)" using Some by simp
    ultimately show ?thesis by blast
  qed (use Inr in \<open>simp add: http_create_def userIdOrThrow_def\<close>)
qed (simp add: http_create_def)

text \<open>
  The operation a request of a user asks for: what its body says, in words of the body and not of the parser; the call
  its path names by id or by code; the user of the session. A request that asks for none is one without a user,
  with a body that is not accepted, or for a call that is not there.
\<close>

definition create_body :: "jsval \<Rightarrow> string list option \<Rightarrow> call_visibility option \<Rightarrow> bool" where
  "create_body body invitees visibility \<longleftrightarrow>
     (body = JUndef \<or> body = JNull \<or> typeof_object body)
     \<and> js_prop ''invitees'' body = (case invitees of None \<Rightarrow> JUndef | Some ids \<Rightarrow> JArr (map JStr ids))
     \<and> [] \<notin> set (or_default invitees [])
     \<and> js_prop ''visibility'' body = (case visibility of None \<Rightarrow> JUndef | Some v \<Rightarrow> JStr (visibility_str v))"

definition invite_body :: "jsval \<Rightarrow> string \<Rightarrow> bool" where
  "invite_body body i \<longleftrightarrow> typeof_object body \<and> js_prop ''inviteeId'' body = JStr i \<and> i \<noteq> []"

definition names_call :: "calls_state \<Rightarrow> string \<Rightarrow> string \<Rightarrow> bool" where
  "names_call s idOrCode k \<longleftrightarrow> (case getCallByIdOrCode idOrCode s of Inl _ \<Rightarrow> False | Inr c \<Rightarrow> c_id c = k)"

fun asks_op :: "string option \<Rightarrow> calls_state \<Rightarrow> calls_http \<Rightarrow> calls_op \<Rightarrow> bool" where
  "asks_op user s (HCreate body) (OpCreate inp) =
     (user = Some (ci_creatorId inp) \<and> ci_roomId inp = None \<and> create_body body (ci_invitees inp) (ci_visibility inp))"
| "asks_op user s (HInvite i body) (OpInvite k u j) = (user = Some u \<and> invite_body body j \<and> names_call s i k)"
| "asks_op user s (HAccept i) (OpAccept k u) = (user = Some u \<and> names_call s i k)"
| "asks_op user s (HJoin i) (OpJoin k u) = (user = Some u \<and> names_call s i k)"
| "asks_op user s (HEnd i) (OpEnd k u) = (user = Some u \<and> names_call s i k)"
| "asks_op user s _ _ = False"

text \<open>The status an error of the service is answered with, and the answer that stands for the result of an operation.\<close>

fun error_status :: "call_error \<Rightarrow> nat" where
  "error_status (CallNotFoundError _) = 404"
| "error_status (CallForbiddenError _) = 403"
| "error_status (CallConflictError _) = 409"
| "error_status (CallInvalidStateError _) = 409"
| "error_status CallCodeCollisionError = 503"

definition answers_op :: "calls_op \<Rightarrow> calls_state \<Rightarrow> (http_error + call) \<times> calls_state \<Rightarrow> bool" where
  "answers_op op s out \<longleftrightarrow>
     snd out = snd (exec_op op s)
     \<and> (case fst (exec_op op s) of
          Inr r \<Rightarrow> map_sum id Some (fst out) = Inr r
        | Inl e \<Rightarrow> (\<exists>h. fst out = Inl h \<and> http_status h = error_status e \<and> http_message h = call_error_message e))"

lemma translate_error:
  "http_status (translateError (TCall e)) = error_status e \<and> http_message (translateError (TCall e)) = call_error_message e"
  by (cases e) simp_all

lemma answers_opI:
  "exec_op op s = apfst (map_sum id Some) x \<Longrightarrow> answers_op op s (answer (of_service (fst x)), snd x)"
  by (cases "fst x") (auto simp: answers_op_def answer_def of_service_def translate_error)

lemma invite_body_iff: "parseInviteCallDto body = Inr i \<longleftrightarrow> invite_body body i"
  by (auto simp: parseInviteCallDto_def invite_body_def nonempty_str_Some split: option.split if_splits)

lemma create_body_iff: "parseCreateCallDto body = Inr dto \<longleftrightarrow> create_body body (cd_invitees dto) (cd_visibility dto)"
  unfolding create_body_def by (rule parseCreateCallDto_spec)

lemma names_call_iff: "names_call s i k \<longleftrightarrow> (\<exists>c. getCallByIdOrCode i s = Inr c \<and> c_id c = k)"
  by (auto simp: names_call_def split: sum.split)

text \<open>A request refused before it reaches the service.\<close>

definition refuses :: "calls_state \<Rightarrow> (http_error + call) \<times> calls_state \<Rightarrow> bool" where
  "refuses s out \<longleftrightarrow> (\<exists>h. out = (Inl h, s) \<and> http_status h \<in> {400, 404})"

lemma lookup_error: "getCallByIdOrCode i s = Inl e \<Longrightarrow> error_status e = 404"
  by (auto simp: getCallByIdOrCode_def getCallByRoomCode_def split: option.splits if_splits)

lemma on_call_named:
  "on_call act i (Some u) s = (answer (of_service (fst (act (c_id c) u s))), snd (act (c_id c) u s))"
  if "getCallByIdOrCode i s = Inr c"
  using that by (simp add: on_call_def userIdOrThrow_def split_def Let_def of_service_def)

lemma on_call_refused: "refuses s (on_call act i user s)" if "user = None \<or> (\<forall>k. \<not> names_call s i k)"
proof (cases "getCallByIdOrCode i s")
  case (Inl e)
  then show ?thesis
    using lookup_error [OF Inl] translate_error [of e]
    by (simp add: on_call_def refuses_def of_service_def)
next
  case (Inr c)
  then show ?thesis using that
    by (auto simp: on_call_def refuses_def of_service_def userIdOrThrow_def names_call_iff)
qed

lemma on_call_refines:
  assumes "\<And>k u. exec_op (f k u) s = apfst (map_sum id Some) (act k u s)"
  shows "user = Some u \<Longrightarrow> names_call s i k \<Longrightarrow> answers_op (f k u) s (on_call act i user s)"
  using answers_opI [OF assms] by (auto simp: names_call_iff on_call_named)

lemma http_create_accepted:
  assumes "create_body body (ci_invitees inp) (ci_visibility inp)" and "ci_roomId inp = None"
  shows "http_create body (Some (ci_creatorId inp)) s = (answer (of_service (fst (createCall inp s))), snd (createCall inp s))"
proof -
  have "parseCreateCallDto body = Inr \<lparr>cd_invitees = ci_invitees inp, cd_visibility = ci_visibility inp\<rparr>"
    using assms(1) by (simp add: create_body_iff)
  moreover have "inp = \<lparr>ci_creatorId = ci_creatorId inp, ci_roomId = None, ci_invitees = ci_invitees inp,
      ci_visibility = ci_visibility inp\<rparr>" using assms(2) by simp
  ultimately show ?thesis by (simp add: http_create_def userIdOrThrow_def split_def Let_def)
qed

lemma parse_create_error: "parseCreateCallDto body = Inl e \<Longrightarrow> http_status (translateError e) = 400"
proof -
  have "http_status (translateError e) = 400" if "parse_invitees v = Inl e" for v
    using that by (cases v) (auto simp: parse_invitees_def split: option.splits)
  moreover have "http_status (translateError e) = 400" if "parse_visibility v = Inl e" for v
    using that by (auto simp: parse_visibility_def split: if_splits)
  ultimately show "parseCreateCallDto body = Inl e \<Longrightarrow> ?thesis"
    by (auto simp: parseCreateCallDto_def res_bind_Inl split: if_splits)
qed

lemma parse_invite_error: "parseInviteCallDto body = Inl e \<Longrightarrow> http_status (translateError e) = 400"
  by (auto simp: parseInviteCallDto_def split: if_splits option.splits)

text \<open>A request and the operation it asks for.\<close>

lemma http_answers: "asks_op user s req op \<Longrightarrow> answers_op op s (exec_http req user s)"
proof (induction user s req op rule: asks_op.induct)
  case (1 user s body inp)
  then show ?case using answers_opI [of "OpCreate inp" s "createCall inp s"] by (auto simp: http_create_accepted)
next
  case (2 user s i body k u j)
  then show ?case
    using on_call_refines [of "\<lambda>k u. OpInvite k u j" s "\<lambda>k u. invite k u j" user u i k]
    by (auto simp: http_invite_def simp flip: invite_body_iff)
qed (auto simp: http_accept_def http_join_def http_end_def intro: on_call_refines)

lemma http_refuses: "(\<And>op. \<not> asks_op user s req op) \<Longrightarrow> refuses s (exec_http req user s)"
proof (cases req)
  case (HCreate body)
  assume none: "\<And>op. \<not> asks_op user s req op"
  show ?thesis
  proof (cases "parseCreateCallDto body")
    case (Inl e)
    then show ?thesis using parse_create_error [OF Inl] by (simp add: HCreate http_create_def refuses_def)
  next
    case (Inr dto)
    have "user = None"
      using none [of "OpCreate \<lparr>ci_creatorId = the user, ci_roomId = None, ci_invitees = cd_invitees dto,
        ci_visibility = cd_visibility dto\<rparr>"] Inr
      by (cases user) (simp_all add: HCreate create_body_iff)
    then show ?thesis using Inr by (simp add: HCreate http_create_def refuses_def userIdOrThrow_def)
  qed
next
  case (HInvite i body)
  assume none: "\<And>op. \<not> asks_op user s req op"
  show ?thesis
  proof (cases "parseInviteCallDto body")
    case (Inl e)
    then show ?thesis using parse_invite_error [OF Inl] by (simp add: HInvite http_invite_def refuses_def)
  next
    case (Inr j)
    have "user = None \<or> (\<forall>k. \<not> names_call s i k)"
      using none [of "OpInvite k (the user) j" for k] Inr by (cases user) (auto simp: HInvite invite_body_iff)
    then show ?thesis using Inr by (simp add: HInvite http_invite_def on_call_refused)
  qed
next
  case (HAccept i)
  assume "\<And>op. \<not> asks_op user s req op"
  from this [of "OpAccept k (the user)" for k] show ?thesis
    by (cases user) (auto simp: HAccept http_accept_def intro!: on_call_refused)
next
  case (HJoin i)
  assume "\<And>op. \<not> asks_op user s req op"
  from this [of "OpJoin k (the user)" for k] show ?thesis
    by (cases user) (auto simp: HJoin http_join_def intro!: on_call_refused)
next
  case (HEnd i)
  assume "\<And>op. \<not> asks_op user s req op"
  from this [of "OpEnd k (the user)" for k] show ?thesis
    by (cases user) (auto simp: HEnd http_end_def intro!: on_call_refused)
qed

text \<open>In whose name an operation acts.\<close>

fun op_user :: "calls_op \<Rightarrow> string option" where
  "op_user (OpCreate inp) = Some (ci_creatorId inp)"
| "op_user (OpInvite k u i) = Some u"
| "op_user (OpAccept k u) = Some u"
| "op_user (OpJoin k u) = Some u"
| "op_user (OpLeave k u) = Some u"
| "op_user (OpEnd k u) = Some u"
| "op_user OpReset = None"

lemma asks_user: "asks_op user s req op \<Longrightarrow> user \<noteq> None \<and> op_user op = user"
  by (induction user s req op rule: asks_op.induct) auto

text \<open>C5: every request that changes calls does what it says. When it asks for an operation (create with the invitees and
  visibility of the body; invite, accept, join or end on the call its path names), the calls become what that
  operation of the service makes them in the name of the authenticated user, and the answer is the operation's
  call, or its error with the message and the status of its kind. Any other request is refused with 400 or 404
  before anything changed.\<close>

theorem http_refines_service:
  "(\<forall>op. asks_op user s req op \<longrightarrow> answers_op op s (exec_http req user s))
   \<and> ((\<forall>op. \<not> asks_op user s req op) \<longrightarrow> refuses s (exec_http req user s))"
  using http_answers http_refuses by blast

lemma http_refines_service_witness:
  "answers_op (OpEnd ''u'' ''ben'') demo_created (exec_http (HEnd ''AAA-AAA-AAA'') (Some ''ben'') demo_created)
   \<and> refuses demo_created (exec_http (HEnd ''AAA-AAA-AAA'') None demo_created)"
proof -
  have "names_call demo_created ''AAA-AAA-AAA'' ''u''"
    by (simp add: names_call_def getCallByIdOrCode_def getCallByRoomCode_def demo_created_eq jget_def demo_call_def)
  then have "asks_op (Some ''ben'') demo_created (HEnd ''AAA-AAA-AAA'') (OpEnd ''u'' ''ben'')" by simp
  moreover have "\<not> asks_op None demo_created (HEnd ''AAA-AAA-AAA'') op" for op by (cases op) simp_all
  ultimately show ?thesis
    using http_refines_service [of "Some ''ben''" demo_created "HEnd ''AAA-AAA-AAA''"]
      http_refines_service [of None demo_created "HEnd ''AAA-AAA-AAA''"] by blast
qed

text \<open>A request without a user on a call that exists, and a token request while the SFU is not
  configured, are answered with status 400: the 403 and 503 thrown inside are translated away.\<close>

theorem http_exceptions_become_400:
  assumes "getCallByIdOrCode i s = Inr c"
  shows "http_get i None s = Inl (BadRequest ''Authenticated user required'')
    \<and> (isParticipant c u \<and> c_status c \<noteq> Ended \<and> or_default (sfu_apiKey cfg) [] = [] \<longrightarrow>
        fst (http_sfuToken lk cfg i (Some u) s) =
          Inl (BadRequest ''SFU no configurado: define LIVEKIT_API_KEY y LIVEKIT_API_SECRET''))"
  using assms
  by (auto simp: http_get_def member_call_def of_service_def userIdOrThrow_def answer_def
      http_sfuToken_def media_call_def issueToken_def split_def Let_def)

theorem http_exceptions_become_400_witness:
  "http_get ''u'' None demo_created = Inl (BadRequest ''Authenticated user required'')"
  using http_exceptions_become_400 [of "''u''" demo_created demo_call]
    demo_created_call by (simp add: getCallByIdOrCode_def)

end
