(* ===== verification/Users.thy ===== *)
theory Users
  imports JsValue
begin

text \<open>
  Accounts: \<open>UsersRepository\<close> of \<open>src/src/auth/users.repository.ts\<close> over the entity of
  \<open>src/src/auth/entities/user.entity.ts\<close>. The TypeORM repository is a parameter: what \<open>findOne\<close> and
  \<open>save\<close> resolve to or reject with (\<open>Inl\<close> of the message). \<open>createdAt\<close> is filled by the database
  and read nowhere in the source, so it is left out.
\<close>

section \<open>Data\<close>

record user =
  us_id :: string
  us_email :: "string option"
  us_displayName :: string
  us_provider :: string
  us_providerSub :: string
  us_picture :: "string option"
  us_lastLoginAt :: "int option"

record create_user_input =
  cu_id :: "string option"
  cu_email :: "string option"
  cu_displayName :: string
  cu_provider :: "string option"
  cu_providerSub :: "string option"
  cu_picture :: "string option"

record oauth_profile =
  op_provider :: string
  op_providerSub :: string
  op_email :: "string option"
  op_emailVerified :: bool
  op_displayName :: string
  op_picture :: "string option"

datatype user_where = WhereId string | WhereEmail string | WhereProviderSub string string

record 'db user_repo =
  ur_findOne :: "user_where \<Rightarrow> 'db \<Rightarrow> string + user option"
  ur_save :: "user \<Rightarrow> 'db \<Rightarrow> (string + user) \<times> 'db"

section \<open>Operations\<close>

definition findById :: "'db user_repo \<Rightarrow> string \<Rightarrow> 'db \<Rightarrow> string + user option" where
  "findById repo i db = ur_findOne repo (WhereId i) db"

definition findByEmail :: "'db user_repo \<Rightarrow> string \<Rightarrow> 'db \<Rightarrow> string + user option" where
  "findByEmail repo email db = ur_findOne repo (WhereEmail email) db"

definition findByProviderSub :: "'db user_repo \<Rightarrow> string \<Rightarrow> string \<Rightarrow> 'db \<Rightarrow> string + user option" where
  "findByProviderSub repo provider providerSub db = ur_findOne repo (WhereProviderSub provider providerSub) db"

definition create_user ::
    "'db user_repo \<Rightarrow> create_user_input \<Rightarrow> env \<Rightarrow> 'db \<Rightarrow> (string + user) \<times> env \<times> 'db" where
  "create_user repo input e db =
     (let (i, e1) = (case cu_id input of Some i \<Rightarrow> (i, e) | None \<Rightarrow> read_uuid e);
          entity = \<lparr>us_id = i, us_email = cu_email input, us_displayName = cu_displayName input,
                    us_provider = or_default (cu_provider input) ''dev'',
                    us_providerSub = or_default (cu_providerSub input) i,
                    us_picture = cu_picture input, us_lastLoginAt = None\<rparr>;
          (r, db1) = ur_save repo entity db
      in (r, e1, db1))"

definition upsertByProvider ::
    "'db user_repo \<Rightarrow> oauth_profile \<Rightarrow> env \<Rightarrow> 'db \<Rightarrow> (string + user) \<times> env \<times> 'db" where
  "upsertByProvider repo profile e db =
     (case findByProviderSub repo (op_provider profile) (op_providerSub profile) db of
        Inl err \<Rightarrow> (Inl err, e, db)
      | Inr found \<Rightarrow>
          let (now, e1) = read_clock e
          in case found of
               Some existing \<Rightarrow>
                 let (r, db1) = ur_save repo
                       (existing\<lparr>us_email := op_email profile, us_displayName := op_displayName profile,
                                 us_picture := op_picture profile, us_lastLoginAt := Some now\<rparr>) db
                 in (r, e1, db1)
             | None \<Rightarrow>
                 (case create_user repo
                         \<lparr>cu_id = None, cu_email = op_email profile, cu_displayName = op_displayName profile,
                          cu_provider = Some (op_provider profile), cu_providerSub = Some (op_providerSub profile),
                          cu_picture = op_picture profile\<rparr> e1 db of
                    (Inl err, e2, db1) \<Rightarrow> (Inl err, e2, db1)
                  | (Inr u, e2, db1) \<Rightarrow>
                      let (r, db2) = ur_save repo (u\<lparr>us_lastLoginAt := Some now\<rparr>) db1 in (r, e2, db2)))"

section \<open>What the database promises\<close>

text \<open>
  \<open>rows db\<close> are the rows of the table. A row is refused when another one has its identity or its
  e-mail (the unique indexes of the entity); \<open>save\<close> replaces the row of the same primary key
  or adds one. Any access may also fail, and then changes nothing.
\<close>

fun matches :: "user_where \<Rightarrow> user \<Rightarrow> bool" where
  "matches (WhereId i) r = (us_id r = i)"
| "matches (WhereEmail m) r = (us_email r = Some m)"
| "matches (WhereProviderSub p s) r = (us_provider r = p \<and> us_providerSub r = s)"

definition conflicts :: "user \<Rightarrow> user \<Rightarrow> bool" where
  "conflicts u r \<longleftrightarrow> us_id r \<noteq> us_id u \<and>
     (us_provider r = us_provider u \<and> us_providerSub r = us_providerSub u
      \<or> us_email u \<noteq> None \<and> us_email r = us_email u)"

definition put_row :: "user \<Rightarrow> user list \<Rightarrow> user list" where
  "put_row u rows = filter (\<lambda>r. us_id r \<noteq> us_id u) rows @ [u]"

definition repo_documented :: "('db \<Rightarrow> user list) \<Rightarrow> 'db user_repo \<Rightarrow> bool" where
  "repo_documented rows repo \<longleftrightarrow>
     (\<forall>w db. case ur_findOne repo w db of
               Inl err \<Rightarrow> True
             | Inr None \<Rightarrow> \<not> list_ex (matches w) (rows db)
             | Inr (Some u) \<Rightarrow> u \<in> set (rows db) \<and> matches w u)
     \<and> (\<forall>u db. case ur_save repo u db of
                 (Inl err, db') \<Rightarrow> rows db' = rows db
               | (Inr v, db') \<Rightarrow> v = u \<and> \<not> list_ex (conflicts u) (rows db) \<and> set (rows db') = set (put_row u (rows db)))"

text \<open>An instance: a table kept as a list, which fails only on a conflict.\<close>

definition ref_repo :: "(user list) user_repo" where
  "ref_repo = \<lparr>ur_findOne = (\<lambda>w db. Inr (find (matches w) db)),
     ur_save = (\<lambda>u db. if list_ex (conflicts u) db then (Inl ''duplicate entry'', db) else (Inr u, put_row u db))\<rparr>"

lemma ref_repo_documented: "repo_documented (\<lambda>db. db) ref_repo"
proof -
  have "case find (matches w) db of None \<Rightarrow> \<not> list_ex (matches w) db | Some u \<Rightarrow> u \<in> set db \<and> matches w u" for w db
    by (auto simp: find_None_iff find_Some_iff list_ex_iff split: option.split)
  then show ?thesis
    by (auto simp: repo_documented_def ref_repo_def split: option.splits)
qed

section \<open>Accounts are identified by provider and subject\<close>

text \<open>The table invariant: primary keys, identities and e-mail addresses are unique.\<close>

definition users_ok :: "user list \<Rightarrow> bool" where
  "users_ok rows \<longleftrightarrow>
     (\<forall>r1 \<in> set rows. \<forall>r2 \<in> set rows. us_id r1 = us_id r2 \<longrightarrow> r1 = r2)
     \<and> (\<forall>r1 \<in> set rows. \<forall>r2 \<in> set rows. \<not> conflicts r1 r2)"

lemma find_doc:
  assumes "repo_documented rows repo" and "ur_findOne repo w db = Inr f"
  shows "f = None \<Longrightarrow> \<not> list_ex (matches w) (rows db)" and "f = Some u \<Longrightarrow> u \<in> set (rows db) \<and> matches w u"
  using assms unfolding repo_documented_def by (metis (no_types, lifting) option.simps(4) sum.simps(6),
      metis (no_types, lifting) option.simps(5) sum.simps(6))

lemma save_doc:
  assumes "repo_documented rows repo" and "ur_save repo u db = (r, db')"
  shows "r = Inl err \<Longrightarrow> rows db' = rows db"
    and "r = Inr v \<Longrightarrow> v = u \<and> \<not> list_ex (conflicts u) (rows db) \<and> set (rows db') = set (put_row u (rows db))"
  using assms unfolding repo_documented_def
  by (smt (verit) old.prod.case sum.simps(5), smt (verit) old.prod.case sum.simps(6))

lemma put_row_set: "set (put_row u rows) = {r \<in> set rows. us_id r \<noteq> us_id u} \<union> {u}"
  by (auto simp: put_row_def)

lemma conflicts_sym: "conflicts u r \<longleftrightarrow> conflicts r u"
  by (auto simp: conflicts_def)

lemma users_ok_put:
  assumes "users_ok rows" and "\<not> list_ex (conflicts u) rows" and "set rows' = set (put_row u rows)"
  shows "users_ok rows'"
  using assms conflicts_sym [of u] unfolding users_ok_def list_ex_iff
  by (auto simp: put_row_set conflicts_def)

lemma save_ok:
  assumes "repo_documented rows repo" and "users_ok (rows db)" and "ur_save repo u db = (r, db')"
  shows "users_ok (rows db')"
  using save_doc [OF assms(1, 3)] users_ok_put [OF assms(2)] assms(2) by (cases r) auto

lemma upsert_ok:
  assumes doc: "repo_documented rows repo" and ok: "users_ok (rows db)"
  shows "users_ok (rows (snd (snd (upsertByProvider repo p e db))))"
proof -
  have s: "users_ok (rows (snd (ur_save repo u db0)))" if "users_ok (rows db0)" for u db0
    using save_ok [OF doc that, of u] by (cases "ur_save repo u db0") simp
  have c: "users_ok (rows (snd (snd (create_user repo i e0 db0))))" if "users_ok (rows db0)" for i e0 db0
    using s [OF that] by (simp add: create_user_def split_def Let_def)
  show ?thesis
    using s [OF ok] c [OF ok] s by (fastforce simp: upsertByProvider_def split_def Let_def ok split: sum.split option.split)
qed

lemma save_Inr:
  assumes "repo_documented rows repo" and "ur_save repo u db = (Inr v, db')"
  shows "v = u \<and> set (rows db') = {r \<in> set (rows db). us_id r \<noteq> us_id u} \<union> {u}"
  using save_doc(2) [OF assms] by (simp add: put_row_set)

definition same_account :: "oauth_profile \<Rightarrow> user \<Rightarrow> bool" where
  "same_account p r \<longleftrightarrow> us_provider r = op_provider p \<and> us_providerSub r = op_providerSub p"

text \<open>What a successful sign-in leaves.\<close>

lemma upsert_existing:
  assumes doc: "repo_documented rows repo"
    and f: "findByProviderSub repo (op_provider p) (op_providerSub p) db = Inr (Some r)"
    and up: "upsertByProvider repo p e db = (Inr u, e', db')"
  shows "r \<in> set (rows db)" and "same_account p r"
    and "u = r\<lparr>us_email := op_email p, us_displayName := op_displayName p, us_picture := op_picture p,
               us_lastLoginAt := Some (e_clock e (n_clock e))\<rparr>"
    and "set (rows db') = {r' \<in> set (rows db). us_id r' \<noteq> us_id r} \<union> {u}"
proof -
  show "r \<in> set (rows db)" "same_account p r"
    using find_doc(2) [OF doc f [unfolded findByProviderSub_def] refl] by (simp_all add: same_account_def)
  let ?u = "r\<lparr>us_email := op_email p, us_displayName := op_displayName p, us_picture := op_picture p,
               us_lastLoginAt := Some (e_clock e (n_clock e))\<rparr>"
  from up f have save: "ur_save repo ?u db = (Inr u, db')"
    by (simp add: upsertByProvider_def read_clock_def split_def prod_eq_iff Let_def)
  from save_Inr [OF doc save] show "u = ?u" and "set (rows db') = {r' \<in> set (rows db). us_id r' \<noteq> us_id r} \<union> {u}"
    by simp_all
qed

lemma drop_again: "f c = i \<Longrightarrow> {r \<in> {r \<in> A. f r \<noteq> i} \<union> {c}. f r \<noteq> i} = {r \<in> A. f r \<noteq> i}"
  by auto

lemma upsert_new:
  assumes doc: "repo_documented rows repo"
    and f: "findByProviderSub repo (op_provider p) (op_providerSub p) db = Inr None"
    and up: "upsertByProvider repo p e db = (Inr u, e', db')"
  shows "\<not> list_ex (same_account p) (rows db)"
    and "u = \<lparr>us_id = e_uuid e (n_uuid e), us_email = op_email p, us_displayName = op_displayName p,
               us_provider = op_provider p, us_providerSub = op_providerSub p, us_picture = op_picture p,
               us_lastLoginAt = Some (e_clock e (n_clock e))\<rparr>"
    and "set (rows db') = {r' \<in> set (rows db). us_id r' \<noteq> us_id u} \<union> {u}"
proof -
  show "\<not> list_ex (same_account p) (rows db)"
    using find_doc(1) [OF doc f [unfolded findByProviderSub_def] refl] by (auto simp: same_account_def list_ex_iff)
  let ?c = "\<lparr>us_id = e_uuid e (n_uuid e), us_email = op_email p, us_displayName = op_displayName p,
               us_provider = op_provider p, us_providerSub = op_providerSub p, us_picture = op_picture p,
               us_lastLoginAt = None\<rparr>"
  obtain r1 db1 where s1: "ur_save repo ?c db = (r1, db1)" by fastforce
  with up f obtain v where r1: "r1 = Inr v" and s2: "ur_save repo (v\<lparr>us_lastLoginAt := Some (e_clock e (n_clock e))\<rparr>) db1 = (Inr u, db')"
    by (cases r1) (auto simp: upsertByProvider_def create_user_def read_clock_def read_uuid_def split_def prod_eq_iff Let_def)
  from save_Inr [OF doc s1 [unfolded r1]] have v: "v = ?c"
    and rows1: "set (rows db1) = {r' \<in> set (rows db). us_id r' \<noteq> e_uuid e (n_uuid e)} \<union> {?c}" by simp_all
  from save_Inr [OF doc s2] v show u: "u = \<lparr>us_id = e_uuid e (n_uuid e), us_email = op_email p,
      us_displayName = op_displayName p, us_provider = op_provider p, us_providerSub = op_providerSub p,
      us_picture = op_picture p, us_lastLoginAt = Some (e_clock e (n_clock e))\<rparr>"
    by simp
  from u have i: "us_id u = e_uuid e (n_uuid e)" by simp
  from save_Inr [OF doc s2] v have "set (rows db') = {r' \<in> set (rows db1). us_id r' \<noteq> us_id u} \<union> {u}"
    using i by simp
  moreover have "{r' \<in> set (rows db1). us_id r' \<noteq> us_id u} = {r' \<in> set (rows db). us_id r' \<noteq> us_id u}"
    unfolding rows1 i by (rule drop_again) simp
  ultimately show "set (rows db') = {r' \<in> set (rows db). us_id r' \<noteq> us_id u} \<union> {u}" by simp
qed

section \<open>Properties\<close>

lemma upsert_effect:
  assumes doc: "repo_documented rows repo" and ok: "users_ok (rows db)"
    and fresh: "e_uuid e (n_uuid e) \<notin> us_id ` set (rows db)"
    and up: "upsertByProvider repo p e db = (Inr u, e', db')"
  shows "users_ok (rows db') \<and> u \<in> set (rows db') \<and> same_account p u
    \<and> us_email u = op_email p \<and> us_displayName u = op_displayName p \<and> us_picture u = op_picture p
    \<and> us_lastLoginAt u = Some (e_clock e (n_clock e))
    \<and> {r \<in> set (rows db'). us_id r \<noteq> us_id u} = {r \<in> set (rows db). us_id r \<noteq> us_id u}
    \<and> (case find (same_account p) (rows db) of
         Some r \<Rightarrow> us_id u = us_id r
       | None \<Rightarrow> us_id u \<notin> us_id ` set (rows db))"
proof -
  have ok': "users_ok (rows db')" using upsert_ok [OF doc ok, of p e] up by simp
  obtain f where f: "findByProviderSub repo (op_provider p) (op_providerSub p) db = Inr f"
    using up by (cases "findByProviderSub repo (op_provider p) (op_providerSub p) db") (auto simp: upsertByProvider_def)
  show ?thesis
  proof (cases f)
    case None
    note n = upsert_new [OF doc f [unfolded None] up]
    have "find (same_account p) (rows db) = None" using n(1) by (simp add: find_None_iff list_ex_iff)
    then show ?thesis using ok' n(2, 3) fresh by (auto simp: same_account_def)
  next
    case (Some r)
    note n = upsert_existing [OF doc f [unfolded Some] up]
    obtain r' where r': "find (same_account p) (rows db) = Some r'" "r' \<in> set (rows db)" "same_account p r'"
      using n(1, 2) by (cases "find (same_account p) (rows db)") (auto simp: find_None_iff find_Some_iff)
    have "us_id r' = us_id r"
      using ok r'(2, 3) n(1, 2) unfolding users_ok_def conflicts_def same_account_def by metis
    then show ?thesis using ok' n(2-4) r'(1) by (auto simp: same_account_def)
  qed
qed

text \<open>Signing in with a provider's profile gives the account of that identity: the one there was, with
  its id kept and the other columns taken from the profile, or a new one with a new id. No other
  account changes, and primary keys, identities and e-mail addresses stay unique.\<close>

theorem upsert_spec:
  assumes doc: "repo_documented rows repo" and ok: "users_ok (rows db)"
    and fresh: "e_uuid e (n_uuid e) \<notin> us_id ` set (rows db)"
    and up: "upsertByProvider repo p e db = (Inr u, e', db')"
  shows "users_ok (rows db') \<and> u \<in> set (rows db') \<and> same_account p u
    \<and> us_email u = op_email p \<and> us_displayName u = op_displayName p \<and> us_picture u = op_picture p
    \<and> us_lastLoginAt u = Some (e_clock e (n_clock e))
    \<and> {r \<in> set (rows db'). us_id r \<noteq> us_id u} = {r \<in> set (rows db). us_id r \<noteq> us_id u}
    \<and> (case find (same_account p) (rows db) of
         Some r \<Rightarrow> us_id u = us_id r
       | None \<Rightarrow> us_id u \<notin> us_id ` set (rows db))"
  using upsert_effect [OF assms] .

definition demo_profile :: oauth_profile where
  "demo_profile = \<lparr>op_provider = ''google'', op_providerSub = ''g1'', op_email = Some ''ana@x'', op_emailVerified = True,
     op_displayName = ''Ana'', op_picture = None\<rparr>"

definition demo_user :: user where
  "demo_user = \<lparr>us_id = ''id1'', us_email = None, us_displayName = ''A'', us_provider = ''google'',
     us_providerSub = ''g1'', us_picture = None, us_lastLoginAt = None\<rparr>"

definition demo_uuid_env :: env where
  "demo_uuid_env = \<lparr>e_clock = (\<lambda>n. 5000), e_rand = (\<lambda>n. 0), e_uuid = (\<lambda>n. show_nat n), n_clock = 0, n_rand = 0, n_uuid = 0\<rparr>"

lemma upsert_spec_witness:
  "\<exists>u e' db'. upsertByProvider ref_repo demo_profile demo_uuid_env [demo_user] = (Inr u, e', db')
    \<and> us_id u = ''id1'' \<and> us_email u = Some ''ana@x'' \<and> users_ok db'"
proof -
  let ?u = "demo_user\<lparr>us_email := Some ''ana@x'', us_displayName := ''Ana'', us_lastLoginAt := Some 5000\<rparr>"
  have "upsertByProvider ref_repo demo_profile demo_uuid_env [demo_user] = (Inr ?u, demo_uuid_env\<lparr>n_clock := 1\<rparr>, [?u])"
    by (simp add: upsertByProvider_def findByProviderSub_def ref_repo_def demo_profile_def demo_user_def
        demo_uuid_env_def read_clock_def conflicts_def put_row_def Let_def)
  moreover have "users_ok [demo_user]" "e_uuid demo_uuid_env (n_uuid demo_uuid_env) \<notin> us_id ` set [demo_user]"
    by (simp_all add: users_ok_def conflicts_def demo_user_def demo_uuid_env_def show_nat.simps digit_char_def)
  ultimately show ?thesis
    using upsert_spec [OF ref_repo_documented, of "[demo_user]" demo_uuid_env demo_profile ?u]
    by (auto simp: demo_user_def demo_profile_def same_account_def)
qed

end
