(* ===== verification/OAuth.thy ===== *)
theory OAuth
  imports Users Http
begin

text \<open>
  OAuth providers: the interface of \<open>src/src/auth/providers/oauth-provider.interface.ts\<close>, the registry of
  \<open>oauth-providers.registry.ts\<close> and the Google provider of \<open>google/google.service.ts\<close>. Google's client
  library is a parameter: the URL it builds, the tokens it exchanges a code for and the claims it
  reads from an id token, or the message it fails with.
\<close>

section \<open>The interface\<close>

record provider_meta =
  pm_name :: string
  pm_displayName :: string
  pm_iconUrl :: "string option"
  pm_configKey :: "string option"
  pm_enabled :: bool
  pm_startUrl :: "string option"

record oauth_provider =
  pv_meta :: provider_meta
  pv_buildAuthorizationUrl :: "string \<Rightarrow> http_error + string"
  pv_exchangeAndVerify :: "string \<Rightarrow> http_error + oauth_profile"

type_synonym providers_map = "(string, oauth_provider) jmap option"

definition registry_list :: "providers_map \<Rightarrow> provider_meta list" where
  "registry_list providers =
     (case providers of
        None \<Rightarrow> []
      | Some m \<Rightarrow> map pv_meta (filter (\<lambda>p. pm_enabled (pv_meta p)) (jvals m)))"

definition registry_get :: "providers_map \<Rightarrow> string \<Rightarrow> oauth_provider option" where
  "registry_get providers name = (case providers of None \<Rightarrow> None | Some m \<Rightarrow> jget m name)"

section \<open>Google\<close>

definition GOOGLE_ISSUERS :: "string list" where
  "GOOGLE_ISSUERS = [''https://accounts.google.com'', ''accounts.google.com'']"

definition GOOGLE_SCOPES :: "string list" where
  "GOOGLE_SCOPES = [''openid'', ''email'', ''profile'']"

text \<open>The claims read from an id token; an absent subject is the empty string.\<close>

record google_claims =
  gc_iss :: string
  gc_aud :: string
  gc_sub :: string
  gc_email :: "string option"
  gc_email_verified :: "bool option"
  gc_name :: "string option"
  gc_picture :: "string option"
  gc_exp :: "rat option"

record auth_url_request =
  au_access_type :: string
  au_scope :: "string list"
  au_state :: string
  au_prompt :: string
  au_redirect_uri :: string
  au_include_granted_scopes :: bool

record google_client =
  gcl_generateAuthUrl :: "auth_url_request \<Rightarrow> string"
  gcl_getToken :: "string \<Rightarrow> string \<Rightarrow> string + string option"
  gcl_verifyIdToken :: "string \<Rightarrow> string \<Rightarrow> string + google_claims option"

record google_service =
  gs_clientId :: string
  gs_clientSecret :: string
  gs_redirectUri :: string
  gs_client :: "google_client option"
  gs_enabled :: bool

text \<open>\<open>mk\<close> is the constructor of the client.\<close>

definition google_init ::
    "(string \<Rightarrow> string \<Rightarrow> string \<Rightarrow> google_client) \<Rightarrow> string option \<Rightarrow> string option \<Rightarrow> string option \<Rightarrow> google_service" where
  "google_init mk cfg_id cfg_secret cfg_uri =
     (let i = or_default cfg_id []; s = or_default cfg_secret []; u = or_default cfg_uri []
      in if i = [] \<or> s = [] \<or> u = []
         then \<lparr>gs_clientId = i, gs_clientSecret = s, gs_redirectUri = u, gs_client = None, gs_enabled = False\<rparr>
         else \<lparr>gs_clientId = i, gs_clientSecret = s, gs_redirectUri = u, gs_client = Some (mk i s u),
               gs_enabled = True\<rparr>)"

definition google_meta :: "google_service \<Rightarrow> provider_meta" where
  "google_meta g = \<lparr>pm_name = ''google'', pm_displayName = ''Google'', pm_iconUrl = None,
     pm_configKey = Some ''GOOGLE_CLIENT_ID'', pm_enabled = gs_enabled g, pm_startUrl = Some ''/auth/google/start''\<rparr>"

definition google_buildAuthorizationUrl :: "google_service \<Rightarrow> string \<Rightarrow> http_error + string" where
  "google_buildAuthorizationUrl g state =
     (case gs_client g of
        None \<Rightarrow> Inl (Unauthorized ''Google login is not configured'')
      | Some c \<Rightarrow> Inr (gcl_generateAuthUrl c
          \<lparr>au_access_type = ''online'', au_scope = GOOGLE_SCOPES, au_state = state, au_prompt = ''select_account'',
           au_redirect_uri = gs_redirectUri g, au_include_granted_scopes = True\<rparr>))"

definition assertClaims :: "google_service \<Rightarrow> int \<Rightarrow> google_claims \<Rightarrow> http_error + unit" where
  "assertClaims g now claims =
     (if gc_iss claims \<notin> set GOOGLE_ISSUERS then Inl (Unauthorized ''invalid google issuer'')
      else if gc_aud claims \<noteq> gs_clientId g then Inl (Unauthorized ''invalid google audience'')
      else if gc_sub claims = [] then Inl (Unauthorized ''google id_token has no subject'')
      else if gc_email_verified claims \<noteq> Some True then Inl (Unauthorized ''google email is not verified'')
      else case gc_exp claims of
             Some ex \<Rightarrow> if ex * 1000 < of_int now then Inl (Unauthorized ''google id_token expired'') else Inr ()
           | None \<Rightarrow> Inr ())"

definition google_toProfile :: "google_claims \<Rightarrow> oauth_profile" where
  "google_toProfile claims =
     \<lparr>op_provider = ''google'', op_providerSub = gc_sub claims, op_email = gc_email claims,
      op_emailVerified = (gc_email_verified claims = Some True),
      op_displayName = (case gc_name claims of Some n \<Rightarrow> n | None \<Rightarrow> or_default (gc_email claims) ''Google User''),
      op_picture = gc_picture claims\<rparr>"

definition verifyIdTokenAndBuild :: "google_service \<Rightarrow> int \<Rightarrow> string \<Rightarrow> http_error + oauth_profile" where
  "verifyIdTokenAndBuild g now idToken =
     (case gs_client g of
        None \<Rightarrow> Inl (Unauthorized ''Google login is not configured'')
      | Some c \<Rightarrow>
          (case gcl_verifyIdToken c idToken (gs_clientId g) of
             Inl m \<Rightarrow> Inl (Unauthorized (''google id_token verification failed: '' @ m))
           | Inr None \<Rightarrow> Inl (Unauthorized ''google id_token has no payload'')
           | Inr (Some claims) \<Rightarrow> res_bind (assertClaims g now claims) (\<lambda>_. Inr (google_toProfile claims))))"

definition google_exchangeAndVerify :: "google_service \<Rightarrow> int \<Rightarrow> string \<Rightarrow> http_error + oauth_profile" where
  "google_exchangeAndVerify g now code =
     (case gs_client g of
        None \<Rightarrow> Inl (Unauthorized ''Google login is not configured'')
      | Some c \<Rightarrow>
          if code = [] then Inl (Unauthorized ''authorization code is required'')
          else (case gcl_getToken c code (gs_redirectUri g) of
                  Inl m \<Rightarrow> Inl (Unauthorized (''google code exchange failed: '' @ m))
                | Inr tokens \<Rightarrow>
                    (case tokens of
                       None \<Rightarrow> Inl (Unauthorized ''google token response missing id_token'')
                     | Some t \<Rightarrow> if t = [] then Inl (Unauthorized ''google token response missing id_token'')
                                 else verifyIdTokenAndBuild g now t)))"

definition google_provider :: "google_service \<Rightarrow> int \<Rightarrow> oauth_provider" where
  "google_provider g now =
     \<lparr>pv_meta = google_meta g, pv_buildAuthorizationUrl = google_buildAuthorizationUrl g,
      pv_exchangeAndVerify = google_exchangeAndVerify g now\<rparr>"

section \<open>The contract of a provider\<close>

text \<open>
  What the sign-in relies on: a profile carries the provider's own name, a subject and a verified
  e-mail address.
\<close>

locale provider_contract =
  fixes name :: string and exchange :: "string \<Rightarrow> http_error + oauth_profile"
  assumes exchange_name: "exchange code = Inr p \<Longrightarrow> op_provider p = name"
    and exchange_sub: "exchange code = Inr p \<Longrightarrow> op_providerSub p \<noteq> []"
    and exchange_verified: "exchange code = Inr p \<Longrightarrow> op_emailVerified p"
begin

lemma account_of_provider: "exchange code = Inr p \<Longrightarrow> same_account p u \<Longrightarrow> us_provider u = name \<and> us_providerSub u \<noteq> []"
  using exchange_name exchange_sub by (simp add: same_account_def)

end

lemma exchange_Inr:
  assumes "google_exchangeAndVerify g now code = Inr p"
  shows "\<exists>c t claims. gs_client g = Some c \<and> code \<noteq> [] \<and> gcl_getToken c code (gs_redirectUri g) = Inr (Some t) \<and> t \<noteq> []
    \<and> gcl_verifyIdToken c t (gs_clientId g) = Inr (Some claims)
    \<and> assertClaims g now claims = Inr () \<and> p = google_toProfile claims"
  using assms
  by (auto simp: google_exchangeAndVerify_def verifyIdTokenAndBuild_def res_bind_Inr
      split: option.splits sum.splits if_splits)

lemma assertClaims_Inr:
  "assertClaims g now claims = Inr () \<longleftrightarrow>
     gc_iss claims \<in> set GOOGLE_ISSUERS \<and> gc_aud claims = gs_clientId g \<and> gc_sub claims \<noteq> []
     \<and> gc_email_verified claims = Some True \<and> (case gc_exp claims of None \<Rightarrow> True | Some ex \<Rightarrow> of_int now \<le> ex * 1000)"
  by (auto simp: assertClaims_def split: option.split)

interpretation gp: provider_contract "''google''" "google_exchangeAndVerify g now" for g now
  by unfold_locales (auto simp: google_toProfile_def assertClaims_Inr dest!: exchange_Inr)

text \<open>Google's provider yields a profile exactly when it is configured, the code is exchanged for an id
  token, and the token verified for this client has one of Google's issuers, this audience, a
  subject, a verified e-mail and has not expired; the profile is that of the claims.\<close>

theorem google_exchange_spec:
  "google_exchangeAndVerify g now code = Inr p \<longleftrightarrow>
     code \<noteq> [] \<and> (\<exists>c t claims. gs_client g = Some c \<and> t \<noteq> []
       \<and> gcl_getToken c code (gs_redirectUri g) = Inr (Some t)
       \<and> gcl_verifyIdToken c t (gs_clientId g) = Inr (Some claims)
       \<and> gc_iss claims \<in> set GOOGLE_ISSUERS \<and> gc_aud claims = gs_clientId g \<and> gc_sub claims \<noteq> []
       \<and> gc_email_verified claims = Some True
       \<and> (case gc_exp claims of None \<Rightarrow> True | Some ex \<Rightarrow> of_int now \<le> ex * 1000)
       \<and> p = google_toProfile claims)"
proof
  assume "google_exchangeAndVerify g now code = Inr p"
  from exchange_Inr [OF this] show "code \<noteq> [] \<and> (\<exists>c t claims. gs_client g = Some c \<and> t \<noteq> []
       \<and> gcl_getToken c code (gs_redirectUri g) = Inr (Some t)
       \<and> gcl_verifyIdToken c t (gs_clientId g) = Inr (Some claims)
       \<and> gc_iss claims \<in> set GOOGLE_ISSUERS \<and> gc_aud claims = gs_clientId g \<and> gc_sub claims \<noteq> []
       \<and> gc_email_verified claims = Some True
       \<and> (case gc_exp claims of None \<Rightarrow> True | Some ex \<Rightarrow> of_int now \<le> ex * 1000)
       \<and> p = google_toProfile claims)"
    by (auto simp: assertClaims_Inr)
qed (auto simp: google_exchangeAndVerify_def verifyIdTokenAndBuild_def res_bind_Inr assertClaims_Inr)

end
