(* ===== verification/AuthService.thy ===== *)
theory AuthService
  imports OAuth
begin

text \<open>
  Sign-in, \<open>src/src/auth/auth.service.ts\<close>, and the two strategies that read session tokens,
  \<open>src/src/auth/jwt.strategy.ts\<close> and \<open>src/src/turn/jwt.strategy.ts\<close>. Signing is a parameter: \<open>sign claims\<close>
  is the token \<open>JwtService.sign\<close> makes of them. The state is the database, the environment and
  the lines of the audit log, in order.
\<close>

section \<open>State\<close>

record session_claims =
  sc_sub :: string
  sc_email :: "string option"

record auth_event =
  ae_event :: string
  ae_provider :: "string option"
  ae_userId :: "string option"
  ae_reason :: "string option"

record 'db auth_ctx =
  cx_repo :: "'db user_repo"
  cx_sign :: "session_claims \<Rightarrow> string"
  cx_providers :: providers_map
  cx_frontendOrigin :: "string option"
  cx_nodeEnv :: "string option"

record 'db auth_state =
  au_db :: 'db
  au_env :: env
  au_audit :: "auth_event list"

text \<open>What a method throws: an HTTP exception, or another error with its message.\<close>

datatype auth_error = AuthHttp http_error | AuthOther string

fun auth_message :: "auth_error \<Rightarrow> string" where
  "auth_message (AuthHttp e) = http_message e"
| "auth_message (AuthOther m) = m"

definition audit :: "auth_event \<Rightarrow> 'db auth_state \<Rightarrow> 'db auth_state" where
  "audit ev s = s\<lparr>au_audit := au_audit s @ [ev]\<rparr>"

definition failure_event :: "string \<Rightarrow> string \<Rightarrow> string \<Rightarrow> auth_event" where
  "failure_event event provider reason =
     \<lparr>ae_event = event, ae_provider = Some provider, ae_userId = None, ae_reason = Some reason\<rparr>"

definition success_event :: "string \<Rightarrow> string \<Rightarrow> string \<Rightarrow> auth_event" where
  "success_event event provider userId =
     \<lparr>ae_event = event, ae_provider = Some provider, ae_userId = Some userId, ae_reason = None\<rparr>"

section \<open>\<open>AuthService\<close>\<close>

definition getProvider :: "'db auth_ctx \<Rightarrow> string \<Rightarrow> oauth_provider option" where
  "getProvider cx name = registry_get (cx_providers cx) name"

definition startOAuth :: "'db auth_ctx \<Rightarrow> string \<Rightarrow> 'db auth_state \<Rightarrow> (auth_error + string) \<times> 'db auth_state" where
  "startOAuth cx name s =
     (case getProvider cx name of
        None \<Rightarrow> (Inl (AuthHttp (NotFound (''unknown provider: '' @ name))),
                 audit (failure_event ''auth.oauth_start'' name ''unknown_provider'') s)
      | Some provider \<Rightarrow>
          if \<not> pm_enabled (pv_meta provider)
          then (Inl (AuthHttp (NotFound (''provider disabled: '' @ name))),
                audit (failure_event ''auth.oauth_start'' name ''provider_disabled'') s)
          else (map_sum AuthHttp id (pv_buildAuthorizationUrl provider []),
                audit \<lparr>ae_event = ''auth.oauth_start'', ae_provider = Some name, ae_userId = None, ae_reason = None\<rparr> s))"

definition signSessionToken :: "'db auth_ctx \<Rightarrow> string \<Rightarrow> string option \<Rightarrow> string" where
  "signSessionToken cx userId email = cx_sign cx \<lparr>sc_sub = userId, sc_email = email\<rparr>"

definition upsert_user :: "'db auth_ctx \<Rightarrow> oauth_profile \<Rightarrow> 'db auth_state \<Rightarrow> (string + user) \<times> 'db auth_state" where
  "upsert_user cx profile s =
     (let (r, e, db) = upsertByProvider (cx_repo cx) profile (au_env s) (au_db s)
      in (r, s\<lparr>au_env := e, au_db := db\<rparr>))"

definition completeOAuth ::
    "'db auth_ctx \<Rightarrow> string \<Rightarrow> string \<Rightarrow> 'db auth_state \<Rightarrow> (auth_error + user \<times> string) \<times> 'db auth_state" where
  "completeOAuth cx name code s =
     (case getProvider cx name of
        None \<Rightarrow> (Inl (AuthHttp (NotFound (''unknown provider: '' @ name))),
                 audit (failure_event ''auth.oauth_callback_failed'' name ''unknown_provider'') s)
      | Some provider \<Rightarrow>
          if \<not> pm_enabled (pv_meta provider)
          then (Inl (AuthHttp (NotFound (''provider disabled: '' @ name))),
                audit (failure_event ''auth.oauth_callback_failed'' name ''provider_disabled'') s)
          else (case pv_exchangeAndVerify provider code of
                  Inl _ \<Rightarrow> (Inl (AuthHttp (Unauthorized ''oauth verification failed'')),
                            audit (failure_event ''auth.oauth_callback_failed'' name ''verify_failed'') s)
                | Inr profile \<Rightarrow>
                    (case upsert_user cx profile s of
                       (Inl err, s1) \<Rightarrow> (Inl (AuthOther err), s1)
                     | (Inr user, s1) \<Rightarrow>
                         (Inr (user, cx_sign cx \<lparr>sc_sub = us_id user, sc_email = us_email user\<rparr>),
                          audit (success_event ''auth.oauth_callback_success'' name (us_id user)) s1))))"

record sign_in_result =
  si_token :: string
  si_userId :: string
  si_displayName :: string
  si_email :: "string option"
  si_picture :: "string option"
  si_provider :: string

definition anonymous_profile :: "string \<Rightarrow> string \<Rightarrow> oauth_profile" where
  "anonymous_profile userId displayName =
     \<lparr>op_provider = ''anonymous'', op_providerSub = userId, op_email = None, op_emailVerified = True,
      op_displayName = displayName, op_picture = None\<rparr>"

definition signInAnonymous ::
    "'db auth_ctx \<Rightarrow> string \<Rightarrow> string \<Rightarrow> 'db auth_state \<Rightarrow> (auth_error + sign_in_result) \<times> 'db auth_state" where
  "signInAnonymous cx userId displayName s =
     (case upsert_user cx (anonymous_profile userId displayName) s of
        (Inl err, s1) \<Rightarrow> (Inl (AuthOther err), s1)
      | (Inr user, s1) \<Rightarrow>
          (Inr \<lparr>si_token = signSessionToken cx (us_id user) (us_email user), si_userId = us_id user,
                si_displayName = us_displayName user, si_email = us_email user, si_picture = us_picture user,
                si_provider = us_provider user\<rparr>,
           audit (success_event ''auth.anonymous_login_success'' ''anonymous'' (us_id user)) s1))"

definition logOauthFailure :: "string \<Rightarrow> string \<Rightarrow> 'db auth_state \<Rightarrow> 'db auth_state" where
  "logOauthFailure provider reason s = audit (failure_event ''auth.oauth_callback_failed'' provider reason) s"

record user_profile =
  up_userId :: string
  up_displayName :: string
  up_email :: "string option"
  up_picture :: "string option"
  up_provider :: string
  up_lastLoginAt :: "int option"

definition toProfile :: "user \<Rightarrow> user_profile" where
  "toProfile u = \<lparr>up_userId = us_id u, up_displayName = us_displayName u, up_email = us_email u,
     up_picture = us_picture u, up_provider = us_provider u, up_lastLoginAt = us_lastLoginAt u\<rparr>"

definition getProfile :: "'db auth_ctx \<Rightarrow> string \<Rightarrow> 'db auth_state \<Rightarrow> auth_error + user_profile" where
  "getProfile cx userId s =
     (case findById (cx_repo cx) userId (au_db s) of
        Inl err \<Rightarrow> Inl (AuthOther err)
      | Inr None \<Rightarrow> Inl (AuthHttp (NotFound ''user not found''))
      | Inr (Some user) \<Rightarrow> Inr (toProfile user))"

definition getFrontendOrigin :: "'db auth_ctx \<Rightarrow> string" where
  "getFrontendOrigin cx = or_default (cx_frontendOrigin cx) []"

definition isProduction :: "'db auth_ctx \<Rightarrow> bool" where
  "isProduction cx \<longleftrightarrow> cx_nodeEnv cx = Some ''production''"

definition getCookieSecure :: "'db auth_ctx \<Rightarrow> bool" where
  "getCookieSecure cx = isProduction cx"

section \<open>Reading session tokens\<close>

text \<open>
  The extractors of \<open>JwtStrategy\<close>: the bearer token of the header, read by the passport library,
  then the session cookie.
\<close>

definition session_token :: "string option \<Rightarrow> (string, string) jmap option \<Rightarrow> string option" where
  "session_token bearer cookies =
     (case bearer of
        Some t \<Rightarrow> Some t
      | None \<Rightarrow> (case cookies of None \<Rightarrow> None | Some m \<Rightarrow> jget m ''koom_session''))"

text \<open>\<open>validate\<close>: the user is the payload with \<open>sub\<close>, \<open>userId\<close> and \<open>email\<close> written over it.\<close>

fun own_props :: "jsval \<Rightarrow> (string \<times> jsval) list" where
  "own_props (JObj fs) = fs"
| "own_props _ = []"

definition jwt_validate :: "jsval \<Rightarrow> http_error + (string \<times> jsval) list" where
  "jwt_validate payload =
     (case nonempty_str (js_prop ''sub'' payload) of
        None \<Rightarrow> Inl (Unauthorized ''invalid token payload'')
      | Some sub \<Rightarrow>
          if js_prop ''ws'' payload = JBool True then Inl (Unauthorized ''ws token cannot be used for HTTP'')
          else Inr (jset ''email'' (js_prop ''email'' payload)
                     (jset ''userId'' (JStr sub) (jset ''sub'' (JStr sub) (own_props payload)))))"

text \<open>The strategy under \<open>turn/\<close>, which no module registers.\<close>

definition turn_jwt_validate :: "jsval \<Rightarrow> http_error + string \<times> jsval" where
  "turn_jwt_validate payload =
     (case nonempty_str (js_prop ''sub'' payload) of
        None \<Rightarrow> Inl (Unauthorized ''Invalid token: missing subject'')
      | Some sub \<Rightarrow> Inr (sub, payload))"

end
