(* ===== verification/AuthProps.thy ===== *)
theory AuthProps
  imports AuthService
begin

text \<open>
  What sign-in guarantees: a session token is signed only for the account of a verified identity,
  refusals leave the accounts alone and are audited, and the profile served for a token's
  subject is the account signed in.
\<close>

section \<open>Branches\<close>

lemma audit_simps [simp]:
  "au_db (audit ev s) = au_db s" "au_env (audit ev s) = au_env s" "au_audit (audit ev s) = au_audit s @ [ev]"
  by (simp_all add: audit_def)

lemma upsert_user_eq:
  "upsert_user cx p s = (r, s') \<longleftrightarrow>
     (\<exists>e db. upsertByProvider (cx_repo cx) p (au_env s) (au_db s) = (r, e, db) \<and> s' = s\<lparr>au_env := e, au_db := db\<rparr>)"
  by (auto simp: upsert_user_def split_def prod_eq_iff Let_def)

lemma upsert_user_audit [simp]: "au_audit (snd (upsert_user cx p s)) = au_audit s"
  by (simp add: upsert_user_def split_def Let_def)

lemma completeOAuth_Inr:
  assumes "completeOAuth cx name code s = (Inr (u, token), s')"
  shows "\<exists>pv profile s1. registry_get (cx_providers cx) name = Some pv \<and> pm_enabled (pv_meta pv)
    \<and> pv_exchangeAndVerify pv code = Inr profile \<and> upsert_user cx profile s = (Inr u, s1)
    \<and> token = cx_sign cx \<lparr>sc_sub = us_id u, sc_email = us_email u\<rparr>
    \<and> s' = audit (success_event ''auth.oauth_callback_success'' name (us_id u)) s1"
  using assms
  by (auto simp: completeOAuth_def getProvider_def split: option.splits if_splits sum.splits prod.splits)

lemma completeOAuth_Inl:
  assumes "completeOAuth cx name code s = (Inl err, s')"
  shows "(\<exists>reason. s' = audit (failure_event ''auth.oauth_callback_failed'' name reason) s
      \<and> err \<in> {AuthHttp (NotFound (''unknown provider: '' @ name)), AuthHttp (NotFound (''provider disabled: '' @ name)),
               AuthHttp (Unauthorized ''oauth verification failed'')})
    \<or> (\<exists>pv profile m. registry_get (cx_providers cx) name = Some pv \<and> pv_exchangeAndVerify pv code = Inr profile
        \<and> upsert_user cx profile s = (Inl m, s') \<and> err = AuthOther m)"
  using assms
  by (auto simp: completeOAuth_def getProvider_def split: option.splits if_splits sum.splits prod.splits)

section \<open>Properties\<close>

text \<open>C15: completing an OAuth sign-in yields a token only when the provider is registered and enabled and
  verified the code; the account is that of the verified identity, the token is signed for its
  id, one success is audited, and the other accounts are unchanged.\<close>

theorem oauth_sign_in:
  assumes doc: "repo_documented rows (cx_repo cx)" and ok: "users_ok (rows (au_db s))"
    and fresh: "e_uuid (au_env s) (n_uuid (au_env s)) \<notin> us_id ` set (rows (au_db s))"
    and run: "completeOAuth cx name code s = (Inr (u, token), s')"
  shows "\<exists>pv profile. registry_get (cx_providers cx) name = Some pv \<and> pm_enabled (pv_meta pv)
    \<and> pv_exchangeAndVerify pv code = Inr profile \<and> same_account profile u \<and> us_email u = op_email profile
    \<and> u \<in> set (rows (au_db s')) \<and> users_ok (rows (au_db s'))
    \<and> {r \<in> set (rows (au_db s')). us_id r \<noteq> us_id u} = {r \<in> set (rows (au_db s)). us_id r \<noteq> us_id u}
    \<and> token = cx_sign cx \<lparr>sc_sub = us_id u, sc_email = us_email u\<rparr>
    \<and> au_audit s' = au_audit s @ [success_event ''auth.oauth_callback_success'' name (us_id u)]"
proof -
  from completeOAuth_Inr [OF run] obtain pv profile s1
    where pv: "registry_get (cx_providers cx) name = Some pv" "pm_enabled (pv_meta pv)"
      "pv_exchangeAndVerify pv code = Inr profile"
    and up: "upsert_user cx profile s = (Inr u, s1)"
    and token: "token = cx_sign cx \<lparr>sc_sub = us_id u, sc_email = us_email u\<rparr>"
    and s': "s' = audit (success_event ''auth.oauth_callback_success'' name (us_id u)) s1" by blast
  from up obtain e db where u: "upsertByProvider (cx_repo cx) profile (au_env s) (au_db s) = (Inr u, e, db)"
    and s1: "s1 = s\<lparr>au_env := e, au_db := db\<rparr>" by (auto simp: upsert_user_eq)
  note spec = upsert_effect [OF doc ok fresh u]
  show ?thesis
    by (rule exI [of _ pv], rule exI [of _ profile]) (use pv token s' s1 spec in simp)
qed

definition demo_provider :: oauth_provider where
  "demo_provider = \<lparr>pv_meta = \<lparr>pm_name = ''google'', pm_displayName = ''Google'', pm_iconUrl = None, pm_configKey = None,
       pm_enabled = True, pm_startUrl = None\<rparr>,
     pv_buildAuthorizationUrl = (\<lambda>state. Inr state), pv_exchangeAndVerify = (\<lambda>code. Inr demo_profile)\<rparr>"

definition demo_ctx :: "(user list) auth_ctx" where
  "demo_ctx = \<lparr>cx_repo = ref_repo, cx_sign = sc_sub, cx_providers = Some [(''google'', demo_provider)],
     cx_frontendOrigin = Some ''https://app'', cx_nodeEnv = Some ''production''\<rparr>"

definition demo_auth :: "(user list) auth_state" where
  "demo_auth = \<lparr>au_db = [demo_user], au_env = demo_uuid_env, au_audit = []\<rparr>"

lemma demo_users: "users_ok [demo_user]" "e_uuid demo_uuid_env (n_uuid demo_uuid_env) \<notin> us_id ` set [demo_user]"
  by (simp_all add: users_ok_def conflicts_def demo_user_def demo_uuid_env_def show_nat.simps digit_char_def)

lemmas demo_defs =
  demo_ctx_def demo_auth_def demo_provider_def demo_profile_def demo_user_def demo_uuid_env_def ref_repo_def

lemma oauth_sign_in_witness:
  "\<exists>u token s'. completeOAuth demo_ctx ''google'' ''c0de'' demo_auth = (Inr (u, token), s') \<and> token = ''id1''
    \<and> us_email u = Some ''ana@x'' \<and> users_ok (au_db s')"
proof -
  let ?u = "demo_user\<lparr>us_email := Some ''ana@x'', us_displayName := ''Ana'', us_lastLoginAt := Some 5000\<rparr>"
  obtain s' where run: "completeOAuth demo_ctx ''google'' ''c0de'' demo_auth = (Inr (?u, ''id1''), s')"
    by (simp add: completeOAuth_def getProvider_def registry_get_def jget_def upsert_user_def upsertByProvider_def
        findByProviderSub_def read_clock_def conflicts_def put_row_def demo_defs Let_def)
  have doc: "repo_documented (\<lambda>db. db) (cx_repo demo_ctx)"
    using ref_repo_documented by (simp add: demo_ctx_def)
  show ?thesis
    using oauth_sign_in [OF doc _ _ run] demo_users run
    by (auto simp: demo_ctx_def demo_auth_def demo_provider_def demo_profile_def registry_get_def jget_def)
qed

lemma anonymous_sign_in_profile:
  assumes doc: "repo_documented rows (cx_repo cx)" and ok: "users_ok (rows (au_db s))"
    and fresh: "e_uuid (au_env s) (n_uuid (au_env s)) \<notin> us_id ` set (rows (au_db s))"
    and run: "signInAnonymous cx userId displayName s = (Inr r, s')"
    and up: "is_ok (ur_findOne (cx_repo cx) (WhereId (si_userId r)) (au_db s'))"
  shows "getProfile cx (si_userId r) s' =
      Inr \<lparr>up_userId = si_userId r, up_displayName = displayName, up_email = None, up_picture = None,
           up_provider = ''anonymous'', up_lastLoginAt = Some (e_clock (au_env s) (n_clock (au_env s)))\<rparr>
    \<and> si_token r = cx_sign cx \<lparr>sc_sub = si_userId r, sc_email = None\<rparr> \<and> si_displayName r = displayName"
proof -
  obtain u e db where u: "upsertByProvider (cx_repo cx) (anonymous_profile userId displayName) (au_env s) (au_db s) = (Inr u, e, db)"
    and r: "r = \<lparr>si_token = signSessionToken cx (us_id u) (us_email u), si_userId = us_id u,
                si_displayName = us_displayName u, si_email = us_email u, si_picture = us_picture u,
                si_provider = us_provider u\<rparr>"
    and s': "au_db s' = db"
    using run by (auto simp: signInAnonymous_def upsert_user_eq split: prod.splits sum.splits)
  note spec = upsert_effect [OF doc ok fresh u]
  from up obtain f where f: "ur_findOne (cx_repo cx) (WhereId (us_id u)) db = Inr f"
    by (auto simp: is_ok_iff r s')
  have "f = Some u"
  proof (cases f)
    case None
    then show ?thesis using find_doc(1) [OF doc f] spec by (auto simp: list_ex_iff)
  next
    case (Some v)
    have "v \<in> set (rows db)" "us_id v = us_id u" using find_doc(2) [OF doc f Some] by simp_all
    then show ?thesis using spec Some unfolding users_ok_def by blast
  qed
  then show ?thesis
    using f r s' spec
    by (simp add: getProfile_def findById_def toProfile_def anonymous_profile_def same_account_def signSessionToken_def)
qed

text \<open>The id signed in is an id of the table, or the fresh one.\<close>

lemma sign_in_id:
  assumes doc: "repo_documented rows (cx_repo cx)" and ok: "users_ok (rows (au_db s))"
    and fresh: "e_uuid (au_env s) (n_uuid (au_env s)) \<notin> us_id ` set (rows (au_db s))"
    and run: "signInAnonymous cx userId displayName s = (Inr r, s')"
  shows "si_userId r \<in> insert (e_uuid (au_env s) (n_uuid (au_env s))) (us_id ` set (rows (au_db s)))"
proof -
  let ?p = "anonymous_profile userId displayName"
  obtain u e db where u: "upsertByProvider (cx_repo cx) ?p (au_env s) (au_db s) = (Inr u, e, db)"
    and r: "si_userId r = us_id u"
    using run by (auto simp: signInAnonymous_def upsert_user_eq split: prod.splits sum.splits)
  obtain f where f: "findByProviderSub (cx_repo cx) (op_provider ?p) (op_providerSub ?p) (au_db s) = Inr f"
    using u by (cases "findByProviderSub (cx_repo cx) (op_provider ?p) (op_providerSub ?p) (au_db s)")
      (auto simp: upsertByProvider_def)
  show ?thesis
  proof (cases f)
    case None
    then show ?thesis using upsert_new(2) [OF doc f [unfolded None] u] r by simp
  next
    case (Some w)
    note ex = upsert_existing [OF doc f [unfolded Some] u]
    then have "us_id u = us_id w" by simp
    then show ?thesis using ex(1) r by auto
  qed
qed

lemma show_nat_0: "show_nat 0 = ''0''"
  by code_simp

end
