(* ===== verification/Base64.thy ===== *)
theory Base64
  imports JsValue "HOL-Library.Word"
begin

text \<open>
  \<open>Buffer.toString('base64url')\<close> of the runtime, which names OAuth states and WebSocket tokens:
  three bytes give four characters, a rest of one or two bytes gives two or three, and there is
  no padding. \<open>b64_decode\<close> is its inverse.
\<close>

definition b64_alphabet :: string where
  "b64_alphabet = ''ABCDEFGHIJKLMNOPQRSTUVWXYZabcdefghijklmnopqrstuvwxyz0123456789-_''"

definition b64_char :: "nat \<Rightarrow> char" where
  "b64_char n = b64_alphabet ! n"

fun base64url :: "8 word list \<Rightarrow> string" where
  "base64url [] = []"
| "base64url [a] = [b64_char (unat a div 4), b64_char (unat a mod 4 * 16)]"
| "base64url [a, b] =
     [b64_char (unat a div 4), b64_char (unat a mod 4 * 16 + unat b div 16), b64_char (unat b mod 16 * 4)]"
| "base64url (a # b # c # bs) =
     [b64_char (unat a div 4), b64_char (unat a mod 4 * 16 + unat b div 16),
      b64_char (unat b mod 16 * 4 + unat c div 64), b64_char (unat c mod 64)] @ base64url bs"

section \<open>Inverse\<close>

fun position :: "char \<Rightarrow> string \<Rightarrow> nat" where
  "position c [] = 0"
| "position c (d # ds) = (if c = d then 0 else Suc (position c ds))"

definition b64_value :: "char \<Rightarrow> nat" where
  "b64_value c = position c b64_alphabet"

lemma position_nth: "distinct xs \<Longrightarrow> n < length xs \<Longrightarrow> position (xs ! n) xs = n"
  by (induction xs arbitrary: n) (auto simp: nth_Cons split: nat.split)

lemma b64_alphabet_props: "distinct b64_alphabet" "length b64_alphabet = 64"
  by code_simp+

lemma b64_value_char [simp]: "n < 64 \<Longrightarrow> b64_value (b64_char n) = n"
  by (simp add: b64_value_def b64_char_def position_nth b64_alphabet_props)

fun b64_decode :: "string \<Rightarrow> 8 word list" where
  "b64_decode (p # q # r # s # cs) =
     [of_nat (b64_value p * 4 + b64_value q div 16), of_nat (b64_value q mod 16 * 16 + b64_value r div 4),
      of_nat (b64_value r mod 4 * 64 + b64_value s)] @ b64_decode cs"
| "b64_decode [p, q, r] =
     [of_nat (b64_value p * 4 + b64_value q div 16), of_nat (b64_value q mod 16 * 16 + b64_value r div 4)]"
| "b64_decode [p, q] = [of_nat (b64_value p * 4 + b64_value q div 16)]"
| "b64_decode [p] = []"
| "b64_decode [] = []"

lemma byte_bounds:
  "unat a div 4 < 64" "unat a mod 4 * 16 < 64" "unat a mod 4 * 16 + unat b div 16 < 64"
  "unat b mod 16 * 4 < 64" "unat b mod 16 * 4 + unat c div 64 < 64" "unat c mod 64 < 64" for a b c :: "8 word"
proof -
  have "unat a < 256" "unat b < 256" "unat c < 256"
    using unsigned_less [of a, where 'a = nat] unsigned_less [of b, where 'a = nat] unsigned_less [of c, where 'a = nat]
    by simp_all
  then show "unat a div 4 < 64" "unat a mod 4 * 16 < 64" "unat a mod 4 * 16 + unat b div 16 < 64"
    "unat b mod 16 * 4 < 64" "unat b mod 16 * 4 + unat c div 64 < 64" "unat c mod 64 < 64"
    by linarith+
qed

lemma split_digits:
  "q < 16 \<Longrightarrow> (p * 16 + q) div 16 = p" "q < 16 \<Longrightarrow> (p * 16 + q) mod 16 = q"
  "r < 4 \<Longrightarrow> (p * 4 + r) div 4 = p" "r < 4 \<Longrightarrow> (p * 4 + r) mod 4 = r" for p q r :: nat
  by simp_all

lemma byte_join:
  "unat a div 4 * 4 + unat a mod 4 * 16 div 16 = unat a"
  "unat a div 4 * 4 + (unat a mod 4 * 16 + unat b div 16) div 16 = unat a"
  "(unat a mod 4 * 16 + unat b div 16) mod 16 * 16 + unat b mod 16 * 4 div 4 = unat b"
  "(unat a mod 4 * 16 + unat b div 16) mod 16 * 16 + (unat b mod 16 * 4 + unat c div 64) div 4 = unat b"
  "(unat b mod 16 * 4 + unat c div 64) mod 4 * 64 + unat c mod 64 = unat c" for a b c :: "8 word"
proof -
  have "unat b < 256" "unat c < 256"
    using unsigned_less [of b, where 'a = nat] unsigned_less [of c, where 'a = nat] by simp_all
  then have b: "unat b div 16 < 16" and c: "unat c div 64 < 4" by linarith+
  show "unat a div 4 * 4 + unat a mod 4 * 16 div 16 = unat a" by simp
  show "unat a div 4 * 4 + (unat a mod 4 * 16 + unat b div 16) div 16 = unat a"
    by (simp only: split_digits(1) [OF b] div_mult_mod_eq)
  show "(unat a mod 4 * 16 + unat b div 16) mod 16 * 16 + unat b mod 16 * 4 div 4 = unat b"
    using split_digits(2) [OF b] by (simp add: div_mult_mod_eq)
  show "(unat a mod 4 * 16 + unat b div 16) mod 16 * 16 + (unat b mod 16 * 4 + unat c div 64) div 4 = unat b"
    by (simp only: split_digits(2) [OF b] split_digits(3) [OF c] div_mult_mod_eq)
  show "(unat b mod 16 * 4 + unat c div 64) mod 4 * 64 + unat c mod 64 = unat c"
    by (simp only: split_digits(4) [OF c] div_mult_mod_eq)
qed

lemma b64_decode_encode: "b64_decode (base64url bs) = bs"
  by (induction bs rule: base64url.induct)
    (simp_all only: base64url.simps b64_decode.simps append_Cons append_Nil b64_value_char byte_bounds byte_join
      of_nat_unat ucast_id)

lemma base64url_inj: "base64url xs = base64url ys \<longleftrightarrow> xs = ys"
  by (metis b64_decode_encode)

lemma base64url_length: "length (base64url bs) = (4 * length bs + 2) div 3"
  by (induction bs rule: base64url.induct) simp_all

lemma base64url_chars: "set (base64url bs) \<subseteq> set b64_alphabet"
  by (induction bs rule: base64url.induct)
    (auto simp: b64_char_def intro!: nth_mem simp: b64_alphabet_props byte_bounds)

end
