(* ===== verification/WsToken.thy ===== *)
theory WsToken
  imports Base64 Http
begin

text \<open>
  Short-lived WebSocket tokens, \<open>src/src/auth/ws/ws-token.service.ts\<close>. The state is the map from the
  identifiers of the tokens issued and not consumed to their expiry, in seconds. Signing and
  verification are parameters: \<open>sign claims ttl\<close> is the token, \<open>verify token\<close> its payload or the
  message of the error. \<open>now\<close> is the reading of the clock in milliseconds and \<open>bytes\<close> what
  \<open>randomBytes(16)\<close> returned.
\<close>

definition DEFAULT_TTL_SECONDS :: int where
  "DEFAULT_TTL_SECONDS = 60"

record ws_token_claims =
  wt_sub :: string
  wt_jti :: string

record ws_token_result =
  wr_token :: string
  wr_expiresAt :: int

type_synonym ws_used = "(string, int) jmap"

definition ws_issue ::
    "(ws_token_claims \<Rightarrow> int \<Rightarrow> string) \<Rightarrow> 8 word list \<Rightarrow> int \<Rightarrow> string \<Rightarrow> int option \<Rightarrow> ws_used
     \<Rightarrow> ws_token_result \<times> ws_used" where
  "ws_issue sign bytes now_ms userId ttlSeconds used =
     (let jti = base64url bytes;
          now = now_ms div 1000;
          ttl = or_default ttlSeconds DEFAULT_TTL_SECONDS;
          expiry = now + ttl;
          token = sign \<lparr>wt_sub = userId, wt_jti = jti\<rparr> ttl
      in (\<lparr>wr_token = token, wr_expiresAt = expiry * 1000\<rparr>, jset jti expiry used))"

text \<open>The keys of the map are strings, so a \<open>jti\<close> that is not one is not found.\<close>

definition used_get :: "ws_used \<Rightarrow> jsval \<Rightarrow> int option" where
  "used_get used v = (case v of JStr j \<Rightarrow> jget used j | _ \<Rightarrow> None)"

fun used_delete :: "jsval \<Rightarrow> ws_used \<Rightarrow> ws_used" where
  "used_delete (JStr j) used = jdel j used"
| "used_delete _ used = used"

definition ws_consume :: "(string \<Rightarrow> string + jsval) \<Rightarrow> string \<Rightarrow> ws_used \<Rightarrow> (http_error + jsval) \<times> ws_used" where
  "ws_consume verify token used =
     (case verify token of
        Inl _ \<Rightarrow> (Inl (Unauthorized ''invalid ws token''), used)
      | Inr payload \<Rightarrow>
          if js_prop ''ws'' payload \<noteq> JBool True then (Inl (Unauthorized ''not a ws token''), used)
          else if js_falsy (js_prop ''jti'' payload) then (Inl (Unauthorized ''ws token missing jti''), used)
          else (case used_get used (js_prop ''jti'' payload) of
                  None \<Rightarrow> (Inl (Unauthorized ''ws token not found or already used''), used)
                | Some expiry \<Rightarrow> (Inr (js_prop ''sub'' payload), used_delete (js_prop ''jti'' payload) used)))"

definition ws_sweep :: "int \<Rightarrow> ws_used \<Rightarrow> ws_used" where
  "ws_sweep now_ms used =
     (let now = now_ms div 1000
      in foldl (\<lambda>m (jti, expiry). if expiry \<le> now then jdel jti m else m) used used)"

section \<open>Sequences of operations\<close>

text \<open>A consumption carries what verification returned at that moment.\<close>

datatype ws_op =
    WsIssue "8 word list" int string "int option"
  | WsConsume string "string + jsval"
  | WsSweep int

fun ws_step :: "(ws_token_claims \<Rightarrow> int \<Rightarrow> string) \<Rightarrow> ws_op \<Rightarrow> ws_used \<Rightarrow> ws_used" where
  "ws_step sign (WsIssue bytes now_ms userId ttl) used = snd (ws_issue sign bytes now_ms userId ttl used)"
| "ws_step sign (WsConsume token result) used = snd (ws_consume (\<lambda>_. result) token used)"
| "ws_step sign (WsSweep now_ms) used = ws_sweep now_ms used"

text \<open>What ends the token \<open>j\<close> that expires at \<open>expiry\<close>: consuming it, or a sweep after its expiry.\<close>

fun ends_token :: "string \<Rightarrow> int \<Rightarrow> ws_op \<Rightarrow> bool" where
  "ends_token j expiry (WsIssue bytes now_ms userId ttl) = False"
| "ends_token j expiry (WsConsume token result) =
     (case result of Inl _ \<Rightarrow> False | Inr p \<Rightarrow> js_prop ''ws'' p = JBool True \<and> js_prop ''jti'' p = JStr j)"
| "ends_token j expiry (WsSweep now_ms) = (expiry \<le> now_ms div 1000)"

fun issues_again :: "string \<Rightarrow> ws_op \<Rightarrow> bool" where
  "issues_again j (WsIssue bytes now_ms userId ttl) = (base64url bytes = j)"
| "issues_again j _ = False"

lemma sweep_get: "jwf used \<Longrightarrow> jget (ws_sweep now_ms used) j =
    (case jget used j of None \<Rightarrow> None | Some expiry \<Rightarrow> if expiry \<le> now_ms div 1000 then None else Some expiry)"
proof -
  assume wf: "jwf used"
  let ?now = "now_ms div 1000"
  have "jget (foldl (\<lambda>m (jti, expiry). if expiry \<le> ?now then jdel jti m else m) m xs) j =
      (if \<exists>expiry. (j, expiry) \<in> set xs \<and> expiry \<le> ?now then None else jget m j)" for xs m :: ws_used
    by (induction xs arbitrary: m) auto
  then show ?thesis
    using jget_in_set [OF wf] by (auto simp: ws_sweep_def Let_def split: option.split)
qed

lemma sweep_wf: "jwf used \<Longrightarrow> jwf (ws_sweep now_ms used)"
proof -
  have "jwf m \<Longrightarrow> jwf (foldl (\<lambda>m (jti, expiry). if expiry \<le> t then jdel jti m else m) m xs)" for xs m :: ws_used and t
    by (induction xs arbitrary: m) (auto simp: jwf_intros)
  then show "jwf used \<Longrightarrow> jwf (ws_sweep now_ms used)" by (simp add: ws_sweep_def Let_def)
qed

lemma used_delete_get: "jget (used_delete v used) j = (if v = JStr j then None else jget used j)"
  by (cases v) auto

lemma consume_get:
  "jget (snd (ws_consume verify token used)) j =
     (if ends_token j expiry (WsConsume token (verify token)) \<and> j \<noteq> [] then None else jget used j)"
  by (auto simp: ws_consume_def used_get_def used_delete_get split: sum.split option.split jsval.split)

lemma consume_wf: "jwf used \<Longrightarrow> jwf (snd (ws_consume verify token used))"
  by (auto simp: ws_consume_def used_get_def jwf_intros split: sum.split option.split jsval.split)

lemma step_wf: "jwf used \<Longrightarrow> jwf (ws_step sign op used)"
  by (cases op) (auto simp: ws_issue_def Let_def jwf_intros sweep_wf consume_wf)

lemma step_get:
  assumes "jwf used" and "j \<noteq> []" and "\<not> issues_again j op" and "jget used j \<in> {None, Some expiry}"
  shows "jget (ws_step sign op used) j = (if ends_token j expiry op then None else jget used j)"
  using assms by (cases op) (auto simp: ws_issue_def Let_def sweep_get consume_get [where expiry = expiry] split: option.split)

lemma run_get:
  assumes "jwf used" and "j \<noteq> []" and "\<not> list_ex (issues_again j) ops" and "jget used j \<in> {None, Some expiry}"
  shows "jget (fold (ws_step sign) ops used) j = (if list_ex (ends_token j expiry) ops then None else jget used j)"
  using assms
proof (induction ops arbitrary: used)
  case (Cons op ops)
  have "jget (ws_step sign op used) j = (if ends_token j expiry op then None else jget used j)"
    using Cons.prems by (intro step_get) auto
  then show ?case
    using Cons.IH [OF step_wf [OF Cons.prems(1)] Cons.prems(2)] Cons.prems by auto
qed simp

section \<open>Properties\<close>

text \<open>C21: a WebSocket token is good for one use before it is swept: after it was issued, and whatever tokens
  are issued, consumed and swept in between, consuming it succeeds with its subject exactly when
  it was not consumed before and no sweep ran after its expiry.\<close>

theorem ws_token_single_use:
  assumes wf: "jwf used" and bytes: "bytes \<noteq> []" and fresh: "\<not> list_ex (issues_again (base64url bytes)) ops"
    and payload: "verify token = Inr payload" "js_prop ''ws'' payload = JBool True"
      "js_prop ''jti'' payload = JStr (base64url bytes)" "js_prop ''sub'' payload = JStr userId"
  shows "fst (ws_consume verify token (fold (ws_step sign) ops (snd (ws_issue sign bytes now_ms userId ttl used))))
    = (if list_ex (ends_token (base64url bytes) (now_ms div 1000 + or_default ttl DEFAULT_TTL_SECONDS)) ops
       then Inl (Unauthorized ''ws token not found or already used'') else Inr (JStr userId))"
proof -
  let ?j = "base64url bytes" and ?expiry = "now_ms div 1000 + or_default ttl DEFAULT_TTL_SECONDS"
  let ?s = "snd (ws_issue sign bytes now_ms userId ttl used)"
  have j: "?j \<noteq> []" using bytes base64url_inj [of bytes "[]"] by auto
  have "jwf ?s" "jget ?s ?j = Some ?expiry" using wf by (simp_all add: ws_issue_def Let_def jwf_intros)
  then have "jget (fold (ws_step sign) ops ?s) ?j = (if list_ex (ends_token ?j ?expiry) ops then None else Some ?expiry)"
    using run_get [OF _ j fresh] by simp
  then show ?thesis using payload j by (simp add: ws_consume_def used_get_def)
qed

lemma ws_token_single_use_witness:
  "fst (ws_consume (\<lambda>t. Inr (JObj [(''sub'', JStr ''u1''), (''ws'', JBool True), (''jti'', JStr (base64url [7]))])) ''t''
      (fold (ws_step (\<lambda>c ttl. wt_jti c)) [WsSweep 30000, WsIssue [8] 2000 ''u2'' None]
        (snd (ws_issue (\<lambda>c ttl. wt_jti c) [7] 1000 ''u1'' (Some 60) jempty))))
    = (if list_ex (ends_token (base64url [7]) (1000 div 1000 + or_default (Some 60) DEFAULT_TTL_SECONDS))
            [WsSweep 30000, WsIssue [8] 2000 ''u2'' None]
       then Inl (Unauthorized ''ws token not found or already used'') else Inr (JStr ''u1''))"
  by (rule ws_token_single_use [where payload =
        "JObj [(''sub'', JStr ''u1''), (''ws'', JBool True), (''jti'', JStr (base64url [7]))]"])
    (simp_all add: base64url_inj jwf_intros del: base64url.simps)

text \<open>The identifier of a WebSocket token and the state of an OAuth request are the base64url text of
  their random bytes: of the length those take, in the URL-safe alphabet, and decoding to them, so
  that different bytes give different identifiers.\<close>

theorem base64url_roundtrip:
  "b64_decode (base64url bs) = bs \<and> length (base64url bs) = (4 * length bs + 2) div 3
   \<and> set (base64url bs) \<subseteq> set b64_alphabet"
  by (simp add: b64_decode_encode base64url_length base64url_chars)

end
