(* ===== verification/Json.thy ===== *)
theory Json
  imports JsValue
begin

text \<open>
  \<open>JSON.stringify\<close> on the objects the source prints into a page (nested objects of strings, arrays
  of strings and \<open>null\<close>), the replacement of \<open><\<close> the source applies to the text, and a reader of the result that
  evaluates it as the script engine does.
\<close>

datatype jdoc = DStr string | DNull | DArr "string list" | DObj "(string \<times> jdoc) list"

definition hex_char :: "nat \<Rightarrow> char" where
  "hex_char n = ''0123456789abcdef'' ! n"

definition unicode_escape :: "char \<Rightarrow> string" where
  "unicode_escape c =
     (let n = of_char c :: nat in CHR 0x5C # ''u00'' @ [hex_char (n div 16), hex_char (n mod 16)])"

definition json_escape :: "char \<Rightarrow> string" where
  "json_escape c =
     (if c = CHR 0x22 then [CHR 0x5C, CHR 0x22]
      else if c = CHR 0x5C then [CHR 0x5C, CHR 0x5C]
      else if c = CHR 0x08 then CHR 0x5C # ''b''
      else if c = CHR 0x09 then CHR 0x5C # ''t''
      else if c = CHR 0x0A then CHR 0x5C # ''n''
      else if c = CHR 0x0C then CHR 0x5C # ''f''
      else if c = CHR 0x0D then CHR 0x5C # ''r''
      else if (of_char c :: nat) < 32 then unicode_escape c
      else [c])"

definition json_quote :: "string \<Rightarrow> string" where
  "json_quote s = CHR 0x22 # concat (map json_escape s) @ [CHR 0x22]"

fun json_text :: "jdoc \<Rightarrow> string" where
  "json_text (DStr s) = json_quote s"
| "json_text DNull = ''null''"
| "json_text (DArr ss) = ''['' @ js_join '','' (map json_quote ss) @ '']''"
| "json_text (DObj fs) =
     ''{'' @ js_join '','' (map (\<lambda>f. json_quote (fst f) @ '':'' @ json_text (snd f)) fs) @ ''}''"

text \<open>\<open>.replace(/</g, '\\u003c')\<close>.\<close>

definition escape_lt :: "string \<Rightarrow> string" where
  "escape_lt s = concat (map (\<lambda>c. if c = CHR ''<'' then CHR 0x5C # ''u003c'' else [c]) s)"

lemma escape_lt_append [simp]: "escape_lt (xs @ ys) = escape_lt xs @ escape_lt ys"
  by (simp add: escape_lt_def)

lemma escape_lt_no_lt: "CHR ''<'' \<notin> set (escape_lt s)"
  by (auto simp: escape_lt_def)

section \<open>The reader\<close>

fun hex_value :: "char \<Rightarrow> nat option" where
  "hex_value c =
     (let n = of_char c :: nat
      in if 48 \<le> n \<and> n \<le> 57 then Some (n - 48)
         else if 97 \<le> n \<and> n \<le> 102 then Some (n - 87)
         else if 65 \<le> n \<and> n \<le> 70 then Some (n - 55)
         else None)"

declare hex_value.simps [simp del]

definition hex4 :: "char \<Rightarrow> char \<Rightarrow> char \<Rightarrow> char \<Rightarrow> char option" where
  "hex4 a b c d =
     (case (hex_value a, hex_value b, hex_value c, hex_value d) of
        (Some w, Some x, Some y, Some z) \<Rightarrow> Some (char_of (((w * 16 + x) * 16 + y) * 16 + z))
      | _ \<Rightarrow> None)"

definition short_escape :: "char \<Rightarrow> char option" where
  "short_escape c =
     (if c = CHR 0x22 \<or> c = CHR 0x5C \<or> c = CHR ''/'' then Some c
      else if c = CHR ''b'' then Some (CHR 0x08)
      else if c = CHR ''t'' then Some (CHR 0x09)
      else if c = CHR ''n'' then Some (CHR 0x0A)
      else if c = CHR ''f'' then Some (CHR 0x0C)
      else if c = CHR ''r'' then Some (CHR 0x0D)
      else None)"

text \<open>The characters of a string literal up to its closing quote, and the rest.\<close>

fun read_chars :: "string \<Rightarrow> (string \<times> string) option" where
  "read_chars [] = None"
| "read_chars (c # cs) =
     (if c = CHR 0x22 then Some ([], cs)
      else if c \<noteq> CHR 0x5C then map_option (apfst (Cons c)) (read_chars cs)
      else case cs of
             [] \<Rightarrow> None
           | e # r \<Rightarrow>
               if e = CHR ''u'' then
                 (case r of
                    h1 # h2 # h3 # h4 # r' \<Rightarrow>
                      (case hex4 h1 h2 h3 h4 of
                         None \<Rightarrow> None
                       | Some d \<Rightarrow> map_option (apfst (Cons d)) (read_chars r'))
                  | _ \<Rightarrow> None)
               else (case short_escape e of
                       None \<Rightarrow> None
                     | Some d \<Rightarrow> map_option (apfst (Cons d)) (read_chars r)))"

lemma hex_value_char: "n < 16 \<Longrightarrow> hex_value (hex_char n) = Some n"
proof -
  assume "n < 16"
  moreover have "list_all (\<lambda>n. hex_value (hex_char n) = Some n) [0..<16]"
    by code_simp
  ultimately show ?thesis by (auto simp: list_all_iff)
qed

lemma hex_chars: "n < 16 \<Longrightarrow> hex_char n \<noteq> CHR ''<''"
proof -
  assume "n < 16"
  moreover have "list_all (\<lambda>n. hex_char n \<noteq> CHR ''<'') [0..<16]"
    by code_simp
  ultimately show ?thesis by (auto simp: list_all_iff)
qed

lemma hex4_escape: "hex4 (CHR ''0'') (CHR ''0'') (hex_char (of_char c div 16)) (hex_char (of_char c mod 16)) = Some c"
proof -
  have "(of_char c :: nat) < 256" by (rule nat_of_char_less_256)
  then have "(of_char c :: nat) div 16 < 16" by linarith
  moreover have "hex_value (CHR ''0'') = Some 0" by code_simp
  ultimately show ?thesis
    by (simp add: hex4_def hex_value_char)
qed

lemma escape_lt_lits [simp]:
  "escape_lt [] = []" "c \<noteq> CHR ''<'' \<Longrightarrow> escape_lt (c # s) = c # escape_lt s"
  "escape_lt (CHR ''<'' # s) = CHR 0x5C # ''u003c'' @ escape_lt s"
  by (simp_all add: escape_lt_def)

lemma read_plain:
  "c \<noteq> CHR 0x22 \<Longrightarrow> c \<noteq> CHR 0x5C \<Longrightarrow> read_chars (c # r) = map_option (apfst (Cons c)) (read_chars r)"
  by simp

lemma read_short:
  "short_escape e = Some c \<Longrightarrow> e \<noteq> CHR ''u'' \<Longrightarrow>
   read_chars (CHR 0x5C # e # r) = map_option (apfst (Cons c)) (read_chars r)"
  by simp

lemma read_unicode:
  "hex4 a b c d = Some x \<Longrightarrow>
   read_chars (CHR 0x5C # CHR ''u'' # a # b # c # d # r) = map_option (apfst (Cons x)) (read_chars r)"
  by simp

declare read_chars.simps(2) [simp del]

lemma read_special:
  "c \<in> {CHR 0x22, CHR 0x5C, CHR 0x08, CHR 0x09, CHR 0x0A, CHR 0x0C, CHR 0x0D} \<Longrightarrow>
   \<exists>e. json_escape c = [CHR 0x5C, e] \<and> short_escape e = Some c \<and> e \<noteq> CHR ''u'' \<and> e \<noteq> CHR ''<''"
  by (elim insertE emptyE) (simp_all add: json_escape_def short_escape_def)

lemma read_escape: "read_chars (escape_lt (json_escape c) @ r) = map_option (apfst (Cons c)) (read_chars r)"
proof (cases "c \<in> {CHR 0x22, CHR 0x5C, CHR 0x08, CHR 0x09, CHR 0x0A, CHR 0x0C, CHR 0x0D}")
  case True
  from read_special [OF True] obtain e where "json_escape c = [CHR 0x5C, e]" "short_escape e = Some c"
    "e \<noteq> CHR ''u''" "e \<noteq> CHR ''<''" by blast
  then show ?thesis by (simp add: read_short)
next
  case False
  show ?thesis
  proof (cases "(of_char c :: nat) < 32")
    case True
    then have "json_escape c = unicode_escape c" using False by (simp add: json_escape_def)
    moreover have "(of_char c :: nat) div 16 < 16" using True by linarith
    ultimately have "escape_lt (json_escape c) =
        CHR 0x5C # CHR ''u'' # CHR ''0'' # CHR ''0'' # hex_char (of_char c div 16) # [hex_char (of_char c mod 16)]"
      by (simp add: unicode_escape_def Let_def hex_chars)
    then show ?thesis by (simp add: read_unicode hex4_escape)
  next
    case plain: False
    then have e: "json_escape c = [c]" using False by (simp add: json_escape_def)
    have "hex4 (CHR ''0'') (CHR ''0'') (CHR ''3'') (CHR ''c'') = Some (CHR ''<'')" by code_simp
    with False e show ?thesis
      by (cases "c = CHR ''<''") (simp_all only: escape_lt_lits append_Cons append_Nil read_unicode read_plain insert_iff de_Morgan_disj simp_thms not_False_eq_True)
  qed
qed

lemma read_all:
  "read_chars (escape_lt (concat (map json_escape s)) @ CHR 0x22 # rest) = Some (s, rest)"
proof (induction s)
  case (Cons c s)
  then show ?case by (simp add: read_escape)
qed (simp add: read_chars.simps(2))

lemma read_quote: "escape_lt (json_quote s) @ rest = CHR 0x22 # escape_lt (concat (map json_escape s)) @ CHR 0x22 # rest"
  by (simp add: json_quote_def)

text \<open>The strings of an array up to its closing bracket; the number bounds how many are read.\<close>

fun read_strings :: "nat \<Rightarrow> string \<Rightarrow> (string list \<times> string) option" where
  "read_strings 0 s = None"
| "read_strings (Suc n) s =
     (case s of
        [] \<Rightarrow> None
      | c # cs \<Rightarrow>
          if c \<noteq> CHR 0x22 then None
          else (case read_chars cs of
                  Some (t, e # r) \<Rightarrow>
                    if e = CHR '','' then map_option (apfst (Cons t)) (read_strings n r)
                    else if e = CHR '']'' then Some ([t], r)
                    else None
                | _ \<Rightarrow> None))"

lemma strings_read_back:
  assumes "ss \<noteq> []"
  shows "\<exists>m. \<forall>k rest. read_strings (m + k) (escape_lt (js_join '','' (map json_quote ss)) @ CHR '']'' # rest) = Some (ss, rest)"
  using assms
proof (induction ss rule: list_nonempty_induct)
  case (single t)
  show ?case by (rule exI [of _ "Suc 0"]) (simp add: read_quote read_all)
next
  case (cons t ss)
  then obtain m where m: "\<And>k rest. read_strings (m + k)
      (escape_lt (js_join '','' (map json_quote ss)) @ CHR '']'' # rest) = Some (ss, rest)" by auto
  obtain u us where ss: "ss = u # us" using cons.hyps by (cases ss) auto
  have "read_strings (Suc m + k) (escape_lt (js_join '','' (map json_quote (t # ss))) @ CHR '']'' # rest) = Some (t # ss, rest)"
    for k rest
    using m [of k] by (simp add: ss read_quote read_all)
  then show ?case by blast
qed

text \<open>Documents; the number bounds the depth of the visit.\<close>

fun read_doc :: "nat \<Rightarrow> string \<Rightarrow> (jdoc \<times> string) option"
  and read_members :: "nat \<Rightarrow> string \<Rightarrow> ((string \<times> jdoc) list \<times> string) option" where
  "read_doc 0 s = None"
| "read_doc (Suc n) s =
     (case s of
        [] \<Rightarrow> None
      | c # cs \<Rightarrow>
          if c = CHR 0x22 then map_option (apfst DStr) (read_chars cs)
          else if c = CHR ''{'' then
            (case cs of
               [] \<Rightarrow> None
             | d # ds \<Rightarrow> if d = CHR ''}'' then Some (DObj [], ds) else map_option (apfst DObj) (read_members n cs))
          else if c = CHR ''['' then
            (case cs of
               [] \<Rightarrow> None
             | d # ds \<Rightarrow> if d = CHR '']'' then Some (DArr [], ds) else map_option (apfst DArr) (read_strings n cs))
          else if take 4 s = ''null'' then Some (DNull, drop 4 s)
          else None)"
| "read_members 0 s = None"
| "read_members (Suc n) s =
     (case s of
        [] \<Rightarrow> None
      | c # cs \<Rightarrow>
          if c \<noteq> CHR 0x22 then None
          else (case read_chars cs of
                  Some (k, d # r) \<Rightarrow>
                    if d \<noteq> CHR '':'' then None
                    else (case read_doc n r of
                            Some (v, e # r') \<Rightarrow>
                              if e = CHR '','' then map_option (apfst (Cons (k, v))) (read_members n r')
                              else if e = CHR ''}'' then Some ([(k, v)], r')
                              else None
                          | _ \<Rightarrow> None)
                | _ \<Rightarrow> None))"

definition reads_back :: "jdoc \<Rightarrow> bool" where
  "reads_back d \<longleftrightarrow> (\<exists>m. \<forall>k rest. read_doc (m + k) (escape_lt (json_text d) @ rest) = Some (d, rest))"

lemma members_read_back:
  assumes "\<And>f. f \<in> set fs \<Longrightarrow> reads_back (snd f)" and "fs \<noteq> []"
  shows "\<exists>m. \<forall>k rest. read_members (m + k)
      (escape_lt (js_join '','' (map (\<lambda>f. json_quote (fst f) @ '':'' @ json_text (snd f)) fs)) @ CHR ''}'' # rest)
    = Some (fs, rest)"
  using assms(2, 1)
proof (induction fs rule: list_nonempty_induct)
  case (single f)
  then obtain m where m: "\<And>k rest. read_doc (m + k) (escape_lt (json_text (snd f)) @ rest) = Some (snd f, rest)"
    by (auto simp: reads_back_def)
  show ?case
    by (rule exI [of _ "Suc m"]) (simp add: read_quote read_all m)
next
  case (cons f fs)
  have "reads_back (snd f)" using cons.prems by simp
  then obtain m where m: "\<And>k rest. read_doc (m + k) (escape_lt (json_text (snd f)) @ rest) = Some (snd f, rest)"
    by (auto simp: reads_back_def)
  from cons obtain n where n: "\<And>k rest. read_members (n + k)
      (escape_lt (js_join '','' (map (\<lambda>f. json_quote (fst f) @ '':'' @ json_text (snd f)) fs)) @ CHR ''}'' # rest)
    = Some (fs, rest)" by auto
  obtain g gs where fs: "fs = g # gs" using cons.hyps by (cases fs) auto
  have "read_members (Suc (m + n) + k)
      (escape_lt (js_join '','' (map (\<lambda>f. json_quote (fst f) @ '':'' @ json_text (snd f)) (f # fs))) @ CHR ''}'' # rest)
    = Some (f # fs, rest)" for k rest
    using m [of "n + k"] n [of "m + k"]
    by (simp add: fs read_quote read_all add.assoc add.left_commute add.commute)
  then show ?case by blast
qed

lemma doc_reads_back: "reads_back d"
proof (induction d)
  case (DStr s)
  have "read_doc (Suc 0 + k) (escape_lt (json_text (DStr s)) @ rest) = Some (DStr s, rest)" for k rest
    by (simp add: read_quote read_all)
  then show ?case unfolding reads_back_def by blast
next
  case DNull
  have "read_doc (Suc 0 + k) (escape_lt (json_text DNull) @ rest) = Some (DNull, rest)" for k rest
    by simp
  then show ?case unfolding reads_back_def by blast
next
  case (DArr ss)
  show ?case
  proof (cases "ss = []")
    case True
    have "read_doc (Suc 0 + k) (escape_lt (json_text (DArr [])) @ rest) = Some (DArr [], rest)" for k rest
      by simp
    then show ?thesis unfolding reads_back_def True by blast
  next
    case False
    from strings_read_back [OF this] obtain m where m: "\<And>k rest. read_strings (m + k)
        (escape_lt (js_join '','' (map json_quote ss)) @ CHR '']'' # rest) = Some (ss, rest)" by blast
    obtain u us where ss: "ss = u # us" using False by (cases ss) auto
    obtain t where t: "escape_lt (js_join '','' (map json_quote ss)) = CHR 0x22 # t"
      unfolding ss by (cases us) (simp_all add: json_quote_def)
    have "read_doc (Suc m + k) (escape_lt (json_text (DArr ss)) @ rest) = Some (DArr ss, rest)" for k rest
      using m [of k rest] t by simp
    then show ?thesis unfolding reads_back_def by blast
  qed
next
  case (DObj fs)
  show ?case
  proof (cases "fs = []")
    case True
    have "read_doc (Suc 0 + k) (escape_lt (json_text (DObj [])) @ rest) = Some (DObj [], rest)" for k rest
      by simp
    then show ?thesis unfolding reads_back_def True by blast
  next
    case False
    have "reads_back (snd f)" if "f \<in> set fs" for f
      using DObj [OF that, of "snd f"] by (cases f) auto
    from members_read_back [OF this False] obtain m where m: "\<And>k rest. read_members (m + k)
        (escape_lt (js_join '','' (map (\<lambda>f. json_quote (fst f) @ '':'' @ json_text (snd f)) fs)) @ CHR ''}'' # rest)
      = Some (fs, rest)" by blast
    obtain f gs where fs: "fs = f # gs" using False by (cases fs) auto
    obtain t where t: "escape_lt (js_join '','' (map (\<lambda>f. json_quote (fst f) @ '':'' @ json_text (snd f)) fs)) = CHR 0x22 # t"
      unfolding fs by (cases gs) (simp_all add: json_quote_def)
    have "read_doc (Suc m + k) (escape_lt (json_text (DObj fs)) @ rest) = Some (DObj fs, rest)" for k rest
      using m [of k rest] t by simp
    then show ?thesis unfolding reads_back_def by blast
  qed
qed

end
