(* ===== verification/SignalDto.thy ===== *)
theory SignalDto
  imports JsValue
begin

text \<open>
  The payload schemas and parsers of \<open>src/src/signaling/dto/signaling.dto.ts\<close>. The library
  \<open>zod\<close> is a parameter: \<open>zod schema value\<close> is what \<open>schema.safeParse(value)\<close> returns, the
  issues or the data. A schema is its description as the source composes it; \<open>ZLoose\<close> is an
  object with \<open>passthrough\<close>, \<open>ZMax\<close> a string schema with \<open>max\<close>. \<open>zod_correct\<close>
  states the documented behaviour for these schemas: a value parses exactly when it conforms,
  and object data keeps the declared keys only.
\<close>

datatype zschema =
    ZString "(nat \<times> string) option"
  | ZLiteral string
  | ZEnum "string list"
  | ZOr zschema zschema
  | ZArray zschema "(nat \<times> string) option"
  | ZObject "(string \<times> zschema) list"
  | ZLoose "(string \<times> zschema) list"
  | ZOptional zschema
  | ZMax zschema nat

record zissue =
  zi_path :: "string list"
  zi_message :: string

type_synonym zod = "zschema \<Rightarrow> jsval \<Rightarrow> (zissue list \<times> string) + jsval"

section \<open>Schemas\<close>

definition callIdSchema :: zschema where
  "callIdSchema = ZString (Some (1, ''callId must be a non-empty string''))"

definition userIdSchema :: zschema where
  "userIdSchema = ZString (Some (1, ''userId must be a non-empty string''))"

definition callEventTypeSchema :: zschema where
  "callEventTypeSchema = ZEnum [''call:ringing'', ''call:accept'', ''call:reject'', ''call:cancel'', ''call:end'']"

definition sfuEventTypeSchema :: zschema where
  "sfuEventTypeSchema = ZEnum [''sfu:join-room'', ''sfu:publish-track'', ''sfu:subscribe-track'']"

definition callInvitePayloadSchema :: zschema where
  "callInvitePayloadSchema = ZObject
     [(''callId'', callIdSchema), (''from'', userIdSchema),
      (''to'', ZArray userIdSchema (Some (1, ''call:invite must target at least one user''))),
      (''type'', ZOr (ZLiteral ''audio'') (ZLiteral ''video''))]"

definition callEventPayloadSchema :: zschema where
  "callEventPayloadSchema = ZObject [(''callId'', callIdSchema)]"

definition sfuPayloadSchema :: zschema where
  "sfuPayloadSchema = ZObject
     [(''callId'', callIdSchema), (''room'', ZOptional (ZString (Some (1, [])))),
      (''trackId'', ZOptional (ZString (Some (1, []))))]"

definition callInviteForUserSchema :: zschema where
  "callInviteForUserSchema = ZObject
     [(''callId'', callIdSchema), (''from'', userIdSchema),
      (''type'', ZOr (ZLiteral ''audio'') (ZLiteral ''video''))]"

section \<open>Parsers\<close>

record invite_payload =
  ip_callId :: string
  ip_from :: string
  ip_to :: "string list"
  ip_type :: string

record sfu_payload =
  sp_callId :: string
  sp_room :: "string option"
  sp_trackId :: "string option"

text \<open>The typed view of parsed data.\<close>

fun the_str :: "jsval \<Rightarrow> string" where
  "the_str (JStr s) = s"
| "the_str _ = []"

fun the_strs :: "jsval \<Rightarrow> string list" where
  "the_strs (JArr vs) = map the_str vs"
| "the_strs _ = []"

fun opt_str :: "jsval \<Rightarrow> string option" where
  "opt_str (JStr s) = Some s"
| "opt_str _ = None"

definition issue_text :: "zissue \<Rightarrow> string" where
  "issue_text i =
     (let path = js_join ''.'' (zi_path i)
      in (if path = [] then ''<root>'' else path) @ '': '' @ zi_message i)"

definition formatZodError :: "zissue list \<times> string \<Rightarrow> string" where
  "formatZodError err =
     (let issues = js_join ''; '' (map issue_text (fst err)) in if issues = [] then snd err else issues)"

definition safe_parse :: "zod \<Rightarrow> zschema \<Rightarrow> (jsval \<Rightarrow> 'v) \<Rightarrow> jsval \<Rightarrow> string + 'v" where
  "safe_parse zod schema view value = map_sum formatZodError view (zod schema value)"

definition parseCallInvitePayload :: "zod \<Rightarrow> jsval \<Rightarrow> string + invite_payload" where
  "parseCallInvitePayload zod value =
     safe_parse zod callInvitePayloadSchema
       (\<lambda>d. \<lparr>ip_callId = the_str (js_prop ''callId'' d), ip_from = the_str (js_prop ''from'' d),
             ip_to = the_strs (js_prop ''to'' d), ip_type = the_str (js_prop ''type'' d)\<rparr>) value"

definition parseGenericCallEvent :: "zod \<Rightarrow> jsval \<Rightarrow> string \<Rightarrow> string + string" where
  "parseGenericCallEvent zod value eventType =
     safe_parse zod callEventPayloadSchema (\<lambda>d. the_str (js_prop ''callId'' d)) value"

definition parseCallRingingPayload :: "zod \<Rightarrow> jsval \<Rightarrow> string + string" where
  "parseCallRingingPayload zod value = parseGenericCallEvent zod value ''call:ringing''"

definition parseCallAcceptPayload :: "zod \<Rightarrow> jsval \<Rightarrow> string + string" where
  "parseCallAcceptPayload zod value = parseGenericCallEvent zod value ''call:accept''"

definition parseCallRejectPayload :: "zod \<Rightarrow> jsval \<Rightarrow> string + string" where
  "parseCallRejectPayload zod value = parseGenericCallEvent zod value ''call:reject''"

definition parseCallCancelPayload :: "zod \<Rightarrow> jsval \<Rightarrow> string + string" where
  "parseCallCancelPayload zod value = parseGenericCallEvent zod value ''call:cancel''"

definition parseCallEndPayload :: "zod \<Rightarrow> jsval \<Rightarrow> string + string" where
  "parseCallEndPayload zod value = parseGenericCallEvent zod value ''call:end''"

definition parseSfu :: "zod \<Rightarrow> jsval \<Rightarrow> string \<Rightarrow> string + sfu_payload" where
  "parseSfu zod value eventType =
     safe_parse zod sfuPayloadSchema
       (\<lambda>d. \<lparr>sp_callId = the_str (js_prop ''callId'' d), sp_room = opt_str (js_prop ''room'' d),
             sp_trackId = opt_str (js_prop ''trackId'' d)\<rparr>) value"

definition parseSfuJoinRoomPayload :: "zod \<Rightarrow> jsval \<Rightarrow> string + sfu_payload" where
  "parseSfuJoinRoomPayload zod value = parseSfu zod value ''sfu:join-room''"

definition parseSfuPublishTrackPayload :: "zod \<Rightarrow> jsval \<Rightarrow> string + sfu_payload" where
  "parseSfuPublishTrackPayload zod value = parseSfu zod value ''sfu:publish-track''"

definition parseSfuSubscribeTrackPayload :: "zod \<Rightarrow> jsval \<Rightarrow> string + sfu_payload" where
  "parseSfuSubscribeTrackPayload zod value = parseSfu zod value ''sfu:subscribe-track''"

section \<open>What zod documents\<close>

definition min_ok :: "(nat \<times> string) option \<Rightarrow> nat \<Rightarrow> bool" where
  "min_ok m n = (case m of None \<Rightarrow> True | Some (k, _) \<Rightarrow> k \<le> n)"

fun conforms :: "zschema \<Rightarrow> jsval \<Rightarrow> bool" where
  "conforms (ZString m) v = (case v of JStr s \<Rightarrow> min_ok m (length s) | _ \<Rightarrow> False)"
| "conforms (ZLiteral l) v = (v = JStr l)"
| "conforms (ZEnum ls) v = (case v of JStr s \<Rightarrow> s \<in> set ls | _ \<Rightarrow> False)"
| "conforms (ZOr a b) v = (conforms a v \<or> conforms b v)"
| "conforms (ZArray a m) v = (case v of JArr vs \<Rightarrow> min_ok m (length vs) \<and> list_all (conforms a) vs | _ \<Rightarrow> False)"
| "conforms (ZObject fs) v =
     (case v of JObj _ \<Rightarrow> list_all (\<lambda>(k, s). conforms s (js_prop k v)) fs | _ \<Rightarrow> False)"
| "conforms (ZLoose fs) v =
     (case v of JObj _ \<Rightarrow> list_all (\<lambda>(k, s). conforms s (js_prop k v)) fs | _ \<Rightarrow> False)"
| "conforms (ZOptional a) v = (v = JUndef \<or> conforms a v)"
| "conforms (ZMax a n) v = (conforms a v \<and> (case v of JStr s \<Rightarrow> length s \<le> n | _ \<Rightarrow> False))"

text \<open>The data of the schemas above: scalar fields as they are, undeclared keys dropped.\<close>

definition stripped :: "zschema \<Rightarrow> jsval \<Rightarrow> jsval" where
  "stripped sch v =
     (case (sch, v) of
        (ZObject fs, JObj o1) \<Rightarrow> JObj (filter (\<lambda>p. fst p \<in> set (map fst fs)) o1)
      | _ \<Rightarrow> v)"

definition zod_on :: "zschema set \<Rightarrow> zod \<Rightarrow> bool" where
  "zod_on schemas zod \<longleftrightarrow>
     (\<forall>sch \<in> schemas. \<forall>v.
        (is_ok (zod sch v) \<longleftrightarrow> conforms sch v) \<and> (\<forall>d. zod sch v = Inr d \<longrightarrow> d = stripped sch v))"

definition zod_correct :: "zod \<Rightarrow> bool" where
  "zod_correct zod \<longleftrightarrow> zod_on {callInvitePayloadSchema, callEventPayloadSchema, sfuPayloadSchema} zod"

text \<open>An instance: the function that parses exactly as documented.\<close>

definition zod_ref :: zod where
  "zod_ref sch v = (if conforms sch v then Inr (stripped sch v)
                    else Inl ([\<lparr>zi_path = [], zi_message = ''Invalid input''\<rparr>], []))"

lemma zod_ref_on: "zod_on S zod_ref"
  by (simp add: zod_on_def zod_ref_def)

lemma zod_ref_correct: "zod_correct zod_ref"
  by (simp add: zod_correct_def zod_ref_on)


section \<open>Properties\<close>

lemma zod_on_Inr: "zod_on S zod \<Longrightarrow> sch \<in> S \<Longrightarrow> zod sch v = Inr d \<longleftrightarrow> conforms sch v \<and> d = stripped sch v"
  unfolding zod_on_def by (metis is_ok_iff)

lemma zod_correct_Inr:
  assumes "zod_correct zod"
    and "sch \<in> {callInvitePayloadSchema, callEventPayloadSchema, sfuPayloadSchema}"
  shows "zod sch v = Inr d \<longleftrightarrow> conforms sch v \<and> d = stripped sch v"
  using assms unfolding zod_correct_def by (rule zod_on_Inr)

lemma map_of_filter_in: "k \<in> ks \<Longrightarrow> map_of (filter (\<lambda>p. fst p \<in> ks) m) k = map_of m k"
  by (induction m) auto

lemma js_prop_stripped:
  "k \<in> set (map fst fs) \<Longrightarrow> js_prop k (stripped (ZObject fs) v) = js_prop k v"
  by (cases v) (simp_all add: stripped_def map_of_filter_in del: set_map)

lemma conforms_str: "conforms (ZString (Some (1, m))) v \<longleftrightarrow> (\<exists>s. v = JStr s \<and> s \<noteq> [])"
  by (cases v) (auto simp: min_ok_def Suc_le_eq)

lemmas conforms_str_Suc = conforms_str [unfolded One_nat_def]

lemma conforms_strs:
  "conforms (ZArray (ZString (Some (1, m))) (Some (1, m'))) v \<longleftrightarrow>
     (\<exists>ss. v = JArr (map JStr ss) \<and> ss \<noteq> [] \<and> [] \<notin> set ss)"
proof -
  have "list_all (conforms (ZString (Some (1, m)))) vs \<longleftrightarrow> (\<exists>ss. vs = map JStr ss \<and> [] \<notin> set ss)" for vs
  proof (induction vs)
    case (Cons v vs)
    show ?case (is "?l = ?r")
    proof
      assume ?l
      then have "conforms (ZString (Some (1, m))) v" "\<exists>ss. vs = map JStr ss \<and> [] \<notin> set ss"
        using Cons by (simp_all del: conforms.simps)
      then obtain s ss where "v = JStr s" "s \<noteq> []" "vs = map JStr ss" "[] \<notin> set ss"
        unfolding conforms_str by blast
      then show ?r by (intro exI [of _ "s # ss"]) simp
    next
      assume ?r
      then obtain s ss where ss: "v = JStr s" "s \<noteq> []" "vs = map JStr ss" "[] \<notin> set ss"
        by (auto simp: Cons_eq_map_conv)
      then have "conforms (ZString (Some (1, m))) v" by (simp only: conforms_str) blast
      with ss Cons show ?l by (auto simp del: conforms.simps)
    qed
  qed simp
  then show ?thesis
    by (cases v) (auto simp: min_ok_def Suc_le_eq)
qed

lemma the_str_comp [simp]: "map (the_str \<circ> JStr) ss = ss"
  by (induction ss) simp_all

lemma the_strs_map [simp]: "the_strs (JArr (map JStr ss)) = ss"
  by simp

text \<open>An invitation payload is accepted exactly when it is an object with a nonempty \<open>callId\<close> and
  \<open>from\<close>, a nonempty list \<open>to\<close> of nonempty strings and a \<open>type\<close> that is \<open>audio\<close> or \<open>video\<close>; the
  parsed fields are those of the payload.\<close>

theorem parseCallInvitePayload_spec:
  assumes "zod_correct zod"
  shows "parseCallInvitePayload zod v = Inr p \<longleftrightarrow>
    (\<exists>fs. v = JObj fs) \<and> js_prop ''callId'' v = JStr (ip_callId p) \<and> ip_callId p \<noteq> []
    \<and> js_prop ''from'' v = JStr (ip_from p) \<and> ip_from p \<noteq> []
    \<and> js_prop ''to'' v = JArr (map JStr (ip_to p)) \<and> ip_to p \<noteq> [] \<and> [] \<notin> set (ip_to p)
    \<and> js_prop ''type'' v = JStr (ip_type p) \<and> ip_type p \<in> {''audio'', ''video''}"
proof -
  have parse: "parseCallInvitePayload zod v = Inr p \<longleftrightarrow> conforms callInvitePayloadSchema v \<and>
      p = \<lparr>ip_callId = the_str (js_prop ''callId'' v), ip_from = the_str (js_prop ''from'' v),
           ip_to = the_strs (js_prop ''to'' v), ip_type = the_str (js_prop ''type'' v)\<rparr>"
  proof (cases "zod callInvitePayloadSchema v")
    case (Inl e)
    then have "\<not> conforms callInvitePayloadSchema v"
      using zod_correct_Inr [OF assms, of callInvitePayloadSchema v] by auto
    with Inl show ?thesis by (simp add: parseCallInvitePayload_def safe_parse_def)
  next
    case (Inr d)
    then have "conforms callInvitePayloadSchema v" "d = stripped callInvitePayloadSchema v"
      using zod_correct_Inr [OF assms, of callInvitePayloadSchema v d] by auto
    with Inr show ?thesis
      by (auto simp: parseCallInvitePayload_def safe_parse_def callInvitePayloadSchema_def js_prop_stripped)
  qed
  have conf: "conforms callInvitePayloadSchema v \<longleftrightarrow> (\<exists>fs. v = JObj fs) \<and>
      conforms callIdSchema (js_prop ''callId'' v) \<and> conforms userIdSchema (js_prop ''from'' v) \<and>
      conforms (ZArray userIdSchema (Some (1, ''call:invite must target at least one user''))) (js_prop ''to'' v) \<and>
      (js_prop ''type'' v = JStr ''audio'' \<or> js_prop ''type'' v = JStr ''video'')"
    by (cases v) (simp_all add: callInvitePayloadSchema_def del: conforms.simps(1,5) js_prop.simps)
  show ?thesis
    unfolding parse conf callIdSchema_def userIdSchema_def conforms_str conforms_strs
    by (cases p) auto
qed

definition demo_invite_payload :: jsval where
  "demo_invite_payload = JObj [(''callId'', JStr ''c1''), (''from'', JStr ''ana''),
     (''to'', JArr [JStr ''ben'']), (''type'', JStr ''audio''), (''x'', JNull)]"

lemma demo_invite_parse:
  "parseCallInvitePayload zod_ref demo_invite_payload
     = Inr \<lparr>ip_callId = ''c1'', ip_from = ''ana'', ip_to = [''ben''], ip_type = ''audio''\<rparr>"
  by (simp add: parseCallInvitePayload_def safe_parse_def zod_ref_def callInvitePayloadSchema_def
      demo_invite_payload_def callIdSchema_def userIdSchema_def min_ok_def stripped_def)

theorem parseCallInvitePayload_spec_witness:
  "parseCallInvitePayload zod_ref demo_invite_payload
     = Inr \<lparr>ip_callId = ''c1'', ip_from = ''ana'', ip_to = [''ben''], ip_type = ''audio''\<rparr>"
  by (subst parseCallInvitePayload_spec [OF zod_ref_correct]) (simp add: demo_invite_payload_def)

lemma parseGenericCallEvent_Inr:
  assumes "zod_correct zod"
  shows "parseGenericCallEvent zod v ev = Inr k \<longleftrightarrow>
    (\<exists>fs. v = JObj fs) \<and> js_prop ''callId'' v = JStr k \<and> k \<noteq> []"
proof -
  have conf: "conforms callEventPayloadSchema v \<longleftrightarrow> (\<exists>fs. v = JObj fs) \<and>
      (\<exists>s. js_prop ''callId'' v = JStr s \<and> s \<noteq> [])"
    unfolding callEventPayloadSchema_def callIdSchema_def
    by (cases v) (simp_all add: conforms_str_Suc del: conforms.simps(1) js_prop.simps)
  show ?thesis
  proof (cases "zod callEventPayloadSchema v")
    case (Inl e)
    then have "\<not> conforms callEventPayloadSchema v"
      using zod_correct_Inr [OF assms, of callEventPayloadSchema v] by auto
    with Inl conf show ?thesis by (auto simp: parseGenericCallEvent_def safe_parse_def)
  next
    case (Inr d)
    then have "conforms callEventPayloadSchema v" "d = stripped callEventPayloadSchema v"
      using zod_correct_Inr [OF assms, of callEventPayloadSchema v d] by auto
    with Inr conf show ?thesis
      by (auto simp: parseGenericCallEvent_def safe_parse_def callEventPayloadSchema_def js_prop_stripped)
  qed
qed

end
