(* ===== verification/AuthController.thy ===== *)
theory AuthController
  imports AuthProps WsToken Json SignalDto
begin

text \<open>
  The HTTP interface of sign-in, \<open>src/src/auth/auth.controller.ts\<close>. What a handler does to the
  response is a list of effects, in order; the session it reads is the user of the request and
  its cookies. The bytes of \<open>crypto.getRandomValues\<close> and the text of a random number in base 36
  are arguments. The one character of the ellipsis is written \<open>CHR 0x85\<close>.
\<close>

section \<open>Cookies\<close>

definition STATE_COOKIE :: string where "STATE_COOKIE = ''oauth_state''"
definition RETURNTO_COOKIE :: string where "RETURNTO_COOKIE = ''oauth_returnto''"
definition SESSION_COOKIE :: string where "SESSION_COOKIE = ''koom_session''"
definition COOKIE_PATH_OAUTH :: string where "COOKIE_PATH_OAUTH = ''/auth/google''"
definition COOKIE_PATH_SESSION :: string where "COOKIE_PATH_SESSION = ''/''"
definition STATE_TTL_SECONDS :: int where "STATE_TTL_SECONDS = 600"
definition SESSION_TTL_SECONDS :: int where "SESSION_TTL_SECONDS = 3600"

record cookie_opts =
  co_httpOnly :: bool
  co_secure :: bool
  co_sameSite :: string
  co_maxAge :: int
  co_path :: string

datatype res_effect =
    SetCookie string string cookie_opts
  | ClearCookie string string
  | SetHeader string string
  | Redirect nat string
  | SendStatus nat string

definition oauth_cookie :: "bool \<Rightarrow> cookie_opts" where
  "oauth_cookie secure = \<lparr>co_httpOnly = True, co_secure = secure, co_sameSite = ''lax'',
     co_maxAge = STATE_TTL_SECONDS * 1000, co_path = COOKIE_PATH_OAUTH\<rparr>"

definition setOauthCookies :: "string \<Rightarrow> string \<Rightarrow> bool \<Rightarrow> res_effect list" where
  "setOauthCookies state returnTo secure =
     SetCookie STATE_COOKIE state (oauth_cookie secure) #
     (if returnTo \<noteq> [] then [SetCookie RETURNTO_COOKIE returnTo (oauth_cookie secure)] else [])"

definition clearOauthCookies :: "res_effect list" where
  "clearOauthCookies = [ClearCookie STATE_COOKIE COOKIE_PATH_OAUTH, ClearCookie RETURNTO_COOKIE COOKIE_PATH_OAUTH]"

definition setSessionCookie :: "string \<Rightarrow> bool \<Rightarrow> res_effect list" where
  "setSessionCookie token secure =
     [SetCookie SESSION_COOKIE token
        \<lparr>co_httpOnly = True, co_secure = secure, co_sameSite = ''lax'',
         co_maxAge = SESSION_TTL_SECONDS * 1000, co_path = COOKIE_PATH_SESSION\<rparr>]"

definition clearSessionCookie :: "res_effect list" where
  "clearSessionCookie = [ClearCookie SESSION_COOKIE COOKIE_PATH_SESSION]"

section \<open>Query parameters\<close>

text \<open>
  A query parameter the URL does not have is undefined, one it gives once is a string, and one it gives
  several times is an array of strings, whatever the type the handler declares.
\<close>

datatype query_val = QNone | QText string | QList "string list"

fun query_truthy :: "query_val \<Rightarrow> bool" where
  "query_truthy QNone = False"
| "query_truthy (QText t) = (t \<noteq> [])"
| "query_truthy (QList ts) = True"

fun query_doc :: "query_val \<Rightarrow> jdoc" where
  "query_doc QNone = DNull"
| "query_doc (QText t) = DStr t"
| "query_doc (QList ts) = DArr ts"

text \<open>The code as the provider takes it: what is not a string it refuses like the empty one (\<open>google.service.ts\<close>).\<close>

fun code_text :: "query_val \<Rightarrow> string" where
  "code_text (QText t) = t"
| "code_text _ = []"

section \<open>Helpers\<close>

text \<open>An array has a length, but no \<open>startsWith\<close>: the call throws a \<open>TypeError\<close>.\<close>

definition safeReturnTo :: "query_val \<Rightarrow> string + string" where
  "safeReturnTo returnTo =
     (case returnTo of
        QNone \<Rightarrow> Inr []
      | QList rs \<Rightarrow> if length rs > 2048 then Inr [] else Inl ''returnTo.startsWith is not a function''
      | QText r \<Rightarrow>
          if r = [] then Inr []
          else if length r > 2048 then Inr []
          else if \<not> starts_with ''/'' r then Inr []
          else if starts_with ''//'' r then Inr []
          else Inr r)"

definition nl :: string where "nl = [CHR 0x0A]"

definition popup_head :: string where
  "popup_head = ''<!doctype html><html><head><meta charset=\"utf-8\"><title>Authenticating'' @ [CHR 0x85] @
     ''</title></head><body><script>(function(){'' @ nl @
     ''    function done(){ try { window.close(); } catch (e) {} }'' @ nl @
     ''    try {'' @ nl @
     ''      var d=''"

definition popup_middle :: string where
  "popup_middle = '';'' @ nl @
     ''      if (window.opener) {'' @ nl @
     ''        window.opener.postMessage(d, ''"

definition popup_tail :: string where
  "popup_tail = '');'' @ nl @
     ''        setTimeout(done, 200);'' @ nl @
     ''      } else {'' @ nl @
     ''        document.body.textContent='' @ [CHR 0x27] @
       ''Authentication complete. You may close this window.'' @ [CHR 0x27] @ '';'' @ nl @
     ''      }'' @ nl @
     ''    } catch (e) {'' @ nl @
     ''      document.body.textContent='' @ [CHR 0x27] @ ''Authentication failed: '' @ [CHR 0x27] @
       ''+(e&&e.message||'' @ [CHR 0x27] @ ''unknown'' @ [CHR 0x27] @ '');'' @ nl @
     ''    }'' @ nl @
     ''  }());</script></body></html>''"

definition popup_json :: "jdoc \<Rightarrow> string" where
  "popup_json payload = escape_lt (json_text payload)"

definition popupHtml :: "jdoc \<Rightarrow> string \<Rightarrow> string" where
  "popupHtml payload targetOrigin =
     popup_head @ popup_json payload @ popup_middle @ json_quote targetOrigin @ popup_tail"

definition randomState :: "8 word list \<Rightarrow> string" where
  "randomState bytes = base64url bytes"

text \<open>\<open>Math.random().toString(36).slice(2, 10)\<close>.\<close>

definition randomShortId :: "(rat \<Rightarrow> string) \<Rightarrow> env \<Rightarrow> string \<times> env" where
  "randomShortId to36 e = (let (r, e1) = read_rand e in (take 8 (drop 2 (to36 r)), e1))"

definition anonymousLoginDto :: zschema where
  "anonymousLoginDto = ZObject [(''displayName'', ZOptional (ZMax (ZString (Some (1, []))) 255))]"

definition parseAnonymousDto :: "zod \<Rightarrow> jsval \<Rightarrow> http_error + string option" where
  "parseAnonymousDto zod body =
     (case zod anonymousLoginDto (if body = JUndef \<or> body = JNull then JObj [] else body) of
        Inl err \<Rightarrow> Inl (BadRequest (''invalid body: '' @ js_join ''; '' (map zi_message (fst err))))
      | Inr d \<Rightarrow> Inr (opt_str (js_prop ''displayName'' d)))"

section \<open>Handlers\<close>

definition listProviders :: "'db auth_ctx \<Rightarrow> provider_meta list" where
  "listProviders cx =
     filter pm_enabled (registry_list (cx_providers cx)) @
     [\<lparr>pm_name = ''anonymous'', pm_displayName = ''Guest'', pm_iconUrl = None, pm_configKey = None,
       pm_enabled = True, pm_startUrl = Some ''/auth/anonymous/login''\<rparr>]"

definition googleStart ::
    "'db auth_ctx \<Rightarrow> 8 word list \<Rightarrow> query_val \<Rightarrow> (auth_error + unit) \<times> res_effect list" where
  "googleStart cx bytes returnTo =
     (let state = randomState bytes
      in case safeReturnTo returnTo of
           Inl m \<Rightarrow> (Inl (AuthOther m), [])
         | Inr safeReturn \<Rightarrow>
             (let cookies = setOauthCookies state safeReturn (getCookieSecure cx)
              in case registry_get (cx_providers cx) ''google'' of
                   None \<Rightarrow> (Inl (AuthHttp (NotFound ''google provider not registered'')), cookies)
                 | Some provider \<Rightarrow>
                     if \<not> pm_enabled (pv_meta provider)
                     then (Inl (AuthHttp (NotFound ''google provider not registered'')), cookies)
                     else (case pv_buildAuthorizationUrl provider state of
                             Inl err \<Rightarrow> (Inl (AuthHttp err), cookies)
                           | Inr url \<Rightarrow> (Inr (), cookies @ [Redirect 302 url]))))"

definition opt_doc :: "string option \<Rightarrow> jdoc" where
  "opt_doc v = (case v of None \<Rightarrow> DNull | Some s \<Rightarrow> DStr s)"

definition error_payload :: "jdoc \<Rightarrow> string \<Rightarrow> jdoc" where
  "error_payload message returnTo =
     DObj [(''type'', DStr ''koom-oauth-error''), (''message'', message), (''returnTo'', DStr returnTo)]"

definition success_payload :: "string \<Rightarrow> user \<Rightarrow> string \<Rightarrow> jdoc" where
  "success_payload token u returnTo =
     DObj [(''type'', DStr ''koom-oauth-success''), (''token'', DStr token),
           (''user'', DObj [(''userId'', DStr (us_id u)), (''displayName'', DStr (us_displayName u)),
              (''email'', opt_doc (us_email u)), (''picture'', opt_doc (us_picture u)),
              (''provider'', DStr (us_provider u))]),
           (''returnTo'', DStr returnTo)]"

definition send_page :: "nat \<Rightarrow> string \<Rightarrow> res_effect list" where
  "send_page status html = [SetHeader ''content-type'' ''text/html; charset=utf-8'', SendStatus status html]"

definition cookie :: "(string, string) jmap option \<Rightarrow> string \<Rightarrow> string" where
  "cookie cookies name = (case cookies of None \<Rightarrow> [] | Some m \<Rightarrow> or_default (jget m name) [])"

definition googleCallback ::
    "'db auth_ctx \<Rightarrow> query_val \<Rightarrow> query_val \<Rightarrow> query_val \<Rightarrow> (string, string) jmap option
     \<Rightarrow> 'db auth_state \<Rightarrow> res_effect list \<times> 'db auth_state" where
  "googleCallback cx code state error cookies s =
     (let frontendOrigin = (if getFrontendOrigin cx = [] then ''*'' else getFrontendOrigin cx);
          expectedState = cookie cookies STATE_COOKIE;
          returnTo = cookie cookies RETURNTO_COOKIE;
          fail = (\<lambda>status message reason s.
                    (clearOauthCookies @ send_page status (popupHtml (error_payload message returnTo) frontendOrigin),
                     logOauthFailure ''google'' reason s))
      in if query_truthy error then fail 400 (query_doc error) ''google_error'' s
         else if \<not> query_truthy state \<or> expectedState = [] \<or> state \<noteq> QText expectedState
         then fail 400 (DStr ''state mismatch'') ''state_mismatch'' s
         else if \<not> query_truthy code then fail 400 (DStr ''missing code'') ''missing_code'' s
         else (case completeOAuth cx ''google'' (code_text code) s of
                 (Inl err, s1) \<Rightarrow> fail 401 (DStr (auth_message err)) ''verify_failed'' s1
               | (Inr (user, token), s1) \<Rightarrow>
                   (clearOauthCookies @ setSessionCookie token (getCookieSecure cx) @
                    send_page 200 (popupHtml (success_payload token user returnTo) frontendOrigin), s1)))"

text \<open>The reply of \<open>anonymousLogin\<close> is the result without its token.\<close>

record login_reply =
  lr_userId :: string
  lr_displayName :: string
  lr_email :: "string option"
  lr_picture :: "string option"
  lr_provider :: string

definition anonymousLogin ::
    "'db auth_ctx \<Rightarrow> zod \<Rightarrow> (rat \<Rightarrow> string) \<Rightarrow> jsval \<Rightarrow> 'db auth_state
     \<Rightarrow> (auth_error + login_reply) \<times> res_effect list \<times> 'db auth_state" where
  "anonymousLogin cx zod to36 body s =
     (case parseAnonymousDto zod body of
        Inl err \<Rightarrow> (Inl (AuthHttp err), [], s)
      | Inr displayName \<Rightarrow>
          (let (sid, e1) = randomShortId to36 (au_env s)
           in case signInAnonymous cx (''anon-'' @ sid) (or_default displayName ''Guest'') (s\<lparr>au_env := e1\<rparr>) of
                (Inl err, s1) \<Rightarrow> (Inl err, [], s1)
              | (Inr r, s1) \<Rightarrow>
                  (Inr \<lparr>lr_userId = si_userId r, lr_displayName = si_displayName r, lr_email = si_email r,
                        lr_picture = si_picture r, lr_provider = si_provider r\<rparr>,
                   setSessionCookie (si_token r) (getCookieSecure cx), s1)))"

definition logout :: "res_effect list" where
  "logout = clearSessionCookie"

definition me :: "'db auth_ctx \<Rightarrow> string option \<Rightarrow> 'db auth_state \<Rightarrow> auth_error + user_profile" where
  "me cx user s =
     (case user of
        None \<Rightarrow> Inl (AuthHttp (NotFound ''authenticated user missing''))
      | Some userId \<Rightarrow> getProfile cx userId s)"

definition wsToken ::
    "(ws_token_claims \<Rightarrow> int \<Rightarrow> string) \<Rightarrow> 8 word list \<Rightarrow> int \<Rightarrow> string option \<Rightarrow> ws_used
     \<Rightarrow> (auth_error + ws_token_result) \<times> ws_used" where
  "wsToken sign bytes now_ms user used =
     (case user of
        None \<Rightarrow> (Inl (AuthHttp (NotFound ''authenticated user missing'')), used)
      | Some userId \<Rightarrow> let (r, used') = ws_issue sign bytes now_ms userId None used in (Inr r, used'))"

end
