(* ===== verification/AuthClaims.thy ===== *)
theory AuthClaims
  imports AuthController
begin

text \<open>
  Properties of the sign-in interface: who gets a session, what the page of the popup says, and
  how the requests of one sign-in fit together through the browser's cookies.
\<close>

section \<open>The callback\<close>

text \<open>The state check of the callback: a state was sent, and it is the one of the cookie.\<close>

definition state_matches :: "query_val \<Rightarrow> (string, string) jmap option \<Rightarrow> bool" where
  "state_matches state cookies \<longleftrightarrow> cookie cookies STATE_COOKIE \<noteq> [] \<and> state = QText (cookie cookies STATE_COOKIE)"

definition callback_admits ::
    "query_val \<Rightarrow> query_val \<Rightarrow> query_val \<Rightarrow> (string, string) jmap option \<Rightarrow> bool" where
  "callback_admits code state error cookies \<longleftrightarrow>
     \<not> query_truthy error \<and> state_matches state cookies \<and> query_truthy code"

definition gives_session :: "res_effect list \<Rightarrow> bool" where
  "gives_session effs \<longleftrightarrow> list_ex (\<lambda>e. case e of SetCookie n v o1 \<Rightarrow> n = SESSION_COOKIE | _ \<Rightarrow> False) effs"

lemma cookie_names:
  "STATE_COOKIE \<noteq> RETURNTO_COOKIE" "STATE_COOKIE \<noteq> SESSION_COOKIE" "RETURNTO_COOKIE \<noteq> SESSION_COOKIE"
  by (simp_all add: STATE_COOKIE_def RETURNTO_COOKIE_def SESSION_COOKIE_def)

lemma gives_session_simps [simp]:
  "gives_session (xs @ ys) \<longleftrightarrow> gives_session xs \<or> gives_session ys"
  "\<not> gives_session clearOauthCookies" "\<not> gives_session (send_page n h)" "gives_session (setSessionCookie t b)"
  by (simp_all add: gives_session_def clearOauthCookies_def send_page_def setSessionCookie_def)

lemma callback_refuses:
  "\<not> callback_admits code state error cookies \<Longrightarrow>
   \<not> gives_session (fst (googleCallback cx code state error cookies s))
   \<and> (\<exists>reason. snd (googleCallback cx code state error cookies s) = logOauthFailure ''google'' reason s)"
  by (auto simp: googleCallback_def callback_admits_def state_matches_def Let_def)

lemma callback_completes:
  "callback_admits code state error cookies \<Longrightarrow>
   (gives_session (fst (googleCallback cx code state error cookies s))
      \<longleftrightarrow> is_ok (fst (completeOAuth cx ''google'' (code_text code) s)))
   \<and> snd (googleCallback cx code state error cookies s) =
      (case completeOAuth cx ''google'' (code_text code) s of
         (Inl err, s1) \<Rightarrow> logOauthFailure ''google'' ''verify_failed'' s1
       | (Inr _, s1) \<Rightarrow> s1)"
  by (auto simp: googleCallback_def callback_admits_def state_matches_def Let_def split: prod.split sum.split)

text \<open>C16: the OAuth callback gives a session exactly when the request carries no error, a state equal to
  the one of the browser's own cookie and a code with which the sign-in completes; a request that
  fails the first three leaves the accounts alone and is audited once.\<close>

theorem oauth_callback_session:
  "(gives_session (fst (googleCallback cx code state error cookies s))
     \<longleftrightarrow> callback_admits code state error cookies \<and> is_ok (fst (completeOAuth cx ''google'' (code_text code) s)))
   \<and> (if callback_admits code state error cookies then True
      else au_db (snd (googleCallback cx code state error cookies s)) = au_db s
        \<and> length (au_audit (snd (googleCallback cx code state error cookies s))) = Suc (length (au_audit s)))"
proof (cases "callback_admits code state error cookies")
  case True
  then show ?thesis using callback_completes [OF True, of cx s] by simp
next
  case False
  then obtain reason where "snd (googleCallback cx code state error cookies s) = logOauthFailure ''google'' reason s"
    using callback_refuses by blast
  then show ?thesis using callback_refuses [OF False, of cx s] False by (simp add: logOauthFailure_def)
qed

text \<open>A code that fails verification is audited twice: once by the service, and again by the
  controller that catches the error.\<close>

theorem failed_verification_audited_twice:
  assumes "callback_admits code state error cookies"
    and "registry_get (cx_providers cx) ''google'' = Some pv" and "pm_enabled (pv_meta pv)"
    and "pv_exchangeAndVerify pv (code_text code) = Inl err"
  shows "au_audit (snd (googleCallback cx code state error cookies s)) = au_audit s @
    [failure_event ''auth.oauth_callback_failed'' ''google'' ''verify_failed'',
     failure_event ''auth.oauth_callback_failed'' ''google'' ''verify_failed'']"
  using callback_completes [OF assms(1), of cx s] assms(2-)
  by (simp add: completeOAuth_def getProvider_def logOauthFailure_def)

definition failing_provider :: oauth_provider where
  "failing_provider = demo_provider\<lparr>pv_exchangeAndVerify := (\<lambda>code. Inl (Unauthorized ''bad code''))\<rparr>"

definition failing_ctx :: "(user list) auth_ctx" where
  "failing_ctx = demo_ctx\<lparr>cx_providers := Some [(''google'', failing_provider)]\<rparr>"

lemma failed_verification_audited_twice_witness:
  "au_audit (snd (googleCallback failing_ctx (QText ''c'') (QText ''st'') QNone (Some [(STATE_COOKIE, ''st'')]) demo_auth)) =
    au_audit demo_auth @
    [failure_event ''auth.oauth_callback_failed'' ''google'' ''verify_failed'',
     failure_event ''auth.oauth_callback_failed'' ''google'' ''verify_failed'']"
  by (rule failed_verification_audited_twice [where pv = failing_provider and err = "Unauthorized ''bad code''"])
    (simp_all add: callback_admits_def state_matches_def cookie_def failing_ctx_def failing_provider_def
      demo_provider_def registry_get_def jget_def)

section \<open>One sign-in through the browser\<close>

text \<open>The cookies of the browser after a response, as it sends them with the next request: before they expire,
  to a path they are meant for.\<close>

fun jar_step :: "res_effect \<Rightarrow> (string, string) jmap \<Rightarrow> (string, string) jmap" where
  "jar_step (SetCookie n v o1) jar = jset n v jar"
| "jar_step (ClearCookie n p) jar = jdel n jar"
| "jar_step _ jar = jar"

definition browser :: "res_effect list \<Rightarrow> (string, string) jmap \<Rightarrow> (string, string) jmap" where
  "browser effs jar = fold jar_step effs jar"

text \<open>
  For the two requests of a sign-in, a browser in more detail: it keeps a cookie under its name and path until
  it expires, and sends with a request those whose path the request's path lies under, the secure
  ones over HTTPS only.
\<close>

record kept_cookie =
  kc_value :: string
  kc_secure :: bool
  kc_expires :: int

type_synonym cookie_jar = "(string \<times> string, kept_cookie) jmap"

fun keep_cookie :: "int \<Rightarrow> res_effect \<Rightarrow> cookie_jar \<Rightarrow> cookie_jar" where
  "keep_cookie now (SetCookie n v opts) jar =
     jset (n, co_path opts) \<lparr>kc_value = v, kc_secure = co_secure opts, kc_expires = now + co_maxAge opts\<rparr> jar"
| "keep_cookie now (ClearCookie n p) jar = jdel (n, p) jar"
| "keep_cookie now _ jar = jar"

definition keep_cookies :: "int \<Rightarrow> res_effect list \<Rightarrow> cookie_jar \<Rightarrow> cookie_jar" where
  "keep_cookies now effs jar = fold (keep_cookie now) effs jar"

definition path_under :: "string \<Rightarrow> string \<Rightarrow> bool" where
  "path_under dir path \<longleftrightarrow> path = dir \<or> starts_with (if last dir = CHR ''/'' then dir else dir @ ''/'') path"

definition sent_cookies :: "int \<Rightarrow> bool \<Rightarrow> string \<Rightarrow> cookie_jar \<Rightarrow> (string, string) jmap" where
  "sent_cookies now https path jar =
     map (\<lambda>(k, c). (fst k, kc_value c))
       (filter (\<lambda>(k, c). path_under (snd k) path \<and> now < kc_expires c \<and> (\<not> kc_secure c \<or> https)) jar)"

text \<open>A jar as the service fills it: one entry for a name and path, the sign-in cookies under their own path only.\<close>

definition service_jar :: "cookie_jar \<Rightarrow> bool" where
  "service_jar jar \<longleftrightarrow> jwf jar
     \<and> list_all (\<lambda>(k, c). fst k \<in> {STATE_COOKIE, RETURNTO_COOKIE} \<longrightarrow> snd k = COOKIE_PATH_OAUTH) jar"

lemma service_jar_iff:
  "service_jar jar \<longleftrightarrow> jwf jar \<and>
     (\<forall>n p c. jget jar (n, p) = Some c \<longrightarrow> n \<in> {STATE_COOKIE, RETURNTO_COOKIE} \<longrightarrow> p = COOKIE_PATH_OAUTH)"
  by (fastforce simp: service_jar_def list_all_iff jget_in_set)

lemma service_jar_jset:
  "service_jar jar \<Longrightarrow> p = COOKIE_PATH_OAUTH \<Longrightarrow> service_jar (jset (n, p) c jar)"
  by (auto simp: service_jar_iff)

text \<open>What the callback reads of a sign-in cookie.\<close>

definition read_kept :: "int \<Rightarrow> bool \<Rightarrow> kept_cookie option \<Rightarrow> string" where
  "read_kept now https k =
     (case k of None \<Rightarrow> [] | Some c \<Rightarrow> if now < kc_expires c \<and> (kc_secure c \<longrightarrow> https) then kc_value c else [])"

lemma callback_cookie:
  assumes "service_jar jar" and "n \<in> {STATE_COOKIE, RETURNTO_COOKIE}"
  shows "cookie (Some (sent_cookies now https ''/auth/google/callback'' jar)) n
    = read_kept now https (jget jar (n, COOKIE_PATH_OAUTH))"
  using assms(1)
proof (induction jar)
  case (Cons e jar)
  obtain n' p c where e: "e = ((n', p), c)" by (cases e) auto
  have under: "path_under COOKIE_PATH_OAUTH ''/auth/google/callback''"
    by (simp add: path_under_def COOKIE_PATH_OAUTH_def starts_with_def)
  have jar: "service_jar jar" using Cons.prems by (auto simp: service_jar_def jwf_def)
  have "jget jar (n, COOKIE_PATH_OAUTH) = None \<and> p = COOKIE_PATH_OAUTH" if "n' = n"
    using Cons.prems assms(2) that by (auto simp: service_jar_def jwf_def e jget_None_iff jkeys_def)
  then show ?case
    using Cons.IH [OF jar] under
    by (auto simp: e sent_cookies_def cookie_def jget_def read_kept_def split: option.splits)
qed (simp add: sent_cookies_def cookie_def read_kept_def)

lemma start_ok:
  assumes "googleStart cx bytes ret = (Inr (), effs)" and "registry_get (cx_providers cx) ''google'' = Some pv"
  shows "\<exists>p url. safeReturnTo ret = Inr p \<and> pv_buildAuthorizationUrl pv (randomState bytes) = Inr url
    \<and> effs = setOauthCookies (randomState bytes) p (getCookieSecure cx) @ [Redirect 302 url]"
  using assms by (auto simp: googleStart_def Let_def split: sum.splits if_splits)

lemma start_jar:
  assumes "service_jar jar"
    and "effs = setOauthCookies state p secure @ [Redirect 302 url]"
  shows "service_jar (keep_cookies now effs jar)"
    and "jget (keep_cookies now effs jar) (STATE_COOKIE, COOKIE_PATH_OAUTH)
      = Some \<lparr>kc_value = state, kc_secure = secure, kc_expires = now + 600000\<rparr>"
    and "jget (keep_cookies now effs jar) (RETURNTO_COOKIE, COOKIE_PATH_OAUTH)
      = (if p = [] then jget jar (RETURNTO_COOKIE, COOKIE_PATH_OAUTH)
         else Some \<lparr>kc_value = p, kc_secure = secure, kc_expires = now + 600000\<rparr>)"
  using assms cookie_names
  by (auto simp: keep_cookies_def setOauthCookies_def oauth_cookie_def STATE_TTL_SECONDS_def service_jar_jset)

text \<open>C36: the state in the URL the start of a sign-in redirects to passes the check of the callback. Google's
  service builds the URL, Google sends the browser back to the callback with the state it found there
  (\<open>returned\<close>), and the same browser calls back in the ten minutes its cookies live, over HTTPS when they are
  secure: then the callback completes the sign-in with the code, and gives a session exactly when that
  succeeds. The page to return to is the one asked for, but that of an earlier start when none is asked for
  now. After the ten minutes the same callback gives no session.\<close>

theorem oauth_state_roundtrip:
  assumes google: "registry_get (cx_providers cx) ''google'' = Some (google_provider g exch)" "gs_client g = Some cl"
    and returned: "\<And>r. returned (gcl_generateAuthUrl cl r) = au_state r"
    and start: "googleStart cx bytes ret = (Inr (), effs)" and bytes: "length bytes = 32"
    and jar: "service_jar jar0" and https: "getCookieSecure cx \<Longrightarrow> https" and code: "c \<noteq> []"
  shows "\<exists>url p. Redirect 302 url \<in> set effs \<and> safeReturnTo ret = Inr p
    \<and> (let cookies = sent_cookies t https ''/auth/google/callback'' (keep_cookies t0 effs jar0);
           back = googleCallback cx (QText c) (QText (returned url)) QNone (Some cookies) s
       in if t < t0 + 600000
          then (gives_session (fst back) \<longleftrightarrow> is_ok (fst (completeOAuth cx ''google'' c s)))
            \<and> snd back = (case completeOAuth cx ''google'' c s of
                 (Inl err, s1) \<Rightarrow> logOauthFailure ''google'' ''verify_failed'' s1 | (Inr _, s1) \<Rightarrow> s1)
            \<and> cookie (Some cookies) RETURNTO_COOKIE =
                (if p = [] then cookie (Some (sent_cookies t https ''/auth/google/callback'' jar0)) RETURNTO_COOKIE else p)
          else \<not> gives_session (fst back))"
proof -
  from start_ok [OF start google(1)] obtain p url where p: "safeReturnTo ret = Inr p"
    and built: "google_buildAuthorizationUrl g (randomState bytes) = Inr url"
    and effs: "effs = setOauthCookies (randomState bytes) p (getCookieSecure cx) @ [Redirect 302 url]"
    by (auto simp: google_provider_def)
  have url: "returned url = randomState bytes"
    using built google(2) by (auto simp: google_buildAuthorizationUrl_def returned)
  note kept = start_jar [OF jar effs, of t0]
  let ?cookies = "sent_cookies t https ''/auth/google/callback'' (keep_cookies t0 effs jar0)"
  have state: "cookie (Some ?cookies) STATE_COOKIE = (if t < t0 + 600000 then randomState bytes else [])"
    using callback_cookie [OF kept(1), of STATE_COOKIE] kept(2) https by (simp add: read_kept_def)
  have ret: "cookie (Some ?cookies) RETURNTO_COOKIE =
      (if p = [] then cookie (Some (sent_cookies t https ''/auth/google/callback'' jar0)) RETURNTO_COOKIE else p)"
    if "t < t0 + 600000"
    using callback_cookie [OF kept(1), of RETURNTO_COOKIE] callback_cookie [OF jar, of RETURNTO_COOKIE] kept(3) https that
    by (simp add: read_kept_def)
  have "randomState bytes \<noteq> []" using bytes base64url_length [of bytes] by (auto simp: randomState_def)
  then have adm: "callback_admits (QText c) (QText (returned url)) QNone (Some ?cookies) \<longleftrightarrow> t < t0 + 600000"
    using code by (auto simp: callback_admits_def state_matches_def state url)
  have "Redirect 302 url \<in> set effs" by (simp add: effs)
  moreover note callback_completes [of "QText c" "QText (returned url)" QNone "Some ?cookies" cx s]
    callback_refuses [of "QText c" "QText (returned url)" QNone "Some ?cookies" cx s]
  ultimately show ?thesis using p ret adm
    by (intro exI [of _ url] exI [of _ p]) (simp add: Let_def)
qed

definition demo_google_client :: google_client where
  "demo_google_client = \<lparr>gcl_generateAuthUrl = (\<lambda>r. ''https://google/auth?state='' @ au_state r),
     gcl_getToken = (\<lambda>code uri. Inl ''unused''), gcl_verifyIdToken = (\<lambda>t aud. Inl ''unused'')\<rparr>"

definition demo_google :: google_service where
  "demo_google = \<lparr>gs_clientId = ''g'', gs_clientSecret = ''h'', gs_redirectUri = ''https://a/auth/google/callback'',
     gs_client = Some demo_google_client, gs_enabled = True\<rparr>"

definition google_ctx :: "(user list) auth_ctx" where
  "google_ctx = demo_ctx\<lparr>cx_providers := Some [(''google'', google_provider demo_google 0)]\<rparr>"

lemma oauth_state_roundtrip_witness:
  "\<exists>effs url. googleStart google_ctx (replicate 32 7) QNone = (Inr (), effs) \<and> Redirect 302 url \<in> set effs
    \<and> snd (googleCallback google_ctx (QText ''c'') (QText (drop 26 url)) QNone
          (Some (sent_cookies 599999 True ''/auth/google/callback'' (keep_cookies 0 effs jempty))) demo_auth)
      = (case completeOAuth google_ctx ''google'' ''c'' demo_auth of
           (Inl err, s1) \<Rightarrow> logOauthFailure ''google'' ''verify_failed'' s1 | (Inr _, s1) \<Rightarrow> s1)"
proof -
  have reg: "registry_get (cx_providers google_ctx) ''google'' = Some (google_provider demo_google 0)"
    by (simp add: google_ctx_def registry_get_def jget_def)
  obtain effs where start: "googleStart google_ctx (replicate 32 7) QNone = (Inr (), effs)"
    by (simp add: googleStart_def safeReturnTo_def reg google_provider_def google_meta_def demo_google_def
        google_buildAuthorizationUrl_def Let_def)
  have "gs_client demo_google = Some demo_google_client" by (simp add: demo_google_def)
  moreover have "drop 26 (gcl_generateAuthUrl demo_google_client r) = au_state r" for r
    by (simp add: demo_google_client_def)
  moreover have "service_jar jempty" by (simp add: service_jar_def jempty_def jwf_def)
  ultimately obtain url where "Redirect 302 url \<in> set effs"
    "snd (googleCallback google_ctx (QText ''c'') (QText (drop 26 url)) QNone
          (Some (sent_cookies 599999 True ''/auth/google/callback'' (keep_cookies 0 effs jempty))) demo_auth)
      = (case completeOAuth google_ctx ''google'' ''c'' demo_auth of
           (Inl err, s1) \<Rightarrow> logOauthFailure ''google'' ''verify_failed'' s1 | (Inr _, s1) \<Rightarrow> s1)"
    using oauth_state_roundtrip [OF reg _ _ start, of demo_google_client "drop 26" jempty True "''c''" 599999 0 demo_auth]
    by (auto simp: Let_def)
  with start show ?thesis by blast
qed

section \<open>The page of the popup and the page to return to\<close>

text \<open>Whatever the names and messages in it are, the data printed into the script of the popup has no
  \<open><\<close>, so that it cannot close the script element, and the script engine reads back exactly the
  payload.\<close>

theorem popup_payload_inert:
  "CHR ''<'' \<notin> set (popup_json payload)
   \<and> (\<exists>m. \<forall>k rest. read_doc (m + k) (popup_json payload @ rest) = Some (payload, rest))"
  using escape_lt_no_lt doc_reads_back [of payload] by (simp add: popup_json_def reads_back_def)

text \<open>A page to return to that is given once is empty or a path of at most 2048 characters that does not start with two
  slashes; a path that starts with a slash and a backslash, which browsers take for two slashes,
  is let through.\<close>

theorem safeReturnTo_spec:
  "(case safeReturnTo r of
      Inl m \<Rightarrow> (case r of QList rs \<Rightarrow> length rs \<le> 2048 | _ \<Rightarrow> False)
    | Inr p \<Rightarrow> p = [] \<or> r = QText p \<and> length p \<le> 2048 \<and> starts_with ''/'' p \<and> \<not> starts_with ''//'' p)
   \<and> safeReturnTo (QText (''/'' @ [CHR 0x5C] @ ''evil.example'')) = Inr (''/'' @ [CHR 0x5C] @ ''evil.example'')"
  by (auto simp: safeReturnTo_def starts_with_def split: query_val.split)

section \<open>From the guest login to the profile\<close>

text \<open>
  The payload verification returns for a session token: the claims signed, with the times the
  library adds.
\<close>

definition session_payload :: "session_claims \<Rightarrow> rat \<Rightarrow> rat \<Rightarrow> jsval" where
  "session_payload c iat expiry =
     JObj [(''sub'', JStr (sc_sub c)), (''email'', case sc_email c of None \<Rightarrow> JNull | Some m \<Rightarrow> JStr m),
           (''iat'', JNum (NFin iat)), (''exp'', JNum (NFin expiry))]"

text \<open>The user id the guard gives the handler for a request with these cookies.\<close>

definition session_user :: "(string \<Rightarrow> string + jsval) \<Rightarrow> (string, string) jmap option \<Rightarrow> string option" where
  "session_user verify cookies =
     (case session_token None cookies of
        None \<Rightarrow> None
      | Some t \<Rightarrow>
          (case verify t of
             Inl _ \<Rightarrow> None
           | Inr p \<Rightarrow>
               (case jwt_validate p of
                  Inl _ \<Rightarrow> None
                | Inr u \<Rightarrow> (case jget u ''userId'' of Some (JStr i) \<Rightarrow> Some i | _ \<Rightarrow> None))))"

lemma validate_session: "sc_sub c \<noteq> [] \<Longrightarrow>
   \<exists>u. jwt_validate (session_payload c iat expiry) = Inr u \<and> jget u ''userId'' = Some (JStr (sc_sub c))"
  by (simp add: jwt_validate_def session_payload_def)

lemma anonymousLogin_Inr:
  assumes "anonymousLogin cx zod to36 body s = (Inr r, effs, s')"
  shows "\<exists>dn sid e1 si. parseAnonymousDto zod body = Inr dn \<and> randomShortId to36 (au_env s) = (sid, e1)
    \<and> signInAnonymous cx (''anon-'' @ sid) (or_default dn ''Guest'') (s\<lparr>au_env := e1\<rparr>) = (Inr si, s')
    \<and> effs = setSessionCookie (si_token si) (getCookieSecure cx) \<and> lr_userId r = si_userId si
    \<and> lr_displayName r = si_displayName si"
  using assms by (auto simp: anonymousLogin_def split: sum.splits prod.splits)

text \<open>A guest who logs in is served the profile of the account just made: the cookie of the response
  authenticates the next request of that browser as the new account, whose profile has the
  display name asked for, \<open>Guest\<close> when none was, and no e-mail.\<close>

theorem guest_login_then_me:
  assumes doc: "repo_documented rows (cx_repo cx)" and ok: "users_ok (rows (au_db s))"
    and fresh: "e_uuid (au_env s) (n_uuid (au_env s)) \<notin> us_id ` set (rows (au_db s))"
    and uuid: "e_uuid (au_env s) (n_uuid (au_env s)) \<noteq> []" and ids: "[] \<notin> us_id ` set (rows (au_db s))"
    and verify: "\<And>i. verify (cx_sign cx \<lparr>sc_sub = i, sc_email = None\<rparr>)
        = Inr (session_payload \<lparr>sc_sub = i, sc_email = None\<rparr> iat expiry)"
    and dto: "parseAnonymousDto zod body = Inr dn"
    and run: "anonymousLogin cx zod to36 body s = (Inr r, effs, s')"
    and up: "is_ok (ur_findOne (cx_repo cx) (WhereId (lr_userId r)) (au_db s'))"
  shows "me cx (session_user verify (Some (browser effs jar))) s' =
    Inr \<lparr>up_userId = lr_userId r, up_displayName = or_default dn ''Guest'', up_email = None, up_picture = None,
         up_provider = ''anonymous'', up_lastLoginAt = Some (e_clock (au_env s) (n_clock (au_env s)))\<rparr>"
proof -
  from anonymousLogin_Inr [OF run] dto obtain sid e1 si where sid: "randomShortId to36 (au_env s) = (sid, e1)"
    and si: "signInAnonymous cx (''anon-'' @ sid) (or_default dn ''Guest'') (s\<lparr>au_env := e1\<rparr>) = (Inr si, s')"
    and effs: "effs = setSessionCookie (si_token si) (getCookieSecure cx)" and r: "lr_userId r = si_userId si"
    by auto
  have e1: "e1 = snd (read_rand (au_env s))" using sid by (auto simp: randomShortId_def Let_def split_def)
  have e: "e_clock e1 = e_clock (au_env s)" "n_clock e1 = n_clock (au_env s)"
    "e_uuid e1 = e_uuid (au_env s)" "n_uuid e1 = n_uuid (au_env s)"
    by (simp_all add: e1 read_rand_def)
  have fresh1: "e_uuid (au_env (s\<lparr>au_env := e1\<rparr>)) (n_uuid (au_env (s\<lparr>au_env := e1\<rparr>))) \<notin> us_id ` set (rows (au_db (s\<lparr>au_env := e1\<rparr>)))"
    using fresh by (simp add: e)
  have ok1: "users_ok (rows (au_db (s\<lparr>au_env := e1\<rparr>)))" using ok by simp
  note prof = anonymous_sign_in_profile [OF doc ok1 fresh1 si up [unfolded r]]
  have "si_userId si \<noteq> []"
    using sign_in_id [OF doc ok1 fresh1 si] uuid ids by (auto simp: e image_iff)
  then have "session_user verify (Some (browser effs jar)) = Some (si_userId si)"
    using prof verify [of "si_userId si"]
      validate_session [of "\<lparr>sc_sub = si_userId si, sc_email = None\<rparr>" iat expiry]
    by (auto simp: session_user_def session_token_def effs setSessionCookie_def browser_def SESSION_COOKIE_def)
  then show ?thesis using prof by (simp add: me_def r e)
qed

definition demo_verify :: "string \<Rightarrow> string + jsval" where
  "demo_verify t = Inr (session_payload \<lparr>sc_sub = t, sc_email = None\<rparr> 1 3601)"

lemma guest_login_then_me_witness:
  "\<exists>r effs s'. anonymousLogin demo_ctx zod_ref (\<lambda>r. ''0.k3v9zq'') (JObj [(''displayName'', JStr ''Zoe'')]) demo_auth = (Inr r, effs, s')
    \<and> me demo_ctx (session_user demo_verify (Some (browser effs jempty))) s' =
       Inr \<lparr>up_userId = ''0'', up_displayName = ''Zoe'', up_email = None, up_picture = None,
            up_provider = ''anonymous'', up_lastLoginAt = Some 5000\<rparr>"
proof -
  let ?body = "JObj [(''displayName'', JStr ''Zoe'')]"
  have dto: "parseAnonymousDto zod_ref ?body = Inr (Some ''Zoe'')"
    by (simp add: parseAnonymousDto_def zod_ref_def anonymousLoginDto_def min_ok_def stripped_def)
  obtain r effs s' where run: "anonymousLogin demo_ctx zod_ref (\<lambda>r. ''0.k3v9zq'') ?body demo_auth = (Inr r, effs, s')"
    and r: "lr_userId r = ''0''"
    by (simp add: anonymousLogin_def dto randomShortId_def read_rand_def signInAnonymous_def upsert_user_def
        upsertByProvider_def anonymous_profile_def create_user_def findByProviderSub_def read_clock_def read_uuid_def
        conflicts_def put_row_def demo_defs Let_def show_nat_0)
  have doc: "repo_documented (\<lambda>db. db) (cx_repo demo_ctx)"
    using ref_repo_documented by (simp add: demo_ctx_def)
  have "me demo_ctx (session_user demo_verify (Some (browser effs jempty))) s' =
      Inr \<lparr>up_userId = lr_userId r, up_displayName = or_default (Some ''Zoe'') ''Guest'', up_email = None, up_picture = None,
         up_provider = ''anonymous'', up_lastLoginAt = Some (e_clock (au_env demo_auth) (n_clock (au_env demo_auth)))\<rparr>"
    by (rule guest_login_then_me [OF doc _ _ _ _ _ dto run, where iat = 1 and expiry = 3601])
      (use demo_users in \<open>simp_all add: demo_auth_def demo_ctx_def demo_verify_def ref_repo_def demo_uuid_env_def
        demo_user_def show_nat_nonempty\<close>)
  then show ?thesis using run r by (simp add: demo_auth_def demo_uuid_env_def)
qed

end
