(* ===== verification/Metrics.thy ===== *)
theory Metrics
  imports JsValue
begin

text \<open>
  Call metrics, \<open>src/src/observability/call-metrics.service.ts\<close>. The Prometheus client is outside: the
  model of a method is the operations it performs on the registry, in order. An operation names
  its metric; \<open>metric_defs\<close> is the table the constructor registers.
\<close>

datatype metric_kind = CounterKind | GaugeKind | HistogramKind "rat list"

record metric_def =
  md_name :: string
  md_labels :: "string list"
  md_kind :: metric_kind

type_synonym labels = "(string \<times> jsval) list"

datatype metric_op =
    CounterInc string labels jsnum
  | GaugeSet string labels jsnum
  | HistObserve string labels jsnum
  | ResetMetrics
  | CollectDefaults

definition CALL_RESULTS :: "string list" where
  "CALL_RESULTS = [''created'', ''ended'', ''failed'', ''rejected'', ''missed'', ''cancelled'']"

definition CALL_TYPES :: "string list" where
  "CALL_TYPES = [''audio'', ''video'', ''screen'', ''conference'']"

definition ICE_STATES :: "string list" where
  "ICE_STATES = [''new'', ''checking'', ''connected'', ''completed'', ''disconnected'', ''failed'', ''closed'']"

definition DURATION_BUCKETS_SECONDS :: "rat list" where
  "DURATION_BUCKETS_SECONDS = [5, 30, 60, 300, 1800, 3600]"

definition PACKET_LOSS_BUCKETS :: "rat list" where
  "PACKET_LOSS_BUCKETS = [0, 5 / 1000, 1 / 100, 2 / 100, 5 / 100, 1 / 10, 2 / 10, 5 / 10, 1]"

definition TIME_TO_CONNECT_BUCKETS_SECONDS :: "rat list" where
  "TIME_TO_CONNECT_BUCKETS_SECONDS = [5 / 100, 1 / 10, 25 / 100, 5 / 10, 1, 2, 5, 10, 30]"

definition RTT_BUCKETS_SECONDS :: "rat list" where
  "RTT_BUCKETS_SECONDS = [5 / 1000, 1 / 100, 25 / 1000, 5 / 100, 1 / 10, 25 / 100, 5 / 10, 1, 2]"

definition JITTER_BUCKETS_SECONDS :: "rat list" where
  "JITTER_BUCKETS_SECONDS = [1 / 1000, 5 / 1000, 1 / 100, 25 / 1000, 5 / 100, 1 / 10, 25 / 100, 5 / 10]"

definition metric_defs :: "metric_def list" where
  "metric_defs =
     [\<lparr>md_name = ''koom_call_total'', md_labels = [''type'', ''result''], md_kind = CounterKind\<rparr>,
      \<lparr>md_name = ''koom_call_duration_seconds'', md_labels = [], md_kind = HistogramKind DURATION_BUCKETS_SECONDS\<rparr>,
      \<lparr>md_name = ''koom_call_participants'', md_labels = [''callId''], md_kind = GaugeKind\<rparr>,
      \<lparr>md_name = ''koom_call_time_to_connect_seconds'', md_labels = [],
       md_kind = HistogramKind TIME_TO_CONNECT_BUCKETS_SECONDS\<rparr>,
      \<lparr>md_name = ''koom_call_reconnections_total'', md_labels = [], md_kind = CounterKind\<rparr>,
      \<lparr>md_name = ''koom_turn_used_total'', md_labels = [''callId''], md_kind = CounterKind\<rparr>,
      \<lparr>md_name = ''koom_call_quality_rtt_seconds'', md_labels = [''callId'', ''userId''],
       md_kind = HistogramKind RTT_BUCKETS_SECONDS\<rparr>,
      \<lparr>md_name = ''koom_call_quality_jitter_seconds'', md_labels = [], md_kind = HistogramKind JITTER_BUCKETS_SECONDS\<rparr>,
      \<lparr>md_name = ''koom_call_quality_packet_loss_ratio'', md_labels = [],
       md_kind = HistogramKind PACKET_LOSS_BUCKETS\<rparr>,
      \<lparr>md_name = ''koom_call_ice_state_changes_total'', md_labels = [''state''], md_kind = CounterKind\<rparr>]"

section \<open>Methods\<close>

definition registerDefaultMetrics :: "bool option \<Rightarrow> metric_op list" where
  "registerDefaultMetrics collect = (if or_default collect True then [CollectDefaults] else [])"

definition incCall :: "string \<Rightarrow> string \<Rightarrow> jsnum option \<Rightarrow> metric_op list" where
  "incCall ty result n =
     [CounterInc ''koom_call_total'' [(''type'', JStr ty), (''result'', JStr result)] (or_default n (NFin 1))]"

definition observeCallDuration :: "jsnum \<Rightarrow> metric_op list" where
  "observeCallDuration seconds = [HistObserve ''koom_call_duration_seconds'' [] seconds]"

definition setParticipants :: "string \<Rightarrow> jsnum \<Rightarrow> metric_op list" where
  "setParticipants callId count = [GaugeSet ''koom_call_participants'' [(''callId'', JStr callId)] count]"

definition clearParticipants :: "string \<Rightarrow> metric_op list" where
  "clearParticipants callId = [GaugeSet ''koom_call_participants'' [(''callId'', JStr callId)] (NFin 0)]"

definition observeTimeToConnect :: "jsnum \<Rightarrow> metric_op list" where
  "observeTimeToConnect seconds = [HistObserve ''koom_call_time_to_connect_seconds'' [] seconds]"

definition incReconnection :: "jsnum option \<Rightarrow> metric_op list" where
  "incReconnection n = [CounterInc ''koom_call_reconnections_total'' [] (or_default n (NFin 1))]"

definition incTurnUsed :: "string \<Rightarrow> jsnum option \<Rightarrow> metric_op list" where
  "incTurnUsed callId n = [CounterInc ''koom_turn_used_total'' [(''callId'', JStr callId)] (or_default n (NFin 1))]"

text \<open>\<open>typeof v === 'number' && Number.isFinite(v)\<close>, with the number.\<close>

fun finite_number :: "jsval \<Rightarrow> jsnum option" where
  "finite_number (JNum n) = (if js_is_finite n then Some n else None)"
| "finite_number _ = None"

definition observe_if :: "string \<Rightarrow> labels \<Rightarrow> jsval \<Rightarrow> metric_op list" where
  "observe_if name ls v = (case finite_number v of None \<Rightarrow> [] | Some n \<Rightarrow> [HistObserve name ls n])"

definition observeQuality :: "string \<Rightarrow> jsval \<Rightarrow> jsval \<Rightarrow> jsval \<Rightarrow> jsval \<Rightarrow> metric_op list" where
  "observeQuality callId userId rtt jitter packetLossRatio =
     observe_if ''koom_call_quality_rtt_seconds'' [(''callId'', JStr callId), (''userId'', userId)] rtt @
     observe_if ''koom_call_quality_jitter_seconds'' [] jitter @
     observe_if ''koom_call_quality_packet_loss_ratio'' [] packetLossRatio"

definition incIceStateChange :: "jsval \<Rightarrow> jsnum option \<Rightarrow> metric_op list" where
  "incIceStateChange state n = [CounterInc ''koom_call_ice_state_changes_total'' [(''state'', state)] (or_default n (NFin 1))]"

definition reset_metrics :: "metric_op list" where
  "reset_metrics = [ResetMetrics]"

section \<open>Operations that fit the table\<close>

text \<open>
  The client library throws on a metric of another kind, on a label that is not declared, on a
  value that is not a number and on a counter that would go down.
\<close>

definition metric_of :: "string \<Rightarrow> metric_def option" where
  "metric_of name = find (\<lambda>d. md_name d = name) metric_defs"

fun is_histogram :: "metric_kind \<Rightarrow> bool" where
  "is_histogram (HistogramKind bs) = True"
| "is_histogram _ = False"

fun op_fits :: "metric_op \<Rightarrow> bool" where
  "op_fits (CounterInc name ls n) =
     (case metric_of name of
        None \<Rightarrow> False
      | Some d \<Rightarrow> md_kind d = CounterKind \<and> set (map fst ls) \<subseteq> set (md_labels d)
                  \<and> (case n of NFin r \<Rightarrow> 0 \<le> r | _ \<Rightarrow> False))"
| "op_fits (GaugeSet name ls n) =
     (case metric_of name of
        None \<Rightarrow> False
      | Some d \<Rightarrow> md_kind d = GaugeKind \<and> set (map fst ls) \<subseteq> set (md_labels d) \<and> js_is_finite n)"
| "op_fits (HistObserve name ls n) =
     (case metric_of name of
        None \<Rightarrow> False
      | Some d \<Rightarrow> is_histogram (md_kind d) \<and> set (map fst ls) \<subseteq> set (md_labels d) \<and> js_is_finite n)"
| "op_fits ResetMetrics = True"
| "op_fits CollectDefaults = True"

lemma metric_table:
  "metric_of ''koom_call_quality_rtt_seconds'' = Some \<lparr>md_name = ''koom_call_quality_rtt_seconds'',
     md_labels = [''callId'', ''userId''], md_kind = HistogramKind RTT_BUCKETS_SECONDS\<rparr>"
  "metric_of ''koom_call_quality_jitter_seconds'' = Some \<lparr>md_name = ''koom_call_quality_jitter_seconds'',
     md_labels = [], md_kind = HistogramKind JITTER_BUCKETS_SECONDS\<rparr>"
  "metric_of ''koom_call_quality_packet_loss_ratio'' = Some \<lparr>md_name = ''koom_call_quality_packet_loss_ratio'',
     md_labels = [], md_kind = HistogramKind PACKET_LOSS_BUCKETS\<rparr>"
  "metric_of ''koom_call_ice_state_changes_total'' = Some \<lparr>md_name = ''koom_call_ice_state_changes_total'',
     md_labels = [''state''], md_kind = CounterKind\<rparr>"
  by (simp_all add: metric_of_def metric_defs_def)

lemma finite_number_Some: "finite_number v = Some n \<longleftrightarrow> v = JNum n \<and> js_is_finite n"
  by (cases v) auto

text \<open>Whatever a client reports, the quality and ICE operations sent to the registry fit the metrics the
  service declared: their labels are declared, histograms observe finite numbers only, and
  counters only go up.\<close>

theorem quality_ops_fit:
  "list_all op_fits (observeQuality callId userId rtt jitter loss)
   \<and> list_all op_fits (incIceStateChange state None)
   \<and> list_all (\<lambda>op. case op of HistObserve name ls n \<Rightarrow> JNum n \<in> {rtt, jitter, loss} | _ \<Rightarrow> False)
        (observeQuality callId userId rtt jitter loss)"
  by (auto simp: observeQuality_def observe_if_def incIceStateChange_def metric_table finite_number_Some
      split: option.splits)

fun strictly_increasing :: "rat list \<Rightarrow> bool" where
  "strictly_increasing (x # y # ys) = (x < y \<and> strictly_increasing (y # ys))"
| "strictly_increasing _ = True"

text \<open>The table itself is well formed: metric names are distinct, and the buckets of each histogram are
  strictly increasing, as the client library requires.\<close>

theorem metric_defs_wf:
  "distinct (map md_name metric_defs)
   \<and> list_all (\<lambda>d. case md_kind d of HistogramKind bs \<Rightarrow> strictly_increasing bs | _ \<Rightarrow> True) metric_defs"
  by (simp add: metric_defs_def DURATION_BUCKETS_SECONDS_def PACKET_LOSS_BUCKETS_def
      TIME_TO_CONNECT_BUCKETS_SECONDS_def RTT_BUCKETS_SECONDS_def JITTER_BUCKETS_SECONDS_def)

end
