(* ===== verification/CallStats.thy ===== *)
theory CallStats
  imports Metrics Http
begin

text \<open>
  Call statistics, \<open>src/src/observability/call-stats.controller.ts\<close>, with the guards of
  \<open>auth.guards.ts\<close>. The user of the request is a value: \<open>undefined\<close> when nothing set it. A handler
  returns its reply with the operations on the metrics registry and the log entries it wrote.
\<close>

section \<open>Guards\<close>

text \<open>\<open>a ?? b\<close> on values.\<close>

fun js_nullish :: "jsval \<Rightarrow> bool" where
  "js_nullish JUndef = True"
| "js_nullish JNull = True"
| "js_nullish _ = False"

definition resolveUserId :: "jsval \<Rightarrow> jsval" where
  "resolveUserId user =
     (if js_falsy user then JUndef
      else if js_nullish (js_prop ''userId'' user) then js_prop ''sub'' user else js_prop ''userId'' user)"

definition stats_guard :: "jsval \<Rightarrow> bool" where
  "stats_guard user \<longleftrightarrow> \<not> js_falsy (resolveUserId user)"

definition admin_guard :: "jsval \<Rightarrow> bool" where
  "admin_guard user \<longleftrightarrow>
     \<not> js_falsy user
     \<and> (js_prop ''isAdmin'' user = JBool True
        \<or> js_prop ''role'' user = JStr ''admin''
        \<or> (case js_prop ''roles'' user of JArr rs \<Rightarrow> JStr ''admin'' \<in> set rs | _ \<Rightarrow> False))"

section \<open>The body\<close>

definition ICE_STATES_ALLOWED :: "string list" where
  "ICE_STATES_ALLOWED = [''new'', ''checking'', ''connected'', ''completed'', ''disconnected'', ''failed'', ''closed'']"

fun js_typeof :: "jsval \<Rightarrow> string" where
  "js_typeof JUndef = ''undefined''"
| "js_typeof JNull = ''object''"
| "js_typeof (JBool _) = ''boolean''"
| "js_typeof (JNum _) = ''number''"
| "js_typeof (JStr _) = ''string''"
| "js_typeof (JArr _) = ''object''"
| "js_typeof (JObj _) = ''object''"
| "js_typeof JFun = ''function''"
| "js_typeof JSym = ''symbol''"

fun isFiniteNumber :: "jsval \<Rightarrow> bool" where
  "isFiniteNumber (JNum n) = js_is_finite n"
| "isFiniteNumber _ = False"

fun isNonNegativeInt :: "jsval \<Rightarrow> bool" where
  "isNonNegativeInt (JNum (NFin r)) = (0 \<le> r)"
| "isNonNegativeInt _ = False"

fun isStringIn :: "jsval \<Rightarrow> string list \<Rightarrow> bool" where
  "isStringIn (JStr s) allowed = (s \<in> set allowed)"
| "isStringIn _ allowed = False"

fun in_unit_interval :: "jsval \<Rightarrow> bool" where
  "in_unit_interval (JNum (NFin r)) = (0 \<le> r \<and> r \<le> 1)"
| "in_unit_interval _ = False"

definition validateCallStatsBody :: "jsval \<Rightarrow> http_error + jsval" where
  "validateCallStatsBody body =
     (let raw = (\<lambda>k. js_prop k body); absent = (\<lambda>k. js_prop k body = JUndef)
      in if \<not> typeof_object body \<or> body = JNull then Inl (BadRequest ''Body must be a JSON object'')
         else if \<not> absent ''kind'' \<and> raw ''kind'' \<noteq> JStr ''webrtc-stats''
         then Inl (BadRequest (''Unsupported stats kind: '' @ js_typeof (raw ''kind'')))
         else if \<not> absent ''rtt'' \<and> \<not> isFiniteNumber (raw ''rtt'') then Inl (BadRequest ''rtt must be a finite number'')
         else if \<not> absent ''jitter'' \<and> \<not> isFiniteNumber (raw ''jitter'')
         then Inl (BadRequest ''jitter must be a finite number'')
         else if \<not> absent ''packetLossRatio'' \<and> \<not> in_unit_interval (raw ''packetLossRatio'')
         then Inl (BadRequest ''packetLossRatio must be a finite number between 0 and 1'')
         else if \<not> absent ''iceState'' \<and> \<not> isStringIn (raw ''iceState'') ICE_STATES_ALLOWED
         then Inl (BadRequest (''iceState must be one of: '' @ js_join '', '' ICE_STATES_ALLOWED))
         else if \<not> absent ''bytesSent'' \<and> \<not> isNonNegativeInt (raw ''bytesSent'')
         then Inl (BadRequest ''bytesSent must be a non-negative number'')
         else if \<not> absent ''bytesReceived'' \<and> \<not> isNonNegativeInt (raw ''bytesReceived'')
         then Inl (BadRequest ''bytesReceived must be a non-negative number'')
         else if \<not> absent ''packetsSent'' \<and> \<not> isNonNegativeInt (raw ''packetsSent'')
         then Inl (BadRequest ''packetsSent must be a non-negative number'')
         else if \<not> absent ''packetsReceived'' \<and> \<not> isNonNegativeInt (raw ''packetsReceived'')
         then Inl (BadRequest ''packetsReceived must be a non-negative number'')
         else Inr body)"

section \<open>Handlers\<close>

record stats_log =
  sl_callId :: string
  sl_userId :: jsval
  sl_fields :: "(string \<times> jsval) list"
  sl_message :: string

definition stats_log_fields :: "string list" where
  "stats_log_fields = [''rtt'', ''jitter'', ''packetLossRatio'', ''iceState'', ''bytesSent'', ''bytesReceived'',
     ''packetsSent'', ''packetsReceived'']"

definition postStats ::
    "string \<Rightarrow> jsval \<Rightarrow> jsval \<Rightarrow> (http_error + string) \<times> metric_op list \<times> stats_log list" where
  "postStats callId body user =
     (let userId = resolveUserId user
      in if js_falsy userId then (Inl (Forbidden ''Authenticated user required''), [], [])
         else (case validateCallStatsBody body of
                 Inl err \<Rightarrow> (Inl err, [], [])
               | Inr stats \<Rightarrow>
                   (Inr callId,
                    observeQuality callId userId (js_prop ''rtt'' stats) (js_prop ''jitter'' stats)
                      (js_prop ''packetLossRatio'' stats) @
                    (if \<not> js_falsy (js_prop ''iceState'' stats)
                     then incIceStateChange (js_prop ''iceState'' stats) None else []),
                    [\<lparr>sl_callId = callId, sl_userId = userId,
                      sl_fields = (''event'', JStr ''call-stats'') # map (\<lambda>k. (k, js_prop k stats)) stats_log_fields,
                      sl_message = ''webrtc stats received''\<rparr>])))"

text \<open>The route: the guard of the class, then the handler. A guard that refuses throws.\<close>

definition route_postStats ::
    "string \<Rightarrow> jsval \<Rightarrow> jsval \<Rightarrow> (http_error + string) \<times> metric_op list \<times> stats_log list" where
  "route_postStats callId body user =
     (if \<not> stats_guard user then (Inl (Forbidden ''Forbidden resource''), [], []) else postStats callId body user)"

record failed_call =
  fc_callId :: string
  fc_cause :: string
  fc_failedAt :: string
  fc_metadata :: "jsval option"

definition listFailed :: "(string + failed_call list) option \<Rightarrow> string + failed_call list" where
  "listFailed provider = (case provider of None \<Rightarrow> Inr [] | Some r \<Rightarrow> r)"

definition route_listFailed :: "(string + failed_call list) option \<Rightarrow> jsval \<Rightarrow> (http_error + string) + failed_call list" where
  "route_listFailed provider user =
     (if \<not> admin_guard user then Inl (Inl (Forbidden ''Forbidden resource''))
      else map_sum Inr id (listFailed provider))"

section \<open>Properties\<close>

text \<open>The bodies accepted, field by field.\<close>

definition valid_stats :: "jsval \<Rightarrow> bool" where
  "valid_stats body \<longleftrightarrow>
     (typeof_object body \<and> body \<noteq> JNull)
     \<and> js_prop ''kind'' body \<in> {JUndef, JStr ''webrtc-stats''}
     \<and> (\<forall>k \<in> {''rtt'', ''jitter''}. js_prop k body = JUndef \<or> (\<exists>r. js_prop k body = JNum (NFin r)))
     \<and> (js_prop ''packetLossRatio'' body = JUndef
        \<or> (\<exists>r. js_prop ''packetLossRatio'' body = JNum (NFin r) \<and> 0 \<le> r \<and> r \<le> 1))
     \<and> (js_prop ''iceState'' body = JUndef \<or> (\<exists>s \<in> set ICE_STATES_ALLOWED. js_prop ''iceState'' body = JStr s))
     \<and> (\<forall>k \<in> {''bytesSent'', ''bytesReceived'', ''packetsSent'', ''packetsReceived''}.
          js_prop k body = JUndef \<or> (\<exists>r. js_prop k body = JNum (NFin r) \<and> 0 \<le> r))"

lemma value_tests:
  "isFiniteNumber v \<longleftrightarrow> (\<exists>r. v = JNum (NFin r))" "isNonNegativeInt v \<longleftrightarrow> (\<exists>r. v = JNum (NFin r) \<and> 0 \<le> r)"
  "in_unit_interval v \<longleftrightarrow> (\<exists>r. v = JNum (NFin r) \<and> 0 \<le> r \<and> r \<le> 1)"
  "isStringIn v xs \<longleftrightarrow> (\<exists>s \<in> set xs. v = JStr s)"
proof -
  show "isFiniteNumber v \<longleftrightarrow> (\<exists>r. v = JNum (NFin r))"
  proof (cases v)
    case (JNum n)
    then show ?thesis by (cases n) simp_all
  qed simp_all
  show "isNonNegativeInt v \<longleftrightarrow> (\<exists>r. v = JNum (NFin r) \<and> 0 \<le> r)"
    by (cases v rule: isNonNegativeInt.cases) simp_all
  show "in_unit_interval v \<longleftrightarrow> (\<exists>r. v = JNum (NFin r) \<and> 0 \<le> r \<and> r \<le> 1)"
    by (cases v rule: in_unit_interval.cases) simp_all
  show "isStringIn v xs \<longleftrightarrow> (\<exists>s \<in> set xs. v = JStr s)"
    by (cases v) auto
qed

lemma guard_Inr: "(if c then Inl e else r) = Inr x \<longleftrightarrow> \<not> c \<and> r = Inr x"
  and guard_Inl: "(if c then Inl e else r) = Inl e' \<longleftrightarrow> c \<and> e = e' \<or> \<not> c \<and> r = Inl e'"
  by auto

lemma validate_iff: "validateCallStatsBody body = Inr stats \<longleftrightarrow> valid_stats body \<and> stats = body"
  unfolding validateCallStatsBody_def valid_stats_def Let_def guard_Inr
  by (simp add: value_tests disj_imp eq_commute [of stats] conj_ac)

lemma validate_error: "validateCallStatsBody body = Inl err \<Longrightarrow> \<exists>m. err = BadRequest m"
  unfolding validateCallStatsBody_def Let_def guard_Inl
  by (elim disjE conjE) ((erule subst, rule exI, rule refl)+, simp only: sum.distinct)

text \<open>Statistics are accepted exactly from a request with a user id and with a valid body; each finite
  figure of the body is then observed once, under the call of the path and the user of the
  request, and the ICE state is counted once; a refused request touches no metric and writes no
  log entry.\<close>

theorem stats_route_spec:
  "(case route_postStats callId body user of
      (Inl err, ops, logs) \<Rightarrow> \<not> (stats_guard user \<and> valid_stats body) \<and> ops = [] \<and> logs = []
        \<and> http_status err = (if stats_guard user then 400 else 403)
    | (Inr k, ops, logs) \<Rightarrow> stats_guard user \<and> valid_stats body \<and> k = callId
        \<and> ops = observe_if ''koom_call_quality_rtt_seconds''
                  [(''callId'', JStr callId), (''userId'', resolveUserId user)] (js_prop ''rtt'' body)
              @ observe_if ''koom_call_quality_jitter_seconds'' [] (js_prop ''jitter'' body)
              @ observe_if ''koom_call_quality_packet_loss_ratio'' [] (js_prop ''packetLossRatio'' body)
              @ (case js_prop ''iceState'' body of
                   JStr s \<Rightarrow> [CounterInc ''koom_call_ice_state_changes_total'' [(''state'', JStr s)] (NFin 1)]
                 | _ \<Rightarrow> [])
        \<and> length logs = 1)"
proof (cases "validateCallStatsBody body")
  case (Inl err)
  then have "\<not> valid_stats body" using validate_iff [of body body] by auto
  with Inl validate_error [OF Inl] show ?thesis
    by (auto simp: route_postStats_def postStats_def stats_guard_def Let_def)
next
  case (Inr stats)
  then have v: "valid_stats body" "stats = body" by (auto simp: validate_iff)
  then have "js_prop ''iceState'' body = JUndef \<or> (\<exists>s \<in> set ICE_STATES_ALLOWED. js_prop ''iceState'' body = JStr s)"
    by (simp add: valid_stats_def)
  then have "(if \<not> js_falsy (js_prop ''iceState'' body) then incIceStateChange (js_prop ''iceState'' body) None else [])
      = (case js_prop ''iceState'' body of
           JStr s \<Rightarrow> [CounterInc ''koom_call_ice_state_changes_total'' [(''state'', JStr s)] (NFin 1)] | _ \<Rightarrow> [])"
    by (auto simp: incIceStateChange_def ICE_STATES_ALLOWED_def)
  with Inr v show ?thesis
    by (simp add: route_postStats_def postStats_def stats_guard_def Let_def observeQuality_def)
qed

end
