(* ===== verification/HttpFilter.thy ===== *)
theory HttpFilter
  imports Http
begin

text \<open>
  The exception filter, \<open>src/src/common/filters/http-exception.filter.ts\<close>, and the log lines of
  \<open>src/src/common/interceptors/logging.interceptor.ts\<close>. A thrown value is an HTTP exception with its
  status, its response and its message, another \<open>Error\<close>, or something else. \<open>item_str\<close> is the
  text \<open>join\<close> prints for an array item that is not a string.
\<close>

datatype http_thrown =
    HttpThrown nat jsval string
  | ErrorThrown string
  | OtherThrown

definition resolveStatus :: "http_thrown \<Rightarrow> nat" where
  "resolveStatus ex = (case ex of HttpThrown status _ _ \<Rightarrow> status | _ \<Rightarrow> 500)"

fun join_item :: "(jsval \<Rightarrow> string) \<Rightarrow> jsval \<Rightarrow> string" where
  "join_item item_str (JStr s) = s"
| "join_item item_str JUndef = []"
| "join_item item_str JNull = []"
| "join_item item_str v = item_str v"

definition resolveMessage :: "(jsval \<Rightarrow> string) \<Rightarrow> http_thrown \<Rightarrow> string" where
  "resolveMessage item_str ex =
     (case ex of
        HttpThrown status res message \<Rightarrow>
          (case res of
             JStr s \<Rightarrow> s
           | _ \<Rightarrow>
               if typeof_object res \<and> res \<noteq> JNull
               then (case js_prop ''message'' res of
                       JArr m \<Rightarrow> js_join ''; '' (map (join_item item_str) m)
                     | JStr m \<Rightarrow> m
                     | _ \<Rightarrow> message)
               else message)
      | ErrorThrown message \<Rightarrow> message
      | OtherThrown \<Rightarrow> ''Internal server error'')"

record error_body =
  eb_statusCode :: nat
  eb_message :: string
  eb_path :: string
  eb_timestamp :: int

datatype filter_log = FilterError string | FilterWarn string

text \<open>\<open>catch\<close>: the status set on the response, the body sent with it, and the line logged.\<close>

definition catch_exception ::
    "(jsval \<Rightarrow> string) \<Rightarrow> string option \<Rightarrow> string \<Rightarrow> string \<Rightarrow> int \<Rightarrow> http_thrown \<Rightarrow> nat \<times> error_body \<times> filter_log" where
  "catch_exception item_str originalUrl url method now ex =
     (let statusCode = resolveStatus ex;
          message = resolveMessage item_str ex;
          body = \<lparr>eb_statusCode = statusCode, eb_message = message, eb_path = or_default originalUrl url,
                  eb_timestamp = now\<rparr>;
          line = method @ '' '' @ eb_path body @ '' -> '' @ show_nat statusCode @ '' '' @ message;
          log = (if statusCode \<ge> 500 then FilterError line else FilterWarn line)
      in (statusCode, body, log))"

section \<open>The exceptions of the handlers\<close>

text \<open>What the framework builds for \<open>new BadRequestException(message)\<close> and its siblings.\<close>

fun http_error_name :: "http_error \<Rightarrow> string" where
  "http_error_name (BadRequest _) = ''Bad Request''"
| "http_error_name (Unauthorized _) = ''Unauthorized''"
| "http_error_name (Forbidden _) = ''Forbidden''"
| "http_error_name (NotFound _) = ''Not Found''"
| "http_error_name (Conflict _) = ''Conflict''"
| "http_error_name (ServiceUnavailable _) = ''Service Unavailable''"

definition nest_thrown :: "http_error \<Rightarrow> http_thrown" where
  "nest_thrown e = HttpThrown (http_status e)
     (JObj [(''message'', JStr (http_message e)), (''error'', JStr (http_error_name e)),
            (''statusCode'', JNum (NFin (of_nat (http_status e))))]) (http_message e)"

section \<open>Properties\<close>

text \<open>Every exception a handler throws reaches the client with its own status and message, and is logged
  as a warning unless it says the service is unavailable; any other error reaches the client as a
  500 with the text of the error itself, and only a thrown value that is no error is hidden behind
  a fixed message.\<close>

theorem filter_spec:
  "(let (status, body, log) = catch_exception str orig url method now (nest_thrown e)
    in status = http_status e \<and> eb_statusCode body = status \<and> eb_message body = http_message e
       \<and> eb_path body = or_default orig url
       \<and> (case e of ServiceUnavailable m \<Rightarrow> (\<exists>l. log = FilterError l) | _ \<Rightarrow> (\<exists>l. log = FilterWarn l)))
   \<and> (let (status, body, log) = catch_exception str orig url method now (ErrorThrown m)
      in status = 500 \<and> eb_statusCode body = 500 \<and> eb_message body = m)
   \<and> (let (status, body, log) = catch_exception str orig url method now OtherThrown
      in status = 500 \<and> eb_message body = ''Internal server error'')"
  by (cases e) (simp_all add: catch_exception_def nest_thrown_def resolveStatus_def resolveMessage_def Let_def)

section \<open>The logging interceptor\<close>

datatype handled = Completed nat | Failed string

text \<open>The line for a request that started at one reading of the clock and ended at another.\<close>

definition intercept_line :: "string \<Rightarrow> string option \<Rightarrow> string \<Rightarrow> int \<Rightarrow> int \<Rightarrow> handled \<Rightarrow> string" where
  "intercept_line method originalUrl url startedAt endedAt result =
     (let target = or_default originalUrl url; durationMs = show_int (endedAt - startedAt)
      in case result of
           Completed statusCode \<Rightarrow> method @ '' '' @ target @ '' -> '' @ show_nat statusCode @ '' '' @ durationMs @ ''ms''
         | Failed message \<Rightarrow> method @ '' '' @ target @ '' -> ERROR '' @ durationMs @ ''ms '' @ message)"

text \<open>Only requests over HTTP are logged; the result passes through.\<close>

definition intercept ::
    "string \<Rightarrow> string \<Rightarrow> string option \<Rightarrow> string \<Rightarrow> int \<Rightarrow> int \<Rightarrow> handled \<Rightarrow> handled \<times> string list" where
  "intercept context_type method originalUrl url startedAt endedAt result =
     (if context_type \<noteq> ''http'' then (result, [])
      else (result, [intercept_line method originalUrl url startedAt endedAt result]))"

end
