(* ===== verification/LivekitHealth.thy ===== *)
theory LivekitHealth
  imports MediaTokens
begin

text \<open>
  The LiveKit probe, \<open>src/src/media-provider/livekit-health.controller.ts\<close>. The media provider and the
  room service of the direct client are parameters: each call answers with a value or the
  message it failed with. The calls made are recorded in order.
\<close>

record health_config =
  hc_url :: string
  hc_httpUrl :: string
  hc_apiKey :: string
  hc_apiSecret :: string

definition health_config_of :: "string option \<Rightarrow> string option \<Rightarrow> string option \<Rightarrow> string option \<Rightarrow> health_config" where
  "health_config_of url httpUrl apiKey apiSecret =
     (let u = or_default url []; h = or_default httpUrl []
      in \<lparr>hc_url = u, hc_httpUrl = (if h \<noteq> [] then h else deriveHttpUrl u),
          hc_apiKey = or_default apiKey [], hc_apiSecret = or_default apiSecret []\<rparr>)"

text \<open>\<open>onModuleInit\<close>: whether there is a direct client.\<close>

definition has_direct_client :: "health_config \<Rightarrow> bool" where
  "has_direct_client c \<longleftrightarrow> hc_httpUrl c \<noteq> [] \<and> hc_apiKey c \<noteq> [] \<and> hc_apiSecret c \<noteq> []"

record probe_provider =
  pp_createAccessToken :: "string \<Rightarrow> string \<Rightarrow> int \<Rightarrow> string + string \<times> int"
  pp_createRoom :: "(string \<Rightarrow> string + string \<times> string) option"
  pp_deleteRoom :: "string \<Rightarrow> string + unit"

datatype probe_call = PTokenFor string | PListRooms | PCreateRoom string | PDeleteRoom string

record check_token =
  ct_ok :: bool
  ct_error :: "string option"
  ct_tokenPreview :: "string option"
  ct_expiresAt :: "int option"

record check_rooms =
  cr_ok :: bool
  cr_error :: "string option"
  cr_count :: "nat option"

record check_room =
  cm_ok :: bool
  cm_error :: "string option"
  cm_room :: "(string \<times> string) option"

record livekit_health =
  lh_provider :: string
  lh_configured :: bool
  lh_url :: "string option"
  lh_httpUrl :: "string option"
  lh_apiKey :: "string option"
  lh_accessToken :: check_token
  lh_room :: check_room
  lh_listRooms :: check_rooms

definition some_text :: "string \<Rightarrow> string option" where
  "some_text s = (if s = [] then None else Some s)"

definition health_base :: "health_config \<Rightarrow> livekit_health" where
  "health_base c =
     \<lparr>lh_provider = (if hc_url c \<noteq> [] then ''livekit'' else ''noop''),
      lh_configured = (hc_url c \<noteq> [] \<and> hc_apiKey c \<noteq> [] \<and> hc_apiSecret c \<noteq> []),
      lh_url = some_text (hc_url c), lh_httpUrl = some_text (hc_httpUrl c), lh_apiKey = some_text (hc_apiKey c),
      lh_accessToken = \<lparr>ct_ok = False, ct_error = None, ct_tokenPreview = None, ct_expiresAt = None\<rparr>,
      lh_room = \<lparr>cm_ok = False, cm_error = None, cm_room = None\<rparr>,
      lh_listRooms = \<lparr>cr_ok = False, cr_error = None, cr_count = None\<rparr>\<rparr>"

definition probe_token :: "probe_provider \<Rightarrow> string \<Rightarrow> check_token" where
  "probe_token p callId =
     (case pp_createAccessToken p callId ''healthcheck'' 60 of
        Inl err \<Rightarrow> \<lparr>ct_ok = False, ct_error = Some err, ct_tokenPreview = None, ct_expiresAt = None\<rparr>
      | Inr (token, expiresAt) \<Rightarrow>
          \<lparr>ct_ok = True, ct_error = None, ct_tokenPreview = Some (take 24 token @ [CHR 0x85]),
           ct_expiresAt = Some expiresAt\<rparr>)"

definition probe_rooms :: "string + nat \<Rightarrow> check_rooms" where
  "probe_rooms rooms =
     (case rooms of
        Inl err \<Rightarrow> \<lparr>cr_ok = False, cr_error = Some err, cr_count = None\<rparr>
      | Inr n \<Rightarrow> \<lparr>cr_ok = True, cr_error = None, cr_count = Some n\<rparr>)"

text \<open>A room that was created is deleted again; a failure of the deletion is only logged.\<close>

definition probe_room :: "(string \<Rightarrow> string + string \<times> string) \<Rightarrow> string \<Rightarrow> check_room \<times> probe_call list" where
  "probe_room create callId =
     (case create callId of
        Inl err \<Rightarrow> (\<lparr>cm_ok = False, cm_error = Some err, cm_room = None\<rparr>, [PCreateRoom callId])
      | Inr room \<Rightarrow> (\<lparr>cm_ok = True, cm_error = None, cm_room = Some room\<rparr>, [PCreateRoom callId, PDeleteRoom callId]))"

definition getHealth ::
    "health_config \<Rightarrow> probe_provider option \<Rightarrow> string + nat \<Rightarrow> int \<Rightarrow> livekit_health \<times> probe_call list" where
  "getHealth c provider rooms now =
     (case provider of
        None \<Rightarrow> (health_base c, [])
      | Some p \<Rightarrow>
          let callId = ''health-'' @ show_int now;
              h1 = (health_base c)\<lparr>lh_accessToken := probe_token p callId\<rparr>;
              (h2, calls2) = (if has_direct_client c then (h1\<lparr>lh_listRooms := probe_rooms rooms\<rparr>, [PListRooms])
                              else (h1, []));
              (h3, calls3) = (case pp_createRoom p of
                                None \<Rightarrow> (h2, [])
                              | Some create \<Rightarrow>
                                  let (r, calls) = probe_room create callId in (h2\<lparr>lh_room := r\<rparr>, calls))
          in (h3, PTokenFor callId # calls2 @ calls3))"

section \<open>Properties\<close>

definition created_rooms :: "probe_call list \<Rightarrow> string list" where
  "created_rooms calls = concat (map (\<lambda>c. case c of PCreateRoom k \<Rightarrow> [k] | _ \<Rightarrow> []) calls)"

definition deleted_rooms :: "probe_call list \<Rightarrow> string list" where
  "deleted_rooms calls = concat (map (\<lambda>c. case c of PDeleteRoom k \<Rightarrow> [k] | _ \<Rightarrow> []) calls)"

text \<open>The probe never fails, whatever the provider does: it reports the outcome of each check, deletes
  the one room it created and no other, and shows at most 24 characters of the token and none of
  the API secret, but the API key in full.\<close>

theorem health_probe_spec:
  "(let (h, calls) = getHealth c provider rooms now
    in deleted_rooms calls = (if cm_ok (lh_room h) then created_rooms calls else [])
       \<and> list_all (\<lambda>k. k = ''health-'' @ show_int now) (created_rooms calls) \<and> length (created_rooms calls) \<le> 1
       \<and> lh_apiKey h = some_text (hc_apiKey c)
       \<and> (case ct_tokenPreview (lh_accessToken h) of None \<Rightarrow> True | Some t \<Rightarrow> length t \<le> 25)
       \<and> (case provider of
            None \<Rightarrow> h = health_base c \<and> calls = []
          | Some p \<Rightarrow> ct_ok (lh_accessToken h)
              = is_ok (pp_createAccessToken p (''health-'' @ show_int now) ''healthcheck'' 60)))"
proof (cases provider)
  case None
  then show ?thesis
    by (simp add: getHealth_def health_base_def created_rooms_def deleted_rooms_def)
next
  case (Some p)
  have t: "ct_ok (probe_token p k) = is_ok (pp_createAccessToken p k ''healthcheck'' 60)"
    "case ct_tokenPreview (probe_token p k) of None \<Rightarrow> True | Some t \<Rightarrow> length t \<le> 25" for k
    by (simp_all add: probe_token_def split: sum.split prod.split)
  show ?thesis
    using t by (auto simp: Some getHealth_def Let_def probe_room_def created_rooms_def deleted_rooms_def health_base_def
        split: option.splits sum.splits)
qed

end
