(* ===== verification/Presence.thy ===== *)
theory Presence
  imports JsValue
begin

text \<open>
  In-memory presence, \<open>src/src/presence/in-memory-presence.service.ts\<close>, with the TTL rule of
  \<open>presence.service.ts\<close> and the choice made by \<open>presence.module.ts\<close>. A JavaScript \<open>Set\<close> is a list
  without repetitions. The event loop's timers are part of the state: each pending timer has
  a number, the instant it is due and the key its callback expires; \<open>advance now\<close> runs those
  that are due. \<open>now\<close> is the reading of the clock in milliseconds.
\<close>

section \<open>TTL\<close>

definition DEFAULT_PRESENCE_TTL_SECONDS :: int where
  "DEFAULT_PRESENCE_TTL_SECONDS = 60"

definition resolvePresenceTtl :: "jsnum option \<Rightarrow> int" where
  "resolvePresenceTtl ttl =
     (case ttl of
        Some (NFin r) \<Rightarrow> if r \<le> 0 then DEFAULT_PRESENCE_TTL_SECONDS else \<lfloor>r\<rfloor>
      | _ \<Rightarrow> DEFAULT_PRESENCE_TTL_SECONDS)"

text \<open>\<open>setTimeout\<close> replaces a delay that is not between 1 and \<open>2 ^ 31 - 1\<close> by 1.\<close>

definition timer_delay :: "int \<Rightarrow> int" where
  "timer_delay ms = (if 1 \<le> ms \<and> ms \<le> 2147483647 then ms else 1)"

section \<open>State\<close>

datatype ttl_target = UserTimer string | CallTimer string

record ttl_entry =
  te_timer :: nat
  te_expiresAt :: int

type_synonym socket_sets = "(string, string list) jmap"
type_synonym ttl_map = "(string, ttl_entry) jmap"
type_synonym timer_map = "(nat, int \<times> ttl_target) jmap"

record mem_presence =
  mp_userSockets :: socket_sets
  mp_callBuckets :: socket_sets
  mp_userTtl :: ttl_map
  mp_callTtl :: ttl_map
  mp_timers :: timer_map
  mp_next_timer :: nat

definition init_presence :: mem_presence where
  "init_presence = \<lparr>mp_userSockets = jempty, mp_callBuckets = jempty, mp_userTtl = jempty, mp_callTtl = jempty,
     mp_timers = jempty, mp_next_timer = 0\<rparr>"

definition set_add :: "'a \<Rightarrow> 'a list \<Rightarrow> 'a list" where
  "set_add x xs = (if x \<in> set xs then xs else xs @ [x])"

definition set_delete :: "'a \<Rightarrow> 'a list \<Rightarrow> 'a list" where
  "set_delete x xs = filter (\<lambda>y. y \<noteq> x) xs"

definition setTimeout :: "ttl_target \<Rightarrow> int \<Rightarrow> int \<Rightarrow> mem_presence \<Rightarrow> nat \<times> mem_presence" where
  "setTimeout target ms now s =
     (mp_next_timer s,
      s\<lparr>mp_timers := jset (mp_next_timer s) (now + timer_delay ms, target) (mp_timers s),
        mp_next_timer := Suc (mp_next_timer s)\<rparr>)"

definition clearTimeout :: "nat \<Rightarrow> mem_presence \<Rightarrow> mem_presence" where
  "clearTimeout tid s = s\<lparr>mp_timers := jdel tid (mp_timers s)\<rparr>"

section \<open>TTL of users and of calls\<close>

definition clearUserTtl :: "string \<Rightarrow> mem_presence \<Rightarrow> mem_presence" where
  "clearUserTtl userId s =
     (case jget (mp_userTtl s) userId of
        None \<Rightarrow> s
      | Some entry \<Rightarrow> let s1 = clearTimeout (te_timer entry) s in s1\<lparr>mp_userTtl := jdel userId (mp_userTtl s1)\<rparr>)"

definition refreshUserTtl :: "string \<Rightarrow> int \<Rightarrow> int \<Rightarrow> mem_presence \<Rightarrow> mem_presence" where
  "refreshUserTtl userId ttlSeconds now s =
     (let s1 = clearUserTtl userId s;
          ttlMs = ttlSeconds * 1000;
          (timer, s2) = setTimeout (UserTimer userId) ttlMs now s1
      in s2\<lparr>mp_userTtl := jset userId \<lparr>te_timer = timer, te_expiresAt = now + ttlMs\<rparr> (mp_userTtl s2)\<rparr>)"

definition expireUser :: "string \<Rightarrow> mem_presence \<Rightarrow> mem_presence" where
  "expireUser userId s =
     s\<lparr>mp_userSockets := jdel userId (mp_userSockets s), mp_userTtl := jdel userId (mp_userTtl s)\<rparr>"

definition clearCallTtl :: "string \<Rightarrow> mem_presence \<Rightarrow> mem_presence" where
  "clearCallTtl callId s =
     (case jget (mp_callTtl s) callId of
        None \<Rightarrow> s
      | Some entry \<Rightarrow> let s1 = clearTimeout (te_timer entry) s in s1\<lparr>mp_callTtl := jdel callId (mp_callTtl s1)\<rparr>)"

definition refreshCallTtl :: "string \<Rightarrow> int \<Rightarrow> int \<Rightarrow> mem_presence \<Rightarrow> mem_presence" where
  "refreshCallTtl callId ttlSeconds now s =
     (let s1 = clearCallTtl callId s;
          ttlMs = ttlSeconds * 1000;
          (timer, s2) = setTimeout (CallTimer callId) ttlMs now s1
      in s2\<lparr>mp_callTtl := jset callId \<lparr>te_timer = timer, te_expiresAt = now + ttlMs\<rparr> (mp_callTtl s2)\<rparr>)"

definition expireCall :: "string \<Rightarrow> mem_presence \<Rightarrow> mem_presence" where
  "expireCall callId s =
     s\<lparr>mp_callBuckets := jdel callId (mp_callBuckets s), mp_callTtl := jdel callId (mp_callTtl s)\<rparr>"

section \<open>Operations\<close>

definition markOnline :: "int \<Rightarrow> string \<Rightarrow> string \<Rightarrow> int option \<Rightarrow> int \<Rightarrow> mem_presence \<Rightarrow> mem_presence" where
  "markOnline defaultTtl userId socketId ttlSeconds now s =
     (let bucket = set_add socketId (or_default (jget (mp_userSockets s) userId) [])
      in refreshUserTtl userId (or_default ttlSeconds defaultTtl) now
           (s\<lparr>mp_userSockets := jset userId bucket (mp_userSockets s)\<rparr>))"

definition markOffline :: "string \<Rightarrow> string \<Rightarrow> mem_presence \<Rightarrow> mem_presence" where
  "markOffline userId socketId s =
     (case jget (mp_userSockets s) userId of
        None \<Rightarrow> s
      | Some bucket0 \<Rightarrow>
          let bucket = set_delete socketId bucket0
          in if bucket = []
             then clearUserTtl userId (s\<lparr>mp_userSockets := jdel userId (mp_userSockets s)\<rparr>)
             else s\<lparr>mp_userSockets := jset userId bucket (mp_userSockets s)\<rparr>)"

definition whoIsOnline :: "string list \<Rightarrow> mem_presence \<Rightarrow> string list" where
  "whoIsOnline userIds s =
     foldl (\<lambda>online i. case jget (mp_userSockets s) i of
                         Some bucket \<Rightarrow> if length bucket > 0 then set_add i online else online
                       | None \<Rightarrow> online) [] userIds"

definition trackCall :: "int \<Rightarrow> string \<Rightarrow> string \<Rightarrow> int option \<Rightarrow> int \<Rightarrow> mem_presence \<Rightarrow> mem_presence" where
  "trackCall defaultTtl callId socketId ttlSeconds now s =
     (let bucket = set_add socketId (or_default (jget (mp_callBuckets s) callId) [])
      in refreshCallTtl callId (or_default ttlSeconds defaultTtl) now
           (s\<lparr>mp_callBuckets := jset callId bucket (mp_callBuckets s)\<rparr>))"

definition untrackCall :: "string \<Rightarrow> string \<Rightarrow> mem_presence \<Rightarrow> mem_presence" where
  "untrackCall callId socketId s =
     (case jget (mp_callBuckets s) callId of
        None \<Rightarrow> s
      | Some bucket0 \<Rightarrow>
          let bucket = set_delete socketId bucket0
          in if bucket = []
             then clearCallTtl callId (s\<lparr>mp_callBuckets := jdel callId (mp_callBuckets s)\<rparr>)
             else s\<lparr>mp_callBuckets := jset callId bucket (mp_callBuckets s)\<rparr>)"

definition callSockets :: "string \<Rightarrow> mem_presence \<Rightarrow> string list" where
  "callSockets callId s = or_default (jget (mp_callBuckets s) callId) []"

definition socketsForUser :: "string \<Rightarrow> mem_presence \<Rightarrow> string list" where
  "socketsForUser userId s = or_default (jget (mp_userSockets s) userId) []"

text \<open>\<open>onModuleDestroy\<close>: both \<open>clearTimeout\<close> loops, then the four maps.\<close>

definition presence_destroy :: "mem_presence \<Rightarrow> mem_presence" where
  "presence_destroy s =
     (let s1 = foldl (\<lambda>s e. clearTimeout (te_timer e) s) s (jvals (mp_userTtl s));
          s2 = foldl (\<lambda>s e. clearTimeout (te_timer e) s) s1 (jvals (mp_callTtl s1))
      in s2\<lparr>mp_userTtl := jempty, mp_callTtl := jempty, mp_userSockets := jempty, mp_callBuckets := jempty\<rparr>)"

text \<open>The event loop: a timer leaves the pending ones and its callback runs.\<close>

definition fire :: "nat \<Rightarrow> mem_presence \<Rightarrow> mem_presence" where
  "fire tid s =
     (case jget (mp_timers s) tid of
        None \<Rightarrow> s
      | Some (due, target) \<Rightarrow>
          let s1 = clearTimeout tid s
          in case target of UserTimer u \<Rightarrow> expireUser u s1 | CallTimer k \<Rightarrow> expireCall k s1)"

definition due_timers :: "int \<Rightarrow> mem_presence \<Rightarrow> nat list" where
  "due_timers now s = map fst (filter (\<lambda>(tid, due, target). due \<le> now) (mp_timers s))"

definition advance :: "int \<Rightarrow> mem_presence \<Rightarrow> mem_presence" where
  "advance now s = foldl (\<lambda>s tid. fire tid s) s (due_timers now s)"

section \<open>The choice of the provider\<close>

datatype presence_choice = InMemoryPresence int | RedisPresence string int

definition choose_presence :: "string option \<Rightarrow> jsnum option \<Rightarrow> (string \<Rightarrow> bool) \<Rightarrow> presence_choice" where
  "choose_presence url ttl canConnectRedis =
     (let u = or_default url []; t = resolvePresenceTtl (Some (or_default ttl (NFin 60)))
      in if js_trim u = [] then InMemoryPresence t
         else if \<not> canConnectRedis u then InMemoryPresence t
         else RedisPresence u t)"

end
