(* ===== verification/PresenceProps.thy ===== *)
theory PresenceProps
  imports Presence
begin

text \<open>
  What in-memory presence promises. Its users and its calls are two instances of one index of
  socket sets with deadlines (\<open>presence_view\<close>); the invariant ties the pending timers to the
  TTL entries, and every operation refines the operation of the abstract index.
\<close>

section \<open>The abstract index\<close>

type_synonym presence_view = "string \<Rightarrow> (string set \<times> int) option"

definition view_sockets :: "presence_view \<Rightarrow> string \<Rightarrow> string set" where
  "view_sockets v k = (case v k of None \<Rightarrow> {} | Some (X, _) \<Rightarrow> X)"

definition view_add :: "string \<Rightarrow> string \<Rightarrow> int \<Rightarrow> presence_view \<Rightarrow> presence_view" where
  "view_add k x due v = v(k \<mapsto> (insert x (view_sockets v k), due))"

definition view_del :: "string \<Rightarrow> string \<Rightarrow> presence_view \<Rightarrow> presence_view" where
  "view_del k x v =
     (case v k of
        None \<Rightarrow> v
      | Some (X, d) \<Rightarrow> if X - {x} = {} then v(k := None) else v(k \<mapsto> (X - {x}, d)))"

definition view_expire :: "int \<Rightarrow> presence_view \<Rightarrow> presence_view" where
  "view_expire now v = (\<lambda>k. case v k of None \<Rightarrow> None | Some (X, d) \<Rightarrow> if d \<le> now then None else Some (X, d))"

section \<open>The invariant of one index\<close>

definition side_ok :: "(string \<Rightarrow> ttl_target) \<Rightarrow> socket_sets \<Rightarrow> ttl_map \<Rightarrow> timer_map \<Rightarrow> bool" where
  "side_ok tgt B T M \<longleftrightarrow>
     jwf B \<and> jwf T \<and> (\<forall>k b. jget B k = Some b \<longrightarrow> b \<noteq> [] \<and> distinct b)
     \<and> (\<forall>k. jget B k = None \<longleftrightarrow> jget T k = None)
     \<and> (\<forall>k tid. (\<exists>e. jget T k = Some e \<and> te_timer e = tid) \<longleftrightarrow> (\<exists>due. jget M tid = Some (due, tgt k)))"

definition side_view :: "socket_sets \<Rightarrow> ttl_map \<Rightarrow> timer_map \<Rightarrow> presence_view" where
  "side_view B T M k =
     (case (jget B k, jget T k) of
        (Some b, Some e) \<Rightarrow> (case jget M (te_timer e) of None \<Rightarrow> None | Some (due, _) \<Rightarrow> Some (set b, due))
      | _ \<Rightarrow> None)"

definition drop_timer :: "ttl_map \<Rightarrow> string \<Rightarrow> timer_map \<Rightarrow> timer_map" where
  "drop_timer T k M = (case jget T k of None \<Rightarrow> M | Some e \<Rightarrow> jdel (te_timer e) M)"

lemma side_timer:
  "side_ok tgt B T M \<Longrightarrow> jget T k = Some e \<Longrightarrow> \<exists>due. jget M (te_timer e) = Some (due, tgt k)"
  unfolding side_ok_def by blast

lemma side_entry:
  "side_ok tgt B T M \<Longrightarrow> jget M tid = Some (due, tgt k) \<Longrightarrow> \<exists>e. jget T k = Some e \<and> te_timer e = tid"
  unfolding side_ok_def by blast

lemma side_bucket: "side_ok tgt B T M \<Longrightarrow> jget B k = Some b \<Longrightarrow> b \<noteq> [] \<and> distinct b"
  unfolding side_ok_def by blast

lemma side_dom: "side_ok tgt B T M \<Longrightarrow> jget B k = None \<longleftrightarrow> jget T k = None"
  unfolding side_ok_def by blast

lemma side_view_None: "side_ok tgt B T M \<Longrightarrow> side_view B T M k = None \<longleftrightarrow> jget B k = None"
  using side_dom [of tgt B T M k] side_timer [of tgt B T M k]
  by (auto simp: side_view_def split: option.splits)

lemma side_view_sockets:
  "side_ok tgt B T M \<Longrightarrow> view_sockets (side_view B T M) k = set (or_default (jget B k) [])"
  using side_dom [of tgt B T M k] side_timer [of tgt B T M k]
  by (auto simp: view_sockets_def side_view_def split: option.splits)

lemma drop_timer_get:
  "inj tgt \<Longrightarrow> side_ok tgt B T M \<Longrightarrow>
   jget (drop_timer T k M) tid = (if \<exists>due. jget M tid = Some (due, tgt k) then None else jget M tid)"
  using side_entry [of tgt B T M tid _ k] side_timer [of tgt B T M k]
  by (auto simp: drop_timer_def inj_eq split: option.splits)

text \<open>The three changes an operation makes to its own index.\<close>

lemma side_ok_add:
  assumes "inj tgt" and ok: "side_ok tgt B T M" and n: "jget M n = None" and b: "b \<noteq> []" "distinct b"
  shows "side_ok tgt (jset k b B) (jset k \<lparr>te_timer = n, te_expiresAt = x\<rparr> (jdel k T))
           (jset n (due, tgt k) (drop_timer T k M))"
    (is "side_ok tgt ?B ?T ?M")
proof -
  have M: "jget ?M tid = (if tid = n then Some (due, tgt k)
      else if \<exists>d. jget M tid = Some (d, tgt k) then None else jget M tid)" for tid
    using drop_timer_get [OF assms(1) ok] by simp
  have "(\<exists>e. jget ?T k' = Some e \<and> te_timer e = tid) \<longleftrightarrow> (\<exists>d. jget ?M tid = Some (d, tgt k'))" for k' tid
  proof (cases "k' = k")
    case True
    then show ?thesis using M [of tid] by auto
  next
    case False
    then have ne: "tgt k' \<noteq> tgt k" using assms(1) by (simp add: inj_eq)
    have "(\<exists>e. jget ?T k' = Some e \<and> te_timer e = tid) \<longleftrightarrow> (\<exists>d. jget M tid = Some (d, tgt k'))"
      using False ok by (simp add: side_ok_def)
    with M [of tid] ne n show ?thesis by auto
  qed
  then show ?thesis
    using ok b unfolding side_ok_def by (simp add: jwf_intros)
qed

lemma side_ok_drop:
  assumes "inj tgt" and ok: "side_ok tgt B T M"
  shows "side_ok tgt (jdel k B) (jdel k T) (drop_timer T k M)"
proof -
  have "(\<exists>e. jget (jdel k T) k' = Some e \<and> te_timer e = tid)
      \<longleftrightarrow> (\<exists>d. jget (drop_timer T k M) tid = Some (d, tgt k'))" for k' tid
  proof (cases "k' = k")
    case True
    then show ?thesis using drop_timer_get [OF assms(1) ok, of k tid] by auto
  next
    case False
    then have ne: "tgt k' \<noteq> tgt k" using assms(1) by (simp add: inj_eq)
    have "(\<exists>e. jget (jdel k T) k' = Some e \<and> te_timer e = tid) \<longleftrightarrow> (\<exists>d. jget M tid = Some (d, tgt k'))"
      using False ok by (simp add: side_ok_def)
    with drop_timer_get [OF assms(1) ok, of k tid] ne show ?thesis by auto
  qed
  then show ?thesis
    using ok unfolding side_ok_def by (simp add: jwf_intros)
qed

lemma side_ok_shrink:
  "side_ok tgt B T M \<Longrightarrow> jget B k = Some b0 \<Longrightarrow> b \<noteq> [] \<Longrightarrow> distinct b \<Longrightarrow> side_ok tgt (jset k b B) T M"
  unfolding side_ok_def by (auto simp: jwf_intros) (metis option.distinct(1) option.exhaust)

text \<open>A change of the timers of other targets is not seen.\<close>

lemma side_ok_frame:
  assumes "\<And>tid due k. jget M' tid = Some (due, tgt k) \<longleftrightarrow> jget M tid = Some (due, tgt k)"
  shows "side_ok tgt B T M' \<longleftrightarrow> side_ok tgt B T M"
  using assms by (simp add: side_ok_def)

lemma side_view_frame:
  assumes "\<And>tid due k. jget M' tid = Some (due, tgt k) \<longleftrightarrow> jget M tid = Some (due, tgt k)"
    and ok: "side_ok tgt B T M"
  shows "side_view B T M' = side_view B T M"
proof (rule ext)
  fix k
  show "side_view B T M' k = side_view B T M k"
  proof (cases "jget T k")
    case (Some e)
    from side_timer [OF ok Some] obtain due where "jget M (te_timer e) = Some (due, tgt k)" by blast
    moreover from this have "jget M' (te_timer e) = Some (due, tgt k)" using assms(1) by blast
    ultimately show ?thesis by (simp add: side_view_def Some split: option.split)
  qed (simp add: side_view_def split: option.split)
qed

text \<open>The same changes, seen from the view.\<close>

lemma drop_timer_keeps:
  "side_ok tgt B T M \<Longrightarrow> tgt k \<noteq> target \<Longrightarrow>
   jget (drop_timer T k M) tid = Some (due, target) \<longleftrightarrow> jget M tid = Some (due, target)"
  using side_timer [of tgt B T M k] by (auto simp: drop_timer_def split: option.splits)

lemma side_view_other:
  assumes "inj tgt" and ok: "side_ok tgt B T M" and "k' \<noteq> k"
    and B': "jget B' k' = jget B k'" and T': "jget T' k' = jget T k'"
    and M': "\<And>tid due. jget M tid = Some (due, tgt k') \<Longrightarrow> jget M' tid = Some (due, tgt k')"
  shows "side_view B' T' M' k' = side_view B T M k'"
proof (cases "jget T k'")
  case (Some e)
  from side_timer [OF ok Some] obtain due where "jget M (te_timer e) = Some (due, tgt k')" by blast
  moreover from this have "jget M' (te_timer e) = Some (due, tgt k')" by (rule M')
  ultimately show ?thesis using Some by (simp add: side_view_def B' T' split: option.split)
qed (simp add: side_view_def B' T' split: option.split)

lemma side_view_add:
  assumes "inj tgt" and ok: "side_ok tgt B T M" and n: "jget M n = None"
  shows "side_view (jset k b B) (jset k \<lparr>te_timer = n, te_expiresAt = x\<rparr> (jdel k T))
           (jset n (due, tgt k) (drop_timer T k M)) = (side_view B T M)(k \<mapsto> (set b, due))"
    (is "side_view ?B ?T ?M = _")
proof (rule ext)
  fix k'
  show "side_view ?B ?T ?M k' = ((side_view B T M)(k \<mapsto> (set b, due))) k'"
  proof (cases "k' = k")
    case False
    have "jget ?M tid = Some (d, tgt k')" if "jget M tid = Some (d, tgt k')" for tid d
    proof -
      have "tid \<noteq> n" using n that by auto
      then show ?thesis
        using that drop_timer_keeps [OF ok, of k "tgt k'" tid d] False assms(1) by (simp add: inj_eq)
    qed
    with False have "side_view ?B ?T ?M k' = side_view B T M k'"
      by (intro side_view_other [OF assms(1) ok False]) simp_all
    then show ?thesis using False by simp
  qed (simp add: side_view_def)
qed

lemma side_view_drop:
  assumes "inj tgt" and ok: "side_ok tgt B T M"
  shows "side_view (jdel k B) (jdel k T) (drop_timer T k M) = (side_view B T M)(k := None)"
proof (rule ext)
  fix k'
  show "side_view (jdel k B) (jdel k T) (drop_timer T k M) k' = ((side_view B T M)(k := None)) k'"
  proof (cases "k' = k")
    case False
    then have "tgt k \<noteq> tgt k'" using assms(1) by (simp add: inj_eq)
    then have "side_view (jdel k B) (jdel k T) (drop_timer T k M) k' = side_view B T M k'"
      using False drop_timer_keeps [OF ok, of k "tgt k'"]
      by (intro side_view_other [OF assms(1) ok False]) simp_all
    then show ?thesis using False by simp
  qed (simp add: side_view_def)
qed

lemma side_view_shrink:
  "side_view B T M k = Some (X, d) \<Longrightarrow> side_view (jset k b B) T M = (side_view B T M)(k \<mapsto> (set b, d))"
  by (rule ext) (auto simp: side_view_def split: option.splits)

section \<open>The invariant of the service\<close>

definition pres_ok :: "mem_presence \<Rightarrow> bool" where
  "pres_ok s \<longleftrightarrow>
     side_ok UserTimer (mp_userSockets s) (mp_userTtl s) (mp_timers s)
     \<and> side_ok CallTimer (mp_callBuckets s) (mp_callTtl s) (mp_timers s)
     \<and> jwf (mp_timers s) \<and> (\<forall>n \<ge> mp_next_timer s. jget (mp_timers s) n = None)"

definition user_view :: "mem_presence \<Rightarrow> presence_view" where
  "user_view s = side_view (mp_userSockets s) (mp_userTtl s) (mp_timers s)"

definition track_view :: "mem_presence \<Rightarrow> presence_view" where
  "track_view s = side_view (mp_callBuckets s) (mp_callTtl s) (mp_timers s)"

lemma inj_targets: "inj UserTimer" "inj CallTimer"
  by (auto intro: injI)

lemma jdel_absent: "jget m k = None \<Longrightarrow> jdel k m = m"
  by (auto simp: jdel_def jget_None_iff jkeys_def filter_id_conv)

lemma clearUserTtl_eq:
  "clearUserTtl u s = s\<lparr>mp_userTtl := jdel u (mp_userTtl s), mp_timers := drop_timer (mp_userTtl s) u (mp_timers s)\<rparr>"
  by (auto simp: clearUserTtl_def clearTimeout_def drop_timer_def Let_def jdel_absent split: option.split)

lemma clearCallTtl_eq:
  "clearCallTtl k s = s\<lparr>mp_callTtl := jdel k (mp_callTtl s), mp_timers := drop_timer (mp_callTtl s) k (mp_timers s)\<rparr>"
  by (auto simp: clearCallTtl_def clearTimeout_def drop_timer_def Let_def jdel_absent split: option.split)

lemmas presence_ops =
  markOnline_def markOffline_def trackCall_def untrackCall_def refreshUserTtl_def refreshCallTtl_def
  setTimeout_def clearUserTtl_eq clearCallTtl_eq Let_def

lemma drop_timer_wf: "jwf M \<Longrightarrow> jwf (drop_timer T k M)"
  by (simp add: drop_timer_def jwf_intros split: option.split)

lemma drop_timer_None: "jget M n = None \<Longrightarrow> jget (drop_timer T k M) n = None"
  by (simp add: drop_timer_def split: option.split)

text \<open>What a change of one index leaves of the other.\<close>

lemma side_other_add:
  assumes "side_ok tgt B T M" and "side_ok tgt' B' T' M" and "\<And>k'. tgt k \<noteq> tgt' k'" and "jget M n = None"
  shows "side_ok tgt' B' T' (jset n (due, tgt k) (drop_timer T k M))"
    and "side_view B' T' (jset n (due, tgt k) (drop_timer T k M)) = side_view B' T' M"
proof -
  have "jget (jset n (due, tgt k) (drop_timer T k M)) tid = Some (d, tgt' k') \<longleftrightarrow> jget M tid = Some (d, tgt' k')"
    for tid d k'
    using assms drop_timer_keeps [OF assms(1), of k "tgt' k'" tid d] by auto
  then show "side_ok tgt' B' T' (jset n (due, tgt k) (drop_timer T k M))"
    and "side_view B' T' (jset n (due, tgt k) (drop_timer T k M)) = side_view B' T' M"
    using side_ok_frame [of _ tgt' M] side_view_frame [OF _ assms(2)] assms(2) by blast+
qed

lemma side_other_drop:
  assumes "side_ok tgt B T M" and "side_ok tgt' B' T' M" and "\<And>k'. tgt k \<noteq> tgt' k'"
  shows "side_ok tgt' B' T' (drop_timer T k M)"
    and "side_view B' T' (drop_timer T k M) = side_view B' T' M"
proof -
  have "jget (drop_timer T k M) tid = Some (d, tgt' k') \<longleftrightarrow> jget M tid = Some (d, tgt' k')" for tid d k'
    using assms(3) drop_timer_keeps [OF assms(1)] by blast
  then show "side_ok tgt' B' T' (drop_timer T k M)"
    and "side_view B' T' (drop_timer T k M) = side_view B' T' M"
    using side_ok_frame [of _ tgt' M] side_view_frame [OF _ assms(2)] assms(2) by blast+
qed

end
