(* ===== verification/PresenceClaims.thy ===== *)
theory PresenceClaims
  imports PresenceProps
begin

text \<open>
  The operations of in-memory presence refine the abstract index, for users and for calls,
  over any sequence of requests and timer expirations.
\<close>

section \<open>Each operation\<close>

lemma set_add_props: "set (set_add x b) = insert x (set b)" "distinct b \<Longrightarrow> distinct (set_add x b)" "set_add x b \<noteq> []"
  by (auto simp: set_add_def)

lemma set_delete_props: "set (set_delete x b) = set b - {x}" "distinct b \<Longrightarrow> distinct (set_delete x b)"
  by (auto simp: set_delete_def)

lemma pres_ok_sides:
  assumes "pres_ok s"
  shows "side_ok UserTimer (mp_userSockets s) (mp_userTtl s) (mp_timers s)"
    and "side_ok CallTimer (mp_callBuckets s) (mp_callTtl s) (mp_timers s)"
    and "jwf (mp_timers s)" and "mp_next_timer s \<le> n \<Longrightarrow> jget (mp_timers s) n = None"
  using assms by (simp_all add: pres_ok_def)

lemma bucket_add:
  assumes "side_ok tgt B T M"
  shows "set_add x (or_default (jget B k) []) \<noteq> []" "distinct (set_add x (or_default (jget B k) []))"
    and "set (set_add x (or_default (jget B k) [])) = insert x (view_sockets (side_view B T M) k)"
  using side_bucket [OF assms, of k] side_view_sockets [OF assms, of k]
  by (auto simp: set_add_props or_default_def split: option.splits)

lemma markOnline_refines:
  assumes "pres_ok s"
  shows "pres_ok (markOnline dt u x ttl now s)"
    and "user_view (markOnline dt u x ttl now s) =
           view_add u x (now + timer_delay (or_default ttl dt * 1000)) (user_view s)"
    and "track_view (markOnline dt u x ttl now s) = track_view s"
proof -
  note s = pres_ok_sides [OF assms]
  note b = bucket_add [OF s(1), of x u]
  note add = side_ok_add [OF inj_targets(1) s(1) s(4) b(1, 2)] side_view_add [OF inj_targets(1) s(1) s(4)]
  note other = side_other_add [OF s(1) s(2), of u "mp_next_timer s"]
  show "pres_ok (markOnline dt u x ttl now s)"
    using add(1) other(1) s
    by (auto simp: pres_ok_def presence_ops jwf_intros drop_timer_wf drop_timer_None)
  show "user_view (markOnline dt u x ttl now s) =
      view_add u x (now + timer_delay (or_default ttl dt * 1000)) (user_view s)"
    by (simp add: presence_ops user_view_def add(2) view_add_def b(3))
  show "track_view (markOnline dt u x ttl now s) = track_view s"
    using other(2) s(4) by (simp add: presence_ops track_view_def)
qed

lemma trackCall_refines:
  assumes "pres_ok s"
  shows "pres_ok (trackCall dt k x ttl now s)"
    and "track_view (trackCall dt k x ttl now s) =
           view_add k x (now + timer_delay (or_default ttl dt * 1000)) (track_view s)"
    and "user_view (trackCall dt k x ttl now s) = user_view s"
proof -
  note s = pres_ok_sides [OF assms]
  note b = bucket_add [OF s(2), of x k]
  note add = side_ok_add [OF inj_targets(2) s(2) s(4) b(1, 2)] side_view_add [OF inj_targets(2) s(2) s(4)]
  note other = side_other_add [OF s(2) s(1), of k "mp_next_timer s"]
  show "pres_ok (trackCall dt k x ttl now s)"
    using add(1) other(1) s
    by (auto simp: pres_ok_def presence_ops jwf_intros drop_timer_wf drop_timer_None)
  show "track_view (trackCall dt k x ttl now s) =
      view_add k x (now + timer_delay (or_default ttl dt * 1000)) (track_view s)"
    by (simp add: presence_ops track_view_def add(2) view_add_def b(3))
  show "user_view (trackCall dt k x ttl now s) = user_view s"
    using other(2) s(4) by (simp add: presence_ops user_view_def)
qed

lemma side_view_SomeI:
  "side_ok tgt B T M \<Longrightarrow> jget B k = Some b \<Longrightarrow> \<exists>d. side_view B T M k = Some (set b, d)"
  using side_dom [of tgt B T M k] side_timer [of tgt B T M k]
  by (auto simp: side_view_def split: option.splits)

lemma markOffline_refines:
  assumes "pres_ok s"
  shows "pres_ok (markOffline u x s)" and "user_view (markOffline u x s) = view_del u x (user_view s)"
    and "track_view (markOffline u x s) = track_view s"
proof -
  note s = pres_ok_sides [OF assms]
  have "pres_ok (markOffline u x s) \<and> user_view (markOffline u x s) = view_del u x (user_view s)
      \<and> track_view (markOffline u x s) = track_view s"
  proof (cases "jget (mp_userSockets s) u")
    case None
    then have "user_view s u = None" using side_view_None [OF s(1)] by (simp add: user_view_def)
    with None assms show ?thesis by (simp add: markOffline_def view_del_def)
  next
    case (Some b)
    from side_view_SomeI [OF s(1) Some] obtain d where v: "user_view s u = Some (set b, d)"
      by (auto simp: user_view_def)
    have empty: "set_delete x b = [] \<longleftrightarrow> set b - {x} = {}"
      using set_delete_props(1) [of x b] by (metis set_empty)
    show ?thesis
    proof (cases "set_delete x b = []")
      case True
      then have eq: "markOffline u x s = s\<lparr>mp_userSockets := jdel u (mp_userSockets s),
          mp_userTtl := jdel u (mp_userTtl s), mp_timers := drop_timer (mp_userTtl s) u (mp_timers s)\<rparr>"
        by (simp add: presence_ops Some)
      show ?thesis
        unfolding eq
        using side_ok_drop [OF inj_targets(1) s(1)] side_view_drop [OF inj_targets(1) s(1)]
          side_other_drop [OF s(1) s(2)] s empty True v
        by (auto simp: pres_ok_def user_view_def track_view_def view_del_def drop_timer_wf drop_timer_None)
    next
      case False
      have "markOffline u x s = s\<lparr>mp_userSockets := jset u (set_delete x b) (mp_userSockets s)\<rparr>"
        using False by (simp add: presence_ops Some)
      then show ?thesis
        using side_ok_shrink [OF s(1) Some False] side_view_shrink [of _ _ _ u "set b" d "set_delete x b"]
          side_bucket [OF s(1) Some] s empty False v
        by (simp add: pres_ok_def user_view_def track_view_def view_del_def set_delete_props)
    qed
  qed
  then show "pres_ok (markOffline u x s)" and "user_view (markOffline u x s) = view_del u x (user_view s)"
    and "track_view (markOffline u x s) = track_view s"
    by simp_all
qed

lemma untrackCall_refines:
  assumes "pres_ok s"
  shows "pres_ok (untrackCall k x s)" and "track_view (untrackCall k x s) = view_del k x (track_view s)"
    and "user_view (untrackCall k x s) = user_view s"
proof -
  note s = pres_ok_sides [OF assms]
  have "pres_ok (untrackCall k x s) \<and> track_view (untrackCall k x s) = view_del k x (track_view s)
      \<and> user_view (untrackCall k x s) = user_view s"
  proof (cases "jget (mp_callBuckets s) k")
    case None
    then have "track_view s k = None" using side_view_None [OF s(2)] by (simp add: track_view_def)
    with None assms show ?thesis by (simp add: untrackCall_def view_del_def)
  next
    case (Some b)
    from side_view_SomeI [OF s(2) Some] obtain d where v: "track_view s k = Some (set b, d)"
      by (auto simp: track_view_def)
    have empty: "set_delete x b = [] \<longleftrightarrow> set b - {x} = {}"
      using set_delete_props(1) [of x b] by (metis set_empty)
    show ?thesis
    proof (cases "set_delete x b = []")
      case True
      then have eq: "untrackCall k x s = s\<lparr>mp_callBuckets := jdel k (mp_callBuckets s),
          mp_callTtl := jdel k (mp_callTtl s), mp_timers := drop_timer (mp_callTtl s) k (mp_timers s)\<rparr>"
        by (simp add: presence_ops Some)
      show ?thesis
        unfolding eq
        using side_ok_drop [OF inj_targets(2) s(2)] side_view_drop [OF inj_targets(2) s(2)]
          side_other_drop [OF s(2) s(1)] s empty True v
        by (auto simp: pres_ok_def user_view_def track_view_def view_del_def drop_timer_wf drop_timer_None)
    next
      case False
      have "untrackCall k x s = s\<lparr>mp_callBuckets := jset k (set_delete x b) (mp_callBuckets s)\<rparr>"
        using False by (simp add: presence_ops Some)
      then show ?thesis
        using side_ok_shrink [OF s(2) Some False] side_view_shrink [of _ _ _ k "set b" d "set_delete x b"]
          side_bucket [OF s(2) Some] s empty False v
        by (simp add: pres_ok_def user_view_def track_view_def view_del_def set_delete_props)
    qed
  qed
  then show "pres_ok (untrackCall k x s)" and "track_view (untrackCall k x s) = view_del k x (track_view s)"
    and "user_view (untrackCall k x s) = user_view s"
    by simp_all
qed

section \<open>Timers\<close>

lemma fire_timers: "pres_ok s \<Longrightarrow> jget (mp_timers (fire tid s)) t = (if t = tid then None else jget (mp_timers s) t)"
  by (auto simp: fire_def clearTimeout_def expireUser_def expireCall_def Let_def split: option.split ttl_target.split)

lemma fire_refines:
  assumes "pres_ok s"
  shows "pres_ok (fire tid s)"
    and "user_view (fire tid s) =
           (\<lambda>u. if \<exists>d. jget (mp_timers s) tid = Some (d, UserTimer u) then None else user_view s u)"
    and "track_view (fire tid s) =
           (\<lambda>k. if \<exists>d. jget (mp_timers s) tid = Some (d, CallTimer k) then None else track_view s k)"
proof -
  note s = pres_ok_sides [OF assms]
  have "pres_ok (fire tid s)
    \<and> user_view (fire tid s) = (\<lambda>u. if \<exists>d. jget (mp_timers s) tid = Some (d, UserTimer u) then None else user_view s u)
    \<and> track_view (fire tid s) = (\<lambda>k. if \<exists>d. jget (mp_timers s) tid = Some (d, CallTimer k) then None else track_view s k)"
  proof (cases "jget (mp_timers s) tid")
    case None
    then show ?thesis using assms by (simp add: fire_def)
  next
    case (Some p)
    then obtain due target where p: "jget (mp_timers s) tid = Some (due, target)" by (cases p) auto
    show ?thesis
    proof (cases target)
      case (UserTimer u)
      from side_entry [OF s(1)] p UserTimer obtain e where e: "jget (mp_userTtl s) u = Some e" "te_timer e = tid"
        by blast
      have eq: "fire tid s = s\<lparr>mp_userSockets := jdel u (mp_userSockets s),
          mp_userTtl := jdel u (mp_userTtl s), mp_timers := drop_timer (mp_userTtl s) u (mp_timers s)\<rparr>"
        using e p UserTimer by (simp add: fire_def clearTimeout_def expireUser_def drop_timer_def Let_def)
      show ?thesis
        unfolding eq
        using side_ok_drop [OF inj_targets(1) s(1)] side_view_drop [OF inj_targets(1) s(1)]
          side_other_drop [OF s(1) s(2)] s p UserTimer
        by (auto simp: pres_ok_def user_view_def track_view_def drop_timer_wf drop_timer_None fun_eq_iff)
    next
      case (CallTimer k)
      from side_entry [OF s(2)] p CallTimer obtain e where e: "jget (mp_callTtl s) k = Some e" "te_timer e = tid"
        by blast
      have eq: "fire tid s = s\<lparr>mp_callBuckets := jdel k (mp_callBuckets s),
          mp_callTtl := jdel k (mp_callTtl s), mp_timers := drop_timer (mp_callTtl s) k (mp_timers s)\<rparr>"
        using e p CallTimer by (simp add: fire_def clearTimeout_def expireCall_def drop_timer_def Let_def)
      show ?thesis
        unfolding eq
        using side_ok_drop [OF inj_targets(2) s(2)] side_view_drop [OF inj_targets(2) s(2)]
          side_other_drop [OF s(2) s(1)] s p CallTimer
        by (auto simp: pres_ok_def user_view_def track_view_def drop_timer_wf drop_timer_None fun_eq_iff)
    qed
  qed
  then show "pres_ok (fire tid s)"
    and "user_view (fire tid s) =
           (\<lambda>u. if \<exists>d. jget (mp_timers s) tid = Some (d, UserTimer u) then None else user_view s u)"
    and "track_view (fire tid s) =
           (\<lambda>k. if \<exists>d. jget (mp_timers s) tid = Some (d, CallTimer k) then None else track_view s k)"
    by simp_all
qed

lemma fire_all:
  assumes "pres_ok s"
  shows "pres_ok (foldl (\<lambda>s tid. fire tid s) s ts)
    \<and> user_view (foldl (\<lambda>s tid. fire tid s) s ts) =
        (\<lambda>u. if \<exists>tid \<in> set ts. \<exists>d. jget (mp_timers s) tid = Some (d, UserTimer u) then None else user_view s u)
    \<and> track_view (foldl (\<lambda>s tid. fire tid s) s ts) =
        (\<lambda>k. if \<exists>tid \<in> set ts. \<exists>d. jget (mp_timers s) tid = Some (d, CallTimer k) then None else track_view s k)"
  using assms
proof (induction ts arbitrary: s)
  case (Cons t ts)
  note f = fire_refines [OF Cons.prems, of t]
  show ?case
    using Cons.IH [OF f(1)] f(2, 3) by (auto simp: fire_timers [OF Cons.prems] fun_eq_iff)
qed simp

lemma due_timers_iff:
  "pres_ok s \<Longrightarrow> tid \<in> set (due_timers now s) \<longleftrightarrow> (\<exists>d g. jget (mp_timers s) tid = Some (d, g) \<and> d \<le> now)"
  using pres_ok_sides(3) [of s] by (force simp: due_timers_def jget_in_set)

lemma side_expire:
  assumes ok: "side_ok tgt B T M"
  shows "(if \<exists>tid d. jget M tid = Some (d, tgt k) \<and> d \<le> now then None else side_view B T M k)
    = view_expire now (side_view B T M) k"
proof (cases "jget T k")
  case None
  then have "side_view B T M k = None" by (simp add: side_view_def split: option.split)
  then show ?thesis by (simp add: view_expire_def)
next
  case (Some e)
  from side_timer [OF ok Some] obtain due where due: "jget M (te_timer e) = Some (due, tgt k)" by blast
  have "tid = te_timer e \<and> d = due" if "jget M tid = Some (d, tgt k)" for tid d
    using side_entry [OF ok that] Some due that by auto
  then have "(\<exists>tid d. jget M tid = Some (d, tgt k) \<and> d \<le> now) \<longleftrightarrow> due \<le> now"
    using due by blast
  then show ?thesis
    using Some due by (simp add: view_expire_def side_view_def split: option.split)
qed

lemma advance_refines:
  assumes "pres_ok s"
  shows "pres_ok (advance now s)" and "user_view (advance now s) = view_expire now (user_view s)"
    and "track_view (advance now s) = view_expire now (track_view s)"
proof -
  note s = pres_ok_sides [OF assms]
  note f = fire_all [OF assms, of "due_timers now s"]
  have due: "(\<exists>tid \<in> set (due_timers now s). \<exists>d. jget (mp_timers s) tid = Some (d, g))
      \<longleftrightarrow> (\<exists>tid d. jget (mp_timers s) tid = Some (d, g) \<and> d \<le> now)" for g
    using due_timers_iff [OF assms, of _ now] by fastforce
  show "pres_ok (advance now s)" using f by (simp add: advance_def)
  show "user_view (advance now s) = view_expire now (user_view s)"
    using f side_expire [OF s(1), folded user_view_def] by (simp add: advance_def due fun_eq_iff)
  show "track_view (advance now s) = view_expire now (track_view s)"
    using f side_expire [OF s(2), folded track_view_def] by (simp add: advance_def due fun_eq_iff)
qed

section \<open>Sequences of operations\<close>

datatype presence_op =
    PMarkOnline string string "int option" int
  | PMarkOffline string string
  | PTrackCall string string "int option" int
  | PUntrackCall string string
  | PTick int

fun presence_step :: "int \<Rightarrow> presence_op \<Rightarrow> mem_presence \<Rightarrow> mem_presence" where
  "presence_step dt (PMarkOnline u x ttl now) s = markOnline dt u x ttl now s"
| "presence_step dt (PMarkOffline u x) s = markOffline u x s"
| "presence_step dt (PTrackCall k x ttl now) s = trackCall dt k x ttl now s"
| "presence_step dt (PUntrackCall k x) s = untrackCall k x s"
| "presence_step dt (PTick now) s = advance now s"

definition presence_run :: "int \<Rightarrow> presence_op list \<Rightarrow> mem_presence" where
  "presence_run dt ops = fold (presence_step dt) ops init_presence"

fun user_spec :: "int \<Rightarrow> presence_op \<Rightarrow> presence_view \<Rightarrow> presence_view" where
  "user_spec dt (PMarkOnline u x ttl now) v = view_add u x (now + timer_delay (or_default ttl dt * 1000)) v"
| "user_spec dt (PMarkOffline u x) v = view_del u x v"
| "user_spec dt (PTick now) v = view_expire now v"
| "user_spec dt _ v = v"

fun call_spec :: "int \<Rightarrow> presence_op \<Rightarrow> presence_view \<Rightarrow> presence_view" where
  "call_spec dt (PTrackCall k x ttl now) v = view_add k x (now + timer_delay (or_default ttl dt * 1000)) v"
| "call_spec dt (PUntrackCall k x) v = view_del k x v"
| "call_spec dt (PTick now) v = view_expire now v"
| "call_spec dt _ v = v"

text \<open>
  The interface: a step function whose states are read through a view, each step of which is
  the abstract step on the view.
\<close>

locale presence_index =
  fixes ok :: "'s \<Rightarrow> bool" and view :: "'s \<Rightarrow> presence_view" and start :: 's
    and step :: "int \<Rightarrow> 'op \<Rightarrow> 's \<Rightarrow> 's" and spec :: "int \<Rightarrow> 'op \<Rightarrow> presence_view \<Rightarrow> presence_view"
  assumes ok_start: "ok start"
    and view_start: "view start = (\<lambda>_. None)"
    and ok_step: "ok s \<Longrightarrow> ok (step dt op s)"
    and view_step: "ok s \<Longrightarrow> view (step dt op s) = spec dt op (view s)"
begin

lemma run_ok: "ok s \<Longrightarrow> ok (fold (step dt) ops s)"
  by (induction ops arbitrary: s) (simp_all add: ok_step)

lemma run_view: "ok s \<Longrightarrow> view (fold (step dt) ops s) = fold (spec dt) ops (view s)"
  by (induction ops arbitrary: s) (simp_all add: ok_step view_step)

lemma run_refines: "view (fold (step dt) ops start) = fold (spec dt) ops (\<lambda>_. None)"
  using run_view [OF ok_start] by (simp add: view_start)

text \<open>A key no operation touches keeps its sockets until its deadline.\<close>

lemma untouched_until_due:
  assumes "ok s" and v: "view s k = Some (X, d)"
    and quiet: "\<And>op v. op \<in> set ops \<Longrightarrow> spec dt op v k = v k \<or> spec dt op v k = view_expire (due_of op) v k"
    and expire: "\<And>op v. op \<in> set ops \<Longrightarrow> d \<le> due_of op \<Longrightarrow> spec dt op v k = view_expire (due_of op) v k"
  shows "view (fold (step dt) ops s) k = (if \<exists>op \<in> set ops. d \<le> due_of op then None else Some (X, d))"
proof -
  have none: "fold (spec dt) ops' w k = None" if "w k = None" "set ops' \<subseteq> set ops" for ops' w
    using that
  proof (induction ops' arbitrary: w)
    case (Cons op ops')
    then have "spec dt op w k = None" using quiet [of op w] by (auto simp: view_expire_def)
    then show ?case using Cons by simp
  qed simp
  have "fold (spec dt) ops' w k = (if \<exists>op \<in> set ops'. d \<le> due_of op then None else Some (X, d))"
    if "w k = Some (X, d)" "set ops' \<subseteq> set ops" for ops' w
    using that
  proof (induction ops' arbitrary: w)
    case (Cons op ops')
    show ?case
    proof (cases "d \<le> due_of op")
      case True
      then have "spec dt op w k = None" using expire [of op w] Cons.prems by (simp add: view_expire_def)
      then show ?thesis using none [of "spec dt op w" ops'] Cons.prems True by simp
    next
      case False
      then have "spec dt op w k = Some (X, d)" using quiet [of op w] Cons.prems by (auto simp: view_expire_def)
      then show ?thesis using Cons False by simp
    qed
  qed simp
  from this [of "view s" ops] v show ?thesis by (simp add: run_view [OF assms(1)])
qed

end

lemma init_views: "pres_ok init_presence" "user_view init_presence = (\<lambda>_. None)" "track_view init_presence = (\<lambda>_. None)"
  by (auto simp: init_presence_def pres_ok_def side_ok_def user_view_def track_view_def side_view_def jempty_def)

lemma step_ok: "pres_ok s \<Longrightarrow> pres_ok (presence_step dt op s)"
  by (cases op)
    (simp_all add: markOnline_refines markOffline_refines trackCall_refines untrackCall_refines advance_refines)

interpretation pu: presence_index pres_ok user_view init_presence presence_step user_spec
proof
  show "user_view (presence_step dt op s) = user_spec dt op (user_view s)" if "pres_ok s" for s dt op
    using that by (cases op)
      (simp_all add: markOnline_refines markOffline_refines trackCall_refines untrackCall_refines advance_refines)
qed (simp_all add: init_views step_ok)

interpretation pc: presence_index pres_ok track_view init_presence presence_step call_spec
proof
  show "track_view (presence_step dt op s) = call_spec dt op (track_view s)" if "pres_ok s" for s dt op
    using that by (cases op)
      (simp_all add: markOnline_refines markOffline_refines trackCall_refines untrackCall_refines advance_refines)
qed (simp_all add: init_views step_ok)

section \<open>Properties\<close>

lemma who_acc:
  "set (foldl (\<lambda>online i. case jget m i of
                           Some bucket \<Rightarrow> if length bucket > 0 then set_add i online else online
                         | None \<Rightarrow> online) acc us)
   = set acc \<union> {u \<in> set us. \<exists>b. jget m u = Some b \<and> b \<noteq> []}"
  by (induction us arbitrary: acc) (auto simp: set_add_props split: option.split)

lemma who_view: "pres_ok s \<Longrightarrow> set (whoIsOnline us s) = {u \<in> set us. user_view s u \<noteq> None}"
  using side_view_None [OF pres_ok_sides(1)] side_bucket [OF pres_ok_sides(1)]
  by (auto simp: whoIsOnline_def who_acc user_view_def)

lemma run_pres_ok: "pres_ok (presence_run dt ops)"
  unfolding presence_run_def by (rule pu.run_ok [OF pu.ok_start])

lemma presence_run_sockets:
  "set (socketsForUser u (presence_run dt ops)) = view_sockets (fold (user_spec dt) ops (\<lambda>_. None)) u"
  "set (callSockets k (presence_run dt ops)) = view_sockets (fold (call_spec dt) ops (\<lambda>_. None)) k"
  using side_view_sockets [OF pres_ok_sides(1) [OF run_pres_ok [of dt ops]], of u]
    side_view_sockets [OF pres_ok_sides(2) [OF run_pres_ok [of dt ops]], of k]
    pu.run_refines [of dt ops] pc.run_refines [of dt ops]
  by (simp_all add: presence_run_def [symmetric] socketsForUser_def callSockets_def user_view_def track_view_def)

text \<open>C20: after any sequence of requests and timer expirations, what in-memory presence answers is what
  the abstract index holds: a user is online exactly when it has a socket marked online whose
  deadline was not reached, and the sockets of users and of calls are those added and not
  removed since.\<close>

theorem presence_refines_index:
  "set (whoIsOnline us (presence_run dt ops)) = {u \<in> set us. fold (user_spec dt) ops (\<lambda>_. None) u \<noteq> None}
   \<and> set (socketsForUser u (presence_run dt ops)) = view_sockets (fold (user_spec dt) ops (\<lambda>_. None)) u
   \<and> set (callSockets k (presence_run dt ops)) = view_sockets (fold (call_spec dt) ops (\<lambda>_. None)) k"
  using who_view [OF run_pres_ok [of dt ops], of us] pu.run_refines [of dt ops]
  by (simp add: presence_run_def [symmetric] presence_run_sockets)

fun touches_user :: "string \<Rightarrow> presence_op \<Rightarrow> bool" where
  "touches_user u (PMarkOnline u' x ttl now) = (u' = u)"
| "touches_user u (PMarkOffline u' x) = (u' = u)"
| "touches_user u _ = False"

text \<open>A user marked online stays online until the instant the TTL gives, and no longer, whatever
  else happens to other users and to calls, unless marked again.\<close>

theorem presence_deadline:
  assumes "list_all (\<lambda>op. \<not> touches_user u op) later"
  shows "u \<in> set (whoIsOnline [u] (presence_run dt (before @ PMarkOnline u x ttl t # later)))
    \<longleftrightarrow> list_all (\<lambda>op. case op of PTick now \<Rightarrow> now < t + timer_delay (or_default ttl dt * 1000) | _ \<Rightarrow> True) later"
proof -
  let ?d = "t + timer_delay (or_default ttl dt * 1000)"
  let ?s = "markOnline dt u x ttl t (presence_run dt before)"
  let ?due = "\<lambda>op. case op of PTick now \<Rightarrow> now | _ \<Rightarrow> ?d - 1"
  note ok = run_pres_ok [of dt before]
  have v: "user_view ?s u = Some (insert x (view_sockets (user_view (presence_run dt before)) u), ?d)"
    by (simp add: markOnline_refines(2) [OF ok] view_add_def)
  have q: "user_spec dt op w u = w u \<or> user_spec dt op w u = view_expire (?due op) w u" if "op \<in> set later" for op w
    using assms that by (cases op) (auto simp: list_all_iff view_add_def view_del_def split: option.split)
  have e: "user_spec dt op w u = view_expire (?due op) w u" if "op \<in> set later" and "?d \<le> ?due op" for op w
    using that by (cases op rule: presence_op.exhaust) simp_all
  have run: "presence_run dt (before @ PMarkOnline u x ttl t # later) = fold (presence_step dt) later ?s"
    by (simp add: presence_run_def)
  have "user_view (fold (presence_step dt) later ?s) u =
      (if \<exists>op \<in> set later. ?d \<le> ?due op then None
       else Some (insert x (view_sockets (user_view (presence_run dt before)) u), ?d))"
    by (rule pu.untouched_until_due [OF markOnline_refines(1) [OF ok] v q e])
  moreover have "(\<exists>op \<in> set later. ?d \<le> ?due op) \<longleftrightarrow>
      \<not> list_all (\<lambda>op. case op of PTick now \<Rightarrow> now < ?d | _ \<Rightarrow> True) later"
    by (auto simp: list_all_iff not_less split: presence_op.splits)
  ultimately show ?thesis
    using who_view [OF run_pres_ok [of dt "before @ PMarkOnline u x ttl t # later"], of "[u]"] by (simp add: run)
qed

lemma presence_deadline_witness:
  "''ana'' \<in> set (whoIsOnline [''ana''] (presence_run 60 ([] @ PMarkOnline ''ana'' ''s1'' None 1000 #
      [PTick 60999, PMarkOnline ''bo'' ''s2'' None 60999])))
   \<longleftrightarrow> list_all (\<lambda>op. case op of PTick now \<Rightarrow> now < 1000 + timer_delay (or_default None 60 * 1000) | _ \<Rightarrow> True)
        [PTick 60999, PMarkOnline ''bo'' ''s2'' None 60999]"
  by (rule presence_deadline) simp

lemma side_one_timer:
  assumes ok: "side_ok tgt B T M"
  shows "if jget B k = None then \<nexists>tid due. jget M tid = Some (due, tgt k)
    else \<exists>!tid. \<exists>due. jget M tid = Some (due, tgt k)"
proof (cases "jget T k")
  case None
  then show ?thesis using side_dom [OF ok, of k] side_entry [OF ok, of _ _ k] by auto
next
  case (Some e)
  then have "(\<exists>due. jget M tid = Some (due, tgt k)) \<longleftrightarrow> tid = te_timer e" for tid
    using side_timer [OF ok Some] side_entry [OF ok, of tid _ k] by auto
  then show ?thesis using side_dom [OF ok, of k] Some by simp
qed

lemma foldl_clear:
  "jget (mp_timers (foldl (\<lambda>s e. clearTimeout (te_timer e) s) s es)) tid
     = (if tid \<in> te_timer ` set es then None else jget (mp_timers s) tid)"
  "mp_callTtl (foldl (\<lambda>s e. clearTimeout (te_timer e) s) s es) = mp_callTtl s"
  by (induction es arbitrary: s) (auto simp: clearTimeout_def)

lemma jget_all_None: "(\<And>k. jget m k = None) \<Longrightarrow> m = []"
  by (cases m) (auto simp: jget_def, metis option.distinct(1))

lemma destroy_timers:
  assumes "pres_ok s"
  shows "mp_timers (presence_destroy s) = []"
proof (rule jget_all_None)
  fix tid
  note s = pres_ok_sides [OF assms]
  have vals: "e \<in> set (jvals T) \<longleftrightarrow> (\<exists>k. jget T k = Some e)" if "jwf T" for T :: ttl_map and e
    using jvals_in [OF that] .
  have wf: "jwf (mp_userTtl s)" "jwf (mp_callTtl s)" using s by (auto simp: side_ok_def)
  show "jget (mp_timers (presence_destroy s)) tid = None"
  proof (cases "jget (mp_timers s) tid")
    case (Some p)
    then obtain due g where p: "jget (mp_timers s) tid = Some (due, g)" by (cases p) auto
    show ?thesis
    proof (cases g)
      case (UserTimer u)
      with side_entry [OF s(1)] p obtain e where "jget (mp_userTtl s) u = Some e" "te_timer e = tid" by blast
      then have "tid \<in> te_timer ` set (jvals (mp_userTtl s))" using vals [OF wf(1)] by blast
      then show ?thesis by (simp add: presence_destroy_def Let_def foldl_clear)
    next
      case (CallTimer k)
      with side_entry [OF s(2)] p obtain e where "jget (mp_callTtl s) k = Some e" "te_timer e = tid" by blast
      then have "tid \<in> te_timer ` set (jvals (mp_callTtl s))" using vals [OF wf(2)] by blast
      then show ?thesis by (simp add: presence_destroy_def Let_def foldl_clear)
    qed
  qed (simp add: presence_destroy_def Let_def foldl_clear)
qed

text \<open>A user has exactly one pending timer while it is online and none otherwise, and so has a call;
  after the module is destroyed nothing is pending and nobody is online.\<close>

theorem presence_no_timer_leak:
  "(let s = presence_run dt ops
    in (if jget (mp_userSockets s) u = None then \<nexists>tid due. jget (mp_timers s) tid = Some (due, UserTimer u)
        else \<exists>!tid. \<exists>due. jget (mp_timers s) tid = Some (due, UserTimer u))
       \<and> (if jget (mp_callBuckets s) k = None then \<nexists>tid due. jget (mp_timers s) tid = Some (due, CallTimer k)
          else \<exists>!tid. \<exists>due. jget (mp_timers s) tid = Some (due, CallTimer k))
       \<and> mp_timers (presence_destroy s) = [] \<and> whoIsOnline us (presence_destroy s) = [])"
proof -
  note ok = run_pres_ok [of dt ops]
  have "whoIsOnline us (presence_destroy (presence_run dt ops)) = []"
    using who_acc [of jempty "[]" us] by (simp add: whoIsOnline_def presence_destroy_def Let_def)
  then show ?thesis
    unfolding Let_def
    by (intro conjI side_one_timer [OF pres_ok_sides(1) [OF ok]] side_one_timer [OF pres_ok_sides(2) [OF ok]]
      destroy_timers [OF ok])
qed

lemma presence_refines_run:
  assumes "2147483 < T"
  shows "u \<notin> set (whoIsOnline [u] (presence_run dt ([] @ PMarkOnline u sid (Some T) t # [PTick (t + 1)])))"
proof -
  have "fold (user_spec dt) ([] @ PMarkOnline u sid (Some T) t # [PTick (t + 1)]) (\<lambda>_. None) u = None"
    using assms by (simp add: view_add_def view_expire_def timer_delay_def)
  moreover have "user_view (presence_run dt ([] @ PMarkOnline u sid (Some T) t # [PTick (t + 1)])) =
      fold (user_spec dt) ([] @ PMarkOnline u sid (Some T) t # [PTick (t + 1)]) (\<lambda>_. None)"
    unfolding presence_run_def by (rule pu.run_refines)
  ultimately show ?thesis using who_view [OF run_pres_ok] by simp
qed

text \<open>The edges of the TTL. A configured TTL is at least one second, except that a fraction of a
  second becomes zero; a TTL of more than 2147483 seconds exceeds what a timer can wait, and the
  user is offline one millisecond later although the entry records the far instant.\<close>

theorem presence_ttl_edges:
  assumes "2147483 < T"
  shows "(resolvePresenceTtl x < 1 \<longleftrightarrow> (\<exists>r. x = Some (NFin r) \<and> 0 < r \<and> r < 1))
    \<and> whoIsOnline [u] (presence_run dt [PMarkOnline u sid (Some T) t, PTick (t + 1)]) = []
    \<and> map_option te_expiresAt (jget (mp_userTtl (presence_run dt [PMarkOnline u sid (Some T) t])) u)
        = Some (t + T * 1000)"
proof (intro conjI)
  show "resolvePresenceTtl x < 1 \<longleftrightarrow> (\<exists>r. x = Some (NFin r) \<and> 0 < r \<and> r < 1)"
    by (auto simp: resolvePresenceTtl_def DEFAULT_PRESENCE_TTL_SECONDS_def floor_less_one split: option.split jsnum.split)
  have "u \<notin> set (whoIsOnline [u] (presence_run dt ([] @ PMarkOnline u sid (Some T) t # [PTick (t + 1)])))"
    using presence_refines_run [OF assms] .
  moreover have "set (whoIsOnline [u] s) \<subseteq> {u}" for s
    by (auto simp: whoIsOnline_def who_acc set_add_def)
  ultimately show "whoIsOnline [u] (presence_run dt [PMarkOnline u sid (Some T) t, PTick (t + 1)]) = []"
    by (metis append_Nil set_empty subset_singletonD insertI1)
  show "map_option te_expiresAt (jget (mp_userTtl (presence_run dt [PMarkOnline u sid (Some T) t])) u)
      = Some (t + T * 1000)"
    by (simp add: presence_run_def presence_ops init_presence_def)
qed

lemma presence_ttl_edges_witness:
  "(resolvePresenceTtl (Some (NFin (1 / 2))) < 1 \<longleftrightarrow> (\<exists>r. Some (NFin (1 / 2)) = Some (NFin r) \<and> 0 < r \<and> r < 1))
    \<and> whoIsOnline [''ana''] (presence_run 60 [PMarkOnline ''ana'' ''s1'' (Some 2147484) 5, PTick (5 + 1)]) = []
    \<and> map_option te_expiresAt (jget (mp_userTtl (presence_run 60 [PMarkOnline ''ana'' ''s1'' (Some 2147484) 5])) ''ana'')
        = Some (5 + 2147484 * 1000)"
  by (rule presence_ttl_edges) simp

end
