(* ===== verification/RedisPresence.thy ===== *)
theory RedisPresence
  imports PresenceClaims
begin

text \<open>
  Presence in Redis, \<open>src/src/presence/redis-presence.service.ts\<close>. The server is a parameter:
  \<open>redis cmds db\<close> is what \<open>exec()\<close> of the queued commands answers, \<open>null\<close> or an entry for each
  command (\<open>None\<close> where the entry holds an error), with the database after them. A single
  command is a queue of one.
\<close>

datatype redis_cmd =
    Sadd string string
  | Expire string int
  | SetEx string string int
  | Srem string string
  | Del string
  | Exists "string list"
  | Smembers string

datatype redis_reply = IntReply int | SetReply "string list" | OtherReply

type_synonym 'db redis = "redis_cmd list \<Rightarrow> 'db \<Rightarrow> redis_reply option list option \<times> 'db"

definition userKey :: "string \<Rightarrow> string" where
  "userKey userId = ''presence:user:'' @ userId"

definition userSocketKey :: "string \<Rightarrow> string \<Rightarrow> string" where
  "userSocketKey userId socketId = ''presence:user-socket:'' @ userId @ '':'' @ socketId"

definition callKey :: "string \<Rightarrow> string" where
  "callKey callId = ''presence:call:'' @ callId"

definition redis_markOnline :: "'db redis \<Rightarrow> int \<Rightarrow> string \<Rightarrow> string \<Rightarrow> int option \<Rightarrow> 'db \<Rightarrow> 'db" where
  "redis_markOnline redis defaultTtl userId socketId ttlSeconds db =
     (let ttl = or_default ttlSeconds defaultTtl; uKey = userKey userId; sKey = userSocketKey userId socketId
      in snd (redis [Sadd uKey socketId, Expire uKey ttl, SetEx sKey ''1'' ttl] db))"

definition redis_markOffline :: "'db redis \<Rightarrow> string \<Rightarrow> string \<Rightarrow> 'db \<Rightarrow> 'db" where
  "redis_markOffline redis userId socketId db =
     snd (redis [Srem (userKey userId) socketId, Del (userSocketKey userId socketId)] db)"

text \<open>The body of \<open>forEach\<close>: entry \<open>idx\<close> speaks for \<open>userIds[idx]\<close>.\<close>

definition online_entries :: "string list \<Rightarrow> redis_reply option list \<Rightarrow> string list" where
  "online_entries userIds counts =
     foldl (\<lambda>online (idx, entry).
              case entry of
                Some (IntReply value) \<Rightarrow>
                  if value > 0 \<and> idx < length userIds then set_add (userIds ! idx) online else online
              | _ \<Rightarrow> online) [] (zip [0..<length counts] counts)"

definition redis_whoIsOnline :: "'db redis \<Rightarrow> string list \<Rightarrow> 'db \<Rightarrow> string list \<times> 'db" where
  "redis_whoIsOnline redis userIds db =
     (if length userIds = 0 then ([], db)
      else case redis [Exists (map userKey userIds)] db of
             (None, db') \<Rightarrow> ([], db')
           | (Some counts, db') \<Rightarrow> (online_entries userIds counts, db'))"

definition redis_trackCall :: "'db redis \<Rightarrow> int \<Rightarrow> string \<Rightarrow> string \<Rightarrow> int option \<Rightarrow> 'db \<Rightarrow> 'db" where
  "redis_trackCall redis defaultTtl callId socketId ttlSeconds db =
     (let ttl = or_default ttlSeconds defaultTtl; cKey = callKey callId
      in snd (redis [Sadd cKey socketId, Expire cKey ttl] db))"

definition redis_untrackCall :: "'db redis \<Rightarrow> string \<Rightarrow> string \<Rightarrow> 'db \<Rightarrow> 'db" where
  "redis_untrackCall redis callId socketId db = snd (redis [Srem (callKey callId) socketId] db)"

text \<open>The members a \<open>SMEMBERS\<close> answers; \<open>None\<close> is a rejected promise.\<close>

definition smembers :: "'db redis \<Rightarrow> string \<Rightarrow> 'db \<Rightarrow> string list option" where
  "smembers redis key db =
     (case fst (redis [Smembers key] db) of Some [Some (SetReply xs)] \<Rightarrow> Some xs | _ \<Rightarrow> None)"

definition redis_callSockets :: "'db redis \<Rightarrow> string \<Rightarrow> 'db \<Rightarrow> string list option" where
  "redis_callSockets redis callId db = smembers redis (callKey callId) db"

definition redis_socketsForUser :: "'db redis \<Rightarrow> string \<Rightarrow> 'db \<Rightarrow> string list option" where
  "redis_socketsForUser redis userId db = smembers redis (userKey userId) db"

section \<open>What Redis documents\<close>

text \<open>
  \<open>sets db key\<close> is what is at a key: a set, empty where there is nothing, or \<open>None\<close> where there is a string.
  A queue is answered by one entry for each command, and a command on a value of the wrong type fails
  alone: \<open>SADD\<close>, \<open>SREM\<close> and \<open>SMEMBERS\<close> refuse a string. \<open>SET\<close> writes a string unless the time to live is
  invalid, \<open>DEL\<close> removes whatever is there, \<open>EXPIRE\<close> does so now when the time is not positive. \<open>EXISTS\<close>
  answers how many of its keys hold something.
\<close>

fun cmd_sets :: "redis_cmd \<Rightarrow> (string \<Rightarrow> string set option) \<Rightarrow> string \<Rightarrow> string set option" where
  "cmd_sets (Sadd k x) f = f(k := map_option (insert x) (f k))"
| "cmd_sets (Srem k x) f = f(k := map_option (\<lambda>xs. xs - {x}) (f k))"
| "cmd_sets (Del k) f = f(k := Some {})"
| "cmd_sets (SetEx k v ttl) f = (if ttl \<le> 0 then f else f(k := None))"
| "cmd_sets (Expire k ttl) f = (if ttl \<le> 0 then f(k := Some {}) else f)"
| "cmd_sets (Exists ks) f = f"
| "cmd_sets (Smembers k) f = f"

definition redis_documented :: "('db \<Rightarrow> string \<Rightarrow> string set option) \<Rightarrow> 'db redis \<Rightarrow> bool" where
  "redis_documented sets redis \<longleftrightarrow>
     (\<forall>cmds db. sets (snd (redis cmds db)) = fold cmd_sets cmds (sets db))
     \<and> (\<forall>k ks db. fst (redis [Exists (k # ks)] db)
           = Some [Some (IntReply (int (length (filter (\<lambda>k. sets db k \<noteq> Some {}) (k # ks)))))])
     \<and> (\<forall>k db. case sets db k of
                 None \<Rightarrow> fst (redis [Smembers k] db) = Some [None]
               | Some xs \<Rightarrow> \<exists>ys. fst (redis [Smembers k] db) = Some [Some (SetReply ys)] \<and> set ys = xs)"

text \<open>An instance, over finite sets kept as lists; a string is \<open>None\<close>.\<close>

type_synonym ref_db = "(string, string list option) jmap"

definition ref_members :: "ref_db \<Rightarrow> string \<Rightarrow> string list option" where
  "ref_members m k = or_default (jget m k) (Some [])"

fun ref_cmd :: "redis_cmd \<Rightarrow> ref_db \<Rightarrow> ref_db" where
  "ref_cmd (Sadd k x) m = jset k (map_option (set_add x) (ref_members m k)) m"
| "ref_cmd (Srem k x) m = jset k (map_option (set_delete x) (ref_members m k)) m"
| "ref_cmd (Del k) m = jdel k m"
| "ref_cmd (SetEx k v ttl) m = (if ttl \<le> 0 then m else jset k None m)"
| "ref_cmd (Expire k ttl) m = (if ttl \<le> 0 then jdel k m else m)"
| "ref_cmd (Exists ks) m = m"
| "ref_cmd (Smembers k) m = m"

definition ref_sets :: "ref_db \<Rightarrow> string \<Rightarrow> string set option" where
  "ref_sets m k = map_option set (ref_members m k)"

fun ref_reply :: "redis_cmd \<Rightarrow> ref_db \<Rightarrow> redis_reply option" where
  "ref_reply (Exists ks) m = Some (IntReply (int (length (filter (\<lambda>k. ref_members m k \<noteq> Some []) ks))))"
| "ref_reply (Smembers k) m = map_option SetReply (ref_members m k)"
| "ref_reply _ m = Some OtherReply"

definition ref_redis :: "ref_db redis" where
  "ref_redis cmds m = (Some (map (\<lambda>c. ref_reply c m) cmds), fold ref_cmd cmds m)"

lemma ref_members_upd [simp]:
  "ref_members (jset k v m) = (ref_members m)(k := v)" "ref_members (jdel k m) = (ref_members m)(k := Some [])"
  by (auto simp: ref_members_def)

lemma ref_cmd_sets: "ref_sets (ref_cmd c m) = cmd_sets c (ref_sets m)"
  by (cases c)
    (auto simp: ref_sets_def set_add_def set_delete_def fun_eq_iff option.map_comp comp_def intro!: option.map_cong split: if_splits)

lemma ref_sets_empty: "ref_sets m k = Some {} \<longleftrightarrow> ref_members m k = Some []"
  by (auto simp: ref_sets_def)

lemma ref_redis_documented: "redis_documented ref_sets ref_redis"
proof -
  have "ref_sets (fold ref_cmd cmds m) = fold cmd_sets cmds (ref_sets m)" for cmds m
    by (induction cmds arbitrary: m) (simp_all add: ref_cmd_sets)
  moreover have "case ref_sets m k of
      None \<Rightarrow> fst (ref_redis [Smembers k] m) = Some [None]
    | Some xs \<Rightarrow> \<exists>ys. fst (ref_redis [Smembers k] m) = Some [Some (SetReply ys)] \<and> set ys = xs" for m k
    by (cases "ref_members m k") (simp_all add: ref_sets_def ref_redis_def)
  ultimately show ?thesis
    by (simp add: redis_documented_def ref_redis_def ref_sets_empty)
qed

section \<open>Properties\<close>

lemma keys_apart:
  "userKey u = userKey u' \<longleftrightarrow> u = u'" "callKey k = callKey k' \<longleftrightarrow> k = k'" "userKey u \<noteq> callKey k"
  "userSocketKey u x \<noteq> userKey u'" "userSocketKey u x \<noteq> callKey k"
  by (simp_all add: userKey_def callKey_def userSocketKey_def)

lemma redis_run: "redis_documented sets redis \<Longrightarrow> sets (snd (redis cmds db)) = fold cmd_sets cmds (sets db)"
  by (simp add: redis_documented_def)

lemma redis_smembers:
  assumes "redis_documented sets redis"
  shows "map_option set (redis_socketsForUser redis u db) = sets db (userKey u)"
    and "map_option set (redis_callSockets redis k db) = sets db (callKey k)"
proof -
  have "map_option set (smembers redis key db) = sets db key" for key
  proof -
    have "case sets db key of
        None \<Rightarrow> fst (redis [Smembers key] db) = Some [None]
      | Some xs \<Rightarrow> \<exists>ys. fst (redis [Smembers key] db) = Some [Some (SetReply ys)] \<and> set ys = xs"
      using assms unfolding redis_documented_def by blast
    then show ?thesis by (cases "sets db key") (auto simp: smembers_def)
  qed
  then show "map_option set (redis_socketsForUser redis u db) = sets db (userKey u)"
    "map_option set (redis_callSockets redis k db) = sets db (callKey k)"
    by (simp_all add: redis_socketsForUser_def redis_callSockets_def)
qed

text \<open>Asked who of several users is online, the Redis service sends one \<open>EXISTS\<close> for all of them
  and reads its single count as the answer for the first: the first user is reported online as
  soon as any of them is, and no other user ever is.\<close>

theorem redis_whoIsOnline_first_only:
  assumes "redis_documented sets redis"
  shows "fst (redis_whoIsOnline redis (u # us) db)
    = (if \<forall>v \<in> set (u # us). sets db (userKey v) = Some {} then [] else [u])"
proof -
  let ?n = "length (filter (\<lambda>k. sets db k \<noteq> Some {}) (map userKey (u # us)))"
  have "fst (redis [Exists (map userKey (u # us))] db) = Some [Some (IntReply (int ?n))]"
    using assms unfolding redis_documented_def by simp
  then have "fst (redis_whoIsOnline redis (u # us) db) = (if ?n > 0 then [u] else [])"
    by (simp add: redis_whoIsOnline_def online_entries_def set_add_def split_def split: option.split)
  then show ?thesis by (auto simp: filter_empty_conv)
qed

lemma redis_whoIsOnline_first_only_witness:
  "fst (redis_whoIsOnline ref_redis [''ana'', ''bo''] [(''presence:user:bo'', Some [''s1''])])
   = (if \<forall>v \<in> set [''ana'', ''bo'']. ref_sets [(''presence:user:bo'', Some [''s1''])] (userKey v) = Some {} then [] else [''ana''])"
  by (rule redis_whoIsOnline_first_only [OF ref_redis_documented])

section \<open>Agreement of the two services\<close>

fun redis_step :: "'db redis \<Rightarrow> int \<Rightarrow> presence_op \<Rightarrow> 'db \<Rightarrow> 'db" where
  "redis_step redis dt (PMarkOnline u x ttl now) db = redis_markOnline redis dt u x ttl db"
| "redis_step redis dt (PMarkOffline u x) db = redis_markOffline redis u x db"
| "redis_step redis dt (PTrackCall k x ttl now) db = redis_trackCall redis dt k x ttl db"
| "redis_step redis dt (PUntrackCall k x) db = redis_untrackCall redis k x db"
| "redis_step redis dt (PTick now) db = db"

text \<open>Nothing expires: no tick, and every TTL is positive.\<close>

fun lasting :: "int \<Rightarrow> presence_op \<Rightarrow> bool" where
  "lasting dt (PMarkOnline u x ttl now) = (or_default ttl dt > 0)"
| "lasting dt (PTrackCall k x ttl now) = (or_default ttl dt > 0)"
| "lasting dt (PTick now) = False"
| "lasting dt _ = True"

lemma view_sockets_add: "view_sockets (view_add k x d v) k' = (if k' = k then insert x (view_sockets v k) else view_sockets v k')"
  by (simp add: view_sockets_def view_add_def)

lemma view_sockets_del: "view_sockets (view_del k x v) k' = (if k' = k then view_sockets v k - {x} else view_sockets v k')"
  by (auto simp: view_sockets_def view_del_def split: option.split)

lemma redis_step_sets:
  assumes "redis_documented sets redis" and "lasting dt op"
    and "\<And>u. sets db (userKey u) = Some (view_sockets v u)" and "\<And>k. sets db (callKey k) = Some (view_sockets w k)"
  shows "sets (redis_step redis dt op db) (userKey u) = Some (view_sockets (user_spec dt op v) u)"
    and "sets (redis_step redis dt op db) (callKey k) = Some (view_sockets (call_spec dt op w) k)"
  using assms(2)
  by (cases op; simp add: redis_markOnline_def redis_markOffline_def redis_trackCall_def redis_untrackCall_def
      redis_run [OF assms(1)] Let_def view_sockets_add view_sockets_del keys_apart keys_apart(3-5) [symmetric] assms(3, 4))+

text \<open>C19: as long as nothing expires, the in-memory service and the Redis service hold the same sockets
  for every user and every call after the same operations.\<close>

theorem presence_services_agree:
  assumes "redis_documented sets redis" and "\<And>key. sets db key = Some {}" and "list_all (lasting dt) ops"
  shows "map_option set (redis_socketsForUser redis u (fold (redis_step redis dt) ops db))
        = Some (set (socketsForUser u (presence_run dt ops)))
    \<and> map_option set (redis_callSockets redis k (fold (redis_step redis dt) ops db))
        = Some (set (callSockets k (presence_run dt ops)))"
proof -
  have "sets (fold (redis_step redis dt) ops' db') (userKey u) = Some (view_sockets (fold (user_spec dt) ops' v) u)
      \<and> sets (fold (redis_step redis dt) ops' db') (callKey k) = Some (view_sockets (fold (call_spec dt) ops' w) k)"
    if "list_all (lasting dt) ops'" and "\<And>u. sets db' (userKey u) = Some (view_sockets v u)"
      and "\<And>k. sets db' (callKey k) = Some (view_sockets w k)" for ops' db' v w
    using that
  proof (induction ops' arbitrary: db' v w)
    case (Cons op ops')
    then show ?case using redis_step_sets [OF assms(1), of dt op db' v w] by simp
  qed simp
  from this [OF assms(3), of db "\<lambda>_. None" "\<lambda>_. None"] assms(2)
  have "sets (fold (redis_step redis dt) ops db) (userKey u) = Some (set (socketsForUser u (presence_run dt ops)))
      \<and> sets (fold (redis_step redis dt) ops db) (callKey k) = Some (set (callSockets k (presence_run dt ops)))"
    using presence_run_sockets(1) [of u dt ops] presence_run_sockets(2) [of k dt ops] by (simp add: view_sockets_def)
  then show ?thesis by (simp add: redis_smembers [OF assms(1)])
qed

lemma presence_services_agree_witness:
  "map_option set (redis_socketsForUser ref_redis ''ana'' (fold (redis_step ref_redis 60)
      [PMarkOnline ''ana'' ''s1'' None 5, PTrackCall ''k'' ''s1'' (Some 30) 6, PMarkOffline ''bo'' ''s2''] jempty))
     = Some (set (socketsForUser ''ana'' (presence_run 60
      [PMarkOnline ''ana'' ''s1'' None 5, PTrackCall ''k'' ''s1'' (Some 30) 6, PMarkOffline ''bo'' ''s2''])))
   \<and> map_option set (redis_callSockets ref_redis ''k'' (fold (redis_step ref_redis 60)
      [PMarkOnline ''ana'' ''s1'' None 5, PTrackCall ''k'' ''s1'' (Some 30) 6, PMarkOffline ''bo'' ''s2''] jempty))
     = Some (set (callSockets ''k'' (presence_run 60
      [PMarkOnline ''ana'' ''s1'' None 5, PTrackCall ''k'' ''s1'' (Some 30) 6, PMarkOffline ''bo'' ''s2''])))"
  by (rule presence_services_agree [OF ref_redis_documented]) (simp_all add: ref_sets_def ref_members_def jempty_def)

end
