(* ===== verification/JsNumber.thy ===== *)
theory JsNumber
  imports JsValue
begin

text \<open>
  \<open>Number(text)\<close> of the language: white space around is ignored, nothing is zero, and otherwise the
  text is an integer in base 2, 8 or 16 with its prefix, an infinity, or a decimal literal with
  an optional fraction and exponent; any other text is not a number.
\<close>

definition digit_value :: "char \<Rightarrow> nat" where
  "digit_value c =
     (let n = of_char c :: nat
      in if 48 \<le> n \<and> n \<le> 57 then n - 48
         else if 97 \<le> n \<and> n \<le> 102 then n - 87
         else if 65 \<le> n \<and> n \<le> 70 then n - 55
         else 99)"

definition is_digit :: "char \<Rightarrow> bool" where
  "is_digit c \<longleftrightarrow> 48 \<le> (of_char c :: nat) \<and> (of_char c :: nat) \<le> 57"

fun digits_value :: "nat \<Rightarrow> string \<Rightarrow> nat \<Rightarrow> nat" where
  "digits_value b [] acc = acc"
| "digits_value b (c # cs) acc = digits_value b cs (b * acc + digit_value c)"

definition radix_literal :: "nat \<Rightarrow> string \<Rightarrow> jsnum" where
  "radix_literal b ds =
     (if ds = [] \<or> list_ex (\<lambda>c. digit_value c \<ge> b) ds then NNaN else NFin (of_nat (digits_value b ds 0)))"

text \<open>The sign of a literal, and the rest.\<close>

fun split_sign :: "string \<Rightarrow> rat \<times> string" where
  "split_sign [] = (1, [])"
| "split_sign (c # cs) = (if c = CHR ''-'' then (- 1, cs) else if c = CHR ''+'' then (1, cs) else (1, c # cs))"

text \<open>The exponent part: its value, or \<open>None\<close> when it is malformed.\<close>

definition exponent_value :: "string \<Rightarrow> int option" where
  "exponent_value s =
     (case s of
        [] \<Rightarrow> Some 0
      | c # cs \<Rightarrow>
          if c \<noteq> CHR ''e'' \<and> c \<noteq> CHR ''E'' then None
          else let (sg, ds) = split_sign cs
               in if ds = [] \<or> \<not> list_all is_digit ds then None
                  else Some ((if sg < 0 then -1 else 1) * int (digits_value 10 ds 0)))"

definition scale10 :: "int \<Rightarrow> rat" where
  "scale10 e = (if e \<ge> 0 then 10 ^ nat e else 1 / 10 ^ nat (- e))"

definition decimal_literal :: "string \<Rightarrow> jsnum" where
  "decimal_literal s =
     (let (sg, r) = split_sign s;
          ip = takeWhile is_digit r; r1 = dropWhile is_digit r;
          (fp, r2) = (case r1 of
                        c # cs \<Rightarrow> if c = CHR ''.'' then (takeWhile is_digit cs, dropWhile is_digit cs) else ([], r1)
                      | [] \<Rightarrow> ([], []))
      in if r = ''Infinity'' then NInf (sg < 0)
         else if ip = [] \<and> fp = [] then NNaN
         else case exponent_value r2 of
                None \<Rightarrow> NNaN
              | Some e \<Rightarrow>
                  NFin (sg * (of_nat (digits_value 10 (ip @ fp) 0) / 10 ^ length fp) * scale10 e))"

definition js_number :: "string \<Rightarrow> jsnum" where
  "js_number text =
     (let s = js_trim text
      in if s = [] then NFin 0
         else if take 2 s \<in> {''0x'', ''0X''} then radix_literal 16 (drop 2 s)
         else if take 2 s \<in> {''0b'', ''0B''} then radix_literal 2 (drop 2 s)
         else if take 2 s \<in> {''0o'', ''0O''} then radix_literal 8 (drop 2 s)
         else decimal_literal s)"

text \<open>\<open>Number.isInteger(v)\<close>, with the integer.\<close>

definition js_integer :: "jsnum \<Rightarrow> int option" where
  "js_integer v = (case v of NFin r \<Rightarrow> if of_int \<lfloor>r\<rfloor> = r then Some \<lfloor>r\<rfloor> else None | _ \<Rightarrow> None)"

section \<open>Printed integers are read back\<close>

lemma digit_facts:
  assumes "d < 10"
  shows "is_digit (digit_char d)" "digit_value (digit_char d) = d" "\<not> is_space (digit_char d)"
    "digit_char d \<noteq> CHR ''-''" "digit_char d \<noteq> CHR ''+''" "digit_char d \<noteq> CHR ''x''" "digit_char d \<noteq> CHR ''X''"
    "digit_char d \<noteq> CHR ''b''" "digit_char d \<noteq> CHR ''B''" "digit_char d \<noteq> CHR ''o''" "digit_char d \<noteq> CHR ''O''"
    "digit_char d \<noteq> CHR ''I''"
proof -
  have "list_all (\<lambda>d. is_digit (digit_char d) \<and> digit_value (digit_char d) = d \<and> \<not> is_space (digit_char d)
      \<and> digit_char d \<notin> set ''-+xXbBoOI'') [0..<10]" by code_simp
  with assms have "is_digit (digit_char d) \<and> digit_value (digit_char d) = d \<and> \<not> is_space (digit_char d)
      \<and> digit_char d \<notin> set ''-+xXbBoOI''" by (auto simp: list_all_iff)
  then show "is_digit (digit_char d)" "digit_value (digit_char d) = d" "\<not> is_space (digit_char d)"
    "digit_char d \<noteq> CHR ''-''" "digit_char d \<noteq> CHR ''+''" "digit_char d \<noteq> CHR ''x''" "digit_char d \<noteq> CHR ''X''"
    "digit_char d \<noteq> CHR ''b''" "digit_char d \<noteq> CHR ''B''" "digit_char d \<noteq> CHR ''o''" "digit_char d \<noteq> CHR ''O''"
    "digit_char d \<noteq> CHR ''I''"
    by auto
qed

lemma digits_value_append: "digits_value b (xs @ ys) acc = digits_value b ys (digits_value b xs acc)"
  by (induction xs arbitrary: acc) auto

lemma digits_value_show: "digits_value 10 (show_nat n) 0 = n"
proof (induction n rule: show_nat.induct)
  case (1 n)
  show ?case
  proof (cases "n < 10")
    case True
    then show ?thesis by (simp add: show_nat.simps [of n] digit_facts)
  next
    case False
    with 1 show ?thesis by (simp add: show_nat.simps [of n] digits_value_append digit_facts)
  qed
qed

lemma show_nat_chars:
  assumes "c \<in> set (show_nat n)"
  shows "is_digit c" "\<not> is_space c" "c \<notin> set ''-+xXbBoOI''"
  using show_nat_digits [OF assms] digit_facts by auto

lemma js_trim_id: "s \<noteq> [] \<Longrightarrow> \<not> is_space (hd s) \<Longrightarrow> \<not> is_space (last s) \<Longrightarrow> js_trim s = s"
proof -
  assume s: "s \<noteq> []" "\<not> is_space (hd s)" "\<not> is_space (last s)"
  have drop: "dropWhile is_space t = t" if "t \<noteq> []" "\<not> is_space (hd t)" for t
    using that by (cases t) auto
  show ?thesis using drop [of s] drop [of "rev s"] s by (simp add: js_trim_def hd_rev)
qed

lemma show_int_shape:
  "\<exists>sg n. show_int i = sg @ show_nat n \<and> (sg = [] \<and> int n = i \<or> sg = ''-'' \<and> - int n = i \<and> n > 0)"
proof (cases "i < 0")
  case True
  then show ?thesis by (intro exI [of _ "''-''"] exI [of _ "nat (- i)"]) (auto simp: show_int_def)
next
  case False
  then show ?thesis by (intro exI [of _ "[]"] exI [of _ "nat i"]) (auto simp: show_int_def)
qed

lemma decimal_show:
  assumes "sg \<in> {[], ''-''}"
  shows "decimal_literal (sg @ show_nat n) = NFin ((if sg = [] then 1 else - 1) * of_nat n)"
proof -
  obtain c cs where c: "show_nat n = c # cs" using show_nat_nonempty [of n] by (cases "show_nat n") auto
  then have first: "c \<notin> set ''-+xXbBoOI''" using show_nat_chars(3) [of c n] by simp
  have sign: "split_sign (sg @ show_nat n) = (if sg = [] then 1 else - 1, show_nat n)"
    using assms first by (auto simp: c)
  have "takeWhile is_digit (show_nat n) = show_nat n" "dropWhile is_digit (show_nat n) = []"
    using show_nat_chars(1) [of _ n] by (simp_all add: takeWhile_eq_all_conv dropWhile_eq_Nil_conv)
  moreover have "show_nat n \<noteq> ''Infinity''" using first by (auto simp: c)
  ultimately show ?thesis
    by (simp add: decimal_literal_def Let_def sign show_nat_nonempty exponent_value_def scale10_def digits_value_show
        del: takeWhile_eq_all_conv dropWhile_eq_Nil_conv)
qed

lemma js_number_show: "js_number (show_int i) = NFin (of_int i)"
proof -
  obtain sg n where s: "show_int i = sg @ show_nat n"
    and i: "sg = [] \<and> int n = i \<or> sg = ''-'' \<and> - int n = i \<and> n > 0"
    using show_int_shape by blast
  obtain c cs where c: "show_nat n = c # cs" using show_nat_nonempty [of n] by (cases "show_nat n") auto
  have chars: "\<not> is_space d \<and> d \<notin> set ''-+xXbBoOI''" if "d \<in> set (show_nat n)" for d
    using show_nat_chars [OF that] by blast
  have dash: "\<not> is_space (CHR ''-'')" by code_simp
  have "last (show_nat n) \<in> set (show_nat n)" "hd (show_nat n) \<in> set (show_nat n)"
    using show_nat_nonempty by simp_all
  then have trim: "js_trim (sg @ show_nat n) = sg @ show_nat n"
    using i chars dash show_nat_nonempty by (intro js_trim_id) (auto simp: hd_append)
  have two: "take 2 (sg @ show_nat n) \<notin> {''0x'', ''0X'', ''0b'', ''0B'', ''0o'', ''0O''}"
  proof (cases "sg = []")
    case True
    show ?thesis
    proof (cases cs)
      case Nil
      then show ?thesis by (simp add: True c)
    next
      case (Cons d ds)
      then have "d \<notin> set ''-+xXbBoOI''" using chars [of d] c by simp
      then show ?thesis by (simp add: True c Cons)
    qed
  next
    case False
    with i have "sg = ''-''" by blast
    then show ?thesis by (simp add: c)
  qed
  have "sg @ show_nat n \<noteq> []" using show_nat_nonempty by simp
  moreover have "take 2 (sg @ show_nat n) \<notin> {''0x'', ''0X''}" "take 2 (sg @ show_nat n) \<notin> {''0b'', ''0B''}"
    "take 2 (sg @ show_nat n) \<notin> {''0o'', ''0O''}" using two by simp_all
  ultimately have "js_number (show_int i) = decimal_literal (sg @ show_nat n)"
    unfolding js_number_def s trim Let_def by (simp only: if_False)
  moreover have "decimal_literal (sg @ show_nat n) = NFin ((if sg = [] then 1 else - 1) * of_nat n)"
    by (rule decimal_show) (use i in blast)
  moreover have "(if sg = [] then 1 else - 1) * of_nat n = (of_int i :: rat)"
    using i by auto
  ultimately show ?thesis by simp
qed

end
