(* ===== verification/KeyedLimit.thy ===== *)
theory KeyedLimit
  imports JsValue
begin

text \<open>
  The contract the two rate limiters share: they keep one bucket per key, and a request is
  decided by the bucket of its key alone. From it follows, once for both, that in any
  interleaving of requests each key is served as if it were alone.
\<close>

text \<open>The answers a single bucket gives to a sequence of requests.\<close>

fun run_bucket :: "('q \<Rightarrow> 'b option \<Rightarrow> 'r \<times> 'b) \<Rightarrow> 'q list \<Rightarrow> 'b option \<Rightarrow> 'r list" where
  "run_bucket step [] b = []"
| "run_bucket step (q # qs) b = fst (step q b) # run_bucket step qs (Some (snd (step q b)))"

text \<open>The answers of a limiter to requests on several keys, with the keys.\<close>

fun run_limiter :: "('k \<Rightarrow> 'q \<Rightarrow> 's \<Rightarrow> 'r \<times> 's) \<Rightarrow> ('k \<times> 'q) list \<Rightarrow> 's \<Rightarrow> ('k \<times> 'r) list" where
  "run_limiter hit [] s = []"
| "run_limiter hit ((k, q) # hs) s = (k, fst (hit k q s)) # run_limiter hit hs (snd (hit k q s))"

text \<open>The state it is in after them.\<close>

fun limiter_after :: "('k \<Rightarrow> 'q \<Rightarrow> 's \<Rightarrow> 'r \<times> 's) \<Rightarrow> ('k \<times> 'q) list \<Rightarrow> 's \<Rightarrow> 's" where
  "limiter_after hit [] s = s"
| "limiter_after hit ((k, q) # hs) s = limiter_after hit hs (snd (hit k q s))"

lemma run_limiter_append:
  "run_limiter hit (past @ window) s = run_limiter hit past s @ run_limiter hit window (limiter_after hit past s)"
  by (induction hit past s rule: run_limiter.induct) simp_all

lemma run_limiter_length [simp]: "length (run_limiter hit hs s) = length hs"
  by (induction hit hs s rule: run_limiter.induct) simp_all

locale keyed_limiter =
  fixes peek :: "'s \<Rightarrow> 'k \<Rightarrow> 'b option"
    and hit :: "'k \<Rightarrow> 'q \<Rightarrow> 's \<Rightarrow> 'r \<times> 's"
    and step :: "'k \<Rightarrow> 'q \<Rightarrow> 'b option \<Rightarrow> 'r \<times> 'b"
  assumes hit_result: "fst (hit k q s) = fst (step k q (peek s k))"
    and hit_bucket: "peek (snd (hit k q s)) k' = (if k' = k then Some (snd (step k q (peek s k))) else peek s k')"
begin

lemma other_key_untouched: "k' \<noteq> k \<Longrightarrow> peek (snd (hit k q s)) k' = peek s k'"
  by (simp add: hit_bucket)

lemma run_per_key:
  "map snd (filter (\<lambda>a. fst a = k) (run_limiter hit hs s))
     = run_bucket (step k) (map snd (filter (\<lambda>h. fst h = k) hs)) (peek s k)"
proof (induction hs arbitrary: s)
  case (Cons h hs)
  then show ?case by (cases h) (simp add: hit_result hit_bucket)
qed simp

text \<open>What holds of the bucket of a key, if there is one, and is kept by the requests on it, holds after any requests.\<close>

lemma bucket_after:
  assumes "\<And>q b. (k, q) \<in> set hs \<Longrightarrow> case_option True P b \<Longrightarrow> P (snd (step k q b))" and "case_option True P (peek s k)"
  shows "case_option True P (peek (limiter_after hit hs s) k)"
  using assms
proof (induction hs arbitrary: s)
  case (Cons h hs)
  obtain k' q where h: "h = (k', q)" by fastforce
  have "case_option True P (peek (snd (hit k' q s)) k)"
    using Cons.prems(1) [of q "peek s k"] Cons.prems(2) h by (auto simp: hit_bucket)
  then show ?case using Cons.IH Cons.prems(1) h by simp
qed simp

end

end
