(* ===== verification/RateLimit.thy ===== *)
theory RateLimit
  imports KeyedLimit
begin

text \<open>
  The token buckets of \<open>src/src/security/rate-limit.service.ts\<close> with the configuration of
  \<open>src/src/security/rate-limit.constants.ts\<close>. Tokens and rates are rationals, times are
  milliseconds. The readings of the clock are arguments: \<open>t0\<close> the one \<open>getOrCreateBucket\<close>
  makes when it creates a bucket, \<open>now\<close> the one \<open>acquireDetailed\<close> makes after it.
\<close>

section \<open>Configuration\<close>

record rl_config =
  socketPerSecond :: rat
  userPerSecond :: rat
  ipPerSecond :: rat
  burstSocket :: rat
  burstUser :: rat
  burstIp :: rat

definition DEFAULT_RATE_LIMIT_CONFIG :: rl_config where
  "DEFAULT_RATE_LIMIT_CONFIG =
     \<lparr>socketPerSecond = 30, userPerSecond = 100, ipPerSecond = 200,
      burstSocket = 30, burstUser = 100, burstIp = 200\<rparr>"

definition VALID_SCOPES :: "string list" where
  "VALID_SCOPES = [''socket'', ''user'', ''ip'']"

record rl_env_source =
  RATE_LIMIT_SOCKET_PER_SECOND :: "rat option"
  RATE_LIMIT_USER_PER_SECOND :: "rat option"
  RATE_LIMIT_IP_PER_SECOND :: "rat option"
  RATE_LIMIT_SOCKET_BURST :: "rat option"
  RATE_LIMIT_USER_BURST :: "rat option"
  RATE_LIMIT_IP_BURST :: "rat option"

definition parseRateLimitConfig :: "rl_env_source \<Rightarrow> rl_config" where
  "parseRateLimitConfig src =
     \<lparr>socketPerSecond = or_default (RATE_LIMIT_SOCKET_PER_SECOND src) (socketPerSecond DEFAULT_RATE_LIMIT_CONFIG),
      userPerSecond = or_default (RATE_LIMIT_USER_PER_SECOND src) (userPerSecond DEFAULT_RATE_LIMIT_CONFIG),
      ipPerSecond = or_default (RATE_LIMIT_IP_PER_SECOND src) (ipPerSecond DEFAULT_RATE_LIMIT_CONFIG),
      burstSocket = or_default (RATE_LIMIT_SOCKET_BURST src) (burstSocket DEFAULT_RATE_LIMIT_CONFIG),
      burstUser = or_default (RATE_LIMIT_USER_BURST src) (burstUser DEFAULT_RATE_LIMIT_CONFIG),
      burstIp = or_default (RATE_LIMIT_IP_BURST src) (burstIp DEFAULT_RATE_LIMIT_CONFIG)\<rparr>"

text \<open>What \<open>SecurityModule\<close> passes for values that are not configured.\<close>

definition security_module_config :: "rl_env_source \<Rightarrow> rl_config" where
  "security_module_config cfg =
     parseRateLimitConfig
       \<lparr>RATE_LIMIT_SOCKET_PER_SECOND = Some (or_default (RATE_LIMIT_SOCKET_PER_SECOND cfg) 20),
        RATE_LIMIT_USER_PER_SECOND = Some (or_default (RATE_LIMIT_USER_PER_SECOND cfg) 10),
        RATE_LIMIT_IP_PER_SECOND = Some (or_default (RATE_LIMIT_IP_PER_SECOND cfg) 30),
        RATE_LIMIT_SOCKET_BURST = Some (or_default (RATE_LIMIT_SOCKET_BURST cfg) 5),
        RATE_LIMIT_USER_BURST = Some (or_default (RATE_LIMIT_USER_BURST cfg) 3),
        RATE_LIMIT_IP_BURST = Some (or_default (RATE_LIMIT_IP_BURST cfg) 8)\<rparr>"

definition security_token_ttl_default :: rat where
  "security_token_ttl_default = 3600"

definition parseTokenTtl :: "rat option \<Rightarrow> rat option \<Rightarrow> rat" where
  "parseTokenTtl sfu turn =
     (let raw = (case sfu of Some x \<Rightarrow> Some x | None \<Rightarrow> turn)
      in case raw of
           None \<Rightarrow> security_token_ttl_default
         | Some r \<Rightarrow> if r \<le> 0 then security_token_ttl_default else r)"

section \<open>Buckets\<close>

record bucket =
  bk_tokens :: rat
  bk_updatedAt :: int

type_synonym rl_backend = "(string, (string, bucket) jmap) jmap"

record rl_decision =
  d_allowed :: bool
  d_remaining :: int
  d_retryAfterMs :: jsnum

definition createDefaultBackend :: rl_backend where
  "createDefaultBackend = foldl (\<lambda>out scope. jset scope jempty out) jempty VALID_SCOPES"

definition limitsFor :: "rl_config \<Rightarrow> string \<Rightarrow> rat \<times> rat" where
  "limitsFor cfg scope =
     (if scope = ''socket'' then (burstSocket cfg, socketPerSecond cfg)
      else if scope = ''user'' then (burstUser cfg, userPerSecond cfg)
      else (burstIp cfg, ipPerSecond cfg))"

definition getOrCreateBucket :: "string \<Rightarrow> string \<Rightarrow> rat \<Rightarrow> int \<Rightarrow> rl_backend \<Rightarrow> bucket \<times> rl_backend" where
  "getOrCreateBucket scope key capacity t0 backend =
     (let scoped = or_default (jget backend scope) jempty;
          backend1 = (if jhas backend scope then backend else jset scope scoped backend)
      in case jget scoped key of
           Some bucket \<Rightarrow> (bucket, backend1)
         | None \<Rightarrow> let bucket = \<lparr>bk_tokens = capacity, bk_updatedAt = t0\<rparr>
                   in (bucket, jset scope (jset key bucket scoped) backend1))"

text \<open>\<open>Math.ceil((deficit / rate) * 1000)\<close>; a positive number divided by zero is infinite.\<close>

definition retry_after :: "rat \<Rightarrow> rat \<Rightarrow> jsnum" where
  "retry_after deficit rate = (if rate = 0 then NInf True else NFin (of_int \<lceil>deficit / rate * 1000\<rceil>))"

definition take_tokens :: "rat \<times> rat \<Rightarrow> rat \<Rightarrow> int \<Rightarrow> bucket \<Rightarrow> rl_decision \<times> bucket" where
  "take_tokens limits cost now bucket =
     (let (capacity, ratePerSecond) = limits;
          elapsedSeconds = max 0 (of_int (now - bk_updatedAt bucket) / 1000);
          refilled = bk_tokens bucket + elapsedSeconds * ratePerSecond;
          tokens = min capacity refilled
      in if tokens \<ge> cost
         then (\<lparr>d_allowed = True, d_remaining = \<lfloor>tokens - cost\<rfloor>, d_retryAfterMs = NFin 0\<rparr>,
               \<lparr>bk_tokens = tokens - cost, bk_updatedAt = now\<rparr>)
         else (\<lparr>d_allowed = False, d_remaining = 0, d_retryAfterMs = retry_after (cost - tokens) ratePerSecond\<rparr>,
               \<lparr>bk_tokens = tokens, bk_updatedAt = now\<rparr>))"

text \<open>Changing the bucket object in place: it is the one stored under its scope and key.\<close>

definition put_bucket :: "string \<Rightarrow> string \<Rightarrow> bucket \<Rightarrow> rl_backend \<Rightarrow> rl_backend" where
  "put_bucket scope key b backend = jset scope (jset key b (or_default (jget backend scope) jempty)) backend"

text \<open>The body of \<open>acquireDetailed\<close> after its checks.\<close>

definition acquire_valid ::
    "rl_config \<Rightarrow> string \<Rightarrow> string \<Rightarrow> rat \<Rightarrow> int \<Rightarrow> int \<Rightarrow> rl_backend \<Rightarrow> rl_decision \<times> rl_backend" where
  "acquire_valid cfg scope key cost t0 now backend =
     (let limits = limitsFor cfg scope;
          (bucket, backend1) = getOrCreateBucket scope key (fst limits) t0 backend;
          (d, bucket') = take_tokens limits cost now bucket
      in (d, put_bucket scope key bucket' backend1))"

definition acquireDetailed ::
    "rl_config \<Rightarrow> string \<Rightarrow> string \<Rightarrow> jsnum \<Rightarrow> int \<Rightarrow> int \<Rightarrow> rl_backend \<Rightarrow> (string + rl_decision) \<times> rl_backend" where
  "acquireDetailed cfg scope key cost t0 now backend =
     (if scope \<notin> set VALID_SCOPES then (Inl (''Unknown rate-limit scope: '' @ scope), backend)
      else if key = [] then (Inl ''rate-limit key must be a non-empty string'', backend)
      else case cost of
             NFin c \<Rightarrow>
               if c \<le> 0 then (Inl ''rate-limit cost must be a positive number'', backend)
               else let (d, backend') = acquire_valid cfg scope key c t0 now backend in (Inr d, backend')
           | _ \<Rightarrow> (Inl ''rate-limit cost must be a positive number'', backend))"

definition acquire ::
    "rl_config \<Rightarrow> string \<Rightarrow> string \<Rightarrow> jsnum \<Rightarrow> int \<Rightarrow> int \<Rightarrow> rl_backend \<Rightarrow> (string + bool) \<times> rl_backend" where
  "acquire cfg scope key cost t0 now backend =
     apfst (map_sum id d_allowed) (acquireDetailed cfg scope key cost t0 now backend)"

definition falsy_str :: "string option \<Rightarrow> bool" where
  "falsy_str x \<longleftrightarrow> x = None \<or> x = Some []"

definition rl_reset :: "string option \<Rightarrow> string option \<Rightarrow> rl_backend \<Rightarrow> rl_backend" where
  "rl_reset scope key backend =
     (if falsy_str scope then jempty
      else case jget backend (the scope) of
             None \<Rightarrow> backend
           | Some scoped \<Rightarrow>
               if falsy_str key then jset (the scope) jempty backend
               else jset (the scope) (jdel (the key) scoped) backend)"

definition rl_snapshot :: "rl_backend \<Rightarrow> (string \<times> nat) list" where
  "rl_snapshot backend = map (\<lambda>(scope, buckets). (scope, length buckets)) backend"

definition SWEEP_TTL_MS :: int where
  "SWEEP_TTL_MS = 5 * 60 * 1000"

definition sweep :: "int \<Rightarrow> rl_backend \<Rightarrow> rl_backend" where
  "sweep now backend =
     map (\<lambda>(scope, buckets). (scope, filter (\<lambda>(key, b). \<not> now - bk_updatedAt b > SWEEP_TTL_MS) buckets)) backend"


section \<open>One bucket at a time\<close>

definition rl_bucket :: "rl_backend \<Rightarrow> string \<times> string \<Rightarrow> bucket option" where
  "rl_bucket backend k = (case jget backend (fst k) of None \<Rightarrow> None | Some bs \<Rightarrow> jget bs (snd k))"

text \<open>A request on a bucket: its cost and the two readings of the clock.\<close>

definition bucket_step :: "rat \<times> rat \<Rightarrow> rat \<times> int \<times> int \<Rightarrow> bucket option \<Rightarrow> rl_decision \<times> bucket" where
  "bucket_step limits q b =
     (case q of (cost, t0, now) \<Rightarrow>
        take_tokens limits cost now (or_default b \<lparr>bk_tokens = fst limits, bk_updatedAt = t0\<rparr>))"

lemma getOrCreate_bucket:
  "fst (getOrCreateBucket scope key cap t0 bs) =
     or_default (rl_bucket bs (scope, key)) \<lparr>bk_tokens = cap, bk_updatedAt = t0\<rparr>"
  "k \<noteq> (scope, key) \<Longrightarrow> rl_bucket (snd (getOrCreateBucket scope key cap t0 bs)) k = rl_bucket bs k"
  by (cases k; auto simp: getOrCreateBucket_def rl_bucket_def Let_def jempty_def jhas_def split: option.splits)+

lemma put_bucket_lookup:
  "rl_bucket (put_bucket scope key b bs) k = (if k = (scope, key) then Some b else rl_bucket bs k)"
  by (cases k) (auto simp: put_bucket_def rl_bucket_def jempty_def split: option.splits)

interpretation rl: keyed_limiter rl_bucket
    "\<lambda>k q s. acquire_valid cfg (fst k) (snd k) (fst q) (fst (snd q)) (snd (snd q)) s"
    "\<lambda>k. bucket_step (limitsFor cfg (fst k))" for cfg
  by unfold_locales
    (auto simp: acquire_valid_def bucket_step_def split_def Let_def getOrCreate_bucket put_bucket_lookup)

lemma acquireDetailed_valid:
  assumes "scope \<in> set VALID_SCOPES" and "key \<noteq> []" and "0 < c"
  shows "acquireDetailed cfg scope key (NFin c) t0 now bs =
    (Inr (fst (acquire_valid cfg scope key c t0 now bs)), snd (acquire_valid cfg scope key c t0 now bs))"
  using assms by (simp add: acquireDetailed_def split_def Let_def)

section \<open>How much is granted\<close>



definition bucket_ok :: "rat \<Rightarrow> bucket \<Rightarrow> bool" where
  "bucket_ok cap b \<longleftrightarrow> 0 \<le> bk_tokens b \<and> bk_tokens b \<le> cap"

lemma take_tokens_ok:
  assumes "bucket_ok cap b" and "0 \<le> rate" and "0 < cost"
  shows "bucket_ok cap (snd (take_tokens (cap, rate) cost now b))"
  using assms by (auto simp: take_tokens_def bucket_ok_def Let_def)

lemma take_tokens_time: "bk_updatedAt (snd (take_tokens limits cost now b)) = now"
  by (simp add: take_tokens_def Let_def split_def)







section \<open>Refusals\<close>

lemma take_tokens_refused:
  assumes "\<not> d_allowed (fst (take_tokens (cap, rate) cost now b))"
  shows "bk_tokens (snd (take_tokens (cap, rate) cost now b)) < cost"
    and "d_retryAfterMs (fst (take_tokens (cap, rate) cost now b))
      = retry_after (cost - bk_tokens (snd (take_tokens (cap, rate) cost now b))) rate"
  using assms by (auto simp: take_tokens_def Let_def split: if_splits)

lemma allowed_again:
  assumes "0 < rate" and "cost \<le> cap" and "bk_updatedAt b \<le> t"
  shows "d_allowed (fst (take_tokens (cap, rate) cost t b)) \<longleftrightarrow>
    \<lceil>(cost - bk_tokens b) / rate * 1000\<rceil> \<le> t - bk_updatedAt b"
proof -
  let ?e = "of_int (t - bk_updatedAt b) :: rat"
  have "max 0 (?e / 1000) = ?e / 1000" using assms(3) by (simp add: max_def)
  then have "d_allowed (fst (take_tokens (cap, rate) cost t b)) \<longleftrightarrow> cost \<le> bk_tokens b + ?e / 1000 * rate"
    using assms(2) by (simp add: take_tokens_def Let_def)
  also have "\<dots> \<longleftrightarrow> (cost - bk_tokens b) / rate * 1000 \<le> ?e"
    using assms(1) by (simp add: field_simps)
  also have "\<dots> \<longleftrightarrow> \<lceil>(cost - bk_tokens b) / rate * 1000\<rceil> \<le> t - bk_updatedAt b"
    by (simp add: ceiling_le_iff)
  finally show ?thesis .
qed

lemma acquire_valid_eq:
  "fst (acquire_valid cfg scope key c t0 now bs) =
     fst (bucket_step (limitsFor cfg scope) (c, t0, now) (rl_bucket bs (scope, key)))"
  "rl_bucket (snd (acquire_valid cfg scope key c t0 now bs)) (scope, key) =
     Some (snd (bucket_step (limitsFor cfg scope) (c, t0, now) (rl_bucket bs (scope, key))))"
  using rl.hit_result [of cfg "(scope, key)" "(c, t0, now)" bs]
    rl.hit_bucket [of cfg "(scope, key)" "(c, t0, now)" bs "(scope, key)"] by simp_all

text \<open>The waiting time of a refusal is exact. If the cost does not exceed the burst, the same
  request on the same key is refused at every instant before \<open>now + retryAfterMs\<close> and allowed
  from then on, provided the key is not used in between.\<close>

theorem retry_after_exact:
  assumes "scope \<in> set VALID_SCOPES" and "key \<noteq> []" and "0 < c"
    and "acquireDetailed cfg scope key (NFin c) t0 now bs = (Inr d, bs')"
    and "\<not> d_allowed d" and "c \<le> fst (limitsFor cfg scope)" and "0 < snd (limitsFor cfg scope)"
    and "now \<le> t"
  shows "\<exists>n d'. d_retryAfterMs d = NFin (of_int n) \<and> 0 < n
    \<and> fst (acquireDetailed cfg scope key (NFin c) t1 t bs') = Inr d' \<and> (d_allowed d' \<longleftrightarrow> now + n \<le> t)"
proof -
  obtain cap rate where lim: "limitsFor cfg scope = (cap, rate)" by fastforce
  let ?b = "or_default (rl_bucket bs (scope, key)) \<lparr>bk_tokens = cap, bk_updatedAt = t0\<rparr>"
  let ?r = "take_tokens (cap, rate) c now ?b"
  have d: "d = fst ?r" and b': "rl_bucket bs' (scope, key) = Some (snd ?r)"
    using assms(4) acquire_valid_eq [of cfg scope key c t0 now bs]
    by (simp_all add: acquireDetailed_valid [OF assms(1-3)] bucket_step_def lim)
  let ?n = "\<lceil>(c - bk_tokens (snd ?r)) / rate * 1000\<rceil>"
  have rate: "0 < rate" using assms(7) lim by simp
  have ref: "bk_tokens (snd ?r) < c" "d_retryAfterMs d = NFin (of_int ?n)"
    using take_tokens_refused [of cap rate c now ?b] assms(5) d rate by (simp_all add: retry_after_def)
  then have pos: "0 < ?n" using rate by simp
  have "fst (acquireDetailed cfg scope key (NFin c) t1 t bs') = Inr (fst (take_tokens (cap, rate) c t (snd ?r)))"
    using b' acquire_valid_eq(1) [of cfg scope key c t1 t bs']
    by (simp add: acquireDetailed_valid [OF assms(1-3)] bucket_step_def lim)
  moreover have "d_allowed (fst (take_tokens (cap, rate) c t (snd ?r))) \<longleftrightarrow> now + ?n \<le> t"
    using allowed_again [of rate c cap "snd ?r" t] rate assms(6,8) lim by (auto simp: take_tokens_time)
  ultimately show ?thesis using ref pos by blast
qed


definition demo_buckets :: rl_backend where
  "demo_buckets = [(''ip'', [(''k'', \<lparr>bk_tokens = 10, bk_updatedAt = 0\<rparr>)])]"

definition demo_refusal :: "(string + rl_decision) \<times> rl_backend" where
  "demo_refusal = acquireDetailed DEFAULT_RATE_LIMIT_CONFIG ''ip'' ''k'' (NFin 20) 0 0 demo_buckets"

lemma demo_refusal_eq:
  "demo_refusal = (Inr \<lparr>d_allowed = False, d_remaining = 0, d_retryAfterMs = NFin 50\<rparr>, demo_buckets)"
  by (simp add: demo_refusal_def acquireDetailed_def VALID_SCOPES_def acquire_valid_def limitsFor_def
      getOrCreateBucket_def demo_buckets_def jget_def jhas_def Let_def take_tokens_def
      DEFAULT_RATE_LIMIT_CONFIG_def put_bucket_def jset_def retry_after_def)

theorem retry_after_exact_witness:
  "\<exists>d'. fst (acquireDetailed DEFAULT_RATE_LIMIT_CONFIG ''ip'' ''k'' (NFin 20) 0 50 demo_buckets) = Inr d'
     \<and> d_allowed d'"
proof -
  note r = demo_refusal_eq [unfolded demo_refusal_def]
  have "\<exists>n d'. NFin 50 = NFin (of_int n) \<and> 0 < n
      \<and> fst (acquireDetailed DEFAULT_RATE_LIMIT_CONFIG ''ip'' ''k'' (NFin 20) 0 50 demo_buckets) = Inr d'
      \<and> (d_allowed d' \<longleftrightarrow> 0 + n \<le> 50)"
    using retry_after_exact [OF _ _ _ r, of 50 0]
    by (simp add: VALID_SCOPES_def limitsFor_def DEFAULT_RATE_LIMIT_CONFIG_def)
  then obtain n d' where n: "(50 :: rat) = of_int n"
    and d': "fst (acquireDetailed DEFAULT_RATE_LIMIT_CONFIG ''ip'' ''k'' (NFin 20) 0 50 demo_buckets) = Inr d'"
      "d_allowed d' \<longleftrightarrow> n \<le> 50" by auto
  from n have "(of_int 50 :: rat) = of_int n" by simp
  then have "n = 50" unfolding of_int_eq_iff by simp
  with d' show ?thesis by simp
qed

text \<open>A request whose cost exceeds the burst is always refused, and still answered with a finite
  waiting time.\<close>

theorem oversized_cost_never_allowed:
  assumes "scope \<in> set VALID_SCOPES" and "key \<noteq> []" and "0 < c"
    and "fst (limitsFor cfg scope) < c" and "snd (limitsFor cfg scope) \<noteq> 0"
  shows "\<exists>d n. fst (acquireDetailed cfg scope key (NFin c) t0 now bs) = Inr d \<and> \<not> d_allowed d
    \<and> d_retryAfterMs d = NFin n"
  using assms(4,5)
  by (auto simp: acquireDetailed_valid [OF assms(1-3)] acquire_valid_eq bucket_step_def
      take_tokens_def Let_def split_def retry_after_def)

theorem oversized_cost_never_allowed_witness:
  "\<exists>d n. fst (acquireDetailed DEFAULT_RATE_LIMIT_CONFIG ''socket'' ''k'' (NFin 31) 0 0 jempty) = Inr d
    \<and> \<not> d_allowed d \<and> d_retryAfterMs d = NFin n"
  using oversized_cost_never_allowed [of "''socket''" "''k''" 31 DEFAULT_RATE_LIMIT_CONFIG]
  by (simp add: VALID_SCOPES_def limitsFor_def DEFAULT_RATE_LIMIT_CONFIG_def)

section \<open>The invariant and the sweep\<close>

definition rl_ok :: "rl_config \<Rightarrow> rl_backend \<Rightarrow> bool" where
  "rl_ok cfg bs \<longleftrightarrow> jwf bs \<and>
     (\<forall>scope scoped. jget bs scope = Some scoped \<longrightarrow> jwf scoped \<and>
        (\<forall>key b. jget scoped key = Some b \<longrightarrow> bucket_ok (fst (limitsFor cfg scope)) b))"

definition rl_config_ok :: "rl_config \<Rightarrow> bool" where
  "rl_config_ok cfg \<longleftrightarrow>
     list_all (\<lambda>scope. 0 \<le> fst (limitsFor cfg scope) \<and> 0 \<le> snd (limitsFor cfg scope)) VALID_SCOPES"

lemma rl_config_okD:
  "rl_config_ok cfg \<Longrightarrow> 0 \<le> fst (limitsFor cfg scope) \<and> 0 \<le> snd (limitsFor cfg scope)"
  by (auto simp: rl_config_ok_def VALID_SCOPES_def limitsFor_def)

lemma rl_ok_bucket: "rl_ok cfg bs \<Longrightarrow> rl_bucket bs (scope, key) = Some b \<Longrightarrow> bucket_ok (fst (limitsFor cfg scope)) b"
  by (auto simp: rl_ok_def rl_bucket_def split: option.splits)

lemma rl_ok_put:
  assumes "rl_ok cfg bs" and "bucket_ok (fst (limitsFor cfg scope)) b"
  shows "rl_ok cfg (put_bucket scope key b bs)"
proof (cases "jget bs scope")
  case None
  with assms show ?thesis
    by (auto simp: rl_ok_def put_bucket_def jempty_def split: if_splits)
next
  case (Some scoped)
  with assms show ?thesis
    by (auto simp: rl_ok_def put_bucket_def split: if_splits)
qed

lemma rl_ok_scope: "rl_ok cfg bs \<Longrightarrow> jget bs scope = None \<Longrightarrow> rl_ok cfg (jset scope jempty bs)"
  by (auto simp: rl_ok_def jempty_def split: if_splits)

lemma rl_ok_create:
  assumes ok: "rl_ok cfg bs" and cap: "0 \<le> fst (limitsFor cfg scope)"
  shows "rl_ok cfg (snd (getOrCreateBucket scope key (fst (limitsFor cfg scope)) t0 bs))"
proof -
  let ?scoped = "or_default (jget bs scope) jempty"
  let ?bs1 = "if jhas bs scope then bs else jset scope ?scoped bs"
  let ?b = "\<lparr>bk_tokens = fst (limitsFor cfg scope), bk_updatedAt = t0\<rparr>"
  have ok1: "rl_ok cfg ?bs1" using ok rl_ok_scope [OF ok] by (auto simp: jhas_def)
  have "or_default (jget ?bs1 scope) jempty = ?scoped" by (auto simp: jhas_def)
  then have "put_bucket scope key ?b ?bs1 = jset scope (jset key ?b ?scoped) ?bs1"
    by (simp only: put_bucket_def)
  moreover have "rl_ok cfg (put_bucket scope key ?b ?bs1)"
    using ok1 cap by (intro rl_ok_put) (auto simp: bucket_ok_def)
  ultimately show ?thesis
    using ok1 by (auto simp: getOrCreateBucket_def Let_def split: option.splits)
qed

lemma rl_ok_acquire_valid:
  assumes ok: "rl_ok cfg bs" and cfg: "rl_config_ok cfg" and "0 < c"
  shows "rl_ok cfg (snd (acquire_valid cfg scope key c t0 now bs))"
proof -
  obtain cap rate where lim: "limitsFor cfg scope = (cap, rate)" by fastforce
  have pos: "0 \<le> cap" "0 \<le> rate" using rl_config_okD [OF cfg, of scope] lim by auto
  let ?g = "getOrCreateBucket scope key cap t0 bs"
  have "bucket_ok cap (fst ?g)"
    using rl_ok_bucket [OF ok, of scope key] pos lim
    by (cases "rl_bucket bs (scope, key)") (auto simp: getOrCreate_bucket bucket_ok_def)
  then have "bucket_ok cap (snd (take_tokens (cap, rate) c now (fst ?g)))"
    using pos assms(3) by (intro take_tokens_ok)
  then show ?thesis
    using rl_ok_create [OF ok, of scope key t0] pos lim
    by (auto simp: acquire_valid_def split_def Let_def intro: rl_ok_put)
qed


lemma jget_filter:
  "jwf m \<Longrightarrow> jget (filter (\<lambda>(k, v). P v) m) k = (case jget m k of None \<Rightarrow> None | Some v \<Rightarrow> if P v then Some v else None)"
  unfolding jget_def jwf_def
  by (induction m) (auto split: option.splits simp: map_of_eq_None_iff)

lemma jget_map_val: "jget (map (\<lambda>(k, v). (k, f v)) m) k = map_option f (jget m k)"
  unfolding jget_def by (induction m) auto

lemma jwf_filter: "jwf m \<Longrightarrow> jwf (filter P m)"
  by (simp add: jwf_def distinct_map_filter)

lemma jget_sweep:
  "jget (sweep now bs) scope = map_option (filter (\<lambda>(key, b). \<not> now - bk_updatedAt b > SWEEP_TTL_MS)) (jget bs scope)"
  unfolding sweep_def by (rule jget_map_val)

lemma rl_ok_sweep: "rl_ok cfg bs \<Longrightarrow> rl_ok cfg (sweep now bs)"
proof -
  assume ok: "rl_ok cfg bs"
  have "jwf (sweep now bs)" using ok by (simp add: rl_ok_def jwf_def sweep_def comp_def split_def)
  then show ?thesis
    using ok unfolding rl_ok_def jget_sweep
    by (auto simp: jwf_filter jget_filter split: option.splits if_splits)
qed

lemma rl_ok_reset: "rl_ok cfg bs \<Longrightarrow> rl_ok cfg (rl_reset scope key bs)"
  by (auto simp: rl_ok_def rl_reset_def jempty_def split: option.splits if_splits)

lemma rl_bucket_sweep:
  assumes "rl_ok cfg bs"
  shows "rl_bucket (sweep now bs) k =
    (case rl_bucket bs k of None \<Rightarrow> None
     | Some b \<Rightarrow> if now - bk_updatedAt b > SWEEP_TTL_MS then None else Some b)"
  using assms
  by (auto simp: rl_bucket_def jget_sweep jget_filter rl_ok_def split: option.splits)

text \<open>Tokens stay between 0 and the burst of their scope, and keys stay distinct, whatever
  requests, resets and sweeps happen in whatever order.\<close>

theorem token_range_invariant:
  assumes "rl_ok cfg bs" and "rl_config_ok cfg"
  shows "rl_ok cfg (snd (acquireDetailed cfg scope key cost t0 now bs))
    \<and> rl_ok cfg (sweep now bs) \<and> rl_ok cfg (rl_reset r_scope r_key bs) \<and> rl_ok cfg createDefaultBackend"
proof -
  have "rl_ok cfg (snd (acquireDetailed cfg scope key cost t0 now bs))"
    using assms rl_ok_acquire_valid [OF assms]
    by (auto simp: acquireDetailed_def split_def Let_def split: jsnum.splits)
  moreover have "rl_ok cfg createDefaultBackend"
    by (auto simp: rl_ok_def createDefaultBackend_def VALID_SCOPES_def jempty_def jset_def jget_def jwf_def
        split: if_splits)
  ultimately show ?thesis using assms by (simp add: rl_ok_sweep rl_ok_reset)
qed

lemma default_config_ok: "rl_config_ok DEFAULT_RATE_LIMIT_CONFIG"
  by (simp add: rl_config_ok_def VALID_SCOPES_def limitsFor_def DEFAULT_RATE_LIMIT_CONFIG_def)

lemma demo_buckets_ok: "rl_ok DEFAULT_RATE_LIMIT_CONFIG demo_buckets"
  by (auto simp: rl_ok_def demo_buckets_def jget_def jwf_def limitsFor_def DEFAULT_RATE_LIMIT_CONFIG_def
      bucket_ok_def split: if_splits)

theorem token_range_invariant_witness:
  "rl_ok DEFAULT_RATE_LIMIT_CONFIG (snd (acquireDetailed DEFAULT_RATE_LIMIT_CONFIG ''ip'' ''k'' (NFin 5) 0 9 demo_buckets))"
  using token_range_invariant [OF demo_buckets_ok default_config_ok] by blast

lemma take_tokens_full:
  assumes "cap \<le> bk_tokens b + max 0 (of_int (now - bk_updatedAt b) / 1000) * rate"
  shows "take_tokens (cap, rate) cost now b =
    (if cost \<le> cap
     then (\<lparr>d_allowed = True, d_remaining = \<lfloor>cap - cost\<rfloor>, d_retryAfterMs = NFin 0\<rparr>,
           \<lparr>bk_tokens = cap - cost, bk_updatedAt = now\<rparr>)
     else (\<lparr>d_allowed = False, d_remaining = 0, d_retryAfterMs = retry_after (cost - cap) rate\<rparr>,
           \<lparr>bk_tokens = cap, bk_updatedAt = now\<rparr>))"
  using assms by (simp add: take_tokens_def Let_def min_def)

text \<open>Where a bucket refills within the five minutes the sweep waits (burst at most 300 times the
  rate), the sweep cannot be observed: a later request gets the same answer, and leaves the same
  bucket, as if the sweep had not run.\<close>

theorem sweep_unobservable:
  assumes "rl_ok cfg bs" and "rl_config_ok cfg"
    and "fst (limitsFor cfg scope) \<le> 300 * snd (limitsFor cfg scope)"
    and "t_sweep \<le> t0" and "t0 \<le> now"
  shows "fst (acquireDetailed cfg scope key cost t0 now (sweep t_sweep bs))
      = fst (acquireDetailed cfg scope key cost t0 now bs)
    \<and> bucket_step (limitsFor cfg scope) (c, t0, now) (rl_bucket (sweep t_sweep bs) (scope, key))
      = bucket_step (limitsFor cfg scope) (c, t0, now) (rl_bucket bs (scope, key))"
proof -
  obtain cap rate where lim: "limitsFor cfg scope = (cap, rate)" by fastforce
  have pos: "0 \<le> cap" "0 \<le> rate" using rl_config_okD [OF assms(2), of scope] lim by auto
  have same: "bucket_step (cap, rate) (c, t0, now) (rl_bucket (sweep t_sweep bs) (scope, key))
      = bucket_step (cap, rate) (c, t0, now) (rl_bucket bs (scope, key))" for c
  proof (cases "\<exists>b. rl_bucket bs (scope, key) = Some b \<and> t_sweep - bk_updatedAt b > SWEEP_TTL_MS")
    case False
    then have "rl_bucket (sweep t_sweep bs) (scope, key) = rl_bucket bs (scope, key)"
      by (auto simp: rl_bucket_sweep [OF assms(1)] split: option.splits)
    then show ?thesis by simp
  next
    case True
    then obtain b where b: "rl_bucket bs (scope, key) = Some b" and old: "t_sweep - bk_updatedAt b > SWEEP_TTL_MS"
      by blast
    have "300 \<le> (of_int (now - bk_updatedAt b) / 1000 :: rat)"
    proof -
      have "300000 \<le> now - bk_updatedAt b" using old assms(4,5) by (simp add: SWEEP_TTL_MS_def)
      then have "(of_int 300000 :: rat) \<le> of_int (now - bk_updatedAt b)" by (simp only: of_int_le_iff)
      then show ?thesis by simp
    qed
    then have "300 * rate \<le> max 0 (of_int (now - bk_updatedAt b) / 1000) * rate"
      using pos by (intro mult_right_mono) auto
    moreover have "0 \<le> bk_tokens b" using rl_ok_bucket [OF assms(1) b] by (simp add: bucket_ok_def)
    ultimately have full: "cap \<le> bk_tokens b + max 0 (of_int (now - bk_updatedAt b) / 1000) * rate"
      using assms(3) lim by simp
    have "0 \<le> max 0 (of_int (now - t0) / 1000) * rate" using pos by simp
    then have "bucket_step (cap, rate) (c, t0, now) None = take_tokens (cap, rate) c now b"
      unfolding bucket_step_def take_tokens_full [OF full] by (simp add: take_tokens_full)
    moreover have "rl_bucket (sweep t_sweep bs) (scope, key) = None"
      using b old by (simp add: rl_bucket_sweep [OF assms(1)])
    ultimately show ?thesis using b by (simp add: bucket_step_def)
  qed
  then have "fst (acquire_valid cfg scope key c t0 now (sweep t_sweep bs)) = fst (acquire_valid cfg scope key c t0 now bs)" for c
    by (simp add: acquire_valid_eq lim)
  then show ?thesis using same lim
    by (auto simp: acquireDetailed_def split_def Let_def split: jsnum.splits)
qed

theorem sweep_unobservable_witness:
  "fst (acquireDetailed DEFAULT_RATE_LIMIT_CONFIG ''ip'' ''k'' (NFin 20) 400000 400000 (sweep 400000 demo_buckets))
     = fst (acquireDetailed DEFAULT_RATE_LIMIT_CONFIG ''ip'' ''k'' (NFin 20) 400000 400000 demo_buckets)"
  using sweep_unobservable [OF demo_buckets_ok default_config_ok, of "''ip''" 400000 400000 400000]
  by (simp add: limitsFor_def DEFAULT_RATE_LIMIT_CONFIG_def)

end
