(* ===== verification/Config.thy ===== *)
theory Config
  imports JsNumber MediaTokens RateLimit
begin

text \<open>
  The configuration namespaces of \<open>src/src/config\<close>: functions of the process environment, which is a
  map from names to text. Three files each declare the same \<open>parseInteger\<close>, and \<open>turn.config.ts\<close> a
  fourth; they are one definition here.
\<close>

type_synonym process_env = "string \<Rightarrow> string option"

definition parseInteger :: "string option \<Rightarrow> int \<Rightarrow> int" where
  "parseInteger raw fallback =
     (case raw of
        None \<Rightarrow> fallback
      | Some text \<Rightarrow> or_default (js_integer (js_number text)) fallback)"

section \<open>The namespaces\<close>

definition parsePort :: "string option \<Rightarrow> int" where
  "parsePort raw =
     (case raw of
        None \<Rightarrow> 8080
      | Some text \<Rightarrow>
          (case js_integer (js_number text) of None \<Rightarrow> 8080 | Some n \<Rightarrow> if n > 0 then n else 8080))"

record app_config =
  ac_port :: int
  ac_corsOrigin :: string
  ac_frontendOrigin :: string
  ac_logLevel :: string
  ac_nodeEnv :: string

definition app_config_of :: "process_env \<Rightarrow> app_config" where
  "app_config_of env =
     \<lparr>ac_port = parsePort (env ''PORT''), ac_corsOrigin = or_default (env ''CORS_ORIGIN'') ''*'',
      ac_frontendOrigin = or_default (env ''FRONTEND_ORIGIN'') [], ac_logLevel = or_default (env ''LOG_LEVEL'') ''debug'',
      ac_nodeEnv = or_default (env ''NODE_ENV'') ''development''\<rparr>"

record auth_config =
  jc_secret :: string
  jc_ttl :: string
  jc_audience :: "string option"
  jc_issuer :: "string option"

definition auth_config_of :: "process_env \<Rightarrow> auth_config" where
  "auth_config_of env =
     \<lparr>jc_secret = or_default (env ''JWT_SECRET'') [], jc_ttl = or_default (env ''JWT_TTL'') ''1h'',
      jc_audience = env ''JWT_AUDIENCE'', jc_issuer = env ''JWT_ISSUER''\<rparr>"

definition parseBoolean :: "string option \<Rightarrow> bool \<Rightarrow> bool" where
  "parseBoolean raw fallback =
     (case raw of
        None \<Rightarrow> fallback
      | Some text \<Rightarrow> if text = [] then fallback else map lower text \<in> {''1'', ''true'', ''yes'', ''on''})"

definition database_config_of :: "process_env \<Rightarrow> string \<times> bool" where
  "database_config_of env = (or_default (env ''DATABASE_URL'') [], parseBoolean (env ''DATABASE_SSL'') False)"

definition google_config_of :: "process_env \<Rightarrow> string \<times> string \<times> string" where
  "google_config_of env =
     (or_default (env ''GOOGLE_CLIENT_ID'') [], or_default (env ''GOOGLE_CLIENT_SECRET'') [],
      or_default (env ''GOOGLE_REDIRECT_URI'') [])"

definition presence_config_of :: "process_env \<Rightarrow> int" where
  "presence_config_of env = parseInteger (env ''PRESENCE_TTL_SECONDS'') 60"

definition rate_limit_config_of :: "process_env \<Rightarrow> rl_env_source" where
  "rate_limit_config_of env =
     (let num = (\<lambda>name fallback. Some (of_int (parseInteger (env name) fallback)))
      in \<lparr>RATE_LIMIT_SOCKET_PER_SECOND = num ''RATE_LIMIT_SOCKET_PER_SECOND'' 20,
          RATE_LIMIT_USER_PER_SECOND = num ''RATE_LIMIT_USER_PER_SECOND'' 10,
          RATE_LIMIT_IP_PER_SECOND = num ''RATE_LIMIT_IP_PER_SECOND'' 30,
          RATE_LIMIT_SOCKET_BURST = num ''RATE_LIMIT_SOCKET_BURST'' 5,
          RATE_LIMIT_USER_BURST = num ''RATE_LIMIT_USER_BURST'' 3,
          RATE_LIMIT_IP_BURST = num ''RATE_LIMIT_IP_BURST'' 8\<rparr>)"

definition redis_config_of :: "process_env \<Rightarrow> string" where
  "redis_config_of env = or_default (env ''REDIS_URL'') []"

definition security_config_of :: "process_env \<Rightarrow> int \<times> int" where
  "security_config_of env =
     (parseInteger (env ''SFU_TOKEN_TTL_SECONDS'') 3600, parseInteger (env ''TURN_TOKEN_TTL_SECONDS'') 3600)"

definition signaling_config_of :: "process_env \<Rightarrow> string" where
  "signaling_config_of env = or_default (env ''SIGNALING_NAMESPACE'') ''/signaling''"

definition parseList :: "string option \<Rightarrow> string list \<Rightarrow> string list" where
  "parseList raw fallback =
     (case raw of
        None \<Rightarrow> fallback
      | Some text \<Rightarrow>
          if text = [] then fallback
          else filter (\<lambda>value. length value > 0) (map js_trim (js_split (CHR '','') text)))"

record turn_env_config =
  tn_url :: string
  tn_sharedSecret :: string
  tn_ttlSeconds :: int
  tn_tokenTtlSeconds :: int
  tn_realm :: string
  tn_stunUrls :: "string list"
  tn_urls :: "string list"

definition turn_config_of :: "process_env \<Rightarrow> turn_env_config" where
  "turn_config_of env =
     \<lparr>tn_url = or_default (env ''TURN_URL'') [], tn_sharedSecret = or_default (env ''TURN_SHARED_SECRET'') [],
      tn_ttlSeconds = parseInteger (env ''TURN_TTL'') 3600,
      tn_tokenTtlSeconds = parseInteger (env ''TURN_TOKEN_TTL_SECONDS'') 3600,
      tn_realm = or_default (env ''TURN_REALM'') ''koom.local'',
      tn_stunUrls = parseList (env ''TURN_STUN_URLS'') [''stun:stun.l.google.com:19302''],
      tn_urls = parseList (env ''TURN_URLS'')
        [''turn:turn.koom.example.com:3478?transport=udp'', ''turn:turn.koom.example.com:3478?transport=tcp'']\<rparr>"

record livekit_config =
  lc_url :: string
  lc_httpUrl :: string
  lc_apiKey :: string
  lc_apiSecret :: string
  lc_sfuUrl :: string

text \<open>\<open>a || b\<close> on optional text.\<close>

definition or_text :: "string option \<Rightarrow> string \<Rightarrow> string" where
  "or_text a b = (case a of None \<Rightarrow> b | Some s \<Rightarrow> if s = [] then b else s)"

definition livekit_config_of :: "process_env \<Rightarrow> livekit_config" where
  "livekit_config_of env =
     (let url = or_default (env ''LIVEKIT_URL'') [];
          httpUrl = or_text (env ''LIVEKIT_HTTP_URL'') (deriveHttpUrl url)
      in \<lparr>lc_url = url, lc_httpUrl = httpUrl, lc_apiKey = or_default (env ''LIVEKIT_API_KEY'') [],
          lc_apiSecret = or_default (env ''LIVEKIT_API_SECRET'') [],
          lc_sfuUrl = or_text (env ''SFU_URL'') (if url \<noteq> [] then url else deriveHttpUrl url)\<rparr>)"

section \<open>Properties\<close>

text \<open>An integer written in decimal is configured as itself, and any other setting than an integer falls
  back to the default, except that one of white space only, or of nothing, is read as zero.\<close>

theorem parseInteger_spec:
  "parseInteger (Some (show_int i)) d = i \<and> parseInteger None d = d
   \<and> parseInteger (Some t) d = (case js_integer (js_number t) of None \<Rightarrow> d | Some n \<Rightarrow> n)
   \<and> parseInteger (Some (replicate k (CHR '' ''))) d = 0"
proof -
  have "js_trim (replicate k (CHR '' '')) = []"
    by (induction k) (auto simp: js_trim_def is_space_def)
  then have "parseInteger (Some (replicate k (CHR '' ''))) d = 0"
    by (simp add: parseInteger_def js_number_def js_integer_def)
  then show ?thesis
    by (auto simp: parseInteger_def js_number_show js_integer_def or_default_def split: option.split)
qed

text \<open>A list of URLs joined with commas is configured as that list, when the URLs are not empty, have no
  comma and no white space at their ends.\<close>

theorem parseList_roundtrip:
  assumes "xs \<noteq> []" and "list_all (\<lambda>x. x \<noteq> [] \<and> CHR '','' \<notin> set x \<and> js_trim x = x) xs"
  shows "parseList (Some (js_join '','' xs)) d = xs"
proof -
  have "js_join '','' xs \<noteq> []" using assms by (cases xs; cases "tl xs") auto
  moreover have "js_split (CHR '','') (js_join '','' xs) = xs"
    using assms by (intro js_split_join) (auto simp: list_all_iff)
  moreover have "map js_trim xs = xs" "filter (\<lambda>v. length v > 0) xs = xs"
    using assms(2) by (auto simp: list_all_iff map_idI filter_id_conv)
  ultimately show ?thesis by (simp add: parseList_def)
qed

lemma parseList_roundtrip_witness:
  "parseList (Some (js_join '','' [''turn:a:3478'', ''turn:b:3478''])) [] = [''turn:a:3478'', ''turn:b:3478'']"
  by (rule parseList_roundtrip) (simp_all add: js_trim_def is_space_def)

text \<open>With no rate limit configured the limits are those of the configuration namespace and not the
  defaults the rate limit service declares for itself; what is configured as an integer is the
  limit used.\<close>

theorem rate_limit_defaults:
  "security_module_config (rate_limit_config_of (\<lambda>_. None))
     = \<lparr>socketPerSecond = 20, userPerSecond = 10, ipPerSecond = 30, burstSocket = 5, burstUser = 3, burstIp = 8\<rparr>
   \<and> security_module_config (rate_limit_config_of (\<lambda>_. None)) \<noteq> DEFAULT_RATE_LIMIT_CONFIG
   \<and> userPerSecond (security_module_config (rate_limit_config_of (env(''RATE_LIMIT_USER_PER_SECOND'' \<mapsto> show_int n))))
     = of_int n"
  by (simp add: security_module_config_def rate_limit_config_of_def parseRateLimitConfig_def parseInteger_def Let_def
      DEFAULT_RATE_LIMIT_CONFIG_def js_number_show js_integer_def)

end
