(* ===== verification/EnvSchema.thy ===== *)
theory EnvSchema
  imports Config Base64
begin

text \<open>
  \<open>src/src/config/env.schema.ts\<close>: the schema the process environment must satisfy before the server
  starts, and what it becomes. The schema is a table of rules, one per variable, followed by one
  check over all of them. The Joi library is a parameter that evaluates one rule on one optional
  text; \<open>joi_contract\<close> states what its documentation promises of the rules used here.
\<close>

section \<open>Schema\<close>

definition NODE_ENV_VALUES :: "string list" where
  "NODE_ENV_VALUES = [''development'', ''test'', ''production'']"

datatype env_val = VText string | VInt int | VBool bool

datatype env_kind = KString | KInteger | KBoolean

record env_rule =
  er_kind :: env_kind
  er_allowEmpty :: bool
  er_required :: bool
  er_prefixes :: "string list"
  er_valid :: "string list"
  er_default :: "env_val option"

definition text_default :: "string \<Rightarrow> env_rule" where
  "text_default d = \<lparr>er_kind = KString, er_allowEmpty = False, er_required = False, er_prefixes = [], er_valid = [],
     er_default = Some (VText d)\<rparr>"

definition text_empty :: env_rule where
  "text_empty = (text_default []) \<lparr>er_allowEmpty := True\<rparr>"

definition text_optional :: env_rule where
  "text_optional = (text_default []) \<lparr>er_default := None\<rparr>"

definition int_default :: "int \<Rightarrow> env_rule" where
  "int_default d = (text_default []) \<lparr>er_kind := KInteger, er_default := Some (VInt d)\<rparr>"

definition postgresUrlSchema :: env_rule where
  "postgresUrlSchema = text_optional \<lparr>er_required := True, er_prefixes := [''postgres://'', ''postgresql://'']\<rparr>"

definition env_schema :: "(string \<times> env_rule) list" where
  "env_schema =
     [(''PORT'', int_default 8080),
      (''CORS_ORIGIN'', text_default ''*''),
      (''SIGNALING_NAMESPACE'', text_default ''/signaling''),
      (''DATABASE_URL'', postgresUrlSchema),
      (''DATABASE_SSL'', (text_default []) \<lparr>er_kind := KBoolean, er_default := Some (VBool False)\<rparr>),
      (''JWT_SECRET'', text_optional \<lparr>er_allowEmpty := True\<rparr>),
      (''JWT_TTL'', text_default ''1h''),
      (''JWT_AUDIENCE'', text_optional),
      (''JWT_ISSUER'', text_optional),
      (''LIVEKIT_URL'', text_empty),
      (''LIVEKIT_API_KEY'', text_empty),
      (''LIVEKIT_API_SECRET'', text_empty),
      (''LIVEKIT_HTTP_URL'', text_empty),
      (''SFU_URL'', text_empty),
      (''REDIS_URL'', text_empty),
      (''TURN_URL'', text_empty),
      (''TURN_URLS'', text_empty),
      (''TURN_REALM'', text_default ''koom.local''),
      (''TURN_STUN_URLS'', text_default ''stun:stun.l.google.com:19302''),
      (''TURN_SHARED_SECRET'', text_empty),
      (''TURN_TTL'', int_default 3600),
      (''TURN_TOKEN_TTL_SECONDS'', int_default 3600),
      (''RATE_LIMIT_SOCKET_PER_SECOND'', int_default 20),
      (''RATE_LIMIT_USER_PER_SECOND'', int_default 10),
      (''RATE_LIMIT_IP_PER_SECOND'', int_default 30),
      (''RATE_LIMIT_SOCKET_BURST'', int_default 5),
      (''RATE_LIMIT_USER_BURST'', int_default 3),
      (''RATE_LIMIT_IP_BURST'', int_default 8),
      (''SFU_TOKEN_TTL_SECONDS'', int_default 3600),
      (''PRESENCE_TTL_SECONDS'', int_default 60),
      (''LOG_LEVEL'', text_default ''debug''),
      (''NODE_ENV'', (text_default ''development'') \<lparr>er_valid := NODE_ENV_VALUES\<rparr>),
      (''GOOGLE_CLIENT_ID'', text_empty),
      (''GOOGLE_CLIENT_SECRET'', text_empty),
      (''GOOGLE_REDIRECT_URI'', text_empty),
      (''FRONTEND_ORIGIN'', text_empty)]"

section \<open>The rule evaluator\<close>

type_synonym rule_check = "env_rule \<Rightarrow> string option \<Rightarrow> string + env_val option"

text \<open>
  An absent variable has its default, or is an error when it is required; a text rule keeps the
  text it accepts, which is not empty unless that is allowed, is one of the valid values when
  those are listed and has one of the prefixes when there are any.
\<close>

definition joi_contract :: "rule_check \<Rightarrow> bool" where
  "joi_contract joi \<longleftrightarrow>
     (\<forall>r. \<not> er_required r \<longrightarrow> joi r None = Inr (er_default r))
     \<and> (\<forall>r. er_required r \<longrightarrow> isl (joi r None))
     \<and> (\<forall>r t v. er_kind r = KString \<longrightarrow> joi r (Some t) = Inr v \<longrightarrow>
          v = Some (VText t) \<and> (er_allowEmpty r \<or> t \<noteq> []) \<and> (er_valid r = [] \<or> t \<in> set (er_valid r))
          \<and> (t = [] \<or> er_prefixes r = [] \<or> (\<exists>p \<in> set (er_prefixes r). starts_with p t)))"

section \<open>Validation\<close>

type_synonym validated_env = "string \<Rightarrow> env_val option"

fun env_truthy :: "env_val option \<Rightarrow> bool" where
  "env_truthy None = False"
| "env_truthy (Some (VText t)) = (t \<noteq> [])"
| "env_truthy (Some (VInt n)) = (n \<noteq> 0)"
| "env_truthy (Some (VBool b)) = b"

definition generateJwtSecret :: "8 word list \<Rightarrow> string" where
  "generateJwtSecret randomBytes = base64url randomBytes"

definition requiredInProduction :: "(string \<times> string) list" where
  "requiredInProduction =
     [(''TURN_URL'', ''TURN_URL is required in production''),
      (''TURN_SHARED_SECRET'', ''TURN_SHARED_SECRET is required in production''),
      (''GOOGLE_CLIENT_ID'', ''GOOGLE_CLIENT_ID is required in production (configure Google OAuth client)''),
      (''GOOGLE_CLIENT_SECRET'', ''GOOGLE_CLIENT_SECRET is required in production (configure Google OAuth client)''),
      (''GOOGLE_REDIRECT_URI'',
        ''GOOGLE_REDIRECT_URI is required in production (configure Google OAuth redirect URI)''),
      (''FRONTEND_ORIGIN'', ''FRONTEND_ORIGIN is required in production (configure the front-end origin)'')]"

fun check_required :: "validated_env \<Rightarrow> (string \<times> string) list \<Rightarrow> string option" where
  "check_required v [] = None"
| "check_required v ((key, message) # rest) = (if \<not> env_truthy (v key) then Some message else check_required v rest)"

definition env_custom :: "8 word list \<Rightarrow> validated_env \<Rightarrow> string + validated_env" where
  "env_custom randomBytes value =
     (let production = value ''NODE_ENV'' = Some (VText ''production'')
      in if \<not> env_truthy (value ''JWT_SECRET'') \<and> production then Inl ''JWT_SECRET is required in production''
         else let value' = (if \<not> env_truthy (value ''JWT_SECRET'')
                            then value(''JWT_SECRET'' \<mapsto> VText (generateJwtSecret randomBytes)) else value)
              in if production
                 then case check_required value' requiredInProduction of
                        Some message \<Rightarrow> Inl message
                      | None \<Rightarrow>
                          if value' ''CORS_ORIGIN'' = Some (VText ''*'')
                          then Inl ''CORS_ORIGIN must not be \"*\" in production (set the front-end origin explicitly)''
                          else Inr value'
                 else Inr value')"

text \<open>
  The rules of all variables are evaluated, whatever fails: a variable whose rule fails keeps its
  text for the check over all of them. Variables the schema does not name are kept.
\<close>

fun apply_rules :: "rule_check \<Rightarrow> process_env \<Rightarrow> (string \<times> env_rule) list \<Rightarrow> string list \<times> validated_env" where
  "apply_rules joi env [] = ([], \<lambda>k. map_option VText (env k))"
| "apply_rules joi env ((k, r) # rest) =
     (let (errs, v) = apply_rules joi env rest
      in case joi r (env k) of
           Inl e \<Rightarrow> (e # errs, v)
         | Inr x \<Rightarrow> (errs, v(k := x)))"

definition validateEnv :: "rule_check \<Rightarrow> 8 word list \<Rightarrow> process_env \<Rightarrow> string list + validated_env" where
  "validateEnv joi randomBytes env =
     (let (errs, v) = apply_rules joi env env_schema
      in case env_custom randomBytes v of
           Inl e \<Rightarrow> Inl (errs @ [e])
         | Inr v' \<Rightarrow> if errs = [] then Inr v' else Inl errs)"

section \<open>Lemmas\<close>

lemma apply_rules_other: "k \<notin> set (map fst s) \<Longrightarrow> snd (apply_rules joi env s) k = map_option VText (env k)"
  by (induction s rule: apply_rules.induct) (auto simp: Let_def split: prod.splits sum.splits)

lemma apply_rules_named:
  assumes "fst (apply_rules joi env s) = []" and "distinct (map fst s)" and "(k, r) \<in> set s"
  shows "joi r (env k) = Inr (snd (apply_rules joi env s) k)"
  using assms
proof (induction s)
  case (Cons kr s)
  obtain k' r' where kr: "kr = (k', r')" by (cases kr)
  with Cons.prems obtain x where x: "joi r' (env k') = Inr x" "fst (apply_rules joi env s) = []"
    "snd (apply_rules joi env (kr # s)) = (snd (apply_rules joi env s))(k' := x)"
    by (auto split: prod.splits sum.splits)
  have "k \<noteq> k'" if "(k, r) \<in> set s" using Cons.prems(2) kr that by force
  with Cons x kr show ?case by auto
qed simp

lemma env_schema_distinct: "distinct (map fst env_schema)"
  by (simp add: env_schema_def)

lemma check_required_None: "check_required v ks = None \<longleftrightarrow> list_all (\<lambda>km. env_truthy (v (fst km))) ks"
  by (induction v ks rule: check_required.induct) auto

lemma validateEnv_Inr:
  assumes "validateEnv joi bytes env = Inr v"
  obtains w where "\<And>k r. (k, r) \<in> set env_schema \<Longrightarrow> joi r (env k) = Inr (w k)" and "env_custom bytes w = Inr v"
proof
  let ?w = "snd (apply_rules joi env env_schema)"
  have "fst (apply_rules joi env env_schema) = [] \<and> env_custom bytes ?w = Inr v"
    using assms by (auto simp: validateEnv_def split: prod.splits sum.splits if_splits)
  then show "env_custom bytes ?w = Inr v" "\<And>k r. (k, r) \<in> set env_schema \<Longrightarrow> joi r (env k) = Inr (?w k)"
    using apply_rules_named [OF _ env_schema_distinct] by auto
qed

lemmas env_rule_defs = text_default_def text_empty_def text_optional_def int_default_def postgresUrlSchema_def

lemma joi_text:
  assumes "joi_contract joi" and "er_kind r = KString" and "\<not> er_required r" and "joi r raw = Inr x"
  shows "x = (case raw of None \<Rightarrow> er_default r | Some t \<Rightarrow> Some (VText t))"
    and "raw = Some t \<Longrightarrow> er_valid r = [] \<or> t \<in> set (er_valid r)" and "raw = Some t \<Longrightarrow> er_allowEmpty r \<or> t \<noteq> []"
  using assms unfolding joi_contract_def by (auto split: option.split)

lemma joi_postgres:
  assumes "joi_contract joi" and "joi postgresUrlSchema raw = Inr x"
  shows "\<exists>url. x = Some (VText url) \<and> (starts_with ''postgres://'' url \<or> starts_with ''postgresql://'' url)"
proof (cases raw)
  case None
  moreover have "er_required postgresUrlSchema" by (simp add: env_rule_defs)
  ultimately have "isl (joi postgresUrlSchema raw)" using assms(1) unfolding joi_contract_def by blast
  with assms(2) show ?thesis by simp
next
  case (Some t)
  have r: "er_kind postgresUrlSchema = KString" "\<not> er_allowEmpty postgresUrlSchema"
    "er_prefixes postgresUrlSchema = [''postgres://'', ''postgresql://'']" by (simp_all add: env_rule_defs)
  have "x = Some (VText t) \<and> t \<noteq> [] \<and> (t = [] \<or> (\<exists>p \<in> set [''postgres://'', ''postgresql://'']. starts_with p t))"
    using assms r Some unfolding joi_contract_def by (metis list.distinct(1))
  then show ?thesis by auto
qed

lemma required_rules: "k \<in> set (map fst requiredInProduction) \<Longrightarrow> (k, text_empty) \<in> set env_schema"
proof -
  have "list_all (\<lambda>k. List.member env_schema (k, text_empty)) (map fst requiredInProduction)"
    by (simp add: requiredInProduction_def env_schema_def)
  then show "k \<in> set (map fst requiredInProduction) \<Longrightarrow> (k, text_empty) \<in> set env_schema"
    by (auto simp: list_all_iff)
qed

lemma required_keys:
  "map fst requiredInProduction =
     [''TURN_URL'', ''TURN_SHARED_SECRET'', ''GOOGLE_CLIENT_ID'', ''GOOGLE_CLIENT_SECRET'', ''GOOGLE_REDIRECT_URI'', ''FRONTEND_ORIGIN'']"
  by (simp add: requiredInProduction_def)

lemma env_custom_Inr:
  "env_custom bytes w = Inr v \<longleftrightarrow>
     v = (if env_truthy (w ''JWT_SECRET'') then w else w(''JWT_SECRET'' \<mapsto> VText (generateJwtSecret bytes)))
     \<and> (w ''NODE_ENV'' = Some (VText ''production'') \<longrightarrow>
          env_truthy (w ''JWT_SECRET'') \<and> list_all (\<lambda>km. env_truthy (w (fst km))) requiredInProduction
          \<and> w ''CORS_ORIGIN'' \<noteq> Some (VText ''*''))"
  by (auto simp: env_custom_def Let_def check_required_None [symmetric] split: option.splits if_splits)

text \<open>What the rules alone make of the texts of an environment.\<close>

lemma rule_text:
  assumes "joi_contract joi" and "\<forall>k r. (k, r) \<in> set env_schema \<longrightarrow> joi r (env k) = Inr (w k)"
    and "(k, r) \<in> set env_schema" "er_kind r = KString" "\<not> er_required r"
  shows "w k = (case env k of None \<Rightarrow> er_default r | Some t \<Rightarrow> Some (VText t))
    \<and> (case env k of None \<Rightarrow> True | Some t \<Rightarrow> (er_valid r = [] \<or> t \<in> set (er_valid r)) \<and> (er_allowEmpty r \<or> t \<noteq> []))"
  using joi_text [OF assms(1,4,5) assms(2) [rule_format, OF assms(3)]] by (auto split: option.split)

lemma rules_texts:
  assumes joi: "joi_contract joi" and rules: "\<forall>k r. (k, r) \<in> set env_schema \<longrightarrow> joi r (env k) = Inr (w k)"
  shows "\<exists>node. w ''NODE_ENV'' = Some (VText node) \<and> node \<in> {''development'', ''test'', ''production''}"
    and "\<exists>url. w ''DATABASE_URL'' = Some (VText url) \<and> (starts_with ''postgres://'' url \<or> starts_with ''postgresql://'' url)"
    and "w ''JWT_SECRET'' = map_option VText (env ''JWT_SECRET'')"
    and "w ''CORS_ORIGIN'' = Some (case env ''CORS_ORIGIN'' of None \<Rightarrow> VText ''*'' | Some t \<Rightarrow> VText t)"
    and "env ''CORS_ORIGIN'' \<noteq> Some []"
    and "k \<in> set (map fst requiredInProduction) \<Longrightarrow> env_truthy (w k) \<Longrightarrow> \<exists>t. t \<noteq> [] \<and> env k = Some t \<and> w k = Some (VText t)"
proof -
  note rule = rule_text [OF joi rules]
  show "\<exists>node. w ''NODE_ENV'' = Some (VText node) \<and> node \<in> {''development'', ''test'', ''production''}"
    using rule [of "''NODE_ENV''" "(text_default ''development'') \<lparr>er_valid := NODE_ENV_VALUES\<rparr>"]
    by (simp add: env_schema_def env_rule_defs NODE_ENV_VALUES_def split: option.splits)
  show "\<exists>url. w ''DATABASE_URL'' = Some (VText url) \<and> (starts_with ''postgres://'' url \<or> starts_with ''postgresql://'' url)"
    using joi_postgres [OF joi rules [rule_format]] by (simp add: env_schema_def)
  show "w ''JWT_SECRET'' = map_option VText (env ''JWT_SECRET'')"
    using rule [of "''JWT_SECRET''" "text_optional \<lparr>er_allowEmpty := True\<rparr>"]
    by (simp add: env_schema_def env_rule_defs split: option.splits)
  show "w ''CORS_ORIGIN'' = Some (case env ''CORS_ORIGIN'' of None \<Rightarrow> VText ''*'' | Some t \<Rightarrow> VText t)"
    "env ''CORS_ORIGIN'' \<noteq> Some []"
    using rule [of "''CORS_ORIGIN''" "text_default ''*''"]
    by (simp_all add: env_schema_def env_rule_defs split: option.splits)
  show "\<exists>t. t \<noteq> [] \<and> env k = Some t \<and> w k = Some (VText t)"
    if "k \<in> set (map fst requiredInProduction)" "env_truthy (w k)"
  proof -
    have "w k = (case env k of None \<Rightarrow> Some (VText []) | Some t \<Rightarrow> Some (VText t))"
      using rule [OF required_rules [OF that(1)]] by (simp add: env_rule_defs split: option.splits)
    with that(2) show ?thesis by (auto split: option.splits)
  qed
qed

section \<open>Properties\<close>

text \<open>C29: an environment the server starts with names a PostgreSQL database, one of the three node environments
  development, test and production, and a JWT secret that is not empty: the configured one when there is one. In
  production the environment itself sets the JWT secret, the TURN server and its shared secret, the Google client with
  its secret and redirect URI, the front end's origin, and a CORS origin that is not the wildcard, none of them
  empty, and they reach the application unchanged. (Nothing is required of the LiveKit and Redis settings, which may
  be empty.)\<close>

theorem env_accepted:
  assumes "joi_contract joi" and "length bytes = 48" and "validateEnv joi bytes env = Inr v"
  shows "\<exists>node secret url. v ''NODE_ENV'' = Some (VText node) \<and> node \<in> {''development'', ''test'', ''production''}
     \<and> v ''DATABASE_URL'' = Some (VText url) \<and> (starts_with ''postgres://'' url \<or> starts_with ''postgresql://'' url)
     \<and> v ''JWT_SECRET'' = Some (VText secret) \<and> secret \<noteq> [] \<and> env ''JWT_SECRET'' \<in> {None, Some [], Some secret}
     \<and> (if node = ''production''
        then env ''JWT_SECRET'' = Some secret
             \<and> list_all (\<lambda>k. \<exists>t. t \<noteq> [] \<and> env k = Some t \<and> v k = Some (VText t))
               [''TURN_URL'', ''TURN_SHARED_SECRET'', ''GOOGLE_CLIENT_ID'', ''GOOGLE_CLIENT_SECRET'',
                ''GOOGLE_REDIRECT_URI'', ''FRONTEND_ORIGIN'']
             \<and> (\<exists>c. c \<notin> {[], ''*''} \<and> env ''CORS_ORIGIN'' = Some c \<and> v ''CORS_ORIGIN'' = Some (VText c))
        else True)"
proof -
  obtain w where rules: "\<forall>k r. (k, r) \<in> set env_schema \<longrightarrow> joi r (env k) = Inr (w k)"
    and custom: "env_custom bytes w = Inr v" using validateEnv_Inr [OF assms(3)] by blast
  note texts = rules_texts [OF assms(1) rules]
  have gen: "generateJwtSecret bytes \<noteq> []"
    using assms(2) base64url_length [of bytes] by (auto simp: generateJwtSecret_def)
  obtain n u where n: "w ''NODE_ENV'' = Some (VText n)" "n \<in> {''development'', ''test'', ''production''}"
    and u: "w ''DATABASE_URL'' = Some (VText u)" "starts_with ''postgres://'' u \<or> starts_with ''postgresql://'' u"
    using texts(1,2) by blast
  define s where "s = (case env ''JWT_SECRET'' of Some t \<Rightarrow> if t = [] then generateJwtSecret bytes else t
                        | None \<Rightarrow> generateJwtSecret bytes)"
  have v: "v = w(''JWT_SECRET'' \<mapsto> VText s)" and s: "s \<noteq> []" "env ''JWT_SECRET'' \<in> {None, Some [], Some s}"
    using custom texts(3) gen by (auto simp: env_custom_Inr s_def split: option.splits if_splits)
  have "env ''JWT_SECRET'' = Some s
      \<and> list_all (\<lambda>k. \<exists>t. t \<noteq> [] \<and> env k = Some t \<and> v k = Some (VText t))
          [''TURN_URL'', ''TURN_SHARED_SECRET'', ''GOOGLE_CLIENT_ID'', ''GOOGLE_CLIENT_SECRET'', ''GOOGLE_REDIRECT_URI'', ''FRONTEND_ORIGIN'']
      \<and> (\<exists>c. c \<notin> {[], ''*''} \<and> env ''CORS_ORIGIN'' = Some c \<and> v ''CORS_ORIGIN'' = Some (VText c))"
    if "n = ''production''"
  proof -
    have c: "env_truthy (w ''JWT_SECRET'')" "list_all (\<lambda>km. env_truthy (w (fst km))) requiredInProduction"
      "w ''CORS_ORIGIN'' \<noteq> Some (VText ''*'')"
      using custom n that by (simp_all add: env_custom_Inr)
    have "env ''JWT_SECRET'' = Some s"
      using c(1) texts(3) by (cases "env ''JWT_SECRET''") (auto simp: s_def)
    moreover have "list_all (\<lambda>k. \<exists>t. t \<noteq> [] \<and> env k = Some t \<and> v k = Some (VText t)) (map fst requiredInProduction)"
      unfolding list_all_iff
    proof
      fix k assume k: "k \<in> set (map fst requiredInProduction)"
      then have "env_truthy (w k)" "k \<noteq> ''JWT_SECRET''" using c(2) by (auto simp: list_all_iff requiredInProduction_def)
      with texts(6) [OF k] v show "\<exists>t. t \<noteq> [] \<and> env k = Some t \<and> v k = Some (VText t)" by simp
    qed
    moreover have "\<exists>c. c \<notin> {[], ''*''} \<and> env ''CORS_ORIGIN'' = Some c \<and> v ''CORS_ORIGIN'' = Some (VText c)"
      using texts(4,5) c(3) v by (cases "env ''CORS_ORIGIN''") auto
    ultimately show ?thesis unfolding required_keys by blast
  qed
  with n u v s show ?thesis by auto
qed

text \<open>A rule evaluator that keeps the contract, for the instances below.\<close>

definition sample_check :: rule_check where
  "sample_check r raw =
     (case raw of
        None \<Rightarrow> if er_required r then Inl ''required'' else Inr (er_default r)
      | Some t \<Rightarrow>
          (case er_kind r of
             KString \<Rightarrow>
               if (er_allowEmpty r \<or> t \<noteq> []) \<and> (er_valid r = [] \<or> t \<in> set (er_valid r))
                  \<and> (t = [] \<or> er_prefixes r = [] \<or> (\<exists>p \<in> set (er_prefixes r). starts_with p t))
               then Inr (Some (VText t)) else Inl ''text''
           | KInteger \<Rightarrow> (case js_integer (js_number t) of None \<Rightarrow> Inl ''integer'' | Some n \<Rightarrow> Inr (Some (VInt n)))
           | KBoolean \<Rightarrow> Inr (Some (VBool (parseBoolean (Some t) False)))))"

lemma sample_check_contract: "joi_contract sample_check"
  by (auto simp: joi_contract_def sample_check_def split: if_splits)

definition sample_env :: process_env where
  "sample_env = [''DATABASE_URL'' \<mapsto> ''postgres://db'', ''NODE_ENV'' \<mapsto> ''production'', ''JWT_SECRET'' \<mapsto> ''s3cret'',
     ''TURN_URL'' \<mapsto> ''turn:a'', ''TURN_SHARED_SECRET'' \<mapsto> ''t'', ''GOOGLE_CLIENT_ID'' \<mapsto> ''g'',
     ''GOOGLE_CLIENT_SECRET'' \<mapsto> ''h'', ''GOOGLE_REDIRECT_URI'' \<mapsto> ''https://a/cb'', ''FRONTEND_ORIGIN'' \<mapsto> ''https://a'',
     ''CORS_ORIGIN'' \<mapsto> ''https://a'']"

lemma sample_env_valid: "isl (validateEnv sample_check (replicate 48 7) sample_env) = False"
  by code_simp

lemma env_accepted_witness:
  "\<exists>v secret. validateEnv sample_check (replicate 48 7) sample_env = Inr v
     \<and> v ''JWT_SECRET'' = Some (VText secret) \<and> secret \<noteq> []"
proof (cases "validateEnv sample_check (replicate 48 7) sample_env")
  case (Inr v)
  with env_accepted [OF sample_check_contract _ Inr] show ?thesis by auto
qed (use sample_env_valid in simp)

end
