(* ===== verification/Platform.thy ===== *)
theory Platform
  imports RedisPresence EnvSchema Metrics
begin

text \<open>
  The process around the components: the Redis connection test and the socket.io adapters
  (\<open>src/src/presence/redis.client.ts\<close>, \<open>src/src/signaling\<close>, \<open>src/src/main.ts\<close>), the levels and messages of the
  structured log, the console metrics, and the information endpoints. The Redis client library
  is a parameter: the outcome of each request to it.
\<close>

section \<open>The Redis connection test\<close>

datatype conn_step = RConnect | RPing | RQuit | RDisconnect

text \<open>
  \<open>connect\<close>, \<open>ping\<close> and \<open>quit\<close> tell whether the request is answered. The result comes with the requests
  made, in order.
\<close>

definition canConnectRedis :: "bool \<Rightarrow> bool \<Rightarrow> bool \<Rightarrow> bool \<times> conn_step list" where
  "canConnectRedis connect ping quit =
     (let (ok, steps) = (if \<not> connect then (False, [RConnect])
                         else if \<not> ping then (False, [RConnect, RPing])
                         else (True, [RConnect, RPing]))
      in (ok, steps @ (if quit then [RQuit] else [RQuit, RDisconnect])))"

definition createRedisClient :: "string option \<Rightarrow> string + string" where
  "createRedisClient url =
     (if truthy_str url then Inr (the url) else Inl ''createRedisClient requires a non-empty Redis URL'')"

section \<open>Socket adapters\<close>

datatype io_adapter = InMemoryAdapter | RedisAdapter string

text \<open>
  What the adapter's constructor is given: nothing, an application, whose HTTP server it asks for, or a server of its
  own. It passes the server on, if any, and keeps the URL.
\<close>

datatype 'srv adapter_app = FalsyApp | NestApp 'srv | RawServer 'srv

fun adapter_httpServer :: "'srv adapter_app \<Rightarrow> 'srv option" where
  "adapter_httpServer FalsyApp = None"
| "adapter_httpServer (NestApp server) = Some server"
| "adapter_httpServer (RawServer server) = Some server"

definition adapter_redisUrl :: "string option \<Rightarrow> string option" where
  "adapter_redisUrl url = (case url of None \<Rightarrow> None | Some u \<Rightarrow> if length u > 0 then Some u else None)"

definition createIOServer :: "string option \<Rightarrow> io_adapter" where
  "createIOServer redisUrl = (case redisUrl of None \<Rightarrow> InMemoryAdapter | Some u \<Rightarrow> RedisAdapter u)"

text \<open>The adapter the module provides, and whether it warns that Redis is not available.\<close>

definition provided_adapter :: "(string \<Rightarrow> bool) \<Rightarrow> string option \<Rightarrow> string option \<times> bool" where
  "provided_adapter reachable configured =
     (let redisUrlValue = or_default configured [];
          redisUrl = (if redisUrlValue \<noteq> [] \<and> reachable redisUrlValue then Some redisUrlValue else None)
      in (adapter_redisUrl redisUrl, redisUrlValue \<noteq> [] \<and> redisUrl = None))"

text \<open>The adapter \<open>bootstrap\<close> makes and installs.\<close>

definition bootstrap_adapter :: "string option \<Rightarrow> string option" where
  "bootstrap_adapter configured =
     (let redisUrl = or_default configured [] in adapter_redisUrl (if redisUrl = [] then None else Some redisUrl))"

definition parseCorsOrigin :: "string option \<Rightarrow> string" where
  "parseCorsOrigin raw = or_default raw ''*''"

section \<open>Logs\<close>

definition REDACT_PATHS :: "string list" where
  "REDACT_PATHS = [''req.headers.authorization'', ''req.headers.cookie'', ''res.headers[\"set-cookie\"]'',
     ''headers.authorization'', ''headers.cookie'', ''authorization'', ''token'', ''jwt'', ''accessToken'',
     ''refreshToken'', ''password'', ''sdp'', ''sdpOffer'', ''sdpAnswer'', ''iceCandidates'', ''*.sdp'',
     ''*.sdpOffer'', ''*.sdpAnswer'', ''*.iceCandidates'', ''req.body.sdp'', ''req.body.signal'', ''body.sdp'',
     ''body.signal'']"

definition formatOptional :: "jsval list \<Rightarrow> jsval \<Rightarrow> jsval" where
  "formatOptional optionalParams message =
     (if length optionalParams = 0 then message else JObj [(''msg'', message), (''meta'', JArr optionalParams)])"

text \<open>The level of a request's line: of its path, its status and whether it failed.\<close>

definition is_probe :: "jsval \<Rightarrow> bool" where
  "is_probe url \<longleftrightarrow> url = JStr ''/metrics'' \<or> url = JStr ''/health''"

definition customLogLevel :: "jsval \<Rightarrow> nat \<Rightarrow> bool \<Rightarrow> string" where
  "customLogLevel url statusCode err =
     (if is_probe url then ''silent''
      else if err \<or> statusCode \<ge> 500 then ''error''
      else if statusCode \<ge> 400 then ''warn''
      else ''info'')"

definition log_request :: "jsval \<Rightarrow> jsval" where
  "log_request req = JObj (map (\<lambda>k. (k, js_prop k req)) [''id'', ''method'', ''url'', ''remoteAddress''])"

text \<open>\<open>formatLabels\<close> of the console metrics; \<open>stringify\<close> prints a label's value.\<close>

definition formatLabels :: "(jsval \<Rightarrow> string) \<Rightarrow> labels option \<Rightarrow> string" where
  "formatLabels stringify labels =
     (case labels of
        None \<Rightarrow> []
      | Some entries \<Rightarrow>
          if length entries = 0 then []
          else js_join '' '' (map (\<lambda>(k, v). k @ ''='' @ stringify v) entries))"

definition noop_notify :: "(jsval \<Rightarrow> string) \<Rightarrow> string \<Rightarrow> string \<Rightarrow> jsval \<Rightarrow> string" where
  "noop_notify stringify userId event payload =
     ''[noop] notify(user='' @ userId @ '' event='' @ event @ '' payload='' @ stringify payload @ '')''"

section \<open>Information endpoints\<close>

definition getHello :: string where
  "getHello = ''Koom Calls signaling server''"

definition getInfo :: "string \<Rightarrow> jsval" where
  "getInfo namespace =
     JObj [(''name'', JStr ''koom-calls-server''), (''version'', JStr ''0.0.1''),
           (''signaling'', JObj [(''namespace'', JStr namespace)]), (''media'', JObj [(''provider'', JStr ''livekit'')])]"

text \<open>\<open>getHealth\<close> of the application service: the uptime of the process and the text of the time are what
  the platform gives.\<close>

definition app_getHealth :: "jsnum \<Rightarrow> string \<Rightarrow> jsval" where
  "app_getHealth uptime timestamp =
     JObj [(''status'', JStr ''ok''), (''uptime'', JNum uptime), (''timestamp'', JStr timestamp)]"

section \<open>Properties\<close>

text \<open>The Redis test says that Redis is there exactly when it connects and answers, and its client is
  shut down once in every case: asked to quit, and cut off when that fails.\<close>

theorem redis_test_closes:
  "fst (canConnectRedis connect ping quit) \<longleftrightarrow> connect \<and> ping"
  "count_list (snd (canConnectRedis connect ping quit)) RQuit = 1"
  "last (snd (canConnectRedis connect ping quit)) = (if quit then RQuit else RDisconnect)"
  by (simp_all add: canConnectRedis_def)

text \<open>The adapter the signaling module provides uses Redis only when it can be reached, and warns when
  it cannot; the adapter the server installs uses Redis whenever a URL is configured, reachable or
  not, so the two differ exactly when the module has warned.\<close>

theorem installed_adapter_ignores_fallback:
  "createIOServer (fst (provided_adapter reachable configured))
     = (case configured of Some u \<Rightarrow> if u \<noteq> [] \<and> reachable u then RedisAdapter u else InMemoryAdapter
        | None \<Rightarrow> InMemoryAdapter)
   \<and> createIOServer (bootstrap_adapter configured)
     = (case configured of Some u \<Rightarrow> if u \<noteq> [] then RedisAdapter u else InMemoryAdapter | None \<Rightarrow> InMemoryAdapter)
   \<and> (bootstrap_adapter configured \<noteq> fst (provided_adapter reachable configured)
      \<longleftrightarrow> snd (provided_adapter reachable configured))"
  by (auto simp: provided_adapter_def bootstrap_adapter_def adapter_redisUrl_def createIOServer_def Let_def
      or_default_def split: option.split)

end
