(* ===== verification/Server.thy ===== *)
theory Server
  imports Routes CallsController AuthClaims CallStats HttpFilter LivekitHealth Platform
begin

text \<open>
  The HTTP server the modules make up: a request is matched to its route, passes the guard of the route,
  is handled, and an exception of any of these is answered by the exception filter. The state is
  that of the components the handlers change. The text the metrics registry prints and the text of
  a time are parameters, as are the libraries of the components.
\<close>

section \<open>State, requests, answers\<close>

record 'db server_deps =
  sd_auth :: "'db auth_ctx"
  sd_zod :: zod
  sd_to36 :: "rat \<Rightarrow> string"
  sd_verify :: "string \<Rightarrow> string + jsval"
  sd_sign_ws :: "ws_token_claims \<Rightarrow> int \<Rightarrow> string"
  sd_hmac :: "string \<Rightarrow> string \<Rightarrow> string"
  sd_turn :: turn_config
  sd_lk :: lk_signer
  sd_sfu :: sfu_config
  sd_failed :: "(string + failed_call list) option"
  sd_health :: health_config
  sd_probe :: "probe_provider option"
  sd_rooms :: "string + nat"
  sd_namespace :: string
  sd_metrics_text :: "metric_op list \<Rightarrow> string"
  sd_item_str :: "jsval \<Rightarrow> string"
  sd_iso :: "int \<Rightarrow> string"

record 'db server_state =
  sv_calls :: calls_state
  sv_auth :: "'db auth_state"
  sv_ws :: ws_used
  sv_metrics :: "metric_op list"

text \<open>
  Besides the message itself: the clock, the random bytes and the uptime the handler of it reads. A query
  parameter is a string when the URL gives it once and an array of strings when it gives it more often.
\<close>

record http_request =
  rq_method :: http_method
  rq_path :: "string list"
  rq_url :: string
  rq_query :: "string \<Rightarrow> jsval"
  rq_bearer :: "string option"
  rq_cookies :: "(string, string) jmap option"
  rq_body :: jsval
  rq_now :: int
  rq_bytes :: "8 word list"
  rq_uptime :: jsnum

datatype reply =
    CallReply call
  | CallListReply "call_list_item list"
  | EventsReply "call_event list"
  | TurnReply turn_credentials
  | SfuReply sfu_token
  | ProvidersReply "provider_meta list"
  | LoginReply login_reply
  | OkReply
  | ProfileReply user_profile
  | WsTokenReply ws_token_result
  | StatsReply string
  | FailedReply "failed_call list"
  | TextReply string
  | InfoReply jsval
  | ProbeReply livekit_health
  | SentReply

record http_answer =
  ha_status :: nat
  ha_body :: "error_body + reply"
  ha_effects :: "res_effect list"

section \<open>Guards\<close>

text \<open>
  The JWT guard: the strategy extracts the token, the library verifies it, \<open>validate\<close> makes the user. A token
  that is missing or does not verify is refused by the library.
\<close>

definition session_auth ::
    "(string \<Rightarrow> string + jsval) \<Rightarrow> string option \<Rightarrow> (string, string) jmap option \<Rightarrow> http_error + (string \<times> jsval) list" where
  "session_auth verify bearer cookies =
     (case session_token bearer cookies of
        None \<Rightarrow> Inl (Unauthorized ''Unauthorized'')
      | Some t \<Rightarrow> (case verify t of Inl _ \<Rightarrow> Inl (Unauthorized ''Unauthorized'') | Inr p \<Rightarrow> jwt_validate p))"

definition user_id_of :: "(string \<times> jsval) list \<Rightarrow> string option" where
  "user_id_of u = (case jget u ''userId'' of Some (JStr i) \<Rightarrow> Some i | _ \<Rightarrow> None)"

text \<open>
  The result of the guard is the user of the request. The two other guards read a user nothing has set on
  their routes.
\<close>

definition run_guard :: "'db server_deps \<Rightarrow> route_guard option \<Rightarrow> http_request \<Rightarrow> http_error + string option" where
  "run_guard sd g rq =
     (case g of
        None \<Rightarrow> Inr None
      | Some SessionGuard \<Rightarrow> map_sum id user_id_of (session_auth (sd_verify sd) (rq_bearer rq) (rq_cookies rq))
      | Some StatsGuard \<Rightarrow> if stats_guard JUndef then Inr None else Inl (Forbidden ''Forbidden resource'')
      | Some AdminGuard \<Rightarrow> if admin_guard JUndef then Inr None else Inl (Forbidden ''Forbidden resource''))"

section \<open>Handlers\<close>

text \<open>What a handler hands back: the exception or the reply, the effects on the response, the state.\<close>

type_synonym 'db handled_request = "(http_thrown + reply) \<times> res_effect list \<times> 'db server_state"

definition calls_result ::
    "'db server_state \<Rightarrow> ('a \<Rightarrow> reply) \<Rightarrow> (http_error + 'a) \<times> calls_state \<Rightarrow> 'db handled_request" where
  "calls_result s f r = (map_sum nest_thrown f (fst r), [], s\<lparr>sv_calls := snd r\<rparr>)"

fun thrown_by_auth :: "auth_error \<Rightarrow> http_thrown" where
  "thrown_by_auth (AuthHttp e) = nest_thrown e"
| "thrown_by_auth (AuthOther m) = ErrorThrown m"

fun thrown_by_failed :: "http_error + string \<Rightarrow> http_thrown" where
  "thrown_by_failed (Inl e) = nest_thrown e"
| "thrown_by_failed (Inr m) = ErrorThrown m"

definition query_param :: "http_request \<Rightarrow> string \<Rightarrow> query_val" where
  "query_param rq k =
     (case rq_query rq k of
        JStr t \<Rightarrow> QText t
      | JArr ts \<Rightarrow> QList (map (\<lambda>t. case t of JStr s \<Rightarrow> s | _ \<Rightarrow> []) ts)
      | _ \<Rightarrow> QNone)"

fun handle_calls ::
    "'db server_deps \<Rightarrow> handler \<Rightarrow> http_request \<Rightarrow> string \<Rightarrow> string option \<Rightarrow> 'db server_state \<Rightarrow> 'db handled_request" where
  "handle_calls sd HCallCreate rq k user s = calls_result s CallReply (http_create (rq_body rq) user (sv_calls s))"
| "handle_calls sd HCallMine rq k user s =
     calls_result s CallListReply (http_listMine (rq_query rq ''status'') user (sv_calls s), sv_calls s)"
| "handle_calls sd HCallGet rq k user s = calls_result s CallReply (http_get k user (sv_calls s), sv_calls s)"
| "handle_calls sd HCallInvite rq k user s = calls_result s CallReply (http_invite k (rq_body rq) user (sv_calls s))"
| "handle_calls sd HCallAccept rq k user s = calls_result s CallReply (http_accept k user (sv_calls s))"
| "handle_calls sd HCallJoin rq k user s = calls_result s CallReply (http_join k user (sv_calls s))"
| "handle_calls sd HCallEnd rq k user s = calls_result s CallReply (http_end k user (sv_calls s))"
| "handle_calls sd HCallTurn rq k user s =
     calls_result s TurnReply (http_turnCredentials (sd_hmac sd) (sd_turn sd) k user (sv_calls s))"
| "handle_calls sd HCallSfu rq k user s = calls_result s SfuReply (http_sfuToken (sd_lk sd) (sd_sfu sd) k user (sv_calls s))"
| "handle_calls sd HCallEvents rq k user s = calls_result s EventsReply (http_eventsFor k user (sv_calls s), sv_calls s)"
| "handle_calls sd h rq k user s = (Inl OtherThrown, [], s)"

fun handle_auth ::
    "'db server_deps \<Rightarrow> handler \<Rightarrow> http_request \<Rightarrow> string option \<Rightarrow> 'db server_state \<Rightarrow> 'db handled_request" where
  "handle_auth sd HProviders rq user s = (Inr (ProvidersReply (listProviders (sd_auth sd))), [], s)"
| "handle_auth sd HGoogleStart rq user s =
     (let (r, effs) = googleStart (sd_auth sd) (rq_bytes rq) (query_param rq ''returnTo'')
      in (map_sum thrown_by_auth (\<lambda>_. SentReply) r, effs, s))"
| "handle_auth sd HGoogleCallback rq user s =
     (let (effs, a) = googleCallback (sd_auth sd) (query_param rq ''code'') (query_param rq ''state'')
                        (query_param rq ''error'') (rq_cookies rq) (sv_auth s)
      in (Inr SentReply, effs, s\<lparr>sv_auth := a\<rparr>))"
| "handle_auth sd HGuestLogin rq user s =
     (let (r, effs, a) = anonymousLogin (sd_auth sd) (sd_zod sd) (sd_to36 sd) (rq_body rq) (sv_auth s)
      in (map_sum thrown_by_auth LoginReply r, effs, s\<lparr>sv_auth := a\<rparr>))"
| "handle_auth sd HLogout rq user s = (Inr OkReply, logout, s)"
| "handle_auth sd HMe rq user s = (map_sum thrown_by_auth ProfileReply (me (sd_auth sd) user (sv_auth s)), [], s)"
| "handle_auth sd HWsToken rq user s =
     (let (r, used) = wsToken (sd_sign_ws sd) (rq_bytes rq) (rq_now rq) user (sv_ws s)
      in (map_sum thrown_by_auth WsTokenReply r, [], s\<lparr>sv_ws := used\<rparr>))"
| "handle_auth sd h rq user s = (Inl OtherThrown, [], s)"

text \<open>\<open>PrometheusController.getMetrics\<close>: the text of the registry under its content type.\<close>

definition getMetrics :: "string \<Rightarrow> reply \<times> res_effect list" where
  "getMetrics body = (TextReply body, [SetHeader ''Content-Type'' ''text/plain; version=0.0.4; charset=utf-8''])"

fun handle_other ::
    "'db server_deps \<Rightarrow> handler \<Rightarrow> http_request \<Rightarrow> string \<Rightarrow> 'db server_state \<Rightarrow> 'db handled_request" where
  "handle_other sd HHello rq k s = (Inr (TextReply getHello), [], s)"
| "handle_other sd HInfo rq k s = (Inr (InfoReply (getInfo (sd_namespace sd))), [], s)"
| "handle_other sd HHealth rq k s = (Inr (InfoReply (app_getHealth (rq_uptime rq) (sd_iso sd (rq_now rq)))), [], s)"
| "handle_other sd HMetrics rq k s = (let (r, effs) = getMetrics (sd_metrics_text sd (sv_metrics s)) in (Inr r, effs, s))"
| "handle_other sd HLivekit rq k s =
     (Inr (ProbeReply (fst (getHealth (sd_health sd) (sd_probe sd) (sd_rooms sd) (rq_now rq)))), [], s)"
| "handle_other sd HStats rq k s =
     (let (r, ops, logs) = postStats k (rq_body rq) JUndef
      in (map_sum nest_thrown StatsReply r, [], s\<lparr>sv_metrics := sv_metrics s @ ops\<rparr>))"
| "handle_other sd HFailed rq k s =
     (map_sum thrown_by_failed FailedReply (map_sum Inr id (listFailed (sd_failed sd))), [], s)"
| "handle_other sd h rq k s = (Inl OtherThrown, [], s)"

definition call_handlers :: "handler list" where
  "call_handlers = [HCallCreate, HCallMine, HCallGet, HCallInvite, HCallAccept, HCallJoin, HCallEnd, HCallTurn, HCallSfu,
     HCallEvents]"

definition auth_handlers :: "handler list" where
  "auth_handlers = [HProviders, HGoogleStart, HGoogleCallback, HGuestLogin, HLogout, HMe, HWsToken]"

definition run_handler ::
    "'db server_deps \<Rightarrow> handler \<Rightarrow> http_request \<Rightarrow> string \<Rightarrow> string option \<Rightarrow> 'db server_state \<Rightarrow> 'db handled_request" where
  "run_handler sd h rq k user s =
     (if h \<in> set call_handlers then handle_calls sd h rq k user s
      else if h \<in> set auth_handlers then handle_auth sd h rq user s
      else handle_other sd h rq k s)"

section \<open>The server\<close>

fun method_text :: "http_method \<Rightarrow> string" where
  "method_text GET = ''GET''"
| "method_text POST = ''POST''"

text \<open>A handler that writes the response itself sets its status by an effect.\<close>

fun effect_status :: "res_effect list \<Rightarrow> nat \<Rightarrow> nat" where
  "effect_status [] n = n"
| "effect_status (Redirect k url # effs) n = effect_status effs k"
| "effect_status (SendStatus k html # effs) n = effect_status effs k"
| "effect_status (e # effs) n = effect_status effs n"

definition answer_error :: "'db server_deps \<Rightarrow> http_request \<Rightarrow> http_thrown \<Rightarrow> res_effect list \<Rightarrow> http_answer" where
  "answer_error sd rq ex effs =
     (let (status, body, log) = catch_exception (sd_item_str sd) (Some (rq_url rq)) (rq_url rq)
                                  (method_text (rq_method rq)) (rq_now rq) ex
      in \<lparr>ha_status = status, ha_body = Inl body, ha_effects = effs\<rparr>)"

definition serve :: "'db server_deps \<Rightarrow> http_request \<Rightarrow> 'db server_state \<Rightarrow> http_answer \<times> 'db server_state" where
  "serve sd rq s =
     (case dispatch (rq_method rq) (rq_path rq) of
        None \<Rightarrow>
          (answer_error sd rq (nest_thrown (NotFound (''Cannot '' @ method_text (rq_method rq) @ '' '' @ rq_url rq))) [], s)
      | Some r \<Rightarrow>
          (case run_guard sd (rt_guard r) rq of
             Inl e \<Rightarrow> (answer_error sd rq (nest_thrown e) [], s)
           | Inr user \<Rightarrow>
               (case run_handler sd (rt_handler r) rq (route_param r (rq_path rq)) user s of
                  (Inl ex, effs, s') \<Rightarrow> (answer_error sd rq ex effs, s')
                | (Inr reply, effs, s') \<Rightarrow>
                    (\<lparr>ha_status = effect_status effs (rt_status r), ha_body = Inr reply, ha_effects = effs\<rparr>, s'))))"

end
