(* ===== verification/ServerProps.thy ===== *)
theory ServerProps
  imports Server
begin

text \<open>
  What the server promises whatever is requested of it: every answer of the service that holds data of a call
  goes to a participant of that call, a refused request changes no call, each component is changed by
  its own handlers only, and the invariants of the components hold in every state the server reaches.
\<close>

section \<open>The user of a request\<close>

lemma session_auth_error:
  "session_auth verify bearer cookies = Inl e \<Longrightarrow> http_status e = 401"
  by (auto simp: session_auth_def jwt_validate_def split: option.splits sum.splits if_splits)

text \<open>The user a handler behind the session guard sees.\<close>

definition request_user :: "'db server_deps \<Rightarrow> http_request \<Rightarrow> string option" where
  "request_user sd rq =
     (case session_auth (sd_verify sd) (rq_bearer rq) (rq_cookies rq) of
        Inl _ \<Rightarrow> None | Inr claims \<Rightarrow> user_id_of claims)"

lemma run_guard_session:
  "run_guard sd (Some SessionGuard) rq = Inr user \<Longrightarrow> user = request_user sd rq"
  by (auto simp: run_guard_def request_user_def split: sum.splits)

lemma run_guard_other [simp]:
  "run_guard sd None rq = Inr None"
  "run_guard sd (Some StatsGuard) rq = Inl (Forbidden ''Forbidden resource'')"
  "run_guard sd (Some AdminGuard) rq = Inl (Forbidden ''Forbidden resource'')"
  by (simp_all add: run_guard_def stats_guard_def resolveUserId_def admin_guard_def)

section \<open>Served requests\<close>

lemma answer_error_body [simp]:
  "ha_body (answer_error sd rq ex effs) = Inl \<lparr>eb_statusCode = resolveStatus ex,
     eb_message = resolveMessage (sd_item_str sd) ex, eb_path = rq_url rq, eb_timestamp = rq_now rq\<rparr>"
  "ha_status (answer_error sd rq ex effs) = resolveStatus ex"
  "ha_effects (answer_error sd rq ex effs) = effs"
  by (simp_all add: answer_error_def Let_def catch_exception_def)

lemma resolveStatus_nest [simp]: "resolveStatus (nest_thrown e) = http_status e"
  by (simp add: resolveStatus_def nest_thrown_def)

text \<open>The three ways a request goes: no route, refused by the guard, handled.\<close>

lemma serve_cases [consumes 1, case_names no_route refused handled]:
  assumes "serve sd rq s = (a, s')"
  obtains "dispatch (rq_method rq) (rq_path rq) = None" "s' = s" "is_ok (ha_body a) = False" "ha_status a = 404"
      "ha_effects a = []"
  | r e where "dispatch (rq_method rq) (rq_path rq) = Some r" "run_guard sd (rt_guard r) rq = Inl e" "s' = s"
      "is_ok (ha_body a) = False" "ha_status a = http_status e" "ha_effects a = []"
  | r user res effs where "dispatch (rq_method rq) (rq_path rq) = Some r" "run_guard sd (rt_guard r) rq = Inr user"
      "run_handler sd (rt_handler r) rq (route_param r (rq_path rq)) user s = (res, effs, s')"
      "is_ok (ha_body a) = is_ok res" "ha_effects a = effs"
      "\<And>reply. ha_body a = Inr reply \<longleftrightarrow> res = Inr reply"
proof (cases "dispatch (rq_method rq) (rq_path rq)")
  case None
  then show thesis using assms that(1) by (auto simp: serve_def)
next
  case (Some r)
  show thesis
  proof (cases "run_guard sd (rt_guard r) rq")
    case (Inl e)
    then show thesis using assms Some that(2) by (auto simp: serve_def)
  next
    case (Inr user)
    obtain res effs t where run:
      "run_handler sd (rt_handler r) rq (route_param r (rq_path rq)) user s = (res, effs, t)"
      using prod_cases3 by blast
    show thesis
      by (rule that(3) [OF Some Inr, of res effs])
        (use assms run Some Inr in \<open>cases res; auto simp: serve_def\<close>)+
  qed
qed

definition same_calls :: "calls_state \<Rightarrow> calls_state \<Rightarrow> bool" where
  "same_calls s s' \<longleftrightarrow> cs_calls s' = cs_calls s \<and> cs_codes s' = cs_codes s \<and> cs_events s' = cs_events s
     \<and> cs_nextId s' = cs_nextId s"

lemma same_calls_refl [simp]: "same_calls s s"
  by (simp add: same_calls_def)

lemma same_calls_env [simp]: "same_calls s (s\<lparr>cs_env := e\<rparr>)"
  by (simp add: same_calls_def)

section \<open>Results of the service's operations\<close>

text \<open>The call a successful operation hands back is the stored one, with the user as a participant.\<close>

definition hands_back :: "string \<Rightarrow> (call_error + call) \<times> calls_state \<Rightarrow> bool" where
  "hands_back u r \<longleftrightarrow>
     (case r of (Inl e, s') \<Rightarrow> True
      | (Inr c, s') \<Rightarrow> jget (cs_calls s') (c_id c) = Some c \<and> isParticipant c u)"

lemma hands_backI:
  assumes "\<And>c s'. r = (Inr c, s') \<Longrightarrow> jget (cs_calls s') (c_id c) = Some c \<and> isParticipant c u"
  shows "hands_back u r"
  using assms by (cases r) (auto simp: hands_back_def split: sum.split)

lemma getCall_stored:
  assumes "calls_ok s" and "getCall k s = Inr c"
  shows "jget (cs_calls s) (c_id c) = Some c" and "c_id c = k" and "jget (cs_calls s) k = Some c"
  using at_callI [OF assms] at_call_facts(1) [OF at_callI [OF assms]] by (simp_all add: at_call_def)

lemma isParticipant_upd:
  "(\<And>p. p_userId (f p) = p_userId p) \<Longrightarrow>
   isParticipant (c\<lparr>c_participants := upd_participant u f (c_participants c)\<rparr>) v = isParticipant c v"
  by (simp add: isParticipant_iff ids_upd_participant del: set_map)

lemma isParticipant_start:
  "isParticipant (c\<lparr>c_status := st, c_startedAt := t\<rparr>) v = isParticipant c v"
  "isParticipant (c\<lparr>c_status := st, c_endedAt := t, c_endedBy := w\<rparr>) v = isParticipant c v"
  by (simp_all add: isParticipant_def)

lemma create_hands_back:
  assumes "calls_ok s"
  shows "hands_back (ci_creatorId inp) (createCall inp s)"
proof (rule hands_backI)
  fix c s' assume "createCall inp s = (Inr c, s')"
  note ok = create_ok [OF assms this]
  show "jget (cs_calls s') (c_id c) = Some c \<and> isParticipant c (ci_creatorId inp)"
    using ok(1, 4) add_new_spec [of "[ci_creatorId inp]" "or_default (ci_invitees inp) []"]
    by (simp add: at_call_def isParticipant_iff del: set_map)
qed

lemma invite_hands_back:
  assumes "calls_ok s"
  shows "hands_back u (invite k u i s)"
proof (rule hands_backI)
  fix c s' assume run: "invite k u i s = (Inr c, s')"
  then obtain c0 where get: "getCall k s = Inr c0" and p: "isParticipant c0 u"
    and c: "c = fst (inviteInternal c0 i s)" and s': "s' = snd (inviteInternal c0 i s)"
    by (auto simp: invite_def split_def Let_def split: sum.splits if_splits)
  have "isParticipant c u"
    using p inviteInternal_ids [of c0 i s] by (auto simp: c isParticipant_iff simp del: set_map)
  moreover have "jget (cs_calls s') (c_id c) = Some c"
    using getCall_stored [OF assms get] by (auto simp: c s' inviteInternal_def split_def Let_def)
  ultimately show "jget (cs_calls s') (c_id c) = Some c \<and> isParticipant c u" by simp
qed

lemma accept_hands_back: "calls_ok s \<Longrightarrow> hands_back u (accept k u s)"
  using requireParticipant_ok [of _ u]
  by (intro hands_backI)
    (fastforce simp: accept_def split_def Let_def isParticipant_upd isParticipant_start
      dest: getCall_stored split: sum.splits if_splits)

lemma join_hands_back: "calls_ok s \<Longrightarrow> hands_back u (join k u s)"
  using requireParticipant_ok [of _ u]
  by (intro hands_backI)
    (fastforce simp: join_def joinAsLinkParticipant_def split_def Let_def isParticipant_def
      dest: getCall_stored split: sum.splits if_splits)

lemma end_hands_back: "calls_ok s \<Longrightarrow> hands_back u (end_call k u s)"
  by (intro hands_backI)
    (auto simp: end_call_def split_def Let_def isParticipant_start
      dest: getCall_stored split: sum.splits if_splits)

section \<open>Who may read an answer\<close>

definition member_of :: "calls_state \<Rightarrow> string \<Rightarrow> string \<Rightarrow> bool" where
  "member_of s u k = (case jget (cs_calls s) k of None \<Rightarrow> False | Some c \<Rightarrow> isParticipant c u)"

text \<open>
  Each reply that holds data of calls is for the participants of these calls, in the state it leaves. Events, TURN
  credentials and SFU tokens are those of the call the request names; media credentials are for a call that has
  not ended, and the TURN credential is signed for the user and that call.
\<close>

fun readable_by :: "'db server_deps \<Rightarrow> calls_state \<Rightarrow> string \<Rightarrow> string \<Rightarrow> reply \<Rightarrow> bool" where
  "readable_by sd s k u (CallReply c) = (jget (cs_calls s) (c_id c) = Some c \<and> isParticipant c u)"
| "readable_by sd s k u (CallListReply items) = list_all (\<lambda>i. member_of s u (li_id i)) items"
| "readable_by sd s k u (EventsReply evs) =
     (\<exists>c. getCallByIdOrCode k s = Inr c \<and> isParticipant c u \<and> list_all (\<lambda>e. ev_callId e = c_id c) evs)"
| "readable_by sd s k u (TurnReply t) =
     (\<exists>c expiry. getCallByIdOrCode k s = Inr c \<and> isParticipant c u \<and> c_status c \<noteq> Ended
        \<and> tc_username t = u @ '':'' @ show_int expiry
        \<and> tc_credential t = sd_hmac sd (turn_secret (sd_turn sd)) (u @ '':'' @ c_id c @ '':'' @ show_int expiry))"
| "readable_by sd s k u (SfuReply t) =
     (\<exists>c. getCallByIdOrCode k s = Inr c \<and> isParticipant c u \<and> c_status c \<noteq> Ended \<and> st_userId t = u \<and> st_callId t = c_id c)"
| "readable_by sd s k u r = True"

fun call_data :: "reply \<Rightarrow> bool" where
  "call_data (CallReply _) = True"
| "call_data (CallListReply _) = True"
| "call_data (EventsReply _) = True"
| "call_data (TurnReply _) = True"
| "call_data (SfuReply _) = True"
| "call_data _ = False"

lemma answer_service_Inr [simp]: "answer (of_service r) = Inr c \<longleftrightarrow> r = Inr c"
  by (cases r) (simp_all add: answer_def of_service_def)

lemma answer_Inr [simp]: "answer r = Inr x \<longleftrightarrow> r = Inr x"
  by (cases r) (simp_all add: answer_def)

lemma on_call_Inr:
  assumes run: "on_call act i user s = (Inr c, s')"
  obtains k u where "user = Some u" "act k u s = (Inr c, s')"
proof -
  from on_call_cases [of act i user s] run obtain k u where "user = Some u"
    and "on_call act i user s = (answer (of_service (fst (act k u s))), snd (act k u s))" by auto
  with run that [of u k] show thesis by (metis answer_service_Inr prod.collapse prod.inject)
qed

lemma on_call_readable:
  assumes "on_call act i user s = (Inr c, s')" and "\<And>k u. hands_back u (act k u s)"
  shows "\<exists>u. user = Some u \<and> readable_by sd s' i u (CallReply c)"
proof -
  from assms(1) obtain k u where "user = Some u" "act k u s = (Inr c, s')" by (rule on_call_Inr)
  with assms(2) [of u k] show ?thesis by (simp add: hands_back_def)
qed

lemma create_readable:
  assumes "calls_ok s" and "http_create body user s = (Inr c, s')"
  shows "\<exists>u. user = Some u \<and> readable_by sd s' i u (CallReply c)"
  using http_create_cases [of body user s] assms(2) create_hands_back [OF assms(1)]
  by (fastforce simp: hands_back_def prod_eq_iff split_def split: sum.splits)

lemma invite_readable:
  assumes "calls_ok s" and "http_invite i body user s = (Inr c, s')"
  shows "\<exists>u. user = Some u \<and> readable_by sd s' i u (CallReply c)"
proof -
  from assms(2) obtain inv where "on_call (\<lambda>k u. invite k u inv) i user s = (Inr c, s')"
    by (auto simp: http_invite_def split: sum.splits)
  then show ?thesis by (rule on_call_readable) (rule invite_hands_back [OF assms(1)])
qed

lemma stored_member: "calls_ok s \<Longrightarrow> getCallByIdOrCode i s = Inr c \<Longrightarrow> jget (cs_calls s) (c_id c) = Some c"
  using code_lookup_live [of s i c] store_ok_callD [of s i c]
  by (auto simp: getCallByIdOrCode_def calls_ok_def split: option.splits)

lemma get_readable:
  assumes "calls_ok s" and "http_get i user s = Inr c"
  shows "\<exists>u. user = Some u \<and> readable_by sd s i u (CallReply c)"
  using assms stored_member [OF assms(1)]
  by (cases "member_call i user s") (auto simp: http_get_def member_call_Inr)

lemma events_readable:
  assumes "calls_ok s" and "http_eventsFor i user s = Inr evs"
  shows "\<exists>u. user = Some u \<and> readable_by sd s i u (EventsReply evs)"
  using assms stored_member [OF assms(1)]
  by (cases "member_call i user s")
    (auto simp: http_eventsFor_def member_call_Inr list_all_iff forCall_def)

lemma list_readable:
  assumes "calls_ok s" and "http_listMine st user s = Inr items"
  shows "\<exists>u. user = Some u \<and> readable_by sd s i u (CallListReply items)"
proof -
  from assms(2) obtain u f where user: "user = Some u" and items: "items = map toListItem (listForUser u f s)"
    by (auto simp: http_listMine_def res_bind_Inr)
  have wf: "jwf (cs_calls s)" using assms(1) by (simp add: calls_ok_def store_ok_def)
  have "member_of s u (li_id (toListItem c))" if "c \<in> set (listForUser u f s)" for c
  proof -
    from that wf obtain k where k: "jget (cs_calls s) k = Some c" and p: "isParticipant c u"
      by (auto simp: listForUser_def jvals_in)
    have "c_id c = k" using assms(1) k store_ok_callD [of s k c] by (simp add: calls_ok_def)
    then show ?thesis using k p by (simp add: member_of_def toListItem_def)
  qed
  then show ?thesis using user by (simp add: items list_all_iff)
qed

lemma lookup_env [simp]: "getCallByIdOrCode i (s\<lparr>cs_env := e\<rparr>) = getCallByIdOrCode i s"
  by (simp add: getCallByIdOrCode_def getCallByRoomCode_def split: option.split)

lemma turn_readable:
  assumes "http_turnCredentials (sd_hmac sd) (sd_turn sd) i user s = (Inr t, s')"
  shows "\<exists>u. user = Some u \<and> readable_by sd s' i u (TurnReply t)"
  using assms
  by (auto simp: http_turnCredentials_def generateCredentials_def turn_signed_text_def media_call_Inr split_def Let_def
      split: sum.splits)

lemma sfu_readable:
  assumes run: "http_sfuToken lk cfg i user s = (Inr t, s')"
  shows "\<exists>u. user = Some u \<and> readable_by sd s' i u (SfuReply t)"
proof -
  from run obtain c u where m: "media_call i user s = Inr (c, u)"
    by (auto simp: http_sfuToken_def split: sum.splits)
  with run have iss: "fst (issueToken lk cfg (c_id c) u (cs_env s)) = Inr t"
    and s': "s' = s\<lparr>cs_env := snd (issueToken lk cfg (c_id c) u (cs_env s))\<rparr>"
    by (cases "fst (issueToken lk cfg (c_id c) u (cs_env s))"; auto simp: http_sfuToken_def split_def Let_def answer_def)+
  from iss have "st_callId t = c_id c" "st_userId t = u"
    by (auto simp: issueToken_def Let_def split_def split: if_splits)
  with m show ?thesis by (auto simp: media_call_Inr s')
qed

lemma move_readable:
  assumes "calls_ok s"
  shows "http_accept i user s = (Inr c, s') \<Longrightarrow> \<exists>u. user = Some u \<and> readable_by sd s' i u (CallReply c)"
    and "http_join i user s = (Inr c, s') \<Longrightarrow> \<exists>u. user = Some u \<and> readable_by sd s' i u (CallReply c)"
    and "http_end i user s = (Inr c, s') \<Longrightarrow> \<exists>u. user = Some u \<and> readable_by sd s' i u (CallReply c)"
  unfolding http_accept_def http_join_def http_end_def
  by (rule on_call_readable, assumption, rule accept_hands_back join_hands_back end_hands_back, rule assms)+

lemmas readable_results = move_readable create_readable invite_readable get_readable events_readable list_readable turn_readable
  sfu_readable

text \<open>One handler of the calls: whoever gets data of a call is the user of the session, and a participant.\<close>

lemma calls_result_Inr:
  assumes "calls_result s f r = (Inr reply, effs, s')"
  obtains x where "r = (Inr x, sv_calls s')" "reply = f x"
  using assms by (cases r; cases "fst r") (auto simp: calls_result_def)

lemma handle_calls_readable:
  assumes ok: "calls_ok (sv_calls s)" and run: "handle_calls sd h rq k user s = (Inr reply, effs, s')"
  shows "\<exists>u. user = Some u \<and> readable_by sd (sv_calls s') k u reply"
proof -
  note results = readable_results(1-8) [OF ok] turn_readable sfu_readable
  show ?thesis
    using run
    by (cases h) (auto elim!: calls_result_Inr dest!: results simp del: readable_by.simps)
qed

lemma map_sum_Inr: "map_sum f g r = Inr y \<longleftrightarrow> (\<exists>x. r = Inr x \<and> y = g x)"
  by (cases r) auto

lemma other_no_call_data:
  "handle_auth sd h rq user s = (Inr reply, effs, s') \<Longrightarrow> \<not> call_data reply"
  "handle_other sd h rq k s = (Inr reply, effs, s') \<Longrightarrow> \<not> call_data reply"
  by (cases h; auto simp: split_def Let_def map_sum_Inr getMetrics_def)+

section \<open>What a request changes\<close>

text \<open>The handlers that may change a call, and those that may change an account.\<close>

definition call_writers :: "handler list" where
  "call_writers = [HCallCreate, HCallInvite, HCallAccept, HCallJoin, HCallEnd]"

definition account_writers :: "handler list" where
  "account_writers = [HGoogleCallback, HGuestLogin]"

lemma of_service_ok [simp]: "is_ok (of_service r) = is_ok r"
  by (cases r) (simp_all add: of_service_def)

lemma on_call_keeps:
  assumes "\<And>k u. \<not> is_ok (fst (act k u s)) \<Longrightarrow> snd (act k u s) = s"
  shows "same_calls s (snd (on_call act i user s)) \<or> is_ok (fst (on_call act i user s)) \<and> (\<exists>u. user = Some u)"
  using on_call_cases [of act i user s]
proof (elim disjE exE conjE)
  fix c u assume "on_call act i user s = (answer (of_service (fst (act (c_id c) u s))), snd (act (c_id c) u s))"
    and "user = Some u"
  then show ?thesis using assms [of "c_id c" u] by (cases "is_ok (fst (act (c_id c) u s))") auto
qed simp

lemma failed_keeps:
  "\<not> is_ok (fst (invite k u i s)) \<Longrightarrow> snd (invite k u i s) = s"
  "\<not> is_ok (fst (accept k u s)) \<Longrightarrow> snd (accept k u s) = s"
  "\<not> is_ok (fst (join k u s)) \<Longrightarrow> snd (join k u s) = s"
  "\<not> is_ok (fst (end_call k u s)) \<Longrightarrow> snd (end_call k u s) = s"
  using failed_others [where k = k and u = u and s = s] by (metis is_ok.elims(3))+

lemma create_keeps_calls:
  "same_calls s (snd (http_create body user s)) \<or> is_ok (fst (http_create body user s)) \<and> (\<exists>u. user = Some u)"
proof -
  have "same_calls s (snd (createCall inp s))" if "\<not> is_ok (fst (createCall inp s))" for inp
  proof -
    from that obtain e where "fst (createCall inp s) = Inl e" by (metis is_ok.elims(3))
    then show ?thesis using failed_create by (simp add: same_calls_def)
  qed
  note keeps = this
  from http_create_cases [of body user s] show ?thesis
  proof (elim disjE exE conjE)
    fix inp assume "http_create body user s = (answer (of_service (fst (createCall inp s))), snd (createCall inp s))"
      and "user = Some (ci_creatorId inp)"
    then show ?thesis using keeps [of inp] by (cases "is_ok (fst (createCall inp s))") auto
  qed simp
qed

lemma invite_keeps_calls:
  "same_calls s (snd (http_invite i body user s)) \<or> is_ok (fst (http_invite i body user s)) \<and> (\<exists>u. user = Some u)"
proof (cases "parseInviteCallDto body")
  case (Inr inv)
  show ?thesis
    unfolding http_invite_def Inr sum.case by (rule on_call_keeps) (rule failed_keeps(1))
qed (simp add: http_invite_def)

lemma move_keeps_calls:
  "same_calls s (snd (http_accept i user s)) \<or> is_ok (fst (http_accept i user s)) \<and> (\<exists>u. user = Some u)"
  "same_calls s (snd (http_join i user s)) \<or> is_ok (fst (http_join i user s)) \<and> (\<exists>u. user = Some u)"
  "same_calls s (snd (http_end i user s)) \<or> is_ok (fst (http_end i user s)) \<and> (\<exists>u. user = Some u)"
  unfolding http_accept_def http_join_def http_end_def
  by (rule on_call_keeps, erule failed_keeps)+

lemma media_keeps_calls:
  "same_calls s (snd (http_turnCredentials hmac cfg i user s))" "same_calls s (snd (http_sfuToken lk scfg i user s))"
  by (auto simp: http_turnCredentials_def http_sfuToken_def split_def Let_def split: sum.split)

lemma calls_result_parts:
  "calls_result s f r = (res, effs, s') \<Longrightarrow>
   is_ok res = is_ok (fst r) \<and> effs = [] \<and> s' = s\<lparr>sv_calls := snd r\<rparr>"
  by (auto simp: calls_result_def)

lemma calls_result_frame:
  assumes "calls_result s f r = (res, effs, s')"
    and "same_calls (sv_calls s) (snd r) \<or> h \<in> set call_writers \<and> is_ok (fst r) \<and> (\<exists>u. user = Some u)"
  shows "effs = [] \<and> sv_auth s' = sv_auth s \<and> sv_ws s' = sv_ws s \<and> sv_metrics s' = sv_metrics s
    \<and> (same_calls (sv_calls s) (sv_calls s') \<or> h \<in> set call_writers \<and> is_ok res \<and> (\<exists>u. user = Some u))"
  using assms(2) calls_result_parts [OF assms(1)] by simp

lemma writers [simp]:
  "HCallCreate \<in> set call_writers" "HCallInvite \<in> set call_writers" "HCallAccept \<in> set call_writers"
  "HCallJoin \<in> set call_writers" "HCallEnd \<in> set call_writers"
  by (simp_all add: call_writers_def)

lemma handle_calls_frame:
  assumes "handle_calls sd h rq k user s = (res, effs, s')"
  shows "effs = [] \<and> sv_auth s' = sv_auth s \<and> sv_ws s' = sv_ws s \<and> sv_metrics s' = sv_metrics s
    \<and> (same_calls (sv_calls s) (sv_calls s') \<or> h \<in> set call_writers \<and> is_ok res \<and> (\<exists>u. user = Some u))"
  using assms
  apply (cases h)
  apply (simp_all only: handle_calls.simps)
  apply ((rule calls_result_frame, assumption,
      (simp add: create_keeps_calls invite_keeps_calls move_keeps_calls media_keeps_calls; fail)) | fastforce)+
  done

lemma handle_auth_frame:
  assumes "handle_auth sd h rq user s = (res, effs, s')"
  shows "sv_calls s' = sv_calls s \<and> sv_metrics s' = sv_metrics s
    \<and> (sv_auth s' = sv_auth s \<or> h \<in> set account_writers)
    \<and> (sv_ws s' = sv_ws s \<or> h = HWsToken \<and> is_ok res \<and> (\<exists>u. user = Some u))"
  using assms by (cases h) (auto simp: split_def Let_def account_writers_def wsToken_def split: option.splits)

lemma handle_other_frame:
  assumes "handle_other sd h rq k s = (res, effs, s')"
  shows "sv_calls s' = sv_calls s \<and> sv_auth s' = sv_auth s \<and> sv_ws s' = sv_ws s \<and> (sv_metrics s' = sv_metrics s \<or> h = HStats)"
  using assms by (cases h) (auto simp: split_def Let_def getMetrics_def)

lemma run_handler_frame:
  assumes "run_handler sd h rq k user s = (res, effs, s')"
  shows "same_calls (sv_calls s) (sv_calls s') \<or> h \<in> set call_writers \<and> is_ok res \<and> (\<exists>u. user = Some u)"
    and "sv_auth s' = sv_auth s \<or> h \<in> set account_writers"
    and "sv_ws s' = sv_ws s \<or> h = HWsToken \<and> is_ok res \<and> (\<exists>u. user = Some u)"
    and "sv_metrics s' = sv_metrics s \<or> h = HStats"
  using assms handle_calls_frame [of sd h rq k user s res effs s'] handle_auth_frame [of sd h rq user s res effs s']
    handle_other_frame [of sd h rq k s res effs s']
  unfolding run_handler_def by (auto split: if_splits)

section \<open>Guards of the routes\<close>

lemma session_routes:
  "r \<in> set routes \<Longrightarrow> rt_guard r = Some SessionGuard \<longleftrightarrow> rt_handler r \<in> set (call_handlers @ [HLogout, HMe, HWsToken])"
proof -
  have "list_all (\<lambda>r. rt_guard r = Some SessionGuard \<longleftrightarrow> rt_handler r \<in> set (call_handlers @ [HLogout, HMe, HWsToken])) routes"
    by code_simp
  then show "r \<in> set routes \<Longrightarrow> ?thesis" by (auto simp: list_all_iff)
qed

lemma stats_route_guarded: "r \<in> set routes \<Longrightarrow> rt_handler r = HStats \<Longrightarrow> rt_guard r = Some StatsGuard"
proof -
  have "list_all (\<lambda>r. rt_handler r = HStats \<longrightarrow> rt_guard r = Some StatsGuard) routes" by code_simp
  then show "r \<in> set routes \<Longrightarrow> rt_handler r = HStats \<Longrightarrow> rt_guard r = Some StatsGuard" by (auto simp: list_all_iff)
qed

lemma call_routes_guarded:
  assumes "dispatch m path = Some r" and "rt_handler r \<in> set call_handlers"
  shows "rt_guard r = Some SessionGuard"
  using assms session_routes [of r] dispatch_Some [of m path r] by auto

lemma writers_are_call_handlers: "set call_writers \<subseteq> set call_handlers"
  by (simp add: call_writers_def call_handlers_def)

section \<open>Properties\<close>

text \<open>C4: whatever is requested, an answer that holds a call, a list of calls, events of a call, TURN
  credentials or an SFU token goes to a request with a valid session, and the user of that session is a
  participant of each call the answer tells of. Events and media credentials are those of the call named in the
  request; credentials are given for a call that has not ended only, and are made out to the user and that call.\<close>

theorem call_data_only_to_participants:
  assumes "calls_ok (sv_calls s)" and "serve sd rq s = (a, s')" and "ha_body a = Inr reply" and "call_data reply"
  shows "\<exists>u r. request_user sd rq = Some u \<and> dispatch (rq_method rq) (rq_path rq) = Some r
    \<and> readable_by sd (sv_calls s') (route_param r (rq_path rq)) u reply"
  using assms(2)
proof (cases rule: serve_cases)
  case (handled r user res effs)
  from handled(6) [of reply] assms(3) have res: "res = Inr reply" by simp
  show ?thesis
  proof (cases "rt_handler r \<in> set call_handlers")
    case True
    with handled(3) res have "handle_calls sd (rt_handler r) rq (route_param r (rq_path rq)) user s = (Inr reply, effs, s')"
      by (simp add: run_handler_def)
    from handle_calls_readable [OF assms(1) this] show ?thesis
      using run_guard_session [of sd rq user] handled(1,2) call_routes_guarded [OF handled(1) True] by auto
  next
    case False
    with handled(3) res have "\<not> call_data reply"
      by (auto simp: run_handler_def dest!: other_no_call_data split: if_splits)
    with assms(4) show ?thesis by simp
  qed
qed (use assms(3) in auto)

text \<open>C31: the calls, the room codes and the event log change only in a request to create a call, to invite to
  it, to accept, join or end it, that carries a valid session and is answered with success; accounts change
  only in the two sign-in handlers, the token store only when a signed-in user is given a token, and the
  metrics never: the route that would record them lets nobody pass.\<close>

theorem only_its_handlers_change:
  assumes run: "serve sd rq s = (a, s')"
  shows "sv_metrics s' = sv_metrics s
    \<and> (case dispatch (rq_method rq) (rq_path rq) of
         None \<Rightarrow> s' = s
       | Some r \<Rightarrow>
           (if rt_handler r \<in> set call_writers \<and> is_ok (ha_body a) \<and> request_user sd rq \<noteq> None then True
            else same_calls (sv_calls s) (sv_calls s'))
           \<and> (if rt_handler r \<in> set account_writers then True else sv_auth s' = sv_auth s)
           \<and> (if rt_handler r = HWsToken \<and> is_ok (ha_body a) \<and> request_user sd rq \<noteq> None then True
              else sv_ws s' = sv_ws s))"
  using run
proof (cases rule: serve_cases)
  case (handled r user res effs)
  note f = run_handler_frame [OF handled(3)]
  have r: "r \<in> set routes" using dispatch_Some [OF handled(1)] by simp
  have user: "user = request_user sd rq" if "rt_handler r \<in> set call_writers \<or> rt_handler r = HWsToken"
    using that session_routes [OF r] writers_are_call_handlers run_guard_session [of sd rq user] handled(2) by auto
  have "rt_handler r \<noteq> HStats" using stats_route_guarded [OF r] handled(2) by auto
  with f(4) have "sv_metrics s' = sv_metrics s" by simp
  then show ?thesis using f(1-3) user handled(1,4) by auto
qed auto

lemma session_user_id:
  "session_auth verify bearer cookies = Inr claims \<Longrightarrow> \<exists>u. user_id_of claims = Some u \<and> u \<noteq> []"
  by (auto simp: session_auth_def jwt_validate_def user_id_of_def split: option.splits sum.splits if_splits
      elim!: nonempty_str.elims)

text \<open>C9: a route that is not open lets nobody in without a session that verifies: the answer is a 401, no
  cookie is set and nothing changes; behind the guard there is always a user. The two routes with the
  guards of the statistics let nobody in at all, and a path that is no route is a 404.\<close>

theorem guards_enforced:
  "(let (a, s') = serve sd rq s
    in case dispatch (rq_method rq) (rq_path rq) of
         None \<Rightarrow> s' = s \<and> ha_status a = 404
       | Some r \<Rightarrow>
           (case rt_guard r of
              None \<Rightarrow> rt_handler r \<in> set open_handlers
            | Some SessionGuard \<Rightarrow>
                (case request_user sd rq of
                   None \<Rightarrow> s' = s \<and> ha_status a = 401 \<and> ha_effects a = []
                 | Some u \<Rightarrow> u \<noteq> [] \<and> run_guard sd (rt_guard r) rq = Inr (Some u))
            | Some _ \<Rightarrow> s' = s \<and> ha_status a = 403))"
proof (cases "dispatch (rq_method rq) (rq_path rq)")
  case None
  then show ?thesis by (simp add: serve_def)
next
  case (Some r)
  note r = dispatch_Some [OF Some]
  show ?thesis
  proof (cases "rt_guard r = Some SessionGuard")
    case True
    then show ?thesis
      using Some session_auth_error session_user_id
      by (cases "session_auth (sd_verify sd) (rq_bearer rq) (rq_cookies rq)")
        (fastforce simp: serve_def run_guard_def request_user_def split_def)+
  next
    case False
    then consider "rt_guard r = None" | "rt_guard r = Some StatsGuard" | "rt_guard r = Some AdminGuard"
      by (metis option.exhaust route_guard.exhaust)
    then show ?thesis using Some r open_routes [of r] by cases (simp_all add: serve_def split_def)
  qed
qed

section \<open>Reachable states\<close>

text \<open>A state of the server in which each component is well formed.\<close>

definition server_ok :: "('db \<Rightarrow> user list) \<Rightarrow> 'db server_state \<Rightarrow> bool" where
  "server_ok rows s \<longleftrightarrow> calls_ok (sv_calls s) \<and> users_ok (rows (au_db (sv_auth s))) \<and> jwf (sv_ws s)"

lemma calls_ok_env:
  "calls_ok s \<Longrightarrow> e_uuid e = e_uuid (cs_env s) \<Longrightarrow> n_uuid e = n_uuid (cs_env s) \<Longrightarrow> calls_ok (s\<lparr>cs_env := e\<rparr>)"
  by (auto simp: calls_ok_def store_ok_def log_ok_def uuid_ok_def view_def)

lemma media_keeps_ok:
  "calls_ok s \<Longrightarrow> calls_ok (snd (http_turnCredentials hmac cfg i user s))"
  "calls_ok s \<Longrightarrow> calls_ok (snd (http_sfuToken lk scfg i user s))"
  by (auto simp: http_turnCredentials_def http_sfuToken_def generateCredentials_def issueToken_def split_def Let_def
      intro!: calls_ok_env split: sum.split)

lemma on_call_ok:
  assumes "calls_ok s" and "\<And>k u. calls_ok (snd (act k u s))"
  shows "calls_ok (snd (on_call act i user s))"
  using on_call_cases [of act i user s] assms by auto

lemma http_keeps_ok:
  assumes "calls_ok s"
  shows "calls_ok (snd (http_create body user s))" "calls_ok (snd (http_invite i body user s))"
    "calls_ok (snd (http_accept i user s))" "calls_ok (snd (http_join i user s))" "calls_ok (snd (http_end i user s))"
proof -
  show "calls_ok (snd (http_create body user s))"
    using http_create_cases [of body user s] calls_ok_create [OF assms] assms by auto
  show "calls_ok (snd (http_invite i body user s))"
  proof (cases "parseInviteCallDto body")
    case (Inr inv)
    show ?thesis unfolding http_invite_def Inr sum.case by (rule on_call_ok) (use assms calls_ok_invite in auto)
  qed (simp add: http_invite_def assms)
  show "calls_ok (snd (http_accept i user s))" "calls_ok (snd (http_join i user s))" "calls_ok (snd (http_end i user s))"
    unfolding http_accept_def http_join_def http_end_def
    by (rule on_call_ok, rule assms, rule calls_ok_accept calls_ok_join calls_ok_end, rule assms)+
qed

lemma handle_calls_ok:
  assumes "server_ok rows s" and "handle_calls sd h rq k user s = (res, effs, s')"
  shows "server_ok rows s'"
proof -
  have "calls_ok (sv_calls s)" using assms(1) by (simp add: server_ok_def)
  note keeps = http_keeps_ok [OF this] media_keeps_ok [OF this]
  have "calls_ok (sv_calls s')"
    using assms(2) keeps \<open>calls_ok (sv_calls s)\<close> by (cases h) (auto simp: calls_result_def)
  then show ?thesis using handle_calls_frame [OF assms(2)] assms(1) by (simp add: server_ok_def)
qed

lemma sign_in_ok:
  assumes doc: "repo_documented rows (cx_repo cx)" and ok: "users_ok (rows (au_db a))"
  shows "users_ok (rows (au_db (snd (googleCallback cx code st err cookies a))))"
    and "users_ok (rows (au_db (snd (snd (anonymousLogin cx zod to36 body a)))))"
proof -
  have up: "users_ok (rows (au_db (snd (upsert_user cx p b))))" if "users_ok (rows (au_db b))" for p b
    using upsert_ok [OF doc that] by (simp add: upsert_user_def split_def Let_def)
  have c: "users_ok (rows (au_db (snd (completeOAuth cx name cd a))))" for name cd
  proof -
    have "au_db (snd (completeOAuth cx name cd a)) \<in> {au_db a} \<union> range (\<lambda>p. au_db (snd (upsert_user cx p a)))"
      by (auto simp: completeOAuth_def split_def split: option.split sum.split)
    then show ?thesis using up [OF ok] ok by auto
  qed
  have "au_db (snd (googleCallback cx code st err cookies a)) \<in> {au_db a} \<union> range (\<lambda>cd. au_db (snd (completeOAuth cx ''google'' cd a)))"
    unfolding googleCallback_def Let_def logOauthFailure_def split_def
    by (simp split: sum.split)
  then show "users_ok (rows (au_db (snd (googleCallback cx code st err cookies a))))" using c ok by auto
  have g: "users_ok (rows (au_db (snd (signInAnonymous cx u d b))))" if "users_ok (rows (au_db b))" for u d b
  proof -
    have "au_db (snd (signInAnonymous cx u d b)) = au_db (snd (upsert_user cx (anonymous_profile u d) b))"
      by (simp add: signInAnonymous_def split_def split: sum.split)
    then show ?thesis using up [OF that] by simp
  qed
  have "users_ok (rows (au_db (snd (signInAnonymous cx u d (a\<lparr>au_env := e\<rparr>)))))" for u d e
    by (rule g) (simp add: ok)
  then show "users_ok (rows (au_db (snd (snd (anonymousLogin cx zod to36 body a)))))"
    by (simp add: anonymousLogin_def split_def Let_def ok split: sum.split)
qed

lemma wsToken_wf: "jwf used \<Longrightarrow> jwf (snd (wsToken sign bytes now user used))"
  by (auto simp: wsToken_def ws_issue_def split_def Let_def split: option.split)

lemma handle_auth_ok:
  assumes doc: "repo_documented rows (cx_repo (sd_auth sd))" and ok: "server_ok rows s"
    and run: "handle_auth sd h rq user s = (res, effs, s')"
  shows "server_ok rows s'"
proof -
  have u: "users_ok (rows (au_db (sv_auth s)))" and w: "jwf (sv_ws s)" using ok by (simp_all add: server_ok_def)
  note keeps = sign_in_ok [OF doc u] wsToken_wf [OF w]
  have "users_ok (rows (au_db (sv_auth s'))) \<and> jwf (sv_ws s')"
    using run keeps u w by (cases h) (auto simp: split_def Let_def)
  then show ?thesis using handle_auth_frame [OF run] ok by (simp add: server_ok_def)
qed

lemma run_handler_ok:
  assumes doc: "repo_documented rows (cx_repo (sd_auth sd))" and ok: "server_ok rows s"
    and run: "run_handler sd h rq k user s = (res, effs, s')"
  shows "server_ok rows s'"
  using run handle_calls_ok [OF ok, of sd h rq k user res effs s'] handle_auth_ok [OF doc ok, of h rq user res effs s']
    handle_other_frame [of sd h rq k s res effs s'] ok
  unfolding run_handler_def server_ok_def by (auto split: if_splits)

text \<open>
  Requests are served one after the other: the handlers of the calls do not wait for anything, and the
  accesses of a sign-in to the database are taken as one step (\<open>SignInRace\<close> takes them apart).
\<close>

inductive server_step :: "'db server_deps \<Rightarrow> 'db server_state \<Rightarrow> http_request \<Rightarrow> 'db server_state \<Rightarrow> bool" for sd where
  step: "serve sd rq s = (a, s') \<Longrightarrow> server_step sd s rq s'"

inductive_cases server_stepE: "server_step sd s rq s'"

inductive server_reach :: "'db server_deps \<Rightarrow> 'db server_state \<Rightarrow> 'db server_state \<Rightarrow> bool" for sd s0 where
  start: "server_reach sd s0 s0"
| more: "server_reach sd s0 s \<Longrightarrow> server_step sd s rq s' \<Longrightarrow> server_reach sd s0 s'"

lemma server_step_ok:
  assumes doc: "repo_documented rows (cx_repo (sd_auth sd))" and ok: "server_ok rows s" and st: "server_step sd s rq s'"
  shows "server_ok rows s'"
proof -
  from st obtain a where "serve sd rq s = (a, s')" by (rule server_stepE)
  then show ?thesis by (cases rule: serve_cases) (use ok run_handler_ok [OF doc ok] in auto)
qed

text \<open>The server as it starts: no call, no WebSocket token, the accounts of the database.\<close>

definition boot :: "env \<Rightarrow> 'db auth_state \<Rightarrow> 'db server_state" where
  "boot e a = \<lparr>sv_calls = init_calls e, sv_auth = a, sv_ws = jempty, sv_metrics = []\<rparr>"

lemma boot_ok: "uuid_ok e \<Longrightarrow> users_ok (rows (au_db a)) \<Longrightarrow> server_ok rows (boot e a)"
  using calls_ok_init by (simp add: server_ok_def boot_def jwf_def jempty_def)

text \<open>C6: in every state the server reaches from its start, whatever the requests were and in whatever order,
  the store of the calls and its log are well formed and agree, and accounts have distinct ids, identities and
  e-mail addresses.\<close>

theorem server_invariant:
  assumes "server_reach sd (boot e a) s" and "repo_documented rows (cx_repo (sd_auth sd))"
    and "uuid_ok e" and "users_ok (rows (au_db a))"
  shows "store_ok (sv_calls s) \<and> log_ok (sv_calls s) \<and> users_ok (rows (au_db (sv_auth s)))"
proof -
  have "server_ok rows s"
    using assms(1)
  proof (induction rule: server_reach.induct)
    case start
    show ?case by (rule boot_ok) (rule assms(3,4))+
  next
    case (more s rq s')
    then show ?case by (blast intro: server_step_ok [OF assms(2)])
  qed
  then show ?thesis by (simp add: server_ok_def calls_ok_def)
qed

section \<open>A concrete server\<close>

definition demo_server_deps :: "(user list) server_deps" where
  "demo_server_deps =
     \<lparr>sd_auth = demo_ctx, sd_zod = zod_ref, sd_to36 = (\<lambda>r. ''0.k3v9zq''), sd_verify = demo_verify,
      sd_sign_ws = (\<lambda>c ttl. wt_sub c), sd_hmac = (\<lambda>k t. t),
      sd_turn = \<lparr>turn_secret = ''s'', turn_ttl = None, turn_urls_cfg = None\<rparr>,
      sd_lk = (\<lambda>k s r. tr_identity r), sd_sfu = demo_sfu, sd_failed = None,
      sd_health = health_config_of None None None None, sd_probe = None, sd_rooms = Inr 0,
      sd_namespace = ''/signaling'', sd_metrics_text = (\<lambda>ops. []), sd_item_str = (\<lambda>v. []), sd_iso = show_int\<rparr>"

definition demo_server :: "(user list) server_state" where
  "demo_server = \<lparr>sv_calls = demo_created, sv_auth = demo_auth, sv_ws = [], sv_metrics = []\<rparr>"

text \<open>A request with a bearer token, which the verifier of the instance reads as the id of its user.\<close>

definition demo_request :: "http_method \<Rightarrow> string \<Rightarrow> string option \<Rightarrow> http_request" where
  "demo_request m url token =
     \<lparr>rq_method = m, rq_path = segments url, rq_url = url, rq_query = (\<lambda>k. JUndef), rq_bearer = token,
      rq_cookies = None, rq_body = JUndef, rq_now = 0, rq_bytes = [], rq_uptime = NFin 1\<rparr>"

lemma demo_request_user: "u \<noteq> [] \<Longrightarrow> request_user demo_server_deps (demo_request m url (Some u)) = Some u"
  by (simp add: request_user_def demo_request_def demo_server_deps_def session_auth_def session_token_def demo_verify_def
      jwt_validate_def session_payload_def user_id_of_def)

lemma run_guard_request_user:
  "request_user sd rq = Some u \<Longrightarrow> run_guard sd (Some SessionGuard) rq = Inr (Some u)"
  by (auto simp: run_guard_def request_user_def split: sum.splits)

lemma demo_get_dispatch: "dispatch GET (segments ''/api/calls/u'') = Some route_get"
  by code_simp

lemma demo_get_served:
  "serve demo_server_deps (demo_request GET ''/api/calls/u'' (Some ''ben'')) demo_server =
     (\<lparr>ha_status = 200, ha_body = Inr (CallReply demo_call), ha_effects = []\<rparr>, demo_server)"
proof -
  let ?rq = "demo_request GET ''/api/calls/u'' (Some ''ben'')"
  have g: "run_guard demo_server_deps (Some SessionGuard) ?rq = Inr (Some ''ben'')"
    by (rule run_guard_request_user, rule demo_request_user) simp
  have k: "route_param route_get (segments ''/api/calls/u'') = ''u''" by code_simp
  have p: "isParticipant demo_call ''ben''" by (simp add: demo_call_def isParticipant_def)
  have "getCallByIdOrCode ''u'' demo_created = Inr demo_call"
    using demo_created_call by (simp add: getCallByIdOrCode_def)
  with p have "member_call ''u'' (Some ''ben'') demo_created = Inr demo_call" by (simp add: member_call_Inr)
  then have h: "http_get ''u'' (Some ''ben'') demo_created = Inr demo_call" by (simp add: http_get_def)
  have d: "dispatch (rq_method ?rq) (rq_path ?rq) = Some route_get"
    using demo_get_dispatch by (simp add: demo_request_def)
  have r: "rt_guard route_get = Some SessionGuard" "rt_handler route_get = HCallGet" "rt_status route_get = 200"
    by (simp_all add: route_get_def calls_route_def)
  have "run_handler demo_server_deps HCallGet ?rq (route_param route_get (rq_path ?rq)) (Some ''ben'') demo_server =
      (Inr (CallReply demo_call), [], demo_server)"
    using h k by (simp add: run_handler_def call_handlers_def calls_result_def demo_server_def demo_request_def)
  then show ?thesis using d g by (simp add: serve_def r)
qed

lemma demo_calls_ok: "calls_ok (sv_calls demo_server)"
  using calls_reach_ok [OF demo_reach(1) demo_uuid] by (simp add: demo_server_def)

lemma call_data_only_to_participants_witness:
  "\<exists>u r. request_user demo_server_deps (demo_request GET ''/api/calls/u'' (Some ''ben'')) = Some u
     \<and> dispatch GET (segments ''/api/calls/u'') = Some r
     \<and> readable_by demo_server_deps (sv_calls demo_server) (route_param r (segments ''/api/calls/u'')) u (CallReply demo_call)"
  using call_data_only_to_participants [OF demo_calls_ok demo_get_served, of "CallReply demo_call"]
  by (simp add: demo_request_def)

text \<open>The same server asked to end the call by somebody without a session.\<close>

lemma only_its_handlers_change_witness:
  "(let s' = snd (serve demo_server_deps (demo_request POST ''/api/calls/u/end'' None) demo_server)
    in same_calls demo_created (sv_calls s') \<and> sv_auth s' = demo_auth \<and> sv_metrics s' = [])"
proof -
  let ?rq = "demo_request POST ''/api/calls/u/end'' None"
  have "dispatch POST (segments ''/api/calls/u/end'') = Some route_end" by code_simp
  moreover have "request_user demo_server_deps ?rq = None"
    by (simp add: request_user_def session_auth_def session_token_def demo_request_def)
  moreover have "rt_handler route_end = HCallEnd" by (simp add: route_end_def calls_route_def)
  ultimately show ?thesis
    using only_its_handlers_change [of demo_server_deps ?rq demo_server, OF surjective_pairing]
    by (simp add: demo_request_def account_writers_def demo_server_def Let_def)
qed

lemma server_invariant_witness:
  "store_ok (sv_calls (snd (serve demo_server_deps (demo_request GET ''/api/calls/u'' (Some ''ben'')) (boot demo_env demo_auth))))"
proof -
  let ?rq = "demo_request GET ''/api/calls/u'' (Some ''ben'')"
  have "server_reach demo_server_deps (boot demo_env demo_auth) (snd (serve demo_server_deps ?rq (boot demo_env demo_auth)))"
    by (rule more [OF start step]) (rule surjective_pairing)
  from server_invariant [OF this, of "\<lambda>db. db"] show ?thesis
    using ref_repo_documented demo_uuid demo_users(1)
    by (simp add: demo_server_deps_def demo_ctx_def demo_auth_def)
qed

end
