(* ===== verification/RoomRegistry.thy ===== *)
theory RoomRegistry
  imports JsValue
begin

text \<open>
  The registry of sockets per call, \<open>src/src/signaling/room.registry.ts\<close>: a map from call ids to
  maps from socket ids to members. The reading of \<open>Date.now()\<close> is an argument of \<open>reg_join\<close>.
\<close>

record room_member =
  rm_socketId :: string
  rm_userId :: string
  rm_joinedAt :: int

type_synonym room = "(string, room_member) jmap"
type_synonym registry = "(string, room) jmap"

definition reg_join :: "string \<Rightarrow> string \<Rightarrow> string \<Rightarrow> int \<Rightarrow> registry \<Rightarrow> room_member \<times> registry" where
  "reg_join callId socketId userId now rooms =
     (let room = or_default (jget rooms callId) jempty;
          member = \<lparr>rm_socketId = socketId, rm_userId = userId, rm_joinedAt = now\<rparr>
      in (member, jset callId (jset socketId member room) rooms))"

text \<open>
  The loop visits the rooms in order and may delete the one it is at, which a JavaScript
  iterator permits: every room is visited once.
\<close>

fun reg_leave :: "string \<Rightarrow> registry \<Rightarrow> (string \<times> room_member) list \<times> registry" where
  "reg_leave socketId [] = ([], [])"
| "reg_leave socketId ((callId, members) # rs) =
     (let (out, rs') = reg_leave socketId rs
      in case jget members socketId of
           None \<Rightarrow> (out, (callId, members) # rs')
         | Some member \<Rightarrow>
             let members' = jdel socketId members
             in ((callId, member) # out, if length members' = 0 then rs' else (callId, members') # rs'))"

definition reg_members :: "string \<Rightarrow> registry \<Rightarrow> room_member list" where
  "reg_members callId rooms = jvals (or_default (jget rooms callId) [])"

definition reg_member :: "string \<Rightarrow> string \<Rightarrow> registry \<Rightarrow> room_member option" where
  "reg_member callId socketId rooms =
     (case jget rooms callId of None \<Rightarrow> None | Some room \<Rightarrow> jget room socketId)"

definition reg_hasMember :: "string \<Rightarrow> string \<Rightarrow> registry \<Rightarrow> bool" where
  "reg_hasMember callId userId rooms =
     (case jget rooms callId of
        None \<Rightarrow> False
      | Some room \<Rightarrow> list_ex (\<lambda>m. rm_userId m = userId) (jvals room))"

definition reg_isParticipant :: "string \<Rightarrow> string \<Rightarrow> registry \<Rightarrow> bool" where
  "reg_isParticipant callId userId rooms = reg_hasMember callId userId rooms"

definition reg_reset :: "registry \<Rightarrow> registry" where
  "reg_reset rooms = jempty"

section \<open>Invariant\<close>

text \<open>No empty room is kept, and a member is stored under its own socket id.\<close>

definition room_ok :: "room \<Rightarrow> bool" where
  "room_ok room \<longleftrightarrow> jwf room \<and> room \<noteq> [] \<and> (\<forall>sid m. jget room sid = Some m \<longrightarrow> rm_socketId m = sid)"

definition reg_ok :: "registry \<Rightarrow> bool" where
  "reg_ok rooms \<longleftrightarrow> jwf rooms \<and> (\<forall>callId room. jget rooms callId = Some room \<longrightarrow> room_ok room)"

lemma jset_not_Nil [simp]: "jset k v m \<noteq> []"
  unfolding jset_def by (cases m) auto

lemma reg_ok_reset: "reg_ok (reg_reset rooms)"
  by (simp add: reg_ok_def reg_reset_def jempty_def)

lemma reg_ok_join:
  assumes "reg_ok rooms"
  shows "reg_ok (snd (reg_join callId sid u now rooms))"
proof (cases "jget rooms callId")
  case None
  with assms show ?thesis
    by (auto simp: reg_ok_def reg_join_def Let_def room_ok_def jempty_def split: if_splits)
next
  case (Some room)
  with assms have "room_ok room" by (auto simp: reg_ok_def)
  with assms Some show ?thesis
    by (auto simp: reg_ok_def reg_join_def Let_def room_ok_def split: if_splits)
qed

text \<open>\<open>leave\<close>, room by room.\<close>

definition leave_room :: "string \<Rightarrow> room option \<Rightarrow> room option" where
  "leave_room sid r =
     (case r of None \<Rightarrow> None
      | Some room \<Rightarrow> (if jget room sid = None then Some room
                      else if jdel sid room = [] then None else Some (jdel sid room)))"

lemma keys_reg_leave: "set (map fst (snd (reg_leave sid rooms))) \<subseteq> set (map fst rooms)"
  proof (induction rooms)
  case (Cons r rs)
  obtain c ms where r: "r = (c, ms)" by fastforce
  have "set (map fst (snd (reg_leave sid (r # rs)))) \<subseteq> insert c (set (map fst (snd (reg_leave sid rs))))"
    by (cases "jget ms sid") (auto simp: r Let_def split_def)
  also have "\<dots> \<subseteq> insert c (set (map fst rs))" using Cons by blast
  finally show ?case by (simp only: r list.map fst_conv list.set)
qed simp

lemma jget_reg_leave:
  "jwf rooms \<Longrightarrow> jget (snd (reg_leave sid rooms)) k = leave_room sid (jget rooms k)"
proof (induction rooms)
  case Nil
  then show ?case by (simp add: leave_room_def)
next
  case (Cons r rs)
  obtain c ms where r: "r = (c, ms)" by fastforce
  have rest: "c \<notin> set (map fst rs)" "jwf rs" using Cons.prems by (simp_all add: r jwf_def)
  then have "c \<notin> set (map fst (snd (reg_leave sid rs)))" using keys_reg_leave by blast
  then have "jget (snd (reg_leave sid rs)) c = None"
    by (simp add: jget_None_iff jkeys_def del: set_map)
  with Cons.IH [OF rest(2)] show ?case
    by (auto simp: r Let_def split_def leave_room_def jget_def split: option.splits)
qed

lemma jwf_reg_leave: "jwf rooms \<Longrightarrow> jwf (snd (reg_leave sid rooms))"
proof (induction rooms)
  case (Cons r rs)
  obtain c ms where r: "r = (c, ms)" by fastforce
  have "c \<notin> set (map fst (snd (reg_leave sid rs)))"
    using Cons.prems keys_reg_leave [of sid rs] by (auto simp: r jwf_def)
  with Cons show ?case by (auto simp: r Let_def split_def jwf_def split: option.splits)
qed simp

lemma reg_ok_leave:
  assumes "reg_ok rooms"
  shows "reg_ok (snd (reg_leave sid rooms))"
  using assms
  by (auto simp: reg_ok_def jget_reg_leave jwf_reg_leave leave_room_def room_ok_def
      split: option.splits if_splits)


section \<open>Membership as an interface\<close>

text \<open>
  What the gateway needs of a registry: \<open>mem r k sid\<close> is the member a socket is in the room of
  a call. Joining sets one entry, leaving clears the socket everywhere and reports where it was.
\<close>

locale membership =
  fixes emp :: 'r
    and mem :: "'r \<Rightarrow> string \<Rightarrow> string \<Rightarrow> room_member option"
    and enter :: "string \<Rightarrow> string \<Rightarrow> string \<Rightarrow> int \<Rightarrow> 'r \<Rightarrow> 'r"
    and quit :: "string \<Rightarrow> 'r \<Rightarrow> (string \<times> room_member) list \<times> 'r"
    and ok :: "'r \<Rightarrow> bool"
  assumes mem_emp: "mem emp k sid = None"
    and mem_enter: "ok r \<Longrightarrow> mem (enter k sid u t r) k' sid' =
        (if k' = k \<and> sid' = sid then Some \<lparr>rm_socketId = sid, rm_userId = u, rm_joinedAt = t\<rparr>
         else mem r k' sid')"
    and mem_quit: "ok r \<Longrightarrow> mem (snd (quit sid r)) k' sid' = (if sid' = sid then None else mem r k' sid')"
    and quit_out: "ok r \<Longrightarrow> (k, m) \<in> set (fst (quit sid r)) \<longleftrightarrow> mem r k sid = Some m"
    and ok_emp: "ok emp"
    and ok_enter: "ok r \<Longrightarrow> ok (enter k sid u t r)"
    and ok_quit: "ok r \<Longrightarrow> ok (snd (quit sid r))"
begin

lemma quit_twice: "ok r \<Longrightarrow> fst (quit sid (snd (quit sid r))) = []"
  using quit_out [OF ok_quit [of r sid], where sid = sid] mem_quit [of r sid]
  by (cases "fst (quit sid (snd (quit sid r)))") auto

lemma enter_quit_other:
  "ok r \<Longrightarrow> sid' \<noteq> sid \<Longrightarrow> mem (snd (quit sid (enter k sid u t r))) k' sid' = mem r k' sid'"
  by (simp add: mem_quit ok_enter mem_enter)

lemma quit_only_own:
  "ok r \<Longrightarrow> (\<And>k m. mem r k sid = Some m \<Longrightarrow> k = k0) \<Longrightarrow> (k, m) \<in> set (fst (quit sid r)) \<Longrightarrow> k = k0"
  by (auto simp: quit_out)

end

lemma reg_member_join:
  "reg_member k' sid' (snd (reg_join k sid u t rooms)) =
     (if k' = k \<and> sid' = sid then Some \<lparr>rm_socketId = sid, rm_userId = u, rm_joinedAt = t\<rparr>
      else reg_member k' sid' rooms)"
  by (auto simp: reg_member_def reg_join_def Let_def jempty_def split: option.splits)

lemma reg_member_leave:
  assumes "jwf rooms"
  shows "reg_member k' sid' (snd (reg_leave sid rooms)) =
     (if sid' = sid then None else reg_member k' sid' rooms)"
proof (cases "jget rooms k'")
  case None
  with assms show ?thesis by (simp add: reg_member_def jget_reg_leave leave_room_def)
next
  case (Some room)
  have "jdel sid room = [] \<Longrightarrow> sid' \<noteq> sid \<Longrightarrow> jget room sid' = None"
    using jget_simps(3) [of sid room sid'] by simp
  with Some assms show ?thesis
    by (auto simp: reg_member_def jget_reg_leave leave_room_def split: option.splits)
qed

lemma reg_leave_out:
  "jwf rooms \<Longrightarrow> (k, m) \<in> set (fst (reg_leave sid rooms)) \<longleftrightarrow> reg_member k sid rooms = Some m"
proof (induction rooms)
  case Nil
  then show ?case by (simp add: reg_member_def)
next
  case (Cons r rs)
  obtain c ms where r: "r = (c, ms)" by fastforce
  have rest: "c \<notin> set (map fst rs)" "jwf rs" using Cons.prems by (simp_all add: r jwf_def)
  then have "reg_member c sid rs = None"
    by (simp add: reg_member_def jget_None_iff jkeys_def del: set_map split: option.split)
      (metis jget_None_iff jkeys_def option.distinct(1))
  with Cons.IH [OF rest(2)] show ?case
    by (auto simp: r Let_def split_def reg_member_def jget_def split: option.splits)
qed

lemma reg_ok_wf: "reg_ok rooms \<Longrightarrow> jwf rooms"
  by (simp add: reg_ok_def)

lemma reg_member_empty: "reg_member k sid jempty = None"
  by (simp add: reg_member_def)

interpretation rr: membership jempty "\<lambda>r k sid. reg_member k sid r"
    "\<lambda>k sid u t r. snd (reg_join k sid u t r)" reg_leave reg_ok
  by unfold_locales
    (simp_all add: reg_member_empty reg_member_join reg_member_leave reg_leave_out
      reg_ok_join reg_ok_leave reg_ok_wf reg_ok_reset [unfolded reg_reset_def])

text \<open>After a socket left, it is in no room, every other membership is as before, and the report
  lists exactly the rooms it was in, each with the member it was; a second leave reports
  nothing.\<close>

theorem registry_leave_spec:
  assumes "reg_ok rooms"
  shows "reg_ok (snd (reg_leave sid rooms))
    \<and> reg_member k sid' (snd (reg_leave sid rooms)) = (if sid' = sid then None else reg_member k sid' rooms)
    \<and> ((k, m) \<in> set (fst (reg_leave sid rooms)) \<longleftrightarrow> reg_member k sid rooms = Some m)
    \<and> fst (reg_leave sid (snd (reg_leave sid rooms))) = []"
  using rr.mem_quit [OF assms] rr.quit_out [OF assms] rr.quit_twice [OF assms] rr.ok_quit [OF assms]
  by simp

definition demo_rooms :: registry where
  "demo_rooms = snd (reg_join ''c2'' ''s1'' ''ana'' 6 (snd (reg_join ''c1'' ''s2'' ''ben'' 5
     (snd (reg_join ''c1'' ''s1'' ''ana'' 4 jempty)))))"

lemma demo_rooms_ok: "reg_ok demo_rooms"
  unfolding demo_rooms_def by (intro rr.ok_enter rr.ok_emp)

theorem registry_leave_spec_witness:
  "reg_member ''c1'' ''s1'' (snd (reg_leave ''s1'' demo_rooms)) = None
   \<and> reg_member ''c1'' ''s2'' (snd (reg_leave ''s1'' demo_rooms)) \<noteq> None"
proof -
  have "reg_member ''c1'' ''s2'' demo_rooms \<noteq> None"
    by (simp add: demo_rooms_def reg_member_join)
  with registry_leave_spec [OF demo_rooms_ok, of "''s1''"] show ?thesis by simp
qed

text \<open>Joining keeps the registry well formed and registers the socket in that room, replacing an
  earlier registration of the same socket (its time and user are overwritten); all other
  memberships stay.\<close>

theorem registry_join_spec:
  assumes "reg_ok rooms"
  shows "reg_ok (snd (reg_join k sid u t rooms))
    \<and> reg_member k' sid' (snd (reg_join k sid u t rooms)) =
        (if k' = k \<and> sid' = sid then Some (fst (reg_join k sid u t rooms)) else reg_member k' sid' rooms)
    \<and> fst (reg_join k sid u t rooms) = \<lparr>rm_socketId = sid, rm_userId = u, rm_joinedAt = t\<rparr>
    \<and> reg_hasMember k u (snd (reg_join k sid u t rooms))"
proof -
  let ?m = "\<lparr>rm_socketId = sid, rm_userId = u, rm_joinedAt = t\<rparr>"
  have "?m \<in> set (jvals (jset sid ?m room))" for room
  proof -
    have "(sid, ?m) \<in> set (jset sid ?m room)" by (rule jget_SomeD) simp
    then show ?thesis by (force simp: jvals_def)
  qed
  then have "reg_hasMember k u (snd (reg_join k sid u t rooms))"
    by (force simp: reg_hasMember_def reg_join_def Let_def list_ex_iff)
  then show ?thesis
    using rr.ok_enter [OF assms, of k sid u t] rr.mem_enter [OF assms]
    by (simp add: reg_join_def Let_def)
qed

theorem registry_join_spec_witness:
  "reg_member ''c1'' ''s1'' (snd (reg_join ''c1'' ''s1'' ''eve'' 9 demo_rooms))
     = Some \<lparr>rm_socketId = ''s1'', rm_userId = ''eve'', rm_joinedAt = 9\<rparr>
   \<and> reg_member ''c1'' ''s1'' demo_rooms = Some \<lparr>rm_socketId = ''s1'', rm_userId = ''ana'', rm_joinedAt = 4\<rparr>"
proof -
  have "reg_member ''c1'' ''s1'' demo_rooms = Some \<lparr>rm_socketId = ''s1'', rm_userId = ''ana'', rm_joinedAt = 4\<rparr>"
    by (simp add: demo_rooms_def reg_member_join)
  with registry_join_spec [OF demo_rooms_ok, of "''c1''" "''s1''" "''eve''" 9 "''c1''" "''s1''"] show ?thesis
    by simp
qed

end
