(* ===== verification/SignalLimit.thy ===== *)
theory SignalLimit
  imports KeyedLimit
begin

text \<open>
  The per-socket limiter of the signaling gateway, \<open>src/src/signaling/rate-limit.guard.ts\<close>: a
  fixed number of events per window. Times are milliseconds; the reading of \<open>Date.now()\<close> is
  an argument.
\<close>

definition SIGNALING_RATE_LIMIT_DEFAULT :: int where
  "SIGNALING_RATE_LIMIT_DEFAULT = 30"

definition SIGNALING_RATE_LIMIT_WINDOW_MS :: int where
  "SIGNALING_RATE_LIMIT_WINDOW_MS = 1000"

record token_bucket =
  tb_tokens :: int
  tb_refilledAt :: int

record limit_options =
  lo_capacity :: int
  lo_windowMs :: int

type_synonym guard_buckets = "(string, token_bucket) jmap"

definition guard_options :: "int option \<Rightarrow> int option \<Rightarrow> limit_options" where
  "guard_options capacity windowMs =
     \<lparr>lo_capacity = or_default capacity SIGNALING_RATE_LIMIT_DEFAULT,
      lo_windowMs = or_default windowMs SIGNALING_RATE_LIMIT_WINDOW_MS\<rparr>"

definition tryConsume :: "limit_options \<Rightarrow> string \<Rightarrow> int \<Rightarrow> guard_buckets \<Rightarrow> bool \<times> guard_buckets" where
  "tryConsume opts socketId now buckets =
     (case jget buckets socketId of
        None \<Rightarrow> (True, jset socketId \<lparr>tb_tokens = lo_capacity opts - 1, tb_refilledAt = now\<rparr> buckets)
      | Some bucket \<Rightarrow>
          let elapsed = now - tb_refilledAt bucket
          in if elapsed \<ge> lo_windowMs opts
             then (True, jset socketId \<lparr>tb_tokens = lo_capacity opts - 1, tb_refilledAt = now\<rparr> buckets)
             else if tb_tokens bucket \<le> 0 then (False, buckets)
             else (True, jset socketId (bucket\<lparr>tb_tokens := tb_tokens bucket - 1\<rparr>) buckets))"

definition isSocket :: "jsval \<Rightarrow> bool" where
  "isSocket value \<longleftrightarrow>
     typeof_object value \<and> value \<noteq> JNull \<and> (case js_prop ''id'' value of JStr s \<Rightarrow> True | _ \<Rightarrow> False) \<and> js_prop ''emit'' value = JFun"

definition extractSocket :: "jsval list \<Rightarrow> jsval option" where
  "extractSocket args = find isSocket args"

definition guard_canActivate ::
    "limit_options \<Rightarrow> jsval list \<Rightarrow> int \<Rightarrow> guard_buckets \<Rightarrow> (string + bool) \<times> guard_buckets" where
  "guard_canActivate opts args now buckets =
     (case extractSocket args of
        None \<Rightarrow> (Inl ''rate-limit: no client context'', buckets)
      | Some client \<Rightarrow>
          (case js_prop ''id'' client of
             JStr socketId \<Rightarrow>
               let (ok, buckets') = tryConsume opts socketId now buckets
               in (if \<not> ok then Inl ''rate-limit'' else Inr True, buckets')
           | _ \<Rightarrow> (Inl ''rate-limit'', buckets)))"

definition guard_reset :: "guard_buckets \<Rightarrow> guard_buckets" where
  "guard_reset buckets = jempty"

section \<open>One bucket\<close>

definition consume_step :: "limit_options \<Rightarrow> int \<Rightarrow> token_bucket option \<Rightarrow> bool \<times> token_bucket" where
  "consume_step opts now b =
     (case b of
        None \<Rightarrow> (True, \<lparr>tb_tokens = lo_capacity opts - 1, tb_refilledAt = now\<rparr>)
      | Some bucket \<Rightarrow>
          if now - tb_refilledAt bucket \<ge> lo_windowMs opts
          then (True, \<lparr>tb_tokens = lo_capacity opts - 1, tb_refilledAt = now\<rparr>)
          else if tb_tokens bucket \<le> 0 then (False, bucket)
          else (True, bucket\<lparr>tb_tokens := tb_tokens bucket - 1\<rparr>))"

interpretation sg: keyed_limiter jget "\<lambda>k t s. tryConsume opts k t s" "\<lambda>k. consume_step opts" for opts
  by unfold_locales
    (auto simp: tryConsume_def consume_step_def Let_def split: option.splits)

definition admitted :: "bool list \<Rightarrow> int" where
  "admitted rs = int (length (filter id rs))"

lemma admitted_simps [simp]:
  "admitted [] = 0" "admitted (True # rs) = 1 + admitted rs" "admitted (False # rs) = admitted rs"
  by (simp_all add: admitted_def)

lemma window_step:
  fixes w :: int
  assumes "0 < w" and "w \<le> now - r" and "now \<le> t"
  shows "1 + (t - now) div w \<le> (t - r) div w"
proof -
  have "(t - now) div w + 1 = (t - now + w) div w" using assms(1) by simp
  also have "\<dots> \<le> (t - r) div w" using assms by (intro zdiv_mono1) auto
  finally show ?thesis by simp
qed

lemma consume_step_Some:
  "lo_windowMs opts \<le> now - tb_refilledAt b \<Longrightarrow>
   consume_step opts now (Some b) = (True, \<lparr>tb_tokens = lo_capacity opts - 1, tb_refilledAt = now\<rparr>)"
  "\<not> lo_windowMs opts \<le> now - tb_refilledAt b \<Longrightarrow> tb_tokens b \<le> 0 \<Longrightarrow>
   consume_step opts now (Some b) = (False, b)"
  "\<not> lo_windowMs opts \<le> now - tb_refilledAt b \<Longrightarrow> \<not> tb_tokens b \<le> 0 \<Longrightarrow>
   consume_step opts now (Some b) = (True, b\<lparr>tb_tokens := tb_tokens b - 1\<rparr>)"
  by (simp_all add: consume_step_def)

lemma run_bound:
  assumes w: "0 < lo_windowMs opts"
  shows "sorted (tb_refilledAt b # ts) \<Longrightarrow> (\<forall>t \<in> set ts. t \<le> last_t) \<Longrightarrow> tb_refilledAt b \<le> last_t \<Longrightarrow>
    admitted (run_bucket (consume_step opts) ts (Some b))
      \<le> max 0 (tb_tokens b) + max 1 (lo_capacity opts) * ((last_t - tb_refilledAt b) div lo_windowMs opts)"
proof (induction ts arbitrary: b)
  case Nil
  then show ?case using w by (simp add: pos_imp_zdiv_nonneg_iff)
next
  case (Cons now ts)
  let ?w = "lo_windowMs opts" and ?M = "max 1 (lo_capacity opts)" and ?r = "tb_refilledAt b"
  show ?case
  proof (cases "?w \<le> now - ?r")
    case True
    let ?b = "\<lparr>tb_tokens = lo_capacity opts - 1, tb_refilledAt = now\<rparr>"
    have "admitted (run_bucket (consume_step opts) ts (Some ?b))
        \<le> max 0 (tb_tokens ?b) + ?M * ((last_t - tb_refilledAt ?b) div ?w)"
      using Cons.prems by (intro Cons.IH) auto
    then have "1 + admitted (run_bucket (consume_step opts) ts (Some ?b)) \<le> ?M * (1 + (last_t - now) div ?w)"
      by (simp add: algebra_simps)
    also have "\<dots> \<le> ?M * ((last_t - ?r) div ?w)"
      using Cons.prems w True by (intro mult_left_mono window_step) auto
    finally show ?thesis using True by (simp add: consume_step_Some)
  next
    case False
    show ?thesis
    proof (cases "tb_tokens b \<le> 0")
      case True
      have "admitted (run_bucket (consume_step opts) ts (Some b))
          \<le> max 0 (tb_tokens b) + ?M * ((last_t - ?r) div ?w)"
        using Cons.prems by (intro Cons.IH) auto
      with True False show ?thesis by (simp add: consume_step_Some)
    next
      case pos: False
      let ?b = "b\<lparr>tb_tokens := tb_tokens b - 1\<rparr>"
      have "admitted (run_bucket (consume_step opts) ts (Some ?b))
          \<le> max 0 (tb_tokens ?b) + ?M * ((last_t - tb_refilledAt ?b) div ?w)"
        using Cons.prems by (intro Cons.IH) auto
      with pos False show ?thesis by (simp add: consume_step_Some)
    qed
  qed
qed


section \<open>Properties\<close>

lemma sorted_le_last: "sorted ts \<Longrightarrow> \<forall>x \<in> set ts. x \<le> last ts"
  by (induction ts) auto

text \<open>Whatever the other sockets do, and however the events are spaced, a socket gets at most the
  capacity (at least 1) per started window through: with its events between the first and the
  last instant, at most capacity times (1 + whole windows between them).\<close>

theorem signal_limit_bound:
  assumes "0 < lo_windowMs opts" and "jget buckets sid = None"
    and "sorted ts" and "ts \<noteq> []" and "map snd (filter (\<lambda>h. fst h = sid) hs) = ts"
  shows "admitted (map snd (filter (\<lambda>a. fst a = sid) (run_limiter (tryConsume opts) hs buckets)))
    \<le> max 1 (lo_capacity opts) * (1 + (last ts - hd ts) div lo_windowMs opts)"
proof -
  obtain t rest where ts: "ts = t # rest" using assms(4) by (cases ts) auto
  let ?b = "\<lparr>tb_tokens = lo_capacity opts - 1, tb_refilledAt = t\<rparr>"
  have le: "\<forall>x \<in> set ts. x \<le> last ts"
    using assms(3) by (rule sorted_le_last)
  have "admitted (run_bucket (consume_step opts) rest (Some ?b))
      \<le> max 0 (tb_tokens ?b) + max 1 (lo_capacity opts) * ((last ts - tb_refilledAt ?b) div lo_windowMs opts)"
    using assms(1,3) le by (intro run_bound) (auto simp: ts)
  moreover have "run_bucket (consume_step opts) ts (jget buckets sid)
      = True # run_bucket (consume_step opts) rest (Some ?b)"
    using assms(2) by (simp add: ts consume_step_def)
  ultimately show ?thesis
    using sg.run_per_key [of sid opts hs buckets] assms(5) by (simp add: ts algebra_simps)
qed

definition demo_opts :: limit_options where
  "demo_opts = \<lparr>lo_capacity = 2, lo_windowMs = 1000\<rparr>"

theorem signal_limit_bound_witness:
  "admitted (map snd (filter (\<lambda>a. fst a = ''s'')
      (run_limiter (tryConsume demo_opts) [(''s'', 0), (''x'', 1), (''s'', 2), (''s'', 3), (''s'', 1005)] jempty))) \<le> 4"
  using signal_limit_bound [of demo_opts jempty "''s''" "[0, 2, 3, 1005]"
      "[(''s'', 0), (''x'', 1), (''s'', 2), (''s'', 3), (''s'', 1005)]"]
  by (simp add: demo_opts_def)

text \<open>An event is let through exactly when the socket is new, a full window has passed since the
  last refill, or tokens are left; a refused event leaves the buckets alone, and other sockets'
  buckets are never touched.\<close>

theorem tryConsume_spec:
  "(fst (tryConsume opts sid now bs) \<longleftrightarrow>
      (case jget bs sid of None \<Rightarrow> True
       | Some b \<Rightarrow> lo_windowMs opts \<le> now - tb_refilledAt b \<or> 0 < tb_tokens b))
   \<and> (fst (tryConsume opts sid now bs) \<or> snd (tryConsume opts sid now bs) = bs)
   \<and> (k = sid \<or> jget (snd (tryConsume opts sid now bs)) k = jget bs k)"
  using sg.other_key_untouched [of k sid opts now bs]
  by (auto simp: tryConsume_def Let_def split: option.splits)

lemma guard_canActivate_eq:
  "guard_canActivate opts args now bs =
     (case extractSocket args of
        None \<Rightarrow> (Inl ''rate-limit: no client context'', bs)
      | Some client \<Rightarrow>
          (let sid = (case js_prop ''id'' client of JStr s \<Rightarrow> s | _ \<Rightarrow> []); r = tryConsume opts sid now bs
           in (if fst r then Inr True else Inl ''rate-limit'', snd r)))"
proof (cases "extractSocket args")
  case (Some client)
  then have "isSocket client" by (auto simp: extractSocket_def find_Some_iff)
  then obtain sid where "js_prop ''id'' client = JStr sid" by (auto simp: isSocket_def split: jsval.splits)
  with Some show ?thesis by (simp add: guard_canActivate_def split_def Let_def)
qed (simp add: guard_canActivate_def)

end
