(* ===== verification/Gateway.thy ===== *)
theory Gateway
  imports RoomRegistry SignalLimit SignalDto
begin

text \<open>
  The signaling gateway, \<open>src/src/signaling/signaling.gateway.ts\<close>, with the bus of
  \<open>src/src/signaling/calls-event-bus.ts\<close>. The state is the room registry, the rate-limit
  buckets and the output: what the gateway asks of socket.io and of the bus, in order. A
  handler returns the message of the \<open>WsException\<close> thrown, or the acknowledgement. The bus
  is an argument, and so are the readings of the clock (\<open>now\<close> of the rate limiter, \<open>t\<close> of the
  registry). What a handler does after an \<open>await\<close> on the bus is the second half of
  \<open>handlePeerJoin\<close>; the other handlers only read the state after theirs.
\<close>

section \<open>Types\<close>

datatype call_signal = CallRinging | CallAccept | CallReject | CallCancel | CallEnd

record auth_result =
  ar_authorized :: bool
  ar_state :: "string option"
  ar_reason :: "string option"

type_synonym call_bus = "string \<Rightarrow> string \<Rightarrow> auth_result"

definition noop_isParticipant :: call_bus where
  "noop_isParticipant callId userId =
     \<lparr>ar_authorized = False, ar_state = None, ar_reason = Some ''no-calls-service''\<rparr>"

record client =
  cl_id :: string
  cl_data :: jsval

datatype gw_event =
    PeerJoined string string string
  | PeerLeft string string string
  | PeerReconnecting string string string
  | CallInviteEv string string string
  | CallEventEv string string call_signal

text \<open>
  \<open>ToRoom\<close> is \<open>server.to(room).emit\<close>, \<open>ToOthers\<close> is \<open>client.to(room).emit\<close>, which leaves
  the client out; \<open>IoJoin\<close> and \<open>IoLeave\<close> move a socket in and out of a socket.io room;
  \<open>Notify\<close> is \<open>onCallEvent\<close> of the bus.
\<close>

datatype gw_effect =
    ToRoom string gw_event
  | ToOthers string string gw_event
  | IoJoin string string
  | IoLeave string string
  | Notify string call_signal string

record gw_state =
  gw_registry :: registry
  gw_buckets :: guard_buckets
  gw_out :: "gw_effect list"

definition init_gateway :: gw_state where
  "init_gateway = \<lparr>gw_registry = jempty, gw_buckets = jempty, gw_out = []\<rparr>"

definition emit :: "gw_effect \<Rightarrow> gw_state \<Rightarrow> gw_state" where
  "emit e s = s\<lparr>gw_out := gw_out s @ [e]\<rparr>"

datatype gw_reply =
    JoinedReply string string "(string \<times> string) list"
  | CallAckReply string
  | EventReply string call_signal
  | InviteReply string
  | SfuAckReply string

section \<open>The common prefix of the handlers\<close>

definition getUserId :: "jsval \<Rightarrow> string + string" where
  "getUserId data =
     (if typeof_object data \<and> data \<noteq> JNull
      then (case js_prop ''userId'' data of JStr u \<Rightarrow> Inr u | _ \<Rightarrow> Inl ''forbidden'')
      else Inl ''forbidden'')"

definition gateway_limits :: limit_options where
  "gateway_limits = guard_options None None"

definition enforceRateLimit :: "string \<Rightarrow> int \<Rightarrow> gw_state \<Rightarrow> (string + unit) \<times> gw_state" where
  "enforceRateLimit sid now s =
     (let (allowed, bs) = tryConsume gateway_limits sid now (gw_buckets s)
      in (if \<not> allowed then Inl ''rate_limited'' else Inr (), s\<lparr>gw_buckets := bs\<rparr>))"

text \<open>Rate limit, authenticated user, payload: every handler starts with these three.\<close>

definition receive ::
    "(jsval \<Rightarrow> string + 'v) \<Rightarrow> jsval \<Rightarrow> client \<Rightarrow> int \<Rightarrow> gw_state \<Rightarrow> (string + string \<times> 'v) \<times> gw_state" where
  "receive parse payload client now s =
     (case enforceRateLimit (cl_id client) now s of
        (Inl e, s1) \<Rightarrow> (Inl e, s1)
      | (Inr _, s1) \<Rightarrow>
          (case getUserId (cl_data client) of
             Inl e \<Rightarrow> (Inl e, s1)
           | Inr userId \<Rightarrow>
               (case parse payload of
                  Inl reason \<Rightarrow> (Inl (''invalid payload: '' @ reason), s1)
                | Inr v \<Rightarrow> (Inr (userId, v), s1))))"

text \<open>Authorised by the bus, or registered in the room with some socket.\<close>

definition may_act :: "call_bus \<Rightarrow> string \<Rightarrow> string \<Rightarrow> gw_state \<Rightarrow> bool" where
  "may_act bus callId userId s \<longleftrightarrow>
     ar_authorized (bus callId userId) \<or> reg_isParticipant callId userId (gw_registry s)"

section \<open>Handlers\<close>

definition handleDisconnect :: "client \<Rightarrow> gw_state \<Rightarrow> gw_state" where
  "handleDisconnect client s =
     (let (left, reg) = reg_leave (cl_id client) (gw_registry s)
      in foldl (\<lambda>s (callId, member). emit (ToRoom callId (PeerLeft callId (rm_userId member) (cl_id client))) s)
           (s\<lparr>gw_registry := reg\<rparr>) left)"

fun emitCallInvite ::
    "call_bus \<Rightarrow> string \<Rightarrow> string \<Rightarrow> string list \<Rightarrow> string \<Rightarrow> gw_state \<Rightarrow> (string list \<times> string list) \<times> gw_state" where
  "emitCallInvite bus callId from [] ty s = (([], []), s)"
| "emitCallInvite bus callId from (userId # to) ty s =
     (if \<not> may_act bus callId userId s
      then let ((delivered, skipped), s') = emitCallInvite bus callId from to ty s
           in ((delivered, userId # skipped), s')
      else let s1 = emit (ToRoom (''user:'' @ userId) (CallInviteEv callId from ty)) s;
               ((delivered, skipped), s') = emitCallInvite bus callId from to ty s1
           in ((userId # delivered, skipped), s'))"

text \<open>\<open>peer:join\<close> up to the \<open>await\<close> on the bus, and from there on.\<close>

definition peer_join_start ::
    "zod \<Rightarrow> jsval \<Rightarrow> client \<Rightarrow> int \<Rightarrow> gw_state \<Rightarrow> (string + string \<times> string) \<times> gw_state" where
  "peer_join_start zod payload client now s =
     (case receive (parseCallInvitePayload zod) payload client now s of
        (Inl e, s1) \<Rightarrow> (Inl e, s1)
      | (Inr (userId, p), s1) \<Rightarrow>
          (if ip_from p \<noteq> userId then (Inl ''forbidden'', s1) else (Inr (ip_callId p, userId), s1)))"

definition peer_join_resume ::
    "auth_result \<Rightarrow> string \<Rightarrow> string \<Rightarrow> client \<Rightarrow> int \<Rightarrow> gw_state \<Rightarrow> (string + gw_reply) \<times> gw_state" where
  "peer_join_resume auth callId userId client t s =
     (if \<not> ar_authorized auth \<and> \<not> reg_isParticipant callId userId (gw_registry s)
      then (Inl ''forbidden'', s)
      else let (member, reg) = reg_join callId (cl_id client) userId t (gw_registry s);
               s1 = emit (IoJoin (cl_id client) callId) (s\<lparr>gw_registry := reg\<rparr>);
               s2 = emit (ToOthers (cl_id client) callId
                      (PeerJoined callId (rm_userId member) (cl_id client))) s1;
               peers = map (\<lambda>m. (rm_socketId m, rm_userId m))
                         (filter (\<lambda>m. rm_socketId m \<noteq> cl_id client) (reg_members callId (gw_registry s2)))
           in (Inr (JoinedReply callId userId peers), s2))"

definition handlePeerJoin ::
    "zod \<Rightarrow> call_bus \<Rightarrow> jsval \<Rightarrow> client \<Rightarrow> int \<Rightarrow> int \<Rightarrow> gw_state \<Rightarrow> (string + gw_reply) \<times> gw_state" where
  "handlePeerJoin zod bus payload client now t s =
     (case peer_join_start zod payload client now s of
        (Inl e, s1) \<Rightarrow> (Inl e, s1)
      | (Inr (callId, userId), s1) \<Rightarrow> peer_join_resume (bus callId userId) callId userId client t s1)"

definition handlePeerLeave ::
    "zod \<Rightarrow> jsval \<Rightarrow> client \<Rightarrow> int \<Rightarrow> gw_state \<Rightarrow> (string + gw_reply) \<times> gw_state" where
  "handlePeerLeave zod payload client now s =
     (case receive (parseCallRingingPayload zod) payload client now s of
        (Inl e, s1) \<Rightarrow> (Inl e, s1)
      | (Inr (userId, callId), s1) \<Rightarrow>
          (case reg_member callId (cl_id client) (gw_registry s1) of
             None \<Rightarrow> (Inl ''forbidden'', s1)
           | Some member \<Rightarrow>
               if rm_userId member \<noteq> userId then (Inl ''forbidden'', s1)
               else let s2 = emit (IoLeave (cl_id client) callId) s1;
                        s3 = s2\<lparr>gw_registry := snd (reg_leave (cl_id client) (gw_registry s2))\<rparr>
                    in (Inr (CallAckReply callId),
                        emit (ToRoom callId (PeerLeft callId userId (cl_id client))) s3)))"

definition handlePeerReconnect ::
    "zod \<Rightarrow> jsval \<Rightarrow> client \<Rightarrow> int \<Rightarrow> gw_state \<Rightarrow> (string + gw_reply) \<times> gw_state" where
  "handlePeerReconnect zod payload client now s =
     (case receive (parseCallRingingPayload zod) payload client now s of
        (Inl e, s1) \<Rightarrow> (Inl e, s1)
      | (Inr (userId, callId), s1) \<Rightarrow>
          (case reg_member callId (cl_id client) (gw_registry s1) of
             None \<Rightarrow> (Inl ''forbidden'', s1)
           | Some member \<Rightarrow>
               if rm_userId member \<noteq> userId then (Inl ''forbidden'', s1)
               else (Inr (CallAckReply callId),
                     emit (ToRoom callId (PeerReconnecting callId userId (cl_id client))) s1)))"

definition handleCallInvite ::
    "zod \<Rightarrow> call_bus \<Rightarrow> jsval \<Rightarrow> client \<Rightarrow> int \<Rightarrow> gw_state \<Rightarrow> (string + gw_reply) \<times> gw_state" where
  "handleCallInvite zod bus payload client now s =
     (case receive (parseCallInvitePayload zod) payload client now s of
        (Inl e, s1) \<Rightarrow> (Inl e, s1)
      | (Inr (userId, p), s1) \<Rightarrow>
          (if ip_from p \<noteq> userId then (Inl ''forbidden'', s1)
           else let (_, s2) = emitCallInvite bus (ip_callId p) (ip_from p) (ip_to p) (ip_type p) s1
                in (Inr (InviteReply (ip_callId p)), s2)))"

definition handleCallEvent ::
    "call_bus \<Rightarrow> string \<Rightarrow> call_signal \<Rightarrow> string \<Rightarrow> gw_state \<Rightarrow> (string + gw_reply) \<times> gw_state" where
  "handleCallEvent bus callId event userId s =
     (if \<not> may_act bus callId userId s then (Inl ''forbidden'', s)
      else let s1 = emit (Notify callId event userId) s
           in (Inr (EventReply callId event), emit (ToRoom callId (CallEventEv callId userId event)) s1))"

text \<open>The parser each call event uses; the five handlers differ in it and in the event.\<close>

fun parse_signal :: "call_signal \<Rightarrow> zod \<Rightarrow> jsval \<Rightarrow> string + string" where
  "parse_signal CallRinging zod v = parseCallRingingPayload zod v"
| "parse_signal CallAccept zod v = parseCallAcceptPayload zod v"
| "parse_signal CallReject zod v = parseCallRejectPayload zod v"
| "parse_signal CallCancel zod v = parseCallCancelPayload zod v"
| "parse_signal CallEnd zod v = parseCallEndPayload zod v"

definition handleCallSignal ::
    "call_signal \<Rightarrow> zod \<Rightarrow> call_bus \<Rightarrow> jsval \<Rightarrow> client \<Rightarrow> int \<Rightarrow> gw_state \<Rightarrow> (string + gw_reply) \<times> gw_state" where
  "handleCallSignal event zod bus payload client now s =
     (case receive (parse_signal event zod) payload client now s of
        (Inl e, s1) \<Rightarrow> (Inl e, s1)
      | (Inr (userId, callId), s1) \<Rightarrow> handleCallEvent bus callId event userId s1)"

definition handleCallRinging ::
    "zod \<Rightarrow> call_bus \<Rightarrow> jsval \<Rightarrow> client \<Rightarrow> int \<Rightarrow> gw_state \<Rightarrow> (string + gw_reply) \<times> gw_state" where
  "handleCallRinging = handleCallSignal CallRinging"

definition handleCallAccept ::
    "zod \<Rightarrow> call_bus \<Rightarrow> jsval \<Rightarrow> client \<Rightarrow> int \<Rightarrow> gw_state \<Rightarrow> (string + gw_reply) \<times> gw_state" where
  "handleCallAccept = handleCallSignal CallAccept"

definition handleCallReject ::
    "zod \<Rightarrow> call_bus \<Rightarrow> jsval \<Rightarrow> client \<Rightarrow> int \<Rightarrow> gw_state \<Rightarrow> (string + gw_reply) \<times> gw_state" where
  "handleCallReject = handleCallSignal CallReject"

definition handleCallCancel ::
    "zod \<Rightarrow> call_bus \<Rightarrow> jsval \<Rightarrow> client \<Rightarrow> int \<Rightarrow> gw_state \<Rightarrow> (string + gw_reply) \<times> gw_state" where
  "handleCallCancel = handleCallSignal CallCancel"

definition handleCallEnd ::
    "zod \<Rightarrow> call_bus \<Rightarrow> jsval \<Rightarrow> client \<Rightarrow> int \<Rightarrow> gw_state \<Rightarrow> (string + gw_reply) \<times> gw_state" where
  "handleCallEnd = handleCallSignal CallEnd"

definition handleSfuEvent ::
    "call_bus \<Rightarrow> string \<Rightarrow> string \<Rightarrow> bool \<Rightarrow> gw_state \<Rightarrow> (string + gw_reply) \<times> gw_state" where
  "handleSfuEvent bus callId userId requireConnectedState s =
     (if \<not> may_act bus callId userId s then (Inl ''forbidden'', s)
      else if requireConnectedState \<and> ar_state (bus callId userId) \<noteq> Some ''accepted''
              \<and> ar_state (bus callId userId) \<noteq> Some ''active''
      then (Inl ''forbidden'', s)
      else (Inr (SfuAckReply ''pending-m3''), s))"

definition handleSfu ::
    "(zod \<Rightarrow> jsval \<Rightarrow> string + sfu_payload) \<Rightarrow> bool \<Rightarrow> zod \<Rightarrow> call_bus \<Rightarrow> jsval \<Rightarrow> client \<Rightarrow> int \<Rightarrow> gw_state
     \<Rightarrow> (string + gw_reply) \<times> gw_state" where
  "handleSfu parse needsState zod bus payload client now s =
     (case receive (parse zod) payload client now s of
        (Inl e, s1) \<Rightarrow> (Inl e, s1)
      | (Inr (userId, p), s1) \<Rightarrow> handleSfuEvent bus (sp_callId p) userId needsState s1)"

definition handleSfuJoinRoom ::
    "zod \<Rightarrow> call_bus \<Rightarrow> jsval \<Rightarrow> client \<Rightarrow> int \<Rightarrow> gw_state \<Rightarrow> (string + gw_reply) \<times> gw_state" where
  "handleSfuJoinRoom = handleSfu parseSfuJoinRoomPayload True"

definition handleSfuPublishTrack ::
    "zod \<Rightarrow> call_bus \<Rightarrow> jsval \<Rightarrow> client \<Rightarrow> int \<Rightarrow> gw_state \<Rightarrow> (string + gw_reply) \<times> gw_state" where
  "handleSfuPublishTrack = handleSfu parseSfuPublishTrackPayload False"

definition handleSfuSubscribeTrack ::
    "zod \<Rightarrow> call_bus \<Rightarrow> jsval \<Rightarrow> client \<Rightarrow> int \<Rightarrow> gw_state \<Rightarrow> (string + gw_reply) \<times> gw_state" where
  "handleSfuSubscribeTrack = handleSfu parseSfuSubscribeTrackPayload False"


section \<open>The gateway as a state machine\<close>

text \<open>
  The messages a socket may send, except \<open>peer:join\<close>, whose halves are steps of their own.
\<close>

datatype gw_msg =
    MPeerLeave | MPeerReconnect | MCallInvite | MSignal call_signal | MSfuJoin | MSfuPublish | MSfuSubscribe

fun gw_handle ::
    "zod \<Rightarrow> call_bus \<Rightarrow> gw_msg \<Rightarrow> jsval \<Rightarrow> client \<Rightarrow> int \<Rightarrow> gw_state \<Rightarrow> (string + gw_reply) \<times> gw_state" where
  "gw_handle zod bus MPeerLeave v c now s = handlePeerLeave zod v c now s"
| "gw_handle zod bus MPeerReconnect v c now s = handlePeerReconnect zod v c now s"
| "gw_handle zod bus MCallInvite v c now s = handleCallInvite zod bus v c now s"
| "gw_handle zod bus (MSignal ev) v c now s = handleCallSignal ev zod bus v c now s"
| "gw_handle zod bus MSfuJoin v c now s = handleSfuJoinRoom zod bus v c now s"
| "gw_handle zod bus MSfuPublish v c now s = handleSfuPublishTrack zod bus v c now s"
| "gw_handle zod bus MSfuSubscribe v c now s = handleSfuSubscribeTrack zod bus v c now s"

text \<open>
  A system state is the gateway with the joins that wait for the bus. The bus may answer
  differently at each step; \<open>allow\<close> bounds what it ever authorises.
\<close>

type_synonym pending_join = "string \<times> string \<times> client"

definition bus_within :: "(string \<Rightarrow> string \<Rightarrow> bool) \<Rightarrow> call_bus \<Rightarrow> bool" where
  "bus_within allow bus \<longleftrightarrow> (\<forall>k u. ar_authorized (bus k u) \<longrightarrow> allow k u)"

inductive gw_reach :: "zod \<Rightarrow> (string \<Rightarrow> string \<Rightarrow> bool) \<Rightarrow> gw_state \<Rightarrow> pending_join list \<Rightarrow> bool"
  for zod allow where
  start: "gw_reach zod allow init_gateway []"
| message: "gw_reach zod allow s ps \<Longrightarrow> bus_within allow bus \<Longrightarrow>
    gw_reach zod allow (snd (gw_handle zod bus msg v c now s)) ps"
| join_refused: "gw_reach zod allow s ps \<Longrightarrow> peer_join_start zod v c now s = (Inl e, s') \<Longrightarrow>
    gw_reach zod allow s' ps"
| join_waits: "gw_reach zod allow s ps \<Longrightarrow> peer_join_start zod v c now s = (Inr (k, u), s') \<Longrightarrow>
    gw_reach zod allow s' (ps @ [(k, u, c)])"
| join_resumes: "gw_reach zod allow s (ps @ (k, u, c) # qs) \<Longrightarrow> bus_within allow bus \<Longrightarrow>
    gw_reach zod allow (snd (peer_join_resume (bus k u) k u c t s)) (ps @ qs)"
| disconnect: "gw_reach zod allow s ps \<Longrightarrow> gw_reach zod allow (handleDisconnect c s) ps"

section \<open>What the steps change\<close>

lemma emit_simps [simp]:
  "gw_registry (emit e s) = gw_registry s" "gw_buckets (emit e s) = gw_buckets s"
  "gw_out (emit e s) = gw_out s @ [e]"
  by (simp_all add: emit_def)

lemma receive_keeps [simp]:
  "gw_registry (snd (receive parse v c now s)) = gw_registry s"
  "gw_out (snd (receive parse v c now s)) = gw_out s"
  by (simp_all add: receive_def enforceRateLimit_def split_def Let_def split: sum.split)

lemma receive_Inr:
  "fst (receive parse v c now s) = Inr (u, p) \<Longrightarrow> getUserId (cl_data c) = Inr u \<and> parse v = Inr p"
  by (auto simp: receive_def enforceRateLimit_def split_def Let_def split: sum.splits if_splits)

lemma receive_snd:
  "receive parse v c now s = (r, s1) \<Longrightarrow> gw_registry s1 = gw_registry s \<and> gw_out s1 = gw_out s"
  using receive_keeps [of parse v c now s] by (simp add: prod_eq_iff)

lemma receive_user:
  "receive parse v c now s = (Inr (u, p), s1) \<Longrightarrow> getUserId (cl_data c) = Inr u \<and> parse v = Inr p"
  using receive_Inr [of parse v c now s u p] by (simp add: prod_eq_iff)

lemma foldl_emit:
  "gw_registry (foldl (\<lambda>s x. emit (f x) s) s xs) = gw_registry s"
  "gw_out (foldl (\<lambda>s x. emit (f x) s) s xs) = gw_out s @ map f xs"
  by (induction xs arbitrary: s) simp_all

definition left_event :: "string \<Rightarrow> string \<times> room_member \<Rightarrow> gw_effect" where
  "left_event sid x = ToRoom (fst x) (PeerLeft (fst x) (rm_userId (snd x)) sid)"

lemma handleDisconnect_eq:
  "gw_registry (handleDisconnect c s) = snd (reg_leave (cl_id c) (gw_registry s))"
  "gw_out (handleDisconnect c s) =
     gw_out s @ map (left_event (cl_id c)) (fst (reg_leave (cl_id c) (gw_registry s)))"
  by (simp_all add: handleDisconnect_def Let_def split_def foldl_emit left_event_def [abs_def])

lemma emitCallInvite_registry [simp]:
  "gw_registry (snd (emitCallInvite bus k from tos ty s)) = gw_registry s"
  by (induction bus k "from" tos ty s rule: emitCallInvite.induct) (auto simp: split_def Let_def)

text \<open>The invitations sent: to the room of each addressee who may act in the call.\<close>

lemma emitCallInvite_eq:
  "fst (fst (emitCallInvite bus k from tos ty s)) = filter (\<lambda>u. may_act bus k u s) tos"
  "snd (fst (emitCallInvite bus k from tos ty s)) = filter (\<lambda>u. \<not> may_act bus k u s) tos"
  "gw_out (snd (emitCallInvite bus k from tos ty s)) =
     gw_out s @ map (\<lambda>u. ToRoom (''user:'' @ u) (CallInviteEv k from ty)) (filter (\<lambda>u. may_act bus k u s) tos)"
  by (induction bus k "from" tos ty s rule: emitCallInvite.induct)
    (auto simp: split_def Let_def may_act_def)


section \<open>Only authorised users take part\<close>

definition members_within :: "(string \<Rightarrow> string \<Rightarrow> bool) \<Rightarrow> registry \<Rightarrow> bool" where
  "members_within allow r \<longleftrightarrow> (\<forall>k sid m. reg_member k sid r = Some m \<longrightarrow> allow k (rm_userId m))"

text \<open>
  What an effect may say: it names the call of the room it goes to and a user authorised for
  that call; an invitation goes to the room of an authorised addressee.
\<close>

fun effect_within :: "(string \<Rightarrow> string \<Rightarrow> bool) \<Rightarrow> gw_effect \<Rightarrow> bool" where
  "effect_within allow (ToRoom r (PeerLeft k u sid)) = (r = k \<and> allow k u)"
| "effect_within allow (ToRoom r (PeerReconnecting k u sid)) = (r = k \<and> allow k u)"
| "effect_within allow (ToRoom r (CallEventEv k u ev)) = (r = k \<and> allow k u)"
| "effect_within allow (ToRoom r (CallInviteEv k from ty)) = (\<exists>v. r = ''user:'' @ v \<and> allow k v)"
| "effect_within allow (ToRoom r (PeerJoined k u sid)) = False"
| "effect_within allow (ToOthers sid r ev) = (\<exists>u. ev = PeerJoined r u sid \<and> allow r u)"
| "effect_within allow (IoJoin sid k) = (\<exists>u. allow k u)"
| "effect_within allow (IoLeave sid k) = (\<exists>u. allow k u)"
| "effect_within allow (Notify k ev u) = allow k u"

definition gw_inv :: "(string \<Rightarrow> string \<Rightarrow> bool) \<Rightarrow> gw_state \<Rightarrow> bool" where
  "gw_inv allow s \<longleftrightarrow>
     reg_ok (gw_registry s) \<and> members_within allow (gw_registry s) \<and> list_all (effect_within allow) (gw_out s)"

lemma hasMember_member:
  "reg_ok r \<Longrightarrow> reg_hasMember k u r \<Longrightarrow> \<exists>sid m. reg_member k sid r = Some m \<and> rm_userId m = u"
  by (auto simp: reg_hasMember_def reg_member_def reg_ok_def room_ok_def list_ex_iff jvals_in split: option.splits)
    blast

lemma may_act_within:
  assumes "gw_inv allow s" and "bus_within allow bus" and "may_act bus k u s"
  shows "allow k u"
  using assms hasMember_member [of "gw_registry s" k u]
  by (auto simp: may_act_def bus_within_def gw_inv_def members_within_def reg_isParticipant_def)

lemma gw_inv_cong:
  "gw_inv allow s \<Longrightarrow> gw_registry s' = gw_registry s \<Longrightarrow> gw_out s' = gw_out s \<Longrightarrow> gw_inv allow s'"
  by (simp add: gw_inv_def)

lemma gw_inv_receive: "gw_inv allow s \<Longrightarrow> receive parse v c now s = (r, s1) \<Longrightarrow> gw_inv allow s1"
  using gw_inv_cong receive_snd by blast

lemma gw_inv_emit: "gw_inv allow s \<Longrightarrow> effect_within allow e \<Longrightarrow> gw_inv allow (emit e s)"
  by (simp add: gw_inv_def)

lemma gw_inv_leave:
  assumes "gw_inv allow s"
  shows "gw_inv allow (s\<lparr>gw_registry := snd (reg_leave sid (gw_registry s))\<rparr>)"
  using assms reg_ok_leave [of "gw_registry s" sid]
  by (auto simp: gw_inv_def members_within_def reg_member_leave reg_ok_wf split: if_splits)

lemma gw_inv_member: "gw_inv allow s \<Longrightarrow> reg_member k sid (gw_registry s) = Some m \<Longrightarrow> allow k (rm_userId m)"
  by (auto simp: gw_inv_def members_within_def)

lemma gw_inv_disconnect:
  assumes "gw_inv allow s"
  shows "gw_inv allow (handleDisconnect c s)"
proof -
  let ?left = "fst (reg_leave (cl_id c) (gw_registry s))"
  have "effect_within allow (left_event (cl_id c) x)" if "x \<in> set ?left" for x
  proof -
    have "reg_member (fst x) (cl_id c) (gw_registry s) = Some (snd x)"
      using that assms reg_leave_out [of "gw_registry s" "fst x" "snd x" "cl_id c"]
      by (simp add: gw_inv_def reg_ok_wf)
    then show ?thesis using gw_inv_member [OF assms] by (simp add: left_event_def)
  qed
  then show ?thesis
    using gw_inv_leave [OF assms, of "cl_id c"]
    by (auto simp: gw_inv_def handleDisconnect_eq list_all_iff)
qed

lemma gw_inv_join:
  assumes inv: "gw_inv allow s" and al: "allow k u"
  shows "gw_inv allow (s\<lparr>gw_registry := snd (reg_join k sid u t (gw_registry s))\<rparr>)"
  using assms reg_ok_join [of "gw_registry s" k sid u t]
  by (auto simp: gw_inv_def members_within_def reg_member_join split: if_splits)

lemma gw_inv_resume:
  assumes inv: "gw_inv allow s" and bus: "bus_within allow bus"
  shows "gw_inv allow (snd (peer_join_resume (bus k u) k u c t s))"
proof (cases "may_act bus k u s")
  case True
  then have al: "allow k u" using may_act_within [OF inv bus] by simp
  have "gw_inv allow (emit (ToOthers (cl_id c) k (PeerJoined k u (cl_id c)))
      (emit (IoJoin (cl_id c) k) (s\<lparr>gw_registry := snd (reg_join k (cl_id c) u t (gw_registry s))\<rparr>)))"
    using al by (intro gw_inv_emit gw_inv_join inv) auto
  then show ?thesis
    using inv by (simp add: peer_join_resume_def split_def Let_def)
      (simp add: reg_join_def Let_def)
qed (use inv in \<open>simp add: peer_join_resume_def may_act_def\<close>)

lemma gw_inv_invites:
  assumes inv: "gw_inv allow s" and bus: "bus_within allow bus"
  shows "gw_inv allow (snd (emitCallInvite bus k from tos ty s))"
  using inv may_act_within [OF inv bus]
  by (auto simp: gw_inv_def emitCallInvite_eq list_all_iff)

lemma gw_inv_callEvent:
  assumes inv: "gw_inv allow s" and bus: "bus_within allow bus"
  shows "gw_inv allow (snd (handleCallEvent bus k ev u s))"
  using inv may_act_within [OF inv bus, of k u]
  by (auto simp: handleCallEvent_def Let_def intro!: gw_inv_emit)


lemma gw_inv_handle:
  assumes inv: "gw_inv allow s" and bus: "bus_within allow bus"
  shows "gw_inv allow (snd (gw_handle zod bus msg v c now s))"
proof -
  note keep = gw_inv_receive [OF inv]
  have leave: "gw_inv allow (snd (handlePeerLeave zod v c now s))"
  proof (cases "receive (parseCallRingingPayload zod) v c now s")
    case (Pair r s1)
    then have inv1: "gw_inv allow s1" by (rule keep)
    have "gw_inv allow (snd (handlePeerLeave zod v c now s))" if r: "r = Inr (u, k)"
      and m: "reg_member k (cl_id c) (gw_registry s1) = Some m" and u: "rm_userId m = u" for u k m
    proof -
      have al: "allow k u" using gw_inv_member [OF inv1 m] u by simp
      then have "gw_inv allow (emit (IoLeave (cl_id c) k) s1)" using inv1 by (intro gw_inv_emit) auto
      from gw_inv_emit [OF gw_inv_leave [OF this, of "cl_id c"], of "ToRoom k (PeerLeft k u (cl_id c))"]
      show ?thesis using Pair r m u al by (simp add: handlePeerLeave_def Let_def)
    qed
    then show ?thesis using Pair inv1
      by (cases r) (auto simp: handlePeerLeave_def Let_def split: option.split)
  qed
  have recon: "gw_inv allow (snd (handlePeerReconnect zod v c now s))"
    using keep gw_inv_member [OF keep]
    by (auto simp: handlePeerReconnect_def Let_def intro!: gw_inv_emit split: prod.split sum.split option.split)
  have inv_call: "gw_inv allow (snd (handleCallInvite zod bus v c now s))"
  proof (cases "receive (parseCallInvitePayload zod) v c now s")
    case (Pair r s1)
    then have inv1: "gw_inv allow s1" by (rule keep)
    with Pair gw_inv_invites [OF inv1 bus] show ?thesis
      by (cases r) (auto simp: handleCallInvite_def Let_def split_def)
  qed
  have sig: "gw_inv allow (snd (handleCallSignal ev zod bus v c now s))" for ev
    using gw_inv_callEvent [OF keep bus]
    by (auto simp: handleCallSignal_def split: prod.split sum.split dest: keep)
  have sfu: "gw_inv allow (snd (handleSfu parse ns zod bus v c now s))" for parse ns
    by (auto simp: handleSfu_def handleSfuEvent_def split: prod.split sum.split dest: keep)
  show ?thesis
    by (cases msg) (simp_all add: leave recon inv_call sig sfu handleSfuJoinRoom_def
      handleSfuPublishTrack_def handleSfuSubscribeTrack_def)
qed

lemma gw_inv_start: "gw_inv allow s \<Longrightarrow> peer_join_start zod v c now s = (r, s') \<Longrightarrow> gw_inv allow s'"
  by (auto simp: peer_join_start_def split: prod.splits sum.splits if_splits dest: gw_inv_receive)

lemma gw_reach_inv: "gw_reach zod allow s ps \<Longrightarrow> gw_inv allow s"
proof (induction rule: gw_reach.induct)
  case start
  then show ?case
    by (simp add: gw_inv_def init_gateway_def members_within_def reg_member_empty
        reg_ok_reset [unfolded reg_reset_def])
qed (auto intro: gw_inv_handle gw_inv_start gw_inv_resume gw_inv_disconnect)

text \<open>C10: in every interleaving of messages, joins waiting for the bus and disconnects, every member
  of a room is a user the bus authorised for that call, and everything the gateway sent names
  the call of its room and an authorised user; being registered never widens what the bus
  allows.\<close>

theorem gateway_only_authorised:
  assumes "gw_reach zod allow s ps" and "reg_member k sid (gw_registry s) = Some m"
    and "e \<in> set (gw_out s)"
  shows "allow k (rm_userId m) \<and> rm_socketId m = sid \<and> effect_within allow e"
  using gw_reach_inv [OF assms(1)] assms(2,3)
  by (auto simp: gw_inv_def members_within_def list_all_iff reg_ok_def room_ok_def reg_member_def
      split: option.splits)


section \<open>A concrete run\<close>

definition demo_client :: client where
  "demo_client = \<lparr>cl_id = ''s1'', cl_data = JObj [(''userId'', JStr ''ana'')]\<rparr>"

definition demo_allow :: "string \<Rightarrow> string \<Rightarrow> bool" where
  "demo_allow k u \<longleftrightarrow> u \<in> {''ana'', ''ben''}"

definition demo_bus :: call_bus where
  "demo_bus k u = \<lparr>ar_authorized = demo_allow k u, ar_state = Some ''active'', ar_reason = None\<rparr>"

lemma demo_bus_within: "bus_within demo_allow demo_bus"
  by (simp add: bus_within_def demo_bus_def)

lemma demo_start:
  "peer_join_start zod_ref demo_invite_payload demo_client 0 init_gateway
     = (Inr (''c1'', ''ana''), init_gateway\<lparr>gw_buckets := [(''s1'', \<lparr>tb_tokens = 29, tb_refilledAt = 0\<rparr>)]\<rparr>)"
  by (simp add: peer_join_start_def receive_def enforceRateLimit_def tryConsume_def init_gateway_def
      gateway_limits_def guard_options_def SIGNALING_RATE_LIMIT_DEFAULT_def demo_client_def getUserId_def
      demo_invite_parse jset_def jempty_def)

definition demo_waiting :: gw_state where
  "demo_waiting = init_gateway\<lparr>gw_buckets := [(''s1'', \<lparr>tb_tokens = 29, tb_refilledAt = 0\<rparr>)]\<rparr>"

lemma demo_waits: "gw_reach zod_ref demo_allow demo_waiting [(''c1'', ''ana'', demo_client)]"
  using gw_reach.join_waits [OF gw_reach.start demo_start, of demo_allow] by (simp add: demo_waiting_def)

definition demo_joined :: gw_state where
  "demo_joined = snd (peer_join_resume (demo_bus ''c1'' ''ana'') ''c1'' ''ana'' demo_client 7 demo_waiting)"

lemma demo_joined_reach: "gw_reach zod_ref demo_allow demo_joined []"
  using gw_reach.join_resumes [of zod_ref demo_allow demo_waiting "[]" "''c1''" "''ana''" demo_client "[]" demo_bus 7]
    demo_waits demo_bus_within by (simp add: demo_joined_def)

lemma demo_joined_eq:
  "gw_registry demo_joined = [(''c1'', [(''s1'', \<lparr>rm_socketId = ''s1'', rm_userId = ''ana'', rm_joinedAt = 7\<rparr>)])]
   \<and> gw_out demo_joined = [IoJoin ''s1'' ''c1'', ToOthers ''s1'' ''c1'' (PeerJoined ''c1'' ''ana'' ''s1'')]"
  by (simp add: demo_joined_def peer_join_resume_def demo_bus_def demo_allow_def reg_join_def Let_def
      demo_waiting_def init_gateway_def jempty_def jset_def demo_client_def)

theorem gateway_only_authorised_witness: "demo_allow ''c1'' ''ana''"
  using gateway_only_authorised [OF demo_joined_reach, of "''c1''" "''s1''"
      "\<lparr>rm_socketId = ''s1'', rm_userId = ''ana'', rm_joinedAt = 7\<rparr>" "IoJoin ''s1'' ''c1''"]
  by (simp add: demo_joined_eq reg_member_def jget_def)

section \<open>The wired bus\<close>

lemma noop_bus_empty:
  assumes "gw_reach zod (\<lambda>k u. ar_authorized (noop_isParticipant k u)) s ps"
  shows "gw_out s = []" and "reg_member k sid (gw_registry s) = None" and "\<not> reg_hasMember k u (gw_registry s)"
proof -
  have inv: "gw_inv (\<lambda>k u. False) s"
    using gw_reach_inv [OF assms] by (simp add: noop_isParticipant_def)
  have "\<not> effect_within (\<lambda>k u. False) e" for e
  proof (cases e)
    case (ToRoom r ev)
    then show ?thesis by (cases ev) auto
  qed auto
  then show "gw_out s = []" using inv by (cases "gw_out s") (auto simp: gw_inv_def)
  show "reg_member k sid (gw_registry s) = None"
    using inv by (cases "reg_member k sid (gw_registry s)") (auto simp: gw_inv_def members_within_def)
  show "\<not> reg_hasMember k u (gw_registry s)"
    using hasMember_member inv by (metis gw_inv_def members_within_def)
qed

text \<open>C11: with the bus the module wires, which authorises nobody, no interleaving of messages puts
  anybody into a room or makes the gateway send anything: every \<open>peer:join\<close>, call event and SFU
  request is refused in the deployed wiring.\<close>

theorem noop_bus_disables_signaling:
  assumes "gw_reach zod (\<lambda>k u. ar_authorized (noop_isParticipant k u)) s ps"
  shows "reg_member k sid (gw_registry s) = None \<and> gw_out s = []
    \<and> \<not> is_ok (fst (peer_join_resume (noop_isParticipant k u) k u c t s))
    \<and> \<not> is_ok (fst (handleCallEvent noop_isParticipant k ev u s))
    \<and> \<not> is_ok (fst (handleSfuEvent noop_isParticipant k u ns s))"
  using noop_bus_empty [OF assms]
  by (simp add: peer_join_resume_def handleCallEvent_def handleSfuEvent_def may_act_def
      reg_isParticipant_def noop_isParticipant_def)

lemma demo_waits_noop:
  "gw_reach zod_ref (\<lambda>k u. ar_authorized (noop_isParticipant k u)) demo_waiting [(''c1'', ''ana'', demo_client)]"
  using gw_reach.join_waits [OF gw_reach.start demo_start] by (simp add: demo_waiting_def)

theorem noop_bus_disables_signaling_witness:
  "\<not> is_ok (fst (peer_join_resume (noop_isParticipant ''c1'' ''ana'') ''c1'' ''ana'' demo_client 7 demo_waiting))"
  using noop_bus_disables_signaling [OF demo_waits_noop] by blast


section \<open>Single handlers\<close>

lemma set_map_pairs: "set (map f xs) = {f (k, m) |k m. (k, m) \<in> set xs}"
  by auto

text \<open>When a socket disconnects it is removed from every room, all other memberships stay, and
  exactly one \<open>peer:left\<close> is sent to each room it was in, with the user it was registered as.\<close>

theorem disconnect_spec:
  assumes "reg_ok (gw_registry s)"
  shows "reg_member k sid (gw_registry (handleDisconnect c s)) =
      (if sid = cl_id c then None else reg_member k sid (gw_registry s))
    \<and> (\<exists>new. gw_out (handleDisconnect c s) = gw_out s @ new
        \<and> set new = {ToRoom k (PeerLeft k (rm_userId m) (cl_id c)) |k m. reg_member k (cl_id c) (gw_registry s) = Some m})"
proof -
  have "set (map (left_event (cl_id c)) (fst (reg_leave (cl_id c) (gw_registry s))))
      = {ToRoom k (PeerLeft k (rm_userId m) (cl_id c)) |k m. reg_member k (cl_id c) (gw_registry s) = Some m}"
    unfolding set_map_pairs by (simp add: left_event_def reg_leave_out [OF reg_ok_wf [OF assms]])
  then show ?thesis
    unfolding handleDisconnect_eq reg_member_leave [OF reg_ok_wf [OF assms]]
    by (intro conjI exI [of _ "map (left_event (cl_id c)) (fst (reg_leave (cl_id c) (gw_registry s)))"])
      (rule refl, rule refl, assumption)
qed

lemma demo_joined_ok: "reg_ok (gw_registry demo_joined)"
  using gw_reach_inv [OF demo_joined_reach] by (simp add: gw_inv_def)

theorem disconnect_spec_witness:
  "reg_member ''c1'' ''s1'' (gw_registry (handleDisconnect demo_client demo_joined)) = None
   \<and> reg_member ''c1'' ''s1'' (gw_registry demo_joined) \<noteq> None"
  using disconnect_spec [OF demo_joined_ok, of "''c1''" "''s1''" demo_client]
  by (simp add: demo_client_def demo_joined_eq reg_member_def jget_def)

text \<open>Whom an effect speaks for.\<close>

fun speaker :: "gw_effect \<Rightarrow> string option" where
  "speaker (ToRoom r (PeerLeft k u sid)) = Some u"
| "speaker (ToRoom r (PeerReconnecting k u sid)) = Some u"
| "speaker (ToRoom r (PeerJoined k u sid)) = Some u"
| "speaker (ToRoom r (CallEventEv k u ev)) = Some u"
| "speaker (ToRoom r (CallInviteEv k from ty)) = Some from"
| "speaker (ToOthers sid r (PeerJoined k u sid')) = Some u"
| "speaker (ToOthers sid r _) = None"
| "speaker (Notify k ev u) = Some u"
| "speaker (IoJoin sid k) = None"
| "speaker (IoLeave sid k) = None"

text \<open>\<open>msg_effects u s s'\<close>: what was sent between \<open>s\<close> and \<open>s'\<close> speaks for user \<open>u\<close> only.\<close>

definition speaks_as :: "jsval \<Rightarrow> gw_state \<Rightarrow> gw_state \<Rightarrow> bool" where
  "speaks_as data s s' \<longleftrightarrow>
     (\<exists>new. gw_out s' = gw_out s @ new \<and>
        list_all (\<lambda>e. case speaker e of None \<Rightarrow> True | Some u \<Rightarrow> getUserId data = Inr u) new)"

lemma speaks_as_refl: "gw_out s' = gw_out s \<Longrightarrow> speaks_as d s s'"
  by (simp add: speaks_as_def)

lemma speaks_asI:
  "gw_out s' = gw_out s @ new \<Longrightarrow>
   list_all (\<lambda>e. case speaker e of None \<Rightarrow> True | Some u \<Rightarrow> getUserId d = Inr u) new \<Longrightarrow> speaks_as d s s'"
  by (auto simp: speaks_as_def)

lemma signal_speaks: "speaks_as (cl_data c) s (snd (handleCallSignal ev zod bus v c now s))"
proof (cases "receive (parse_signal ev zod) v c now s")
  case (Pair r s1)
  note keep = receive_snd [OF Pair]
  show ?thesis
  proof (cases r)
    case (Inr x)
    obtain u k where x: "x = (u, k)" by fastforce
    have u: "getUserId (cl_data c) = Inr u" using Pair Inr x by (auto dest: receive_user)
    show ?thesis
    proof (cases "may_act bus k u s1")
      case True
      then show ?thesis using Pair Inr x keep u
        by (intro speaks_asI [where new = "[Notify k ev u, ToRoom k (CallEventEv k u ev)]"])
          (simp_all add: handleCallSignal_def handleCallEvent_def Let_def)
    qed (use Pair Inr x keep in \<open>simp add: handleCallSignal_def handleCallEvent_def speaks_as_refl\<close>)
  qed (use Pair keep in \<open>simp add: handleCallSignal_def speaks_as_refl\<close>)
qed

lemma invite_speaks: "speaks_as (cl_data c) s (snd (handleCallInvite zod bus v c now s))"
proof (cases "receive (parseCallInvitePayload zod) v c now s")
  case (Pair r s1)
  note keep = receive_snd [OF Pair]
  show ?thesis
  proof (cases "\<exists>p. r = Inr (ip_from p, p)")
    case True
    then obtain p where p: "r = Inr (ip_from p, p)" by blast
    then have u: "getUserId (cl_data c) = Inr (ip_from p)" using Pair by (auto dest: receive_user)
    then show ?thesis using Pair p keep
      by (intro speaks_asI [where new = "map (\<lambda>u. ToRoom (''user:'' @ u) (CallInviteEv (ip_callId p) (ip_from p) (ip_type p)))
          (filter (\<lambda>u. may_act bus (ip_callId p) u s1) (ip_to p))"])
        (simp_all add: handleCallInvite_def Let_def split_def emitCallInvite_eq list_all_iff)
  next
    case False
    with Pair keep show ?thesis
      by (cases r) (auto simp: handleCallInvite_def speaks_as_refl)
  qed
qed

lemma leave_speaks: "speaks_as (cl_data c) s (snd (handlePeerLeave zod v c now s))"
proof (cases "receive (parseCallRingingPayload zod) v c now s")
  case (Pair r s1)
  note keep = receive_snd [OF Pair]
  show ?thesis
  proof (cases "\<exists>u k m. r = Inr (u, k) \<and> reg_member k (cl_id c) (gw_registry s1) = Some m \<and> rm_userId m = u")
    case True
    then obtain u k m where r: "r = Inr (u, k)" "reg_member k (cl_id c) (gw_registry s1) = Some m" "rm_userId m = u"
      by blast
    then have u: "getUserId (cl_data c) = Inr u" using Pair by (auto dest: receive_user)
    then show ?thesis using Pair r keep
      by (intro speaks_asI [where new = "[IoLeave (cl_id c) k, ToRoom k (PeerLeft k u (cl_id c))]"])
        (simp_all add: handlePeerLeave_def Let_def)
  next
    case False
    with Pair keep show ?thesis
      by (cases r) (auto simp: handlePeerLeave_def speaks_as_refl split: option.split)
  qed
qed

lemma reconnect_speaks: "speaks_as (cl_data c) s (snd (handlePeerReconnect zod v c now s))"
proof (cases "receive (parseCallRingingPayload zod) v c now s")
  case (Pair r s1)
  note keep = receive_snd [OF Pair]
  show ?thesis
  proof (cases "\<exists>u k m. r = Inr (u, k) \<and> reg_member k (cl_id c) (gw_registry s1) = Some m \<and> rm_userId m = u")
    case True
    then obtain u k m where r: "r = Inr (u, k)" "reg_member k (cl_id c) (gw_registry s1) = Some m" "rm_userId m = u"
      by blast
    then have u: "getUserId (cl_data c) = Inr u" using Pair by (auto dest: receive_user)
    then show ?thesis using Pair r keep
      by (intro speaks_asI [where new = "[ToRoom k (PeerReconnecting k u (cl_id c))]"])
        (simp_all add: handlePeerReconnect_def Let_def)
  next
    case False
    with Pair keep show ?thesis
      by (cases r) (auto simp: handlePeerReconnect_def speaks_as_refl split: option.split)
  qed
qed


text \<open>Nobody can speak for another user: whatever a socket sends, and in whatever state, each
  message the gateway sends out or passes to the bus because of it names as its user the one
  authenticated on that socket.\<close>

theorem no_impersonation:
  "speaks_as (cl_data c) s (snd (gw_handle zod bus msg v c now s))
   \<and> speaks_as (cl_data c) s (snd (handlePeerJoin zod bus v c now t s))"
proof -
  have sfu: "speaks_as (cl_data c) s (snd (handleSfu parse ns zod bus v c now s))" for parse ns
    using receive_snd [of "parse zod" v c now s]
    by (auto simp: handleSfu_def handleSfuEvent_def intro!: speaks_as_refl split: prod.split sum.split)
  have handle: "speaks_as (cl_data c) s (snd (gw_handle zod bus msg v c now s))"
    by (cases msg) (simp_all add: signal_speaks invite_speaks leave_speaks reconnect_speaks sfu
      handleSfuJoinRoom_def handleSfuPublishTrack_def handleSfuSubscribeTrack_def)
  have "speaks_as (cl_data c) s (snd (handlePeerJoin zod bus v c now t s))"
  proof (cases "receive (parseCallInvitePayload zod) v c now s")
    case (Pair r s1)
    note keep = receive_snd [OF Pair]
    show ?thesis
    proof (cases "\<exists>p. r = Inr (ip_from p, p) \<and> may_act bus (ip_callId p) (ip_from p) s1")
      case True
      then obtain p where p: "r = Inr (ip_from p, p)" "may_act bus (ip_callId p) (ip_from p) s1" by blast
      then have u: "getUserId (cl_data c) = Inr (ip_from p)" using Pair by (auto dest: receive_user)
      then show ?thesis using Pair p keep
        by (intro speaks_asI [where new = "[IoJoin (cl_id c) (ip_callId p),
            ToOthers (cl_id c) (ip_callId p) (PeerJoined (ip_callId p) (ip_from p) (cl_id c))]"])
          (simp_all add: handlePeerJoin_def peer_join_start_def peer_join_resume_def may_act_def
            split_def Let_def, simp_all add: reg_join_def Let_def)
    next
      case False
      with Pair keep show ?thesis
        by (cases r) (auto simp: handlePeerJoin_def peer_join_start_def peer_join_resume_def may_act_def
            speaks_as_refl)
    qed
  qed
  with handle show ?thesis ..
qed

text \<open>A refused message changes nothing but the rate-limit buckets: no membership, nothing sent.\<close>

theorem refused_message_no_effect:
  assumes "fst (gw_handle zod bus msg v c now s) = Inl e"
  shows "gw_registry (snd (gw_handle zod bus msg v c now s)) = gw_registry s
    \<and> gw_out (snd (gw_handle zod bus msg v c now s)) = gw_out s"
  using assms
  by (cases msg)
    (auto simp: handlePeerLeave_def handlePeerReconnect_def handleCallInvite_def handleCallSignal_def
      handleCallEvent_def handleSfuJoinRoom_def handleSfuPublishTrack_def handleSfuSubscribeTrack_def
      handleSfu_def handleSfuEvent_def Let_def split_def
      dest: receive_snd split: prod.splits sum.splits option.splits if_splits)

theorem refused_message_no_effect_witness:
  "gw_registry (snd (gw_handle zod_ref demo_bus MPeerLeave JNull demo_client 0 demo_joined)) = gw_registry demo_joined"
proof -
  have "\<not> is_ok (parseCallRingingPayload zod_ref JNull)"
    by (simp add: parseCallRingingPayload_def parseGenericCallEvent_def safe_parse_def zod_ref_def
        callEventPayloadSchema_def)
  then obtain m where m: "parseCallRingingPayload zod_ref JNull = Inl m" by (auto simp: not_is_ok_iff)
  have "\<exists>e. fst (gw_handle zod_ref demo_bus MPeerLeave JNull demo_client 0 demo_joined) = Inl e"
    using m by (auto simp: handlePeerLeave_def receive_def split: prod.splits sum.splits)
  then show ?thesis using refused_message_no_effect by blast
qed


section \<open>What the code does beyond its intent\<close>

text \<open>Leaving one room removes the socket from every room it is in, but only the room named in the
  message is told (and only that socket.io room is left): the other rooms keep showing a peer
  the registry no longer has.\<close>

theorem leave_clears_all_rooms_tells_one:
  assumes "reg_ok (gw_registry s)"
    and "handlePeerLeave zod v c now s = (Inr (CallAckReply k), s')"
  shows "reg_member k' (cl_id c) (gw_registry s') = None
    \<and> (\<exists>u. gw_out s' = gw_out s @ [IoLeave (cl_id c) k, ToRoom k (PeerLeft k u (cl_id c))])"
proof (cases "receive (parseCallRingingPayload zod) v c now s")
  case (Pair r s1)
  note keep = receive_snd [OF Pair]
  have "fst (handlePeerLeave zod v c now s) = Inr (CallAckReply k)" "snd (handlePeerLeave zod v c now s) = s'"
    using assms(2) by simp_all
  with Pair keep assms(1) show ?thesis
    by (cases r) (auto simp: handlePeerLeave_def Let_def reg_member_leave reg_ok_wf
        split: prod.splits option.splits if_splits)
qed

text \<open>Two rooms for one socket.\<close>

definition demo_two :: gw_state where
  "demo_two = snd (peer_join_resume (demo_bus ''c2'' ''ana'') ''c2'' ''ana'' demo_client 8 demo_joined)"

lemma demo_two_eq:
  "gw_registry demo_two =
     [(''c1'', [(''s1'', \<lparr>rm_socketId = ''s1'', rm_userId = ''ana'', rm_joinedAt = 7\<rparr>)]),
      (''c2'', [(''s1'', \<lparr>rm_socketId = ''s1'', rm_userId = ''ana'', rm_joinedAt = 8\<rparr>)])]"
  using demo_joined_eq
  by (simp add: demo_two_def peer_join_resume_def demo_bus_def demo_allow_def reg_join_def Let_def
      jset_def demo_client_def jempty_def jget_def)

lemma demo_two_ok: "reg_ok (gw_registry demo_two)"
  by (auto simp: demo_two_eq reg_ok_def room_ok_def jwf_def jget_def split: if_splits)

lemma demo_leave_parse:
  "parseCallRingingPayload zod_ref (JObj [(''callId'', JStr ''c1'')]) = Inr ''c1''"
  by (simp add: parseCallRingingPayload_def parseGenericCallEvent_def safe_parse_def zod_ref_def
      callEventPayloadSchema_def callIdSchema_def min_ok_def stripped_def)

lemma demo_two_leaves:
  "fst (handlePeerLeave zod_ref (JObj [(''callId'', JStr ''c1'')]) demo_client 2000 demo_two) = Inr (CallAckReply ''c1'')"
  by (simp add: handlePeerLeave_def receive_def enforceRateLimit_def tryConsume_def demo_leave_parse
      demo_client_def getUserId_def reg_member_def demo_two_eq jget_def Let_def
      demo_two_def peer_join_resume_def demo_bus_def demo_allow_def split_def demo_joined_def
      demo_waiting_def gateway_limits_def guard_options_def SIGNALING_RATE_LIMIT_DEFAULT_def
      SIGNALING_RATE_LIMIT_WINDOW_MS_def init_gateway_def reg_join_def jempty_def jset_def)

theorem leave_clears_all_rooms_tells_one_witness:
  "reg_member ''c2'' ''s1'' (gw_registry demo_two) \<noteq> None
   \<and> reg_member ''c2'' ''s1'' (gw_registry
        (snd (handlePeerLeave zod_ref (JObj [(''callId'', JStr ''c1'')]) demo_client 2000 demo_two))) = None"
proof -
  have "reg_member ''c2'' ''s1'' (gw_registry demo_two) \<noteq> None"
    by (simp add: demo_two_eq reg_member_def jget_def)
  moreover have "handlePeerLeave zod_ref (JObj [(''callId'', JStr ''c1'')]) demo_client 2000 demo_two
      = (Inr (CallAckReply ''c1''), snd (handlePeerLeave zod_ref (JObj [(''callId'', JStr ''c1'')]) demo_client 2000 demo_two))"
    using demo_two_leaves by (simp add: prod_eq_iff)
  from leave_clears_all_rooms_tells_one [OF demo_two_ok this, of "''c2''"]
  have "reg_member ''c2'' ''s1'' (gw_registry
      (snd (handlePeerLeave zod_ref (JObj [(''callId'', JStr ''c1'')]) demo_client 2000 demo_two))) = None"
    by (simp add: demo_client_def)
  ultimately show ?thesis by simp
qed

text \<open>A socket that disconnects while its \<open>peer:join\<close> waits for the bus is registered after it is
  gone: this state is reachable, with the socket a member and no join waiting.\<close>

theorem disconnect_during_join_leaves_ghost:
  "\<exists>s. gw_reach zod_ref demo_allow (handleDisconnect demo_client demo_waiting) [(''c1'', ''ana'', demo_client)]
     \<and> s = snd (peer_join_resume (demo_bus ''c1'' ''ana'') ''c1'' ''ana'' demo_client 7
                  (handleDisconnect demo_client demo_waiting))
     \<and> gw_reach zod_ref demo_allow s [] \<and> reg_member ''c1'' ''s1'' (gw_registry s) \<noteq> None"
proof -
  let ?d = "handleDisconnect demo_client demo_waiting"
  let ?s = "snd (peer_join_resume (demo_bus ''c1'' ''ana'') ''c1'' ''ana'' demo_client 7 ?d)"
  have d: "gw_reach zod_ref demo_allow ?d [(''c1'', ''ana'', demo_client)]"
    using demo_waits by (rule gw_reach.disconnect)
  then have "gw_reach zod_ref demo_allow ?s []"
    using gw_reach.join_resumes [of zod_ref demo_allow ?d "[]" "''c1''" "''ana''" demo_client "[]" demo_bus 7]
      demo_bus_within by simp
  moreover have "reg_member ''c1'' ''s1'' (gw_registry ?s) \<noteq> None"
    by (simp add: peer_join_resume_def demo_bus_def demo_allow_def Let_def split_def reg_member_join demo_client_def)
  ultimately show ?thesis using d by blast
qed

text \<open>Invitations go to the room \<open>user:<id>\<close> of each addressee who may act in the call, but no socket
  is ever put into such a room: in every reachable state the only rooms joined are those of
  calls the bus authorised somebody for.\<close>

theorem invitations_reach_no_socket:
  assumes "gw_reach zod allow s ps" and "\<And>k u. allow k u \<Longrightarrow> \<not> starts_with ''user:'' k"
  shows "gw_out (snd (emitCallInvite bus k from tos ty s))
      = gw_out s @ map (\<lambda>u. ToRoom (''user:'' @ u) (CallInviteEv k from ty)) (filter (\<lambda>u. may_act bus k u s) tos)
    \<and> IoJoin sid (''user:'' @ v) \<notin> set (gw_out s)"
proof -
  have "\<not> effect_within allow (IoJoin sid (''user:'' @ v))"
    using assms(2) by (auto simp: starts_with_iff)
  then have "IoJoin sid (''user:'' @ v) \<notin> set (gw_out s)"
    using gw_reach_inv [OF assms(1)] unfolding gw_inv_def list_all_iff by blast
  then show ?thesis by (simp add: emitCallInvite_eq)
qed

definition demo_allow1 :: "string \<Rightarrow> string \<Rightarrow> bool" where
  "demo_allow1 k u \<longleftrightarrow> k = ''c1''"

theorem invitations_reach_no_socket_witness:
  "IoJoin ''s1'' (''user:'' @ ''ben'') \<notin> set (gw_out demo_waiting)"
proof -
  have reach: "gw_reach zod_ref demo_allow1 demo_waiting [(''c1'', ''ana'', demo_client)]"
    using gw_reach.join_waits [OF gw_reach.start demo_start, of demo_allow1] by (simp add: demo_waiting_def)
  have "demo_allow1 k u \<Longrightarrow> \<not> starts_with ''user:'' k" for k u
    by (simp add: demo_allow1_def starts_with_def)
  from conjunct2 [OF invitations_reach_no_socket [OF reach this]] show ?thesis by simp
qed

text \<open>Joining succeeds exactly for a well-formed payload of the authenticated user whom the bus
  authorises or who is in the room already; the acknowledgement lists the other sockets of the
  room, and the room is told.\<close>

theorem peer_join_resume_spec:
  assumes "reg_ok (gw_registry s)"
  shows "case peer_join_resume auth k u c t s of
      (Inl e, s') \<Rightarrow> e = ''forbidden'' \<and> s' = s \<and> \<not> ar_authorized auth \<and> \<not> reg_hasMember k u (gw_registry s)
    | (Inr r, s') \<Rightarrow> (ar_authorized auth \<or> reg_hasMember k u (gw_registry s))
        \<and> reg_member k (cl_id c) (gw_registry s') = Some \<lparr>rm_socketId = cl_id c, rm_userId = u, rm_joinedAt = t\<rparr>
        \<and> gw_out s' = gw_out s @ [IoJoin (cl_id c) k, ToOthers (cl_id c) k (PeerJoined k u (cl_id c))]
        \<and> (\<exists>peers. r = JoinedReply k u peers \<and>
            set peers = {(sid, rm_userId m) |sid m. sid \<noteq> cl_id c \<and> reg_member k sid (gw_registry s) = Some m})"
proof (cases "ar_authorized auth \<or> reg_hasMember k u (gw_registry s)")
  case True
  let ?r = "snd (reg_join k (cl_id c) u t (gw_registry s))"
  have ok: "reg_ok ?r" using assms by (rule reg_ok_join)
  have mem: "m \<in> set (reg_members k ?r) \<longleftrightarrow> (\<exists>sid. reg_member k sid ?r = Some m)" for m
  proof -
    obtain room where room: "jget ?r k = Some room" by (auto simp: reg_join_def Let_def)
    with ok have "jwf room" by (auto simp: reg_ok_def room_ok_def)
    with room show ?thesis by (simp add: reg_members_def reg_member_def jvals_in)
  qed
  have sid: "reg_member k sid ?r = Some m \<Longrightarrow> rm_socketId m = sid" for sid m
    using ok by (auto simp: reg_member_def reg_ok_def room_ok_def split: option.splits)
  have "set (map (\<lambda>m. (rm_socketId m, rm_userId m)) (filter (\<lambda>m. rm_socketId m \<noteq> cl_id c) (reg_members k ?r)))
      = {(sid, rm_userId m) |sid m. sid \<noteq> cl_id c \<and> reg_member k sid ?r = Some m}"
    using mem sid by (auto simp: image_iff)
  also have "\<dots> = {(sid, rm_userId m) |sid m. sid \<noteq> cl_id c \<and> reg_member k sid (gw_registry s) = Some m}"
    by (auto simp: reg_member_join)
  finally show ?thesis
    using True by (simp add: peer_join_resume_def Let_def split_def reg_isParticipant_def reg_member_join)
      (simp add: reg_join_def Let_def)
qed (simp add: peer_join_resume_def reg_isParticipant_def)

theorem peer_join_resume_spec_witness:
  "reg_member ''c1'' ''s1'' (gw_registry demo_joined) = Some \<lparr>rm_socketId = ''s1'', rm_userId = ''ana'', rm_joinedAt = 7\<rparr>"
proof -
  have "reg_ok (gw_registry demo_waiting)"
    by (simp add: demo_waiting_def init_gateway_def reg_ok_reset [unfolded reg_reset_def])
  from peer_join_resume_spec [OF this, of "demo_bus ''c1'' ''ana''" "''c1''" "''ana''" demo_client 7] show ?thesis
    unfolding demo_joined_def
    by (auto simp: demo_client_def demo_bus_def demo_allow_def split: prod.splits sum.splits)
qed

end
