(* ===== verification/WsAuth.thy ===== *)
theory WsAuth
  imports Gateway Http
begin

text \<open>
  Authentication of sockets: \<open>JwtWsMiddleware\<close> (\<open>src/src/signaling/jwt-ws.middleware.ts\<close>) and the
  wrapper the gateway installs it with, \<open>WsAuthMiddleware\<close>
  (\<open>src/src/security/ws-auth.middleware.ts\<close>) and \<open>WsJwtGuard\<close> (\<open>src/src/auth/ws-jwt.guard.ts\<close>).
  Verification by \<open>jsonwebtoken\<close> is a parameter: \<open>verify token options\<close> is the payload or the
  error thrown. So is \<open>num_str\<close>, the decimal text of a number.
\<close>

section \<open>Sockets and tokens\<close>

record ws_socket =
  so_id :: string
  so_auth :: jsval
  so_headers :: jsval
  so_query :: jsval
  so_data :: "(string, jsval) jmap"

text \<open>The classes of \<open>jsonwebtoken\<close>; expired and not-before errors are also \<open>JsonWebTokenError\<close>s.\<close>

datatype jwt_error =
    TokenExpiredError string
  | NotBeforeError string
  | JsonWebTokenError string
  | NamedError string string
  | NotAnError

record verify_options =
  vo_secret :: string
  vo_algorithms :: "string list option"
  vo_clockTolerance :: "int option"
  vo_issuer :: "string option"
  vo_audience :: "string option"

type_synonym jwt_verify = "string \<Rightarrow> verify_options \<Rightarrow> jwt_error + jsval"

fun is_string :: "jsval \<Rightarrow> bool" where
  "is_string (JStr _) = True"
| "is_string _ = False"

datatype ws_effect = EmitAuthError string | DisconnectSocket

section \<open>\<open>JwtWsMiddleware\<close>\<close>

record jwt_ws_options =
  jo_secret :: string
  jo_algorithms :: "string list option"
  jo_userIdClaim :: "string option"

definition pickToken :: "jsval \<Rightarrow> string option" where
  "pickToken value =
     (case nonempty_str value of
        None \<Rightarrow> None
      | Some s \<Rightarrow>
          if starts_with ''Bearer '' s
          then let token = js_trim (drop (length ''Bearer '') s)
               in if length token > 0 then Some token else None
          else Some s)"

definition jwt_extractToken :: "ws_socket \<Rightarrow> string option" where
  "jwt_extractToken socket =
     (case pickToken (js_prop ''token'' (so_auth socket)) of
        Some t \<Rightarrow> Some t
      | None \<Rightarrow>
          (case pickToken (js_prop ''authorization'' (so_headers socket)) of
             Some t \<Rightarrow> Some t
           | None \<Rightarrow> pickToken (js_prop ''token'' (so_query socket))))"

definition extractUserId :: "string \<Rightarrow> jsval \<Rightarrow> string option" where
  "extractUserId claim payload =
     (if is_string payload then None
      else case nonempty_str (js_prop claim payload) of
             Some u \<Rightarrow> Some u
           | None \<Rightarrow>
               (case nonempty_str (js_prop ''sub'' payload) of
                  Some u \<Rightarrow> Some u
                | None \<Rightarrow> nonempty_str (js_prop ''userId'' payload)))"

definition jwt_ws_verify_options :: "jwt_ws_options \<Rightarrow> verify_options" where
  "jwt_ws_verify_options o1 =
     \<lparr>vo_secret = jo_secret o1, vo_algorithms = jo_algorithms o1, vo_clockTolerance = None,
      vo_issuer = None, vo_audience = None\<rparr>"

fun reject_reason :: "jwt_error \<Rightarrow> string" where
  "reject_reason (TokenExpiredError _) = ''expired''"
| "reject_reason (NotBeforeError _) = ''invalid''"
| "reject_reason (JsonWebTokenError _) = ''invalid''"
| "reject_reason (NamedError _ _) = ''verification-failed''"
| "reject_reason NotAnError = ''verification-failed''"

text \<open>The message of the error passed to \<open>next\<close>.\<close>

fun next_message :: "jwt_error \<Rightarrow> string" where
  "next_message (TokenExpiredError m) = m"
| "next_message (NotBeforeError m) = m"
| "next_message (JsonWebTokenError m) = m"
| "next_message (NamedError n m) = m"
| "next_message NotAnError = ''unauthorized''"

definition disconnect_effects :: "string \<Rightarrow> ws_effect list" where
  "disconnect_effects reason = [EmitAuthError reason, DisconnectSocket]"

text \<open>The result is the error given to \<open>next\<close>, or success; then the socket and the effects.\<close>

definition jwt_ws_use ::
    "jwt_verify \<Rightarrow> jwt_ws_options \<Rightarrow> ws_socket \<Rightarrow> (string + unit) \<times> ws_socket \<times> ws_effect list" where
  "jwt_ws_use verify o1 socket =
     (case jwt_extractToken socket of
        None \<Rightarrow> (Inl ''unauthorized'', socket, disconnect_effects ''missing-token'')
      | Some token \<Rightarrow>
          (case verify token (jwt_ws_verify_options o1) of
             Inl err \<Rightarrow> (Inl (next_message err), socket, disconnect_effects (reject_reason err))
           | Inr payload \<Rightarrow>
               (case extractUserId (or_default (jo_userIdClaim o1) ''sub'') payload of
                  None \<Rightarrow> (Inl ''unauthorized'', socket, disconnect_effects ''missing-userId'')
                | Some userId \<Rightarrow>
                    (Inr (), socket\<lparr>so_data := jset ''token'' (JStr token)
                                               (jset ''userId'' (JStr userId) (so_data socket))\<rparr>, []))))"

definition verifyHandshake :: "jwt_verify \<Rightarrow> jwt_ws_options \<Rightarrow> ws_socket \<Rightarrow> string + string \<times> string" where
  "verifyHandshake verify o1 socket =
     (case jwt_extractToken socket of
        None \<Rightarrow> Inl ''missing-token''
      | Some token \<Rightarrow>
          (case verify token (jwt_ws_verify_options o1) of
             Inl err \<Rightarrow> Inl (next_message err)
           | Inr payload \<Rightarrow>
               (case extractUserId (or_default (jo_userIdClaim o1) ''sub'') payload of
                  None \<Rightarrow> Inl ''missing-userId''
                | Some userId \<Rightarrow> Inr (userId, token))))"

text \<open>The middleware \<open>SignalingGateway.afterInit\<close> installs: it reports a failure once more.\<close>

definition gateway_middleware ::
    "jwt_verify \<Rightarrow> string \<Rightarrow> ws_socket \<Rightarrow> (string + unit) \<times> ws_socket \<times> ws_effect list" where
  "gateway_middleware verify secret socket =
     (case jwt_ws_use verify \<lparr>jo_secret = secret, jo_algorithms = None, jo_userIdClaim = None\<rparr> socket of
        (Inl err, s1, effs) \<Rightarrow> (Inl err, s1, effs @ disconnect_effects ''unauthorized'')
      | (Inr _, s1, effs) \<Rightarrow> (Inr (), s1, effs))"


section \<open>\<open>WsAuthMiddleware\<close>\<close>

record ws_auth_options =
  wo_secret :: "string option"
  wo_algorithms :: "string list option"
  wo_issuer :: "string option"
  wo_audience :: "string option"
  wo_clockTolerance :: "int option"
  wo_userIdClaim :: "string option"
  wo_requiredClaims :: "string list option"

record ws_auth_config =
  wc_secret :: string
  wc_algorithms :: "string list"
  wc_issuer :: "string option"
  wc_audience :: "string option"
  wc_clockTolerance :: int
  wc_userIdClaim :: string
  wc_requiredClaims :: "string list"

definition defaultWsAuthOptions :: ws_auth_config where
  "defaultWsAuthOptions =
     \<lparr>wc_secret = [], wc_algorithms = [''HS256''], wc_issuer = None, wc_audience = None, wc_clockTolerance = 5,
      wc_userIdClaim = ''sub'', wc_requiredClaims = []\<rparr>"

text \<open>The constructor: options over configuration over defaults.\<close>

definition ws_auth_config_of ::
    "ws_auth_options \<Rightarrow> string \<Rightarrow> string option \<Rightarrow> string option \<Rightarrow> ws_auth_config" where
  "ws_auth_config_of o1 cfg_secret cfg_issuer cfg_audience =
     \<lparr>wc_secret = or_default (wo_secret o1) cfg_secret,
      wc_algorithms = or_default (wo_algorithms o1) (wc_algorithms defaultWsAuthOptions),
      wc_issuer = (case wo_issuer o1 of Some i \<Rightarrow> Some i | None \<Rightarrow> cfg_issuer),
      wc_audience = (case wo_audience o1 of Some a \<Rightarrow> Some a | None \<Rightarrow> cfg_audience),
      wc_clockTolerance = or_default (wo_clockTolerance o1) (wc_clockTolerance defaultWsAuthOptions),
      wc_userIdClaim = or_default (wo_userIdClaim o1) (wc_userIdClaim defaultWsAuthOptions),
      wc_requiredClaims = or_default (wo_requiredClaims o1) []\<rparr>"

datatype token_source = HandshakeAuth | AuthHeader | QueryToken

fun source_str :: "token_source \<Rightarrow> string" where
  "source_str HandshakeAuth = ''handshake.auth.token''"
| "source_str AuthHeader = ''Authorization''"
| "source_str QueryToken = ''query.token''"

definition handshakeAuthSchema :: zschema where
  "handshakeAuthSchema = ZLoose [(''token'', ZOptional (ZString (Some (1, []))))]"

definition handshakeHeadersSchema :: zschema where
  "handshakeHeadersSchema = ZLoose [(''authorization'', ZOptional (ZString None))]"

definition handshakeQuerySchema :: zschema where
  "handshakeQuerySchema = ZLoose [(''token'', ZOptional (ZString (Some (1, []))))]"

text \<open>
  \<open>/^Bearer\s+(.+)$/i\<close>. The white space is matched greedily and gives back one character when
  nothing is left for the group; the group stops at no line terminator.
\<close>

definition line_end :: "char \<Rightarrow> bool" where
  "line_end c \<longleftrightarrow> c = CHR 0x0A \<or> c = CHR 0x0D"

definition bearer_match :: "string \<Rightarrow> string option" where
  "bearer_match raw =
     (if map lower (take 6 raw) \<noteq> ''bearer'' then None
      else let ws = takeWhile is_space (drop 6 raw); rest = dropWhile is_space (drop 6 raw)
           in if ws = [] then None
              else if rest \<noteq> [] then (if list_ex line_end rest then None else Some rest)
              else if length ws \<ge> 2 \<and> \<not> line_end (last ws) then Some [last ws]
              else None)"

lemma lower_bearer:
  "map lower ''Bearer'' = ''bearer''" "map lower ''bearer'' = ''bearer''" "map lower ''BEARER'' = ''bearer''"
  by code_simp+

definition truthy_prop :: "string \<Rightarrow> jsval \<Rightarrow> string option" where
  "truthy_prop k v = nonempty_str (js_prop k v)"

definition ws_extractToken :: "zod \<Rightarrow> ws_socket \<Rightarrow> (string \<times> token_source) option" where
  "ws_extractToken zod socket =
     (let from_query =
            (case zod handshakeQuerySchema (so_query socket) of
               Inl _ \<Rightarrow> None
             | Inr d \<Rightarrow> map_option (\<lambda>t. (t, QueryToken)) (truthy_prop ''token'' d));
          from_header =
            (case zod handshakeHeadersSchema (so_headers socket) of
               Inl _ \<Rightarrow> None
             | Inr d \<Rightarrow>
                 (case truthy_prop ''authorization'' d of
                    None \<Rightarrow> None
                  | Some raw \<Rightarrow> map_option (\<lambda>t. (t, AuthHeader)) (bearer_match raw)));
          from_auth =
            (case zod handshakeAuthSchema (so_auth socket) of
               Inl _ \<Rightarrow> None
             | Inr d \<Rightarrow> map_option (\<lambda>t. (t, HandshakeAuth)) (truthy_prop ''token'' d))
      in case from_auth of
           Some r \<Rightarrow> Some r
         | None \<Rightarrow> (case from_header of Some r \<Rightarrow> Some r | None \<Rightarrow> from_query))"

fun error_name :: "jwt_error \<Rightarrow> string" where
  "error_name (TokenExpiredError _) = ''TokenExpiredError''"
| "error_name (NotBeforeError _) = ''NotBeforeError''"
| "error_name (JsonWebTokenError _) = ''JsonWebTokenError''"
| "error_name (NamedError n _) = n"
| "error_name NotAnError = []"

definition classifyJwtError :: "jwt_error \<Rightarrow> string" where
  "classifyJwtError err =
     (let name = error_name err
      in if name = ''TokenExpiredError'' then ''expired_token''
         else if name = ''NotBeforeError'' then ''inactive_token''
         else if name = ''JsonWebTokenError'' then ''malformed_token''
         else if name = ''InvalidAlgorithmError'' then ''invalid_algorithm''
         else ''invalid_token'')"

record ws_identity =
  wi_userId :: string
  wi_jwt :: string
  wi_payload :: jsval
  wi_source :: token_source

type_synonym ws_auth_result = "(string \<times> token_source option) + ws_identity"

definition truthy_opt :: "string option \<Rightarrow> string option" where
  "truthy_opt x = (case x of None \<Rightarrow> None | Some s \<Rightarrow> if s = [] then None else Some s)"

definition ws_verify_options :: "ws_auth_config \<Rightarrow> verify_options" where
  "ws_verify_options cfg =
     \<lparr>vo_secret = wc_secret cfg, vo_algorithms = Some (wc_algorithms cfg),
      vo_clockTolerance = Some (wc_clockTolerance cfg),
      vo_issuer = truthy_opt (wc_issuer cfg), vo_audience = truthy_opt (wc_audience cfg)\<rparr>"

text \<open>\<open>claim in payload\<close>, for the claims of the token itself.\<close>

fun has_claim :: "string \<Rightarrow> jsval \<Rightarrow> bool" where
  "has_claim k (JObj fs) = (map_of fs k \<noteq> None)"
| "has_claim k _ = False"

definition claim_userId :: "(jsnum \<Rightarrow> string) \<Rightarrow> jsval \<Rightarrow> string option" where
  "claim_userId num_str v =
     (case v of JStr s \<Rightarrow> (if s = [] then None else Some s)
      | JNum n \<Rightarrow> (if num_str n = [] then None else Some (num_str n))
      | _ \<Rightarrow> None)"

definition verifyToken ::
    "jwt_verify \<Rightarrow> (jsnum \<Rightarrow> string) \<Rightarrow> ws_auth_config \<Rightarrow> string \<Rightarrow> token_source \<Rightarrow> ws_auth_result" where
  "verifyToken verify num_str cfg token source =
     (case verify token (ws_verify_options cfg) of
        Inl err \<Rightarrow> Inl (if err = NotAnError then ''invalid_token'' else classifyJwtError err, Some source)
      | Inr payload \<Rightarrow>
          if is_string payload then Inl (''invalid_payload'', Some source)
          else (case find (\<lambda>claim. \<not> has_claim claim payload) (wc_requiredClaims cfg) of
                  Some claim \<Rightarrow> Inl (''missing_claim:'' @ claim, Some source)
                | None \<Rightarrow>
                    (case claim_userId num_str (js_prop (wc_userIdClaim cfg) payload) of
                       None \<Rightarrow> Inl (''missing_user_id'', Some source)
                     | Some userId \<Rightarrow>
                         Inr \<lparr>wi_userId = userId, wi_jwt = token, wi_payload = payload, wi_source = source\<rparr>)))"

definition authenticate ::
    "zod \<Rightarrow> jwt_verify \<Rightarrow> (jsnum \<Rightarrow> string) \<Rightarrow> ws_auth_config \<Rightarrow> ws_socket \<Rightarrow> ws_auth_result" where
  "authenticate zod verify num_str cfg socket =
     (case ws_extractToken zod socket of
        None \<Rightarrow> Inl (''missing_token'', None)
      | Some (token, source) \<Rightarrow> verifyToken verify num_str cfg token source)"

definition ws_handle ::
    "zod \<Rightarrow> jwt_verify \<Rightarrow> (jsnum \<Rightarrow> string) \<Rightarrow> ws_auth_config \<Rightarrow> ws_socket \<Rightarrow> (string + unit) \<times> ws_socket" where
  "ws_handle zod verify num_str cfg socket =
     (case authenticate zod verify num_str cfg socket of
        Inl _ \<Rightarrow> (Inl ''unauthorized'', socket)
      | Inr w \<Rightarrow>
          (Inr (), socket\<lparr>so_data := jset ''authSource'' (JStr (source_str (wi_source w)))
             (jset ''jwt'' (JStr (wi_jwt w)) (jset ''userId'' (JStr (wi_userId w)) (so_data socket)))\<rparr>))"

text \<open>
  The three ways to install the middleware. A middleware of a server is a function of the socket; the server
  runs those it is given in order and stops at the first that passes an error.
\<close>

type_synonym io_middleware = "ws_socket \<Rightarrow> (string + unit) \<times> ws_socket"

definition ws_use :: "zod \<Rightarrow> jwt_verify \<Rightarrow> (jsnum \<Rightarrow> string) \<Rightarrow> ws_auth_config \<Rightarrow> io_middleware" where
  "ws_use zod verify num_str cfg socket = ws_handle zod verify num_str cfg socket"

definition forSocketIo :: "zod \<Rightarrow> jwt_verify \<Rightarrow> (jsnum \<Rightarrow> string) \<Rightarrow> ws_auth_config \<Rightarrow> io_middleware" where
  "forSocketIo zod verify num_str cfg = (\<lambda>socket. ws_handle zod verify num_str cfg socket)"

definition forIoServer ::
    "zod \<Rightarrow> jwt_verify \<Rightarrow> (jsnum \<Rightarrow> string) \<Rightarrow> ws_auth_config \<Rightarrow> io_middleware list \<Rightarrow> io_middleware list" where
  "forIoServer zod verify num_str cfg server = server @ [forSocketIo zod verify num_str cfg]"

text \<open>\<open>createJwtWsMiddleware\<close>: the options of the middleware it constructs.\<close>

definition createJwtWsMiddleware :: "jwt_ws_options \<Rightarrow> jwt_ws_options" where
  "createJwtWsMiddleware o1 =
     \<lparr>jo_secret = jo_secret o1, jo_algorithms = jo_algorithms o1, jo_userIdClaim = jo_userIdClaim o1\<rparr>"

text \<open>\<open>defaultJwtSecret\<close> throws always.\<close>

definition defaultJwtSecret :: "string + string" where
  "defaultJwtSecret =
     Inl ''defaultJwtSecret() has been removed: callers must inject a secret via ConfigService.''"

section \<open>\<open>WsJwtGuard\<close>\<close>

definition guard_extractToken :: "ws_socket \<Rightarrow> string option" where
  "guard_extractToken client =
     (case nonempty_str (js_prop ''token'' (so_auth client)) of
        Some t \<Rightarrow> Some t
      | None \<Rightarrow>
          (case js_prop ''authorization'' (so_headers client) of
             JStr header \<Rightarrow>
               (if starts_with ''Bearer '' header then Some (js_trim (drop (length ''Bearer '') header)) else None)
           | _ \<Rightarrow> None))"

definition ws_guard_canActivate :: "ws_socket \<Rightarrow> http_error + bool" where
  "ws_guard_canActivate client =
     (case guard_extractToken client of
        None \<Rightarrow> Inl (Unauthorized ''Missing JWT in socket handshake'')
      | Some token \<Rightarrow> if token = [] then Inl (Unauthorized ''Missing JWT in socket handshake'') else Inr True)"

section \<open>Properties\<close>

text \<open>The gateway admits a socket exactly when the first token found (auth field, then header, then
  query) verifies with the secret and carries a nonempty user id; then the user the handlers see
  is that id, and otherwise the data of the socket is untouched and it is disconnected.\<close>

theorem gateway_authentication:
  "case gateway_middleware verify secret socket of
     (Inr _, s', effs) \<Rightarrow>
       effs = [] \<and> (\<exists>token payload u. jwt_extractToken socket = Some token
         \<and> verify token \<lparr>vo_secret = secret, vo_algorithms = None, vo_clockTolerance = None,
              vo_issuer = None, vo_audience = None\<rparr> = Inr payload
         \<and> extractUserId ''sub'' payload = Some u \<and> u \<noteq> [] \<and> getUserId (JObj (so_data s')) = Inr u)
   | (Inl _, s', effs) \<Rightarrow> s' = socket \<and> DisconnectSocket \<in> set effs
       \<and> (case jwt_extractToken socket of None \<Rightarrow> True
          | Some token \<Rightarrow> (case verify token \<lparr>vo_secret = secret, vo_algorithms = None, vo_clockTolerance = None,
                vo_issuer = None, vo_audience = None\<rparr> of Inl _ \<Rightarrow> True
              | Inr payload \<Rightarrow> extractUserId ''sub'' payload = None))"
proof -
  have ne: "extractUserId c p = Some u \<Longrightarrow> u \<noteq> []" for c p u
    by (auto simp: extractUserId_def nonempty_str_Some split: if_splits option.splits)
  have got: "getUserId (JObj (jset ''token'' t (jset ''userId'' (JStr u) d))) = Inr u" for t u d
  proof -
    have "map_of (jset ''token'' t (jset ''userId'' (JStr u) d)) ''userId'' = Some (JStr u)"
      using jget_simps(2) [of "''token''" t "jset ''userId'' (JStr u) d" "''userId''"]
      by (simp add: jget_def) (simp flip: jget_def)
    then show ?thesis by (simp add: getUserId_def)
  qed
  show ?thesis
    by (auto simp: gateway_middleware_def jwt_ws_use_def jwt_ws_verify_options_def disconnect_effects_def got
        dest: ne split: option.splits sum.splits)
qed


text \<open>The security middleware accepts a socket exactly when a token is extracted, verifies under the
  configured secret, algorithms, tolerance, issuer and audience, carries every required claim
  and a usable user id; then the socket data hold that id, the token and its source, and on a
  refusal they are untouched.\<close>

theorem ws_auth_middleware_spec:
  "case ws_handle zod verify num_str cfg socket of
     (Inl e, s') \<Rightarrow> e = ''unauthorized'' \<and> s' = socket \<and> \<not> is_ok (authenticate zod verify num_str cfg socket)
   | (Inr _, s') \<Rightarrow> \<exists>token source payload u.
       ws_extractToken zod socket = Some (token, source)
       \<and> verify token (ws_verify_options cfg) = Inr payload
       \<and> list_all (\<lambda>c. has_claim c payload) (wc_requiredClaims cfg)
       \<and> claim_userId num_str (js_prop (wc_userIdClaim cfg) payload) = Some u \<and> u \<noteq> []
       \<and> jget (so_data s') ''userId'' = Some (JStr u) \<and> jget (so_data s') ''jwt'' = Some (JStr token)
       \<and> jget (so_data s') ''authSource'' = Some (JStr (source_str source))"
proof (cases "authenticate zod verify num_str cfg socket")
  case (Inl f)
  then show ?thesis by (simp add: ws_handle_def)
next
  case (Inr w)
  then obtain token source where t: "ws_extractToken zod socket = Some (token, source)"
    and v: "verifyToken verify num_str cfg token source = Inr w"
    by (auto simp: authenticate_def split: option.splits)
  from v obtain payload u where "verify token (ws_verify_options cfg) = Inr payload"
    "find (\<lambda>claim. \<not> has_claim claim payload) (wc_requiredClaims cfg) = None"
    "claim_userId num_str (js_prop (wc_userIdClaim cfg) payload) = Some u"
    "w = \<lparr>wi_userId = u, wi_jwt = token, wi_payload = payload, wi_source = source\<rparr>"
    by (auto simp: verifyToken_def split: sum.splits if_splits option.splits)
  moreover from this(3) have "u \<noteq> []"
    by (auto simp: claim_userId_def split: jsval.splits if_splits)
  ultimately show ?thesis
    using t Inr by (auto simp: ws_handle_def find_None_iff list_all_iff)
qed

text \<open>The token is taken from the auth field if that has one, else from a bearer header, else from
  the query, for any correct \<open>zod\<close>; a bearer header carries any token without white space or
  line terminators, whatever the case of the scheme and the number of spaces.\<close>

theorem ws_token_sources:
  assumes "zod_on {handshakeAuthSchema, handshakeHeadersSchema, handshakeQuerySchema} zod"
    and "so_auth socket = JObj a" and "so_headers socket = JObj h"
    and "tok \<noteq> []" and "list_all (\<lambda>c. \<not> is_space c) tok" and "scheme \<in> {''Bearer'', ''bearer'', ''BEARER''}"
  shows "(js_prop ''token'' (so_auth socket) = JStr tok \<longrightarrow> ws_extractToken zod socket = Some (tok, HandshakeAuth))
    \<and> (js_prop ''token'' (so_auth socket) = JUndef
        \<and> js_prop ''authorization'' (so_headers socket) = JStr (scheme @ replicate (Suc n) (CHR '' '') @ tok) \<longrightarrow>
        ws_extractToken zod socket = Some (tok, AuthHeader))"
proof -
  note z = zod_on_Inr [OF assms(1)]
  have str: "conforms (ZOptional (ZString (Some (1, [])))) (JStr tok)"
    using assms(4) by (simp add: min_ok_def Suc_le_eq)
  have auth: "zod handshakeAuthSchema (JObj a) = Inr (JObj a)"
    if "js_prop ''token'' (JObj a) = JUndef \<or> js_prop ''token'' (JObj a) = JStr tok"
    using z [of handshakeAuthSchema "JObj a" "JObj a"] that str
    by (auto simp: handshakeAuthSchema_def stripped_def simp del: js_prop.simps)
  have head: "zod handshakeHeadersSchema (JObj h) = Inr (JObj h)"
    if "js_prop ''authorization'' (JObj h) = JStr x" for x
    using z [of handshakeHeadersSchema "JObj h" "JObj h"] that
    by (auto simp: handshakeHeadersSchema_def stripped_def min_ok_def simp del: js_prop.simps)
  have nl: "\<not> list_ex line_end tok"
    using assms(5) by (auto simp: list_all_iff list_ex_iff line_end_def is_space_def)
  have sp: "is_space (CHR '' '')" by (simp add: is_space_def)
  have "takeWhile is_space (replicate m (CHR '' '') @ tok) = replicate m (CHR '' '')
      \<and> dropWhile is_space (replicate m (CHR '' '') @ tok) = tok" for m
    using assms(4,5) sp by (induction m) (cases tok; simp)+
  moreover have "map lower scheme = ''bearer''" "length scheme = 6"
    using assms(6) lower_bearer by auto
  ultimately have "bearer_match (scheme @ replicate (Suc n) (CHR '' '') @ tok) = Some tok"
    using assms(4) nl by (simp add: bearer_match_def del: replicate.simps)
  then show ?thesis
    using auth head assms(2-4,6)
    by (auto simp: ws_extractToken_def Let_def truthy_prop_def simp del: js_prop.simps)
qed

definition demo_ws_socket :: ws_socket where
  "demo_ws_socket = \<lparr>so_id = ''s'', so_auth = JObj [], so_headers = JObj [(''authorization'', JStr ''bearer  abc'')],
     so_query = JUndef, so_data = []\<rparr>"

theorem ws_token_sources_witness:
  "ws_extractToken zod_ref demo_ws_socket = Some (''abc'', AuthHeader)"
  using ws_token_sources [OF zod_ref_on, of demo_ws_socket "[]" "[(''authorization'', JStr ''bearer  abc'')]"
      "''abc''" "''bearer''" 1]
  by (simp add: demo_ws_socket_def is_space_def)

text \<open>\<open>WsJwtGuard\<close> checks the presence of a token only: any nonempty string in the auth field passes,
  whether or not it verifies.\<close>

theorem ws_guard_accepts_any_token:
  assumes "js_prop ''token'' (so_auth client) = JStr t" and "t \<noteq> []"
  shows "ws_guard_canActivate client = Inr True"
  using assms by (simp add: ws_guard_canActivate_def guard_extractToken_def)

theorem ws_guard_accepts_any_token_witness:
  "ws_guard_canActivate (demo_ws_socket\<lparr>so_auth := JObj [(''token'', JStr ''junk'')]\<rparr>) = Inr True"
  by (rule ws_guard_accepts_any_token [where t = "''junk''"]) simp_all

text \<open>A socket the gateway refuses is told twice, with two reasons, and disconnected twice.\<close>

theorem refused_socket_told_twice:
  assumes "jwt_extractToken socket = None"
  shows "gateway_middleware verify secret socket = (Inl ''unauthorized'', socket,
    [EmitAuthError ''missing-token'', DisconnectSocket, EmitAuthError ''unauthorized'', DisconnectSocket])"
  using assms by (simp add: gateway_middleware_def jwt_ws_use_def disconnect_effects_def)

theorem refused_socket_told_twice_witness:
  "snd (snd (gateway_middleware (\<lambda>t v. Inl NotAnError) ''k'' (demo_ws_socket\<lparr>so_headers := JUndef\<rparr>)))
     = [EmitAuthError ''missing-token'', DisconnectSocket, EmitAuthError ''unauthorized'', DisconnectSocket]"
  by (subst refused_socket_told_twice)
    (simp_all add: jwt_extractToken_def pickToken_def demo_ws_socket_def)

end
