(* ===== verification/Tokens.thy ===== *)
theory Tokens
  imports Server WsAuth
begin

text \<open>
  The tokens of the server and who accepts them: the options the modules give \<open>JwtService\<close>
  (\<open>src/src/auth/auth.module.ts\<close>, \<open>src/src/auth/jwt.module.ts\<close>), those the strategies and the gateway verify with
  (\<open>src/src/auth/jwt.strategy.ts\<close>, \<open>src/src/turn/jwt.strategy.ts\<close>, \<open>src/src/signaling/signaling.gateway.ts\<close>), and
  \<open>signTestToken\<close> (\<open>src/src/security/ws-auth.middleware.ts\<close>). Signing and verifying are parameters; what is
  relied on is stated by \<open>live_token\<close>.
\<close>

section \<open>Options\<close>

record jwt_module_options =
  jm_secret :: string
  jm_expiresIn :: string

text \<open>The factories of the two modules. Their namespace always gives the secret and the time to live.\<close>

definition auth_jwt_options :: "auth_config \<Rightarrow> jwt_module_options" where
  "auth_jwt_options cfg = \<lparr>jm_secret = jc_secret cfg, jm_expiresIn = or_default (Some (jc_ttl cfg)) ''1h''\<rparr>"

definition app_jwt_options :: "auth_config \<Rightarrow> jwt_module_options" where
  "app_jwt_options cfg = \<lparr>jm_secret = jc_secret cfg, jm_expiresIn = or_default (Some (jc_ttl cfg)) ''1h''\<rparr>"

text \<open>What the session strategy of \<open>auth/\<close> and the one of \<open>turn/\<close> ask the library to check.\<close>

definition session_verify_options :: "auth_config \<Rightarrow> verify_options" where
  "session_verify_options cfg =
     \<lparr>vo_secret = jc_secret cfg, vo_algorithms = None, vo_clockTolerance = None, vo_issuer = None, vo_audience = None\<rparr>"

definition turn_verify_options :: "auth_config \<Rightarrow> verify_options" where
  "turn_verify_options cfg =
     \<lparr>vo_secret = jc_secret cfg, vo_algorithms = None, vo_clockTolerance = None, vo_issuer = jc_issuer cfg,
      vo_audience = jc_audience cfg\<rparr>"

text \<open>The strategy of \<open>turn/\<close> reads the bearer token of the header only.\<close>

definition turn_auth :: "jwt_verify \<Rightarrow> auth_config \<Rightarrow> string option \<Rightarrow> http_error + string \<times> jsval" where
  "turn_auth verify cfg bearer =
     (case bearer of
        None \<Rightarrow> Inl (Unauthorized ''Unauthorized'')
      | Some t \<Rightarrow>
          (case verify t (turn_verify_options cfg) of
             Inl _ \<Rightarrow> Inl (Unauthorized ''Unauthorized'')
           | Inr payload \<Rightarrow> turn_jwt_validate payload))"

text \<open>The parameter decorator of \<open>turn/\<close>: the user the guard has set, or an error.\<close>

definition CurrentUser :: "jsval \<Rightarrow> string + jsval" where
  "CurrentUser user = (if js_falsy user then Inl ''CurrentUser used on an unauthenticated route'' else Inr user)"

text \<open>The options of the security middleware when the module gives it none.\<close>

definition no_ws_options :: ws_auth_options where
  "no_ws_options = \<lparr>wo_secret = None, wo_algorithms = None, wo_issuer = None, wo_audience = None,
     wo_clockTolerance = None, wo_userIdClaim = None, wo_requiredClaims = None\<rparr>"

definition security_ws_config :: "auth_config \<Rightarrow> ws_auth_config" where
  "security_ws_config cfg = ws_auth_config_of no_ws_options (jc_secret cfg) (jc_issuer cfg) (jc_audience cfg)"

section \<open>Payloads\<close>

text \<open>The objects \<open>AuthService\<close> and \<open>WsTokenService\<close> sign; the library adds the times.\<close>

definition session_claims_fields :: "session_claims \<Rightarrow> (string \<times> jsval) list" where
  "session_claims_fields c =
     [(''sub'', JStr (sc_sub c)), (''email'', case sc_email c of None \<Rightarrow> JNull | Some m \<Rightarrow> JStr m)]"

definition ws_claims_fields :: "ws_token_claims \<Rightarrow> (string \<times> jsval) list" where
  "ws_claims_fields c = [(''sub'', JStr (wt_sub c)), (''ws'', JBool True), (''jti'', JStr (wt_jti c))]"

definition stamped :: "(string \<times> jsval) list \<Rightarrow> rat \<Rightarrow> rat \<Rightarrow> jsval" where
  "stamped fs iat expiry = JObj (fs @ [(''iat'', JNum (NFin iat)), (''exp'', JNum (NFin expiry))])"

lemma stamped_session: "stamped (session_claims_fields c) iat expiry = session_payload c iat expiry"
  by (simp add: stamped_def session_claims_fields_def session_payload_def)

text \<open>
  A token the library signed with the secret for an object without issuer and audience, while it is valid: it
  verifies with that secret and an algorithm list that has the signing one, unless an issuer or an
  audience is demanded (an empty text demands none).
\<close>

definition demands :: "string option \<Rightarrow> bool" where
  "demands x \<longleftrightarrow> truthy_str x"

definition allows_HS256 :: "verify_options \<Rightarrow> bool" where
  "allows_HS256 vo \<longleftrightarrow> (case vo_algorithms vo of None \<Rightarrow> True | Some as \<Rightarrow> ''HS256'' \<in> set as)"

definition live_token :: "jwt_verify \<Rightarrow> jwt_module_options \<Rightarrow> (string \<times> jsval) list \<Rightarrow> string \<Rightarrow> bool" where
  "live_token verify opts fs t \<longleftrightarrow>
     (\<exists>iat expiry. \<forall>vo.
        (if vo_secret vo = jm_secret opts \<and> allows_HS256 vo \<and> \<not> demands (vo_issuer vo) \<and> \<not> demands (vo_audience vo)
         then verify t vo = Inr (stamped fs iat expiry)
         else \<exists>m. verify t vo = Inl (JsonWebTokenError m)))"

section \<open>\<open>signTestToken\<close>\<close>

datatype expires_in = ExpiresNum rat | ExpiresText string

record sign_options =
  sg_algorithm :: string
  sg_expiresIn :: "expires_in option"

definition signTestToken ::
    "((string, jsval) jmap \<Rightarrow> string \<Rightarrow> sign_options \<Rightarrow> string) \<Rightarrow> int \<Rightarrow> (string, jsval) jmap \<Rightarrow> string
     \<Rightarrow> expires_in option \<Rightarrow> string option \<Rightarrow> string" where
  "signTestToken sign now_ms payload secret expiresIn algorithm =
     (let signOptions = \<lparr>sg_algorithm = or_default algorithm ''HS256'', sg_expiresIn = None\<rparr>
      in case expiresIn of
           None \<Rightarrow> sign payload secret signOptions
         | Some (ExpiresNum n) \<Rightarrow>
             if n < 0
             then let expInPast = of_int (now_ms div 1000) + n;
                      rest = jdel ''exp'' (jdel ''iat'' payload)
                  in sign (jset ''exp'' (JNum (NFin expInPast)) rest) secret signOptions
             else sign payload secret (signOptions\<lparr>sg_expiresIn := Some (ExpiresNum n)\<rparr>)
         | Some (ExpiresText text) \<Rightarrow> sign payload secret (signOptions\<lparr>sg_expiresIn := Some (ExpiresText text)\<rparr>))"

text \<open>A token asked for with a negative time to live is one that has expired, with the other claims kept.\<close>

lemma signTestToken_expired:
  assumes "n < 0" and "jwf payload"
  shows "\<exists>p. signTestToken sign now_ms payload secret (Some (ExpiresNum n)) alg
      = sign p secret \<lparr>sg_algorithm = or_default alg ''HS256'', sg_expiresIn = None\<rparr>
    \<and> (\<exists>x. jget p ''exp'' = Some (JNum (NFin x)) \<and> x * 1000 < of_int now_ms) \<and> jget p ''iat'' = None
    \<and> (\<forall>k. k \<noteq> ''exp'' \<and> k \<noteq> ''iat'' \<longrightarrow> jget p k = jget payload k)"
proof (intro exI conjI)
  let ?x = "of_int (now_ms div 1000) + n" and ?rest = "jdel ''exp'' (jdel ''iat'' payload)"
  show "signTestToken sign now_ms payload secret (Some (ExpiresNum n)) alg
      = sign (jset ''exp'' (JNum (NFin ?x)) ?rest) secret \<lparr>sg_algorithm = or_default alg ''HS256'', sg_expiresIn = None\<rparr>"
    using assms(1) by (simp add: signTestToken_def Let_def)
  have "now_ms div 1000 * 1000 \<le> now_ms" by simp
  then have "(of_int (now_ms div 1000) :: rat) * 1000 \<le> of_int now_ms"
    by (metis of_int_le_iff of_int_mult of_int_numeral)
  then show "?x * 1000 < of_int now_ms" using assms(1) by (simp add: distrib_right)
qed (use assms(2) in auto)

section \<open>Who accepts which token\<close>

text \<open>The verifier of the session strategy, in the form the guard of the routes takes it.\<close>

definition session_verifier :: "jwt_verify \<Rightarrow> auth_config \<Rightarrow> string \<Rightarrow> string + jsval" where
  "session_verifier verify cfg t = map_sum (\<lambda>_. []) id (verify t (session_verify_options cfg))"

lemma live_token_plain:
  assumes "live_token verify (auth_jwt_options cfg) fs t"
  obtains iat expiry where "verify t (session_verify_options cfg) = Inr (stamped fs iat expiry)"
    and "session_verifier verify cfg t = Inr (stamped fs iat expiry)"
    and "verify t (jwt_ws_verify_options \<lparr>jo_secret = jc_secret cfg, jo_algorithms = None, jo_userIdClaim = None\<rparr>)
      = Inr (stamped fs iat expiry)"
proof -
  from assms obtain iat expiry where v: "\<And>vo. vo_secret vo = jc_secret cfg \<and> allows_HS256 vo \<and> \<not> demands (vo_issuer vo)
      \<and> \<not> demands (vo_audience vo) \<Longrightarrow> verify t vo = Inr (stamped fs iat expiry)"
    by (auto simp: live_token_def auth_jwt_options_def)
  show thesis
    by (rule that [of iat expiry])
      (simp_all add: v session_verifier_def session_verify_options_def jwt_ws_verify_options_def allows_HS256_def
        demands_def truthy_str_def)
qed

lemma live_token_demanding:
  assumes "live_token verify (auth_jwt_options cfg) fs t" and "vo_secret vo = jc_secret cfg" and "allows_HS256 vo"
  shows "is_ok (verify t vo) \<longleftrightarrow> \<not> demands (vo_issuer vo) \<and> \<not> demands (vo_audience vo)"
    and "verify t vo = Inr p \<Longrightarrow> \<exists>iat expiry. p = stamped fs iat expiry"
    and "verify t vo = Inl e \<Longrightarrow> \<exists>m. e = JsonWebTokenError m"
proof -
  have v: "if \<not> demands (vo_issuer vo) \<and> \<not> demands (vo_audience vo)
      then \<exists>iat expiry. verify t vo = Inr (stamped fs iat expiry) else \<exists>m. verify t vo = Inl (JsonWebTokenError m)"
    using assms unfolding live_token_def auth_jwt_options_def by (simp split: if_splits) metis
  show "is_ok (verify t vo) \<longleftrightarrow> \<not> demands (vo_issuer vo) \<and> \<not> demands (vo_audience vo)"
    "verify t vo = Inr p \<Longrightarrow> \<exists>iat expiry. p = stamped fs iat expiry"
    "verify t vo = Inl e \<Longrightarrow> \<exists>m. e = JsonWebTokenError m"
    using v by (auto split: if_splits)
qed

lemma js_prop_jget: "js_prop k (JObj fs) = or_default (jget fs k) JUndef"
  by (simp add: jget_def or_default_def)

text \<open>The gateway admits every socket that carries a live token, as the subject of the token.\<close>

lemma gateway_admits:
  assumes "live_token verify (auth_jwt_options cfg) fs t" and "map_of fs ''sub'' = Some (JStr u)" and "u \<noteq> []"
    and "jwt_extractToken socket = Some t"
  shows "\<exists>s'. gateway_middleware verify (jc_secret cfg) socket = (Inr (), s', []) \<and> getUserId (JObj (so_data s')) = Inr u"
proof -
  from assms(1) obtain iat expiry where
    v: "verify t (jwt_ws_verify_options \<lparr>jo_secret = jc_secret cfg, jo_algorithms = None, jo_userIdClaim = None\<rparr>)
      = Inr (stamped fs iat expiry)"
    by (rule live_token_plain)
  have "extractUserId ''sub'' (stamped fs iat expiry) = Some u"
    using assms(2,3) by (simp add: stamped_def extractUserId_def)
  then have "gateway_middleware verify (jc_secret cfg) socket =
      (Inr (), socket\<lparr>so_data := jset ''token'' (JStr t) (jset ''userId'' (JStr u) (so_data socket))\<rparr>, [])"
    using v assms(4) by (simp add: gateway_middleware_def jwt_ws_use_def or_default_def)
  then show ?thesis
    using assms(3) by (simp add: getUserId_def js_prop_jget del: js_prop.simps)
qed

text \<open>C28: A session of the sign-in service is accepted wherever the server looks for one, and everywhere as the
  user it was signed for: by the guard of the routes in the header and in the cookie, and by the gateway.
  The strategy of \<open>turn/\<close> and the security middleware, which nothing uses, accept it exactly when no
  issuer and no audience is configured, because sessions are signed with neither.\<close>

theorem session_token_accepted:
  assumes "live_token verify (auth_jwt_options cfg) (session_claims_fields c) t" and "sc_sub c \<noteq> []"
    and "jwt_extractToken socket = Some t" and "session_token bearer cookies = Some t"
  shows "(\<exists>u. session_auth (session_verifier verify cfg) bearer cookies = Inr u \<and> user_id_of u = Some (sc_sub c))
    \<and> (\<exists>s'. gateway_middleware verify (jc_secret cfg) socket = (Inr (), s', [])
          \<and> getUserId (JObj (so_data s')) = Inr (sc_sub c))
    \<and> (is_ok (turn_auth verify cfg (Some t)) \<longleftrightarrow> \<not> demands (jc_issuer cfg) \<and> \<not> demands (jc_audience cfg))
    \<and> (is_ok (verifyToken verify num_str (security_ws_config cfg) t src)
          \<longleftrightarrow> \<not> demands (jc_issuer cfg) \<and> \<not> demands (jc_audience cfg))"
proof (intro conjI)
  obtain iat expiry where "session_verifier verify cfg t = Inr (stamped (session_claims_fields c) iat expiry)"
    using assms(1) by (rule live_token_plain)
  then show "\<exists>u. session_auth (session_verifier verify cfg) bearer cookies = Inr u \<and> user_id_of u = Some (sc_sub c)"
    using assms(2,4) validate_session [of c iat expiry] by (auto simp: session_auth_def stamped_session user_id_of_def)
  show "\<exists>s'. gateway_middleware verify (jc_secret cfg) socket = (Inr (), s', [])
      \<and> getUserId (JObj (so_data s')) = Inr (sc_sub c)"
    by (rule gateway_admits [OF assms(1) _ assms(2,3)]) (simp add: session_claims_fields_def)
  note demanding = live_token_demanding [OF assms(1)]
  show "is_ok (turn_auth verify cfg (Some t)) \<longleftrightarrow> \<not> demands (jc_issuer cfg) \<and> \<not> demands (jc_audience cfg)"
    using demanding [of "turn_verify_options cfg"] assms(2)
    by (cases "verify t (turn_verify_options cfg)")
      (auto simp: turn_auth_def turn_verify_options_def allows_HS256_def turn_jwt_validate_def stamped_def
        session_claims_fields_def)
  have opts: "ws_verify_options (security_ws_config cfg) =
      \<lparr>vo_secret = jc_secret cfg, vo_algorithms = Some [''HS256''], vo_clockTolerance = Some 5,
       vo_issuer = truthy_opt (jc_issuer cfg), vo_audience = truthy_opt (jc_audience cfg)\<rparr>"
    by (simp add: ws_verify_options_def security_ws_config_def ws_auth_config_of_def no_ws_options_def
        defaultWsAuthOptions_def or_default_def)
  have dem: "demands (truthy_opt x) = demands x" for x
    by (cases x) (auto simp: demands_def truthy_opt_def truthy_str_def)
  have cfg: "wc_requiredClaims (security_ws_config cfg) = []" "wc_userIdClaim (security_ws_config cfg) = ''sub''"
    by (simp_all add: security_ws_config_def ws_auth_config_of_def no_ws_options_def defaultWsAuthOptions_def or_default_def)
  show "is_ok (verifyToken verify num_str (security_ws_config cfg) t src)
      \<longleftrightarrow> \<not> demands (jc_issuer cfg) \<and> \<not> demands (jc_audience cfg)"
    using demanding [of "ws_verify_options (security_ws_config cfg)"] assms(2)
    by (cases "verify t (ws_verify_options (security_ws_config cfg))")
      (auto simp: verifyToken_def opts allows_HS256_def dem cfg stamped_def session_claims_fields_def claim_userId_def)
qed

text \<open>C23: A WebSocket token is refused by every route, and a second consumption of it is refused. But the gateway,
  which verifies tokens by itself, admits every socket that carries it, as its user, however often
  it has been consumed before.\<close>

theorem ws_token_reopens_sockets:
  assumes "live_token verify (auth_jwt_options cfg) (ws_claims_fields c) t" and "wt_sub c \<noteq> []"
    and "list_all (\<lambda>socket. jwt_extractToken socket = Some t) sockets" and "session_token bearer cookies = Some t"
  shows "session_auth (session_verifier verify cfg) bearer cookies = Inl (Unauthorized ''ws token cannot be used for HTTP'')
    \<and> \<not> is_ok (fst (ws_consume (session_verifier verify cfg) t (snd (ws_consume (session_verifier verify cfg) t used))))
    \<and> list_all (\<lambda>socket. \<exists>s'. gateway_middleware verify (jc_secret cfg) socket = (Inr (), s', [])
          \<and> getUserId (JObj (so_data s')) = Inr (wt_sub c)) sockets"
proof (intro conjI)
  obtain iat expiry where v: "session_verifier verify cfg t = Inr (stamped (ws_claims_fields c) iat expiry)"
    using assms(1) by (rule live_token_plain)
  show "session_auth (session_verifier verify cfg) bearer cookies = Inl (Unauthorized ''ws token cannot be used for HTTP'')"
    using v assms(2,4) by (simp add: session_auth_def jwt_validate_def stamped_def ws_claims_fields_def)
  show "\<not> is_ok (fst (ws_consume (session_verifier verify cfg) t (snd (ws_consume (session_verifier verify cfg) t used))))"
    using v by (simp add: ws_consume_def stamped_def ws_claims_fields_def used_get_def split: option.splits)
  show "list_all (\<lambda>socket. \<exists>s'. gateway_middleware verify (jc_secret cfg) socket = (Inr (), s', [])
      \<and> getUserId (JObj (so_data s')) = Inr (wt_sub c)) sockets"
    using assms(3) gateway_admits [OF assms(1) _ assms(2)] by (auto simp: list_all_iff ws_claims_fields_def)
qed

section \<open>Instances\<close>

text \<open>A verifier that knows one token, signed with the secret \<open>k\<close>.\<close>

definition demo_token_verify :: "(string \<times> jsval) list \<Rightarrow> jwt_verify" where
  "demo_token_verify fs t vo =
     (if vo_secret vo = ''k'' \<and> allows_HS256 vo \<and> \<not> demands (vo_issuer vo) \<and> \<not> demands (vo_audience vo)
      then Inr (stamped fs 1 3601) else Inl (JsonWebTokenError ''invalid signature''))"

definition demo_auth_config :: auth_config where
  "demo_auth_config = \<lparr>jc_secret = ''k'', jc_ttl = ''1h'', jc_audience = Some ''koom'', jc_issuer = None\<rparr>"

lemma demo_live_token: "live_token (demo_token_verify fs) (auth_jwt_options demo_auth_config) fs ''t''"
  unfolding live_token_def by (rule exI [of _ 1], rule exI [of _ 3601])
    (simp add: demo_token_verify_def auth_jwt_options_def demo_auth_config_def)

definition demo_token_socket :: ws_socket where
  "demo_token_socket =
     \<lparr>so_id = ''s1'', so_auth = JObj [(''token'', JStr ''t'')], so_headers = JObj [], so_query = JObj [], so_data = jempty\<rparr>"

lemma demo_token_socket_extract: "jwt_extractToken demo_token_socket = Some ''t''"
  by (simp add: jwt_extractToken_def pickToken_def demo_token_socket_def starts_with_def)

lemma session_token_accepted_witness:
  "\<not> is_ok (turn_auth (demo_token_verify (session_claims_fields \<lparr>sc_sub = ''ana'', sc_email = None\<rparr>))
      demo_auth_config (Some ''t''))
   \<and> (\<exists>u. session_auth (session_verifier (demo_token_verify (session_claims_fields \<lparr>sc_sub = ''ana'', sc_email = None\<rparr>))
        demo_auth_config) (Some ''t'') None = Inr u \<and> user_id_of u = Some ''ana'')"
  using session_token_accepted [OF demo_live_token _ demo_token_socket_extract,
      of "\<lparr>sc_sub = ''ana'', sc_email = None\<rparr>" "Some ''t''" None]
  by (simp add: session_token_def demands_def truthy_str_def demo_auth_config_def)

lemma ws_token_reopens_sockets_witness:
  "\<exists>s'. gateway_middleware (demo_token_verify (ws_claims_fields \<lparr>wt_sub = ''ana'', wt_jti = ''j''\<rparr>)) ''k'' demo_token_socket
      = (Inr (), s', []) \<and> getUserId (JObj (so_data s')) = Inr ''ana''"
  using ws_token_reopens_sockets [OF demo_live_token, of "\<lparr>wt_sub = ''ana'', wt_jti = ''j''\<rparr>" "[demo_token_socket]"
      "Some ''t''" None]
  by (simp add: session_token_def demo_token_socket_extract demo_auth_config_def)

end
