(* ===== verification/Journeys.thy ===== *)
theory Journeys
  imports ServerProps Tokens
begin

text \<open>
  Whole uses of the server, from one request to the next: what one answer hands out is what the next request needs.
  A browser keeps the cookies of an answer and sends them with its next request.
\<close>

section \<open>From a guest login to a socket\<close>

text \<open>The token of a guest is signed for the account of the guest, without an e-mail address.\<close>

lemma guest_token:
  assumes doc: "repo_documented rows (cx_repo cx)" and ok: "users_ok (rows (au_db s))"
    and fresh: "e_uuid (au_env s) (n_uuid (au_env s)) \<notin> us_id ` set (rows (au_db s))"
    and run: "signInAnonymous cx userId displayName s = (Inr r, s')"
  shows "si_token r = cx_sign cx \<lparr>sc_sub = si_userId r, sc_email = None\<rparr>"
proof -
  obtain u e db where u: "upsertByProvider (cx_repo cx) (anonymous_profile userId displayName) (au_env s) (au_db s) = (Inr u, e, db)"
    and r: "r = \<lparr>si_token = signSessionToken cx (us_id u) (us_email u), si_userId = us_id u,
                si_displayName = us_displayName u, si_email = us_email u, si_picture = us_picture u,
                si_provider = us_provider u\<rparr>"
    using run by (auto simp: signInAnonymous_def upsert_user_eq split: prod.splits sum.splits)
  show ?thesis
    using upsert_effect [OF doc ok fresh u] by (simp add: r signSessionToken_def anonymous_profile_def)
qed

lemma read_rand_env [simp]:
  "e_uuid (snd (read_rand e)) = e_uuid e" "n_uuid (snd (read_rand e)) = n_uuid e"
  by (simp_all add: read_rand_def)

lemma guest_cookie:
  assumes doc: "repo_documented rows (cx_repo cx)" and ok: "users_ok (rows (au_db s))"
    and fresh: "e_uuid (au_env s) (n_uuid (au_env s)) \<notin> us_id ` set (rows (au_db s))"
    and uuid: "e_uuid (au_env s) (n_uuid (au_env s)) \<noteq> []" and ids: "[] \<notin> us_id ` set (rows (au_db s))"
    and run: "anonymousLogin cx zod to36 body s = (Inr r, effs, s')"
  shows "lr_userId r \<noteq> []
    \<and> session_token None (Some (browser effs jar)) = Some (cx_sign cx \<lparr>sc_sub = lr_userId r, sc_email = None\<rparr>)"
proof -
  from anonymousLogin_Inr [OF run] obtain dn sid e1 si where sid: "randomShortId to36 (au_env s) = (sid, e1)"
    and si: "signInAnonymous cx (''anon-'' @ sid) (or_default dn ''Guest'') (s\<lparr>au_env := e1\<rparr>) = (Inr si, s')"
    and effs: "effs = setSessionCookie (si_token si) (getCookieSecure cx)" and r: "lr_userId r = si_userId si"
    by blast
  have e1: "e1 = snd (read_rand (au_env s))" using sid by (auto simp: randomShortId_def Let_def split_def)
  let ?s1 = "s\<lparr>au_env := e1\<rparr>"
  have ok1: "users_ok (rows (au_db ?s1))" using ok by simp
  have fresh1: "e_uuid (au_env ?s1) (n_uuid (au_env ?s1)) \<notin> us_id ` set (rows (au_db ?s1))"
    using fresh by (simp add: e1)
  have "si_userId si \<noteq> []"
    using sign_in_id [OF doc ok1 fresh1 si] uuid ids by (auto simp: e1 image_iff)
  moreover have "si_token si = cx_sign cx \<lparr>sc_sub = si_userId si, sc_email = None\<rparr>"
    by (rule guest_token [OF doc ok1 fresh1 si])
  ultimately show ?thesis
    by (simp add: r effs session_token_def setSessionCookie_def browser_def SESSION_COOKIE_def)
qed

text \<open>What the library promises of every token the server signs, with the options of the module.\<close>

definition tokens_documented :: "'db server_deps \<Rightarrow> jwt_verify \<Rightarrow> auth_config \<Rightarrow> bool" where
  "tokens_documented sd verify cfg \<longleftrightarrow>
     sd_verify sd = session_verifier verify cfg
     \<and> (\<forall>c. live_token verify (auth_jwt_options cfg) (session_claims_fields c) (cx_sign (sd_auth sd) c))
     \<and> (\<forall>c ttl. live_token verify (auth_jwt_options cfg) (ws_claims_fields c) (sd_sign_ws sd c ttl))"

lemma session_request:
  assumes "tokens_documented sd verify cfg" and "sc_sub c \<noteq> []"
    and "session_token (rq_bearer rq) (rq_cookies rq) = Some (cx_sign (sd_auth sd) c)"
  shows "request_user sd rq = Some (sc_sub c)"
proof -
  have "live_token verify (auth_jwt_options cfg) (session_claims_fields c) (cx_sign (sd_auth sd) c)"
    using assms(1) by (simp add: tokens_documented_def)
  then obtain iat expiry where "session_verifier verify cfg (cx_sign (sd_auth sd) c) = Inr (stamped (session_claims_fields c) iat expiry)"
    by (rule live_token_plain)
  then show ?thesis
    using assms validate_session [of c iat expiry]
    by (auto simp: request_user_def session_auth_def tokens_documented_def stamped_session user_id_of_def)
qed

text \<open>C25: A guest who has logged in is given a WebSocket token on the next request of the browser, and the gateway opens a
  socket with that token as the account of the guest.\<close>

theorem guest_reaches_socket:
  assumes doc: "repo_documented rows (cx_repo (sd_auth sd))" and ok: "users_ok (rows (au_db (sv_auth s)))"
    and fresh: "e_uuid (au_env (sv_auth s)) (n_uuid (au_env (sv_auth s))) \<notin> us_id ` set (rows (au_db (sv_auth s)))"
    and uuid: "e_uuid (au_env (sv_auth s)) (n_uuid (au_env (sv_auth s))) \<noteq> []"
    and ids: "[] \<notin> us_id ` set (rows (au_db (sv_auth s)))"
    and tok: "tokens_documented sd verify cfg"
    and login: "dispatch (rq_method rq) (rq_path rq) = Some route_guest_login" "serve sd rq s = (a, s')"
      "ha_body a = Inr (LoginReply r)"
    and after: "dispatch (rq_method rq') (rq_path rq') = Some route_ws_token" "rq_bearer rq' = None"
      "rq_cookies rq' = Some (browser (ha_effects a) jar)"
  shows "\<exists>w. ha_body (fst (serve sd rq' s')) = Inr (WsTokenReply w)
    \<and> (\<forall>socket. jwt_extractToken socket = Some (wr_token w) \<longrightarrow>
        (\<exists>so. gateway_middleware verify (jc_secret cfg) socket = (Inr (), so, [])
          \<and> getUserId (JObj (so_data so)) = Inr (lr_userId r)))"
proof -
  let ?h = "anonymousLogin (sd_auth sd) (sd_zod sd) (sd_to36 sd) (rq_body rq) (sv_auth s)"
  obtain r1 effs1 au1 where h: "?h = (r1, effs1, au1)" using prod_cases3 by blast
  have g: "rt_guard route_guest_login = None" "rt_handler route_guest_login = HGuestLogin"
    by (simp_all add: route_guest_login_def auth_route_def)
  have run: "run_handler sd HGuestLogin rq k u s = (map_sum thrown_by_auth LoginReply r1, effs1, s\<lparr>sv_auth := au1\<rparr>)" for k u
    by (simp add: run_handler_def call_handlers_def auth_handlers_def h)
  from login have r1: "r1 = Inr r" and effs: "ha_effects a = effs1"
    by (cases r1; auto simp: serve_def g run)+
  have c: "lr_userId r \<noteq> []" "session_token None (Some (browser effs1 jar))
      = Some (cx_sign (sd_auth sd) \<lparr>sc_sub = lr_userId r, sc_email = None\<rparr>)"
    using guest_cookie [OF doc ok fresh uuid ids h [unfolded r1], of jar] by simp_all
  have user: "request_user sd rq' = Some (lr_userId r)"
    using session_request [OF tok, of "\<lparr>sc_sub = lr_userId r, sc_email = None\<rparr>" rq'] c after(2,3) effs by simp
  have g2: "rt_guard route_ws_token = Some SessionGuard" "rt_handler route_ws_token = HWsToken"
    by (simp_all add: route_ws_token_def auth_route_def)
  let ?c = "\<lparr>wt_sub = lr_userId r, wt_jti = base64url (rq_bytes rq')\<rparr>"
  obtain w where w: "ha_body (fst (serve sd rq' s')) = Inr (WsTokenReply w)"
    and t: "wr_token w = sd_sign_ws sd ?c DEFAULT_TTL_SECONDS"
    by (simp add: serve_def after(1) g2 run_guard_request_user [OF user] run_handler_def call_handlers_def auth_handlers_def
        wsToken_def ws_issue_def or_default_def Let_def split_def)
  have live: "live_token verify (auth_jwt_options cfg) (ws_claims_fields ?c) (wr_token w)"
    using tok by (simp add: tokens_documented_def t)
  show ?thesis
    using w gateway_admits [OF live, of "lr_userId r"] c(1) by (auto simp: ws_claims_fields_def)
qed

section \<open>From an answer about a call to the call\<close>

lemma call_answer_stored:
  assumes "calls_ok (sv_calls s)" and run: "serve sd rq s = (a, s')" and "ha_body a = Inr (CallReply c)"
  shows "jget (cs_calls (sv_calls s')) (c_id c) = Some c"
  using run
proof (cases rule: serve_cases)
  case (handled r user res effs)
  have res: "res = Inr (CallReply c)" using handled(6) [of "CallReply c"] assms(3) by simp
  show ?thesis
  proof (cases "rt_handler r \<in> set call_handlers")
    case True
    with handled(3) res have "handle_calls sd (rt_handler r) rq (route_param r (rq_path rq)) user s = (Inr (CallReply c), effs, s')"
      by (simp add: run_handler_def)
    from handle_calls_readable [OF assms(1) this] show ?thesis by auto
  next
    case False
    with handled(3) res have "\<not> call_data (CallReply c)"
      by (auto simp: run_handler_def dest!: other_no_call_data split: if_splits)
    then show ?thesis by simp
  qed
qed (use assms(3) in auto)

lemma get_route:
  assumes "k \<noteq> []" and "map lower k \<noteq> ''mine''"
  shows "dispatch GET [''api'', ''calls'', k] = Some route_get"
proof (rule dispatch_unique)
  have "seg_matches '':id'' k" using assms(1) by (simp add: seg_matches_def is_param_def starts_with_def)
  moreover have "seg_matches t t" if "t \<noteq> []" for t using that by (simp add: seg_matches_def)
  ultimately show "route_matches GET [''api'', ''calls'', k] route_get"
    by (simp add: route_matches_def mine_get)
qed (use assms(2) in \<open>simp_all add: mine_get\<close>)

text \<open>C26: A call the server has answered with, to whatever request, is served to every participant of it who asks for it
  next by its id, just as it was answered.\<close>

theorem answered_call_is_served:
  assumes "calls_ok (sv_calls s)" and "serve sd rq s = (a, s')" and "ha_body a = Inr (CallReply c)"
    and "isParticipant c v" and "request_user sd rq' = Some v" and "rq_method rq' = GET"
    and "rq_path rq' = [''api'', ''calls'', c_id c]" and "c_id c \<noteq> []" and "map lower (c_id c) \<noteq> ''mine''"
  shows "serve sd rq' s' = (\<lparr>ha_status = 200, ha_body = Inr (CallReply c), ha_effects = []\<rparr>, s')"
proof -
  have g: "rt_guard route_get = Some SessionGuard" "rt_handler route_get = HCallGet" "rt_status route_get = 200"
    by (simp_all add: route_get_def calls_route_def)
  have k: "route_param route_get [''api'', ''calls'', c_id c] = c_id c" 
  proof -
    have "is_param '':id''" "\<not> is_param ''calls''" "\<not> is_param ''api''" by code_simp+
    then show ?thesis by (simp add: route_param_def mine_get)
  qed
  have "getCallByIdOrCode (c_id c) (sv_calls s') = Inr c"
    using call_answer_stored [OF assms(1-3)] by (simp add: getCallByIdOrCode_def)
  then have "http_get (c_id c) (Some v) (sv_calls s') = Inr c"
    using assms(4) by (simp add: http_get_def member_call_Inr)
  then have "run_handler sd HCallGet rq' (c_id c) (Some v) s' = (Inr (CallReply c), [], s')"
    by (simp add: run_handler_def call_handlers_def calls_result_def)
  then show ?thesis
    using get_route [OF assms(8,9)] run_guard_request_user [OF assms(5)]
    by (simp add: serve_def assms(6,7) g k)
qed

lemma answered_call_is_served_witness:
  "fst (serve demo_server_deps (demo_request GET ''/api/calls/u'' (Some ''ana'')) demo_server)
    = \<lparr>ha_status = 200, ha_body = Inr (CallReply demo_call), ha_effects = []\<rparr>"
proof -
  have seg: "segments ''/api/calls/u'' = [''api'', ''calls'', ''u'']" by code_simp
  have low: "map lower ''u'' \<noteq> ''mine''" by code_simp
  have "serve demo_server_deps (demo_request GET ''/api/calls/u'' (Some ''ana'')) demo_server
      = (\<lparr>ha_status = 200, ha_body = Inr (CallReply demo_call), ha_effects = []\<rparr>, demo_server)"
  proof (rule answered_call_is_served [OF demo_calls_ok demo_get_served, where v = "''ana''"])
    show "request_user demo_server_deps (demo_request GET ''/api/calls/u'' (Some ''ana'')) = Some ''ana''"
      by (rule demo_request_user) simp
  qed (use low in \<open>simp_all add: demo_call_def isParticipant_def demo_request_def seg\<close>)
  then show ?thesis by simp
qed

section \<open>An instance\<close>

text \<open>Tokens that spell their claims out: the length of the first text in strokes, a dot, and both texts.\<close>

definition spell :: "string \<Rightarrow> string \<Rightarrow> string" where
  "spell a b = replicate (length a) (CHR ''1'') @ CHR ''.'' # a @ b"

definition unspell :: "string \<Rightarrow> string \<times> string" where
  "unspell t =
     (let n = length (takeWhile (\<lambda>c. c = CHR ''1'') t); body = drop (Suc n) t in (take n body, drop n body))"

lemma unspell_spell [simp]: "unspell (spell a b) = (a, b)"
proof -
  have "takeWhile (\<lambda>c. c = CHR ''1'') (replicate n (CHR ''1'') @ CHR ''.'' # xs) = replicate n (CHR ''1'')" for n xs
    by (induction n) simp_all
  then show ?thesis by (simp add: spell_def unspell_def Let_def)
qed

definition demo_sign :: "session_claims \<Rightarrow> string" where
  "demo_sign c = (case sc_email c of None \<Rightarrow> CHR ''n'' # sc_sub c | Some m \<Rightarrow> CHR ''e'' # spell (sc_sub c) m)"

definition demo_sign_ws :: "ws_token_claims \<Rightarrow> int \<Rightarrow> string" where
  "demo_sign_ws c ttl = CHR ''w'' # spell (wt_sub c) (wt_jti c)"

definition demo_claims_of :: "string \<Rightarrow> (string \<times> jsval) list" where
  "demo_claims_of t =
     (case t of [] \<Rightarrow> []
      | c # rest \<Rightarrow>
          if c = CHR ''n'' then session_claims_fields \<lparr>sc_sub = rest, sc_email = None\<rparr>
          else if c = CHR ''e'' then session_claims_fields \<lparr>sc_sub = fst (unspell rest), sc_email = Some (snd (unspell rest))\<rparr>
          else ws_claims_fields \<lparr>wt_sub = fst (unspell rest), wt_jti = snd (unspell rest)\<rparr>)"

definition demo_library :: jwt_verify where
  "demo_library t vo = demo_token_verify (demo_claims_of t) t vo"

definition demo_journey_deps :: "(user list) server_deps" where
  "demo_journey_deps = demo_server_deps
     \<lparr>sd_auth := demo_ctx\<lparr>cx_sign := demo_sign\<rparr>, sd_verify := session_verifier demo_library demo_auth_config,
      sd_sign_ws := demo_sign_ws\<rparr>"

lemma demo_live:
  "demo_claims_of t = fs \<Longrightarrow> live_token demo_library (auth_jwt_options demo_auth_config) fs t"
  unfolding live_token_def by (rule exI [of _ 1], rule exI [of _ 3601])
    (auto simp: demo_library_def demo_token_verify_def auth_jwt_options_def demo_auth_config_def)

lemma demo_documented: "tokens_documented demo_journey_deps demo_library demo_auth_config"
  unfolding tokens_documented_def demo_journey_deps_def
  by (auto intro!: demo_live
      simp: demo_claims_of_def demo_sign_def demo_sign_ws_def session_claims_fields_def ws_claims_fields_def split: option.split)

definition demo_login :: http_request where
  "demo_login = (demo_request POST ''/api/auth/anonymous/login'' None)\<lparr>rq_body := JObj [(''displayName'', JStr ''Zoe'')]\<rparr>"

lemma demo_login_served:
  assumes "sv_auth s = demo_auth"
  shows "\<exists>a s' r. serve demo_journey_deps demo_login s = (a, s') \<and> ha_body a = Inr (LoginReply r) \<and> lr_userId r = ''0''
    \<and> ha_effects a = setSessionCookie ''n0'' True"
proof -
  let ?cx = "demo_ctx\<lparr>cx_sign := demo_sign\<rparr>" and ?body = "JObj [(''displayName'', JStr ''Zoe'')]"
  have dto: "parseAnonymousDto zod_ref ?body = Inr (Some ''Zoe'')"
    by (simp add: parseAnonymousDto_def zod_ref_def anonymousLoginDto_def min_ok_def stripped_def)
  obtain r effs s' where run: "anonymousLogin ?cx zod_ref (\<lambda>r. ''0.k3v9zq'') ?body demo_auth = (Inr r, effs, s')"
    and r: "lr_userId r = ''0''" and effs: "effs = setSessionCookie ''n0'' True"
    by (simp add: anonymousLogin_def dto randomShortId_def read_rand_def signInAnonymous_def upsert_user_def
        upsertByProvider_def anonymous_profile_def create_user_def findByProviderSub_def read_clock_def read_uuid_def
        conflicts_def put_row_def demo_defs Let_def show_nat_0 signSessionToken_def demo_sign_def getCookieSecure_def
        isProduction_def)
  have d: "dispatch POST (segments ''/api/auth/anonymous/login'') = Some route_guest_login" by code_simp
  show ?thesis
    using run r d effs assms
    by (simp add: serve_def demo_login_def demo_request_def demo_journey_deps_def demo_server_deps_def
        route_guest_login_def auth_route_def run_handler_def call_handlers_def auth_handlers_def)
qed

lemma guest_reaches_socket_witness:
  "\<exists>a s' w. serve demo_journey_deps demo_login demo_server = (a, s')
    \<and> ha_body (fst (serve demo_journey_deps ((demo_request GET ''/api/auth/ws-token'' None)
        \<lparr>rq_cookies := Some (browser (ha_effects a) jempty)\<rparr>) s')) = Inr (WsTokenReply w)"
proof -
  obtain a s' r where run: "serve demo_journey_deps demo_login demo_server = (a, s')"
    and body: "ha_body a = Inr (LoginReply r)" using demo_login_served [of demo_server] by (auto simp: demo_server_def)
  have d: "dispatch (rq_method demo_login) (rq_path demo_login) = Some route_guest_login"
    unfolding demo_login_def demo_request_def by code_simp
  have d2: "dispatch GET (segments ''/api/auth/ws-token'') = Some route_ws_token" by code_simp
  have "\<exists>w. ha_body (fst (serve demo_journey_deps ((demo_request GET ''/api/auth/ws-token'' None)
        \<lparr>rq_cookies := Some (browser (ha_effects a) jempty)\<rparr>) s')) = Inr (WsTokenReply w)
    \<and> (\<forall>socket. jwt_extractToken socket = Some (wr_token w) \<longrightarrow>
        (\<exists>so. gateway_middleware demo_library (jc_secret demo_auth_config) socket = (Inr (), so, [])
          \<and> getUserId (JObj (so_data so)) = Inr (lr_userId r)))"
    by (rule guest_reaches_socket [OF _ _ _ _ _ demo_documented d run body, where rows = "\<lambda>db. db" and jar = jempty])
      (use ref_repo_documented demo_users d2 in \<open>simp_all add: demo_journey_deps_def demo_server_def demo_auth_def demo_ctx_def
        ref_repo_def demo_uuid_env_def demo_user_def show_nat_nonempty demo_request_def\<close>)
  then show ?thesis using run by blast
qed

end
