(* ===== verification/Interleave.thy ===== *)
theory Interleave
  imports Main
begin

text \<open>
  Tasks that share a state and give way to one another at their awaits: a task is advanced from one
  await to the next in one step, and a schedule says whose turn it is. The locale is the rely/guarantee
  contract of such tasks: what a task has learnt of the state must survive the steps of the others.
\<close>

definition turn :: "('t \<Rightarrow> 's \<Rightarrow> 't \<times> 's) \<Rightarrow> nat \<Rightarrow> 't list \<times> 's \<Rightarrow> 't list \<times> 's" where
  "turn step i c =
     (let (ts, s) = c
      in if i < length ts then let (t, s') = step (ts ! i) s in (ts[i := t], s') else c)"

definition run_schedule :: "('t \<Rightarrow> 's \<Rightarrow> 't \<times> 's) \<Rightarrow> nat list \<Rightarrow> 't list \<times> 's \<Rightarrow> 't list \<times> 's" where
  "run_schedule step is c = fold (turn step) is c"

lemma run_schedule_simps [simp]:
  "run_schedule step [] c = c"
  "run_schedule step (i # is) c = run_schedule step is (turn step i c)"
  "run_schedule step (is @ js) c = run_schedule step js (run_schedule step is c)"
  by (simp_all add: run_schedule_def)

lemma turn_cases [case_names idle moves]:
  obtains "length (fst c) \<le> i" "turn step i c = c"
  | t s' where "i < length (fst c)" "step (fst c ! i) (snd c) = (t, s')" "turn step i c = ((fst c)[i := t], s')"
  by (cases "i < length (fst c)"; cases "step (fst c ! i) (snd c)") (auto simp: turn_def split_def Let_def)

lemma turn_length [simp]: "length (fst (turn step i c)) = length (fst c)"
  by (rule turn_cases [of c i step]) simp_all

lemma run_length [simp]: "length (fst (run_schedule step is c)) = length (fst c)"
  by (induction "is" arbitrary: c) simp_all

lemma run_invariant:
  assumes "P c" and "\<And>i c. P c \<Longrightarrow> P (turn step i c)"
  shows "P (run_schedule step is c)"
  using assms(1) by (induction "is" arbitrary: c) (simp_all add: assms(2))

text \<open>A task whose steps count a rank down has ended once it has had so many turns.\<close>

lemma run_rank:
  assumes down: "\<And>t s. rank (fst (step t s)) \<le> rank t - (1::nat)" and "i < length (fst c)"
  shows "rank (fst (run_schedule step is c) ! i) \<le> rank (fst c ! i) - count_list is i"
  using assms(2)
proof (induction "is" arbitrary: c)
  case (Cons j js)
  have "rank (fst (turn step j c) ! i) \<le> rank (fst c ! i) - (if j = i then 1 else 0)"
    using Cons.prems down [of "fst c ! i" "snd c"]
    by (cases rule: turn_cases [of c j step]) (auto simp: nth_list_update)
  then show ?case using Cons.IH [of "turn step j c"] Cons.prems by auto
qed simp

locale interleaved =
  fixes step :: "'t \<Rightarrow> 's \<Rightarrow> 't \<times> 's"
    and inv :: "'s \<Rightarrow> bool"
    and knows :: "'t \<Rightarrow> 's \<Rightarrow> bool"
    and grows :: "'s \<Rightarrow> 's \<Rightarrow> bool"
  assumes grows_refl: "grows s s"
    and grows_trans: "grows s s' \<Longrightarrow> grows s' s'' \<Longrightarrow> grows s s''"
    and knows_grows: "knows t s \<Longrightarrow> grows s s' \<Longrightarrow> knows t s'"
    and step_inv: "inv s \<Longrightarrow> knows t s \<Longrightarrow> inv (snd (step t s))"
    and step_knows: "inv s \<Longrightarrow> knows t s \<Longrightarrow> knows (fst (step t s)) (snd (step t s))"
    and step_grows: "inv s \<Longrightarrow> knows t s \<Longrightarrow> grows s (snd (step t s))"
begin

definition good :: "'t list \<times> 's \<Rightarrow> bool" where
  "good c \<longleftrightarrow> inv (snd c) \<and> (\<forall>i < length (fst c). knows (fst c ! i) (snd c))"

lemma turn_good:
  assumes "good c"
  shows "good (turn step i c)" and "grows (snd c) (snd (turn step i c))"
proof -
  have "good (turn step i c) \<and> grows (snd c) (snd (turn step i c))"
  proof (cases rule: turn_cases [of c i step])
    case (moves t s')
    have k: "inv (snd c)" "knows (fst c ! i) (snd c)" using assms moves(1) by (simp_all add: good_def)
    then have "inv s'" "knows t s'" "grows (snd c) s'"
      using step_inv [OF k] step_knows [OF k] step_grows [OF k] moves(2) by simp_all
    moreover have "knows (fst c ! j) s'" if "j < length (fst c)" for j
      using assms that knows_grows [of _ "snd c" s'] calculation by (simp add: good_def)
    ultimately show ?thesis
      using moves(1, 3) by (auto simp: good_def nth_list_update)
  qed (use assms grows_refl in simp)
  then show "good (turn step i c)" and "grows (snd c) (snd (turn step i c))" by simp_all
qed

lemma run_good:
  assumes "good c"
  shows "good (run_schedule step is c)" and "grows (snd c) (snd (run_schedule step is c))"
proof -
  have "good (run_schedule step is c) \<and> grows (snd c) (snd (run_schedule step is c))"
    by (rule run_invariant [where P = "\<lambda>c'. good c' \<and> grows (snd c) (snd c')"])
      (use assms grows_refl grows_trans turn_good in blast)+
  then show "good (run_schedule step is c)" and "grows (snd c) (snd (run_schedule step is c))" by simp_all
qed

end

end
