(* ===== verification/SignInRace.thy ===== *)
theory SignInRace
  imports AuthProps Interleave
begin

text \<open>
  Sign-ins at the same time. \<open>UsersRepository.upsertByProvider\<close> awaits the database up to three times, and
  between its awaits the process serves other sign-ins. A sign-in is what it holds at an await; one step
  takes it to the next. The state is the environment and the database.
\<close>

section \<open>A sign-in, await by await\<close>

datatype sign_in =
    Looking oauth_profile
  | Looked oauth_profile "user option"
  | Created oauth_profile int user
  | Settled oauth_profile "string + user"

fun sign_in_profile :: "sign_in \<Rightarrow> oauth_profile" where
  "sign_in_profile (Looking p) = p"
| "sign_in_profile (Looked p f) = p"
| "sign_in_profile (Created p now u) = p"
| "sign_in_profile (Settled p r) = p"

fun upsert_step :: "'db user_repo \<Rightarrow> sign_in \<Rightarrow> env \<times> 'db \<Rightarrow> sign_in \<times> env \<times> 'db" where
  "upsert_step repo (Looking p) (e, db) =
     (case findByProviderSub repo (op_provider p) (op_providerSub p) db of
        Inl err \<Rightarrow> (Settled p (Inl err), e, db)
      | Inr found \<Rightarrow> (Looked p found, e, db))"
| "upsert_step repo (Looked p (Some existing)) (e, db) =
     (let (now, e1) = read_clock e;
          (r, db1) = ur_save repo
            (existing\<lparr>us_email := op_email p, us_displayName := op_displayName p,
                      us_picture := op_picture p, us_lastLoginAt := Some now\<rparr>) db
      in (Settled p r, e1, db1))"
| "upsert_step repo (Looked p None) (e, db) =
     (let (now, e1) = read_clock e
      in case create_user repo
              \<lparr>cu_id = None, cu_email = op_email p, cu_displayName = op_displayName p,
               cu_provider = Some (op_provider p), cu_providerSub = Some (op_providerSub p),
               cu_picture = op_picture p\<rparr> e1 db of
           (Inl err, e2, db1) \<Rightarrow> (Settled p (Inl err), e2, db1)
         | (Inr u, e2, db1) \<Rightarrow> (Created p now u, e2, db1))"
| "upsert_step repo (Created p now u) (e, db) =
     (let (r, db1) = ur_save repo (u\<lparr>us_lastLoginAt := Some now\<rparr>) db in (Settled p r, e, db1))"
| "upsert_step repo (Settled p r) (e, db) = (Settled p r, e, db)"

text \<open>A sign-in nothing comes in between of is the sign-in of the repository.\<close>

lemma upsert_undisturbed:
  "run_schedule (upsert_step repo) [0, 0, 0] ([Looking p], (e, db)) =
     (let (r, e', db') = upsertByProvider repo p e db in ([Settled p r], (e', db')))"
proof (cases "findByProviderSub repo (op_provider p) (op_providerSub p) db")
  case (Inr f)
  show ?thesis
  proof (cases f)
    case None
    let ?i = "\<lparr>cu_id = None, cu_email = op_email p, cu_displayName = op_displayName p,
               cu_provider = Some (op_provider p), cu_providerSub = Some (op_providerSub p), cu_picture = op_picture p\<rparr>"
    obtain r e2 db1 where "create_user repo ?i (snd (read_clock e)) db = (r, e2, db1)" using prod_cases3 by blast
    then show ?thesis
      using Inr None by (cases r) (simp_all add: upsertByProvider_def turn_def split_def Let_def)
  qed (simp add: Inr upsertByProvider_def turn_def split_def Let_def)
qed (simp add: upsertByProvider_def turn_def)

text \<open>Every sign-in has ended after its third turn.\<close>

fun turns_left :: "sign_in \<Rightarrow> nat" where
  "turns_left (Looking p) = 3"
| "turns_left (Looked p f) = 2"
| "turns_left (Created p now u) = 1"
| "turns_left (Settled p r) = 0"

lemma step_turns: "turns_left (fst (upsert_step repo t s)) \<le> turns_left t - 1"
  by (cases "(repo, t, s)" rule: upsert_step.cases) (auto simp: split_def Let_def split: sum.split prod.split)

lemma step_profile [simp]: "sign_in_profile (fst (upsert_step repo t s)) = sign_in_profile t"
  by (cases "(repo, t, s)" rule: upsert_step.cases) (auto simp: split_def Let_def split: sum.split prod.split)

lemma run_profiles:
  fixes c :: "sign_in list \<times> env \<times> 'b"
  shows "map sign_in_profile (fst (run_schedule (upsert_step repo) is c)) = map sign_in_profile (fst c)"
proof (rule run_invariant [where P = "\<lambda>c'. map sign_in_profile (fst c') = map sign_in_profile (fst c)"])
  fix i and c' :: "sign_in list \<times> env \<times> 'b"
  assume *: "map sign_in_profile (fst c') = map sign_in_profile (fst c)"
  show "map sign_in_profile (fst (turn (upsert_step repo) i c')) = map sign_in_profile (fst c)"
  proof (cases rule: turn_cases [of c' i "upsert_step repo"])
    case (moves t s')
    have "sign_in_profile t = sign_in_profile (fst c' ! i)" using step_profile [of repo "fst c' ! i" "snd c'"] moves(2) by simp
    then show ?thesis using moves(1, 3) * by (metis fst_conv list_update_id map_update)
  qed (use * in simp)
qed simp

section \<open>What a sign-in knows at an await\<close>

text \<open>The account of an identity keeps its id, whoever saves it; accounts of identities that are not signing in
  are left alone.\<close>

definition has_account :: "user list \<Rightarrow> string \<Rightarrow> oauth_profile \<Rightarrow> bool" where
  "has_account rows i p \<longleftrightarrow> (\<exists>r \<in> set rows. us_id r = i \<and> same_account p r)"

definition accounts_kept :: "oauth_profile list \<Rightarrow> user list \<Rightarrow> user list \<Rightarrow> bool" where
  "accounts_kept P rows rows' \<longleftrightarrow>
     (\<forall>r \<in> set rows. \<exists>r' \<in> set rows'. us_id r' = us_id r
        \<and> us_provider r' = us_provider r \<and> us_providerSub r' = us_providerSub r)
     \<and> (\<forall>r. list_ex (\<lambda>p. same_account p r) P \<or> (r \<in> set rows' \<longleftrightarrow> r \<in> set rows))"

definition fresh_uuids :: "env \<Rightarrow> user list \<Rightarrow> bool" where
  "fresh_uuids e rows \<longleftrightarrow> inj (e_uuid e) \<and> (\<forall>k \<ge> n_uuid e. e_uuid e k \<notin> us_id ` set rows)"

fun sign_in_knows :: "sign_in \<Rightarrow> user list \<Rightarrow> bool" where
  "sign_in_knows (Looked p (Some u)) rows = (same_account p u \<and> has_account rows (us_id u) p)"
| "sign_in_knows (Created p now u) rows = (same_account p u \<and> has_account rows (us_id u) p)"
| "sign_in_knows (Settled p (Inr u)) rows = (same_account p u \<and> has_account rows (us_id u) p)"
| "sign_in_knows t rows = True"

lemma accounts_kept_refl: "accounts_kept P rows rows"
  by (auto simp: accounts_kept_def)

lemma accounts_kept_trans: "accounts_kept P a b \<Longrightarrow> accounts_kept P b c \<Longrightarrow> accounts_kept P a c"
  unfolding accounts_kept_def by metis

lemma has_account_kept: "has_account rows i p \<Longrightarrow> accounts_kept P rows rows' \<Longrightarrow> has_account rows' i p"
  unfolding has_account_def accounts_kept_def same_account_def by metis

lemma sign_in_knows_kept: "sign_in_knows t rows \<Longrightarrow> accounts_kept P rows rows' \<Longrightarrow> sign_in_knows t rows'"
  by (cases "(t, rows)" rule: sign_in_knows.cases) (auto intro: has_account_kept)

lemma one_account: "users_ok rows \<Longrightarrow> has_account rows i p \<Longrightarrow> has_account rows j p \<Longrightarrow> i = j"
  unfolding users_ok_def has_account_def conflicts_def same_account_def by metis

section \<open>One save\<close>

text \<open>A save of a row whose id is that of an account of its identity, or of no account, keeps every account.\<close>

lemma save_keeps:
  assumes doc: "repo_documented rows repo" and ok: "users_ok (rows db)" and save: "ur_save repo u db = (r, db')"
    and own: "has_account (rows db) (us_id u) p \<or> us_id u \<notin> us_id ` set (rows db)" and p: "same_account p u" "p \<in> set P"
  shows "accounts_kept P (rows db) (rows db')" and "r = Inr v \<Longrightarrow> v = u \<and> has_account (rows db') (us_id u) p"
    and "us_id ` set (rows db') \<subseteq> insert (us_id u) (us_id ` set (rows db))"
proof -
  note d = save_doc [OF doc save]
  have same: "us_provider u = us_provider x \<and> us_providerSub u = us_providerSub x"
    if "x \<in> set (rows db)" "us_id x = us_id u" for x
    using own p(1) that ok unfolding has_account_def same_account_def users_ok_def by (metis image_eqI)
  show "accounts_kept P (rows db) (rows db')"
  proof (cases r)
    case (Inr v)
    then have set: "set (rows db') = {r \<in> set (rows db). us_id r \<noteq> us_id u} \<union> {u}"
      using d(2) by (simp add: put_row_set)
    have "list_ex (\<lambda>q. same_account q x) P" if "x = u \<or> x \<in> set (rows db) \<and> us_id x = us_id u" for x
      using that same [of x] p unfolding list_ex_iff same_account_def by metis
    then show ?thesis using same by (force simp: accounts_kept_def set)
  qed (use d(1) accounts_kept_refl in simp)
  show "v = u \<and> has_account (rows db') (us_id u) p" if "r = Inr v"
    using d(2) [OF that] p(1) by (auto simp: has_account_def put_row_set)
  show "us_id ` set (rows db') \<subseteq> insert (us_id u) (us_id ` set (rows db))"
    using d by (cases r) (auto simp: put_row_set)
qed

section \<open>One step\<close>

definition sign_in_inv :: "('db \<Rightarrow> user list) \<Rightarrow> env \<times> 'db \<Rightarrow> bool" where
  "sign_in_inv rows s \<longleftrightarrow> users_ok (rows (snd s)) \<and> fresh_uuids (fst s) (rows (snd s))"

lemma read_clock_env [simp]: "e_uuid (snd (read_clock e)) = e_uuid e" "n_uuid (snd (read_clock e)) = n_uuid e"
  by (simp_all add: read_clock_def)

text \<open>What saving a row with the identity of \<open>p\<close> and an id that is taken or the next one does to the rest.\<close>

lemma save_step:
  assumes doc: "repo_documented rows repo" and inv: "sign_in_inv rows (e, db)" and save: "ur_save repo u db = (r, db')"
    and p: "same_account p u" "p \<in> set P" and e': "e_uuid e' = e_uuid e"
    and own: "has_account (rows db) (us_id u) p \<and> n_uuid e' = n_uuid e \<or> us_id u = e_uuid e (n_uuid e) \<and> n_uuid e' = Suc (n_uuid e)"
  shows "sign_in_inv rows (e', db')" and "accounts_kept P (rows db) (rows db')"
    and "r = Inr v \<Longrightarrow> v = u \<and> has_account (rows db') (us_id u) p"
proof -
  have ok: "users_ok (rows db)" and fresh: "fresh_uuids e (rows db)" using inv by (simp_all add: sign_in_inv_def)
  then have own': "has_account (rows db) (us_id u) p \<or> us_id u \<notin> us_id ` set (rows db)"
    using own by (auto simp: fresh_uuids_def)
  note k = save_keeps [OF doc ok save own' p]
  have "e_uuid e n \<notin> us_id ` set (rows db')" if "n_uuid e' \<le> n" for n
  proof -
    have "n_uuid e \<le> n" using own that by auto
    then have "e_uuid e n \<notin> us_id ` set (rows db)" using fresh by (simp add: fresh_uuids_def)
    moreover have "e_uuid e n \<noteq> us_id u"
      using own fresh that unfolding fresh_uuids_def has_account_def
      by (metis Suc_n_not_le_n image_eqI injD)
    ultimately show ?thesis using k(3) by blast
  qed
  then show "sign_in_inv rows (e', db')"
    using save_ok [OF doc ok save] fresh by (simp add: sign_in_inv_def fresh_uuids_def e')
  show "accounts_kept P (rows db) (rows db')" by (rule k(1))
  show "v = u \<and> has_account (rows db') (us_id u) p" if "r = Inr v" using k(2) [OF that] .
qed

lemma upsert_step_good:
  assumes doc: "repo_documented rows repo" and inv: "sign_in_inv rows (e, db)"
    and k: "sign_in_knows t (rows db)" "sign_in_profile t \<in> set P"
    and run: "upsert_step repo t (e, db) = (t', e', db')"
  shows "sign_in_inv rows (e', db') \<and> sign_in_knows t' (rows db') \<and> accounts_kept P (rows db) (rows db')"
proof (cases t)
  case (Looking p)
  note d = find_doc [OF doc, of "WhereProviderSub (op_provider p) (op_providerSub p)" db]
  show ?thesis
  proof (cases "findByProviderSub repo (op_provider p) (op_providerSub p) db")
    case (Inr f)
    then show ?thesis
      using run inv accounts_kept_refl [of P "rows db"] d(2) [of f]
      by (cases f) (auto simp: Looking findByProviderSub_def has_account_def same_account_def)
  qed (use run inv accounts_kept_refl [of P "rows db"] in \<open>auto simp: Looking\<close>)
next
  case (Looked p f)
  show ?thesis
  proof (cases f)
    case None
    let ?u = "\<lparr>us_id = e_uuid e (n_uuid e), us_email = op_email p, us_displayName = op_displayName p,
      us_provider = op_provider p, us_providerSub = op_providerSub p, us_picture = op_picture p, us_lastLoginAt = None\<rparr>"
    obtain r db1 where s: "ur_save repo ?u db = (r, db1)" by fastforce
    have e': "e_uuid e' = e_uuid e" "n_uuid e' = Suc (n_uuid e)" "db' = db1"
      "t' = (case r of Inl err \<Rightarrow> Settled p (Inl err) | Inr u \<Rightarrow> Created p (e_clock e (n_clock e)) u)"
      using run s by (cases r; auto simp: Looked None create_user_def read_clock_def read_uuid_def Let_def)+
    have p: "same_account p ?u" "p \<in> set P" using k(2) by (simp_all add: same_account_def Looked)
    note st = save_step [OF doc inv s p e'(1)]
    show ?thesis using st e' p by (cases r) auto
  next
    case (Some u)
    let ?u = "u\<lparr>us_email := op_email p, us_displayName := op_displayName p, us_picture := op_picture p,
               us_lastLoginAt := Some (e_clock e (n_clock e))\<rparr>"
    obtain r db1 where s: "ur_save repo ?u db = (r, db1)" by fastforce
    have e': "e_uuid e' = e_uuid e" "n_uuid e' = n_uuid e" "db' = db1" "t' = Settled p r"
      using run s by (auto simp: Looked Some read_clock_def Let_def)
    have p: "same_account p ?u" "p \<in> set P" using k by (simp_all add: same_account_def Looked Some)
    have own: "has_account (rows db) (us_id ?u) p" using k by (simp add: Looked Some)
    note st = save_step [OF doc inv s p e'(1)]
    show ?thesis using st own e' p by (cases r) auto
  qed
next
  case (Created p now u)
  let ?u = "u\<lparr>us_lastLoginAt := Some now\<rparr>"
  obtain r db1 where s: "ur_save repo ?u db = (r, db1)" by fastforce
  have e': "e' = e" "db' = db1" "t' = Settled p r" using run s by (auto simp: Created)
  have p: "same_account p ?u" "p \<in> set P" using k by (simp_all add: same_account_def Created)
  have own: "has_account (rows db) (us_id ?u) p" using k by (simp add: Created)
  note st = save_step [OF doc inv s p, of e]
  show ?thesis using st own e' p by (cases r) auto
next
  case (Settled p r)
  then show ?thesis using run inv k accounts_kept_refl by auto
qed

section \<open>Any interleaving\<close>

definition sign_ins_grow :: "('db \<Rightarrow> user list) \<Rightarrow> oauth_profile list \<Rightarrow> env \<times> 'db \<Rightarrow> env \<times> 'db \<Rightarrow> bool" where
  "sign_ins_grow rows P s s' \<longleftrightarrow> accounts_kept P (rows (snd s)) (rows (snd s'))"

definition sign_in_ok :: "('db \<Rightarrow> user list) \<Rightarrow> oauth_profile list \<Rightarrow> sign_in \<Rightarrow> env \<times> 'db \<Rightarrow> bool" where
  "sign_in_ok rows P t s \<longleftrightarrow> sign_in_profile t \<in> set P \<and> sign_in_knows t (rows (snd s))"

text \<open>For a repository that does what is documented the sign-ins meet the contract of interleaved tasks.\<close>

lemma sign_ins_interleaved:
  assumes doc: "repo_documented rows repo"
  shows "interleaved (upsert_step repo) (sign_in_inv rows) (sign_in_ok rows P) (sign_ins_grow rows P)"
proof (unfold_locales, goal_cases)
  case (1 s)
  show ?case by (simp add: sign_ins_grow_def accounts_kept_refl)
next
  case (2 s s' s'')
  then show ?case unfolding sign_ins_grow_def by (rule accounts_kept_trans)
next
  case (3 t s s')
  then show ?case by (auto simp: sign_in_ok_def sign_ins_grow_def intro: sign_in_knows_kept)
next
  case (4 s t)
  then show ?case
    using upsert_step_good [OF doc, of "fst s" "snd s" t P] by (auto simp: sign_in_ok_def prod_eq_iff)
next
  case (5 s t)
  then show ?case
    using upsert_step_good [OF doc, of "fst s" "snd s" t P] by (auto simp: sign_in_ok_def prod_eq_iff)
next
  case (6 s t)
  then show ?case
    using upsert_step_good [OF doc, of "fst s" "snd s" t P] by (auto simp: sign_in_ok_def sign_ins_grow_def prod_eq_iff)
qed

interpretation table: interleaved "upsert_step ref_repo" "sign_in_inv (\<lambda>db. db)" "sign_in_ok (\<lambda>db. db) P"
    "sign_ins_grow (\<lambda>db. db) P" for P
  by (rule sign_ins_interleaved [OF ref_repo_documented])

text \<open>What holds of the sign-ins, started together, after any turns of theirs.\<close>

lemma sign_ins_run:
  assumes doc: "repo_documented rows repo" and ok: "users_ok (rows db)" and fresh: "fresh_uuids e (rows db)"
    and run: "run_schedule (upsert_step repo) is (map Looking ps, (e, db)) = (ts, (e', db'))"
  shows "sign_in_inv rows (e', db')" and "accounts_kept ps (rows db) (rows db')"
    and "\<And>i. i < length ps \<Longrightarrow> sign_in_ok rows ps (ts ! i) (e', db')" and "map sign_in_profile ts = ps"
proof -
  note il = sign_ins_interleaved [OF doc, of ps]
  let ?c = "(map Looking ps, (e, db))"
  have "interleaved.good (sign_in_inv rows) (sign_in_ok rows ps) ?c"
    using ok fresh by (simp add: interleaved.good_def [OF il] sign_in_inv_def sign_in_ok_def)
  note g = interleaved.run_good [OF il this, of "is", unfolded run]
  have "map sign_in_profile ts = map sign_in_profile (fst ?c)" using run_profiles [of repo "is" ?c] run by simp
  then show m: "map sign_in_profile ts = ps" by (simp add: comp_def)
  have "length ts = length ps" using m by (metis length_map)
  then show "sign_in_inv rows (e', db')" "accounts_kept ps (rows db) (rows db')"
    "\<And>i. i < length ps \<Longrightarrow> sign_in_ok rows ps (ts ! i) (e', db')"
    using g by (simp_all add: interleaved.good_def [OF il] sign_ins_grow_def)
qed

section \<open>Properties\<close>

text \<open>C17: however sign-ins that run at the same time take their turns, primary keys, identities and e-mail addresses
  stay unique, every account keeps its id and its identity, the accounts of other identities are not touched,
  and two sign-ins of one identity that succeed are given the same account, which is in the table.\<close>

theorem concurrent_sign_ins:
  assumes doc: "repo_documented rows repo" and ok: "users_ok (rows db)" and fresh: "fresh_uuids e (rows db)"
    and run: "run_schedule (upsert_step repo) is (map Looking ps, (e, db)) = (ts, (e', db'))"
  shows "users_ok (rows db') \<and> accounts_kept ps (rows db) (rows db')
    \<and> (\<forall>i < length ps. \<forall>u. ts ! i = Settled (ps ! i) (Inr u) \<longrightarrow> has_account (rows db') (us_id u) (ps ! i)
         \<and> (\<forall>j < length ps. \<forall>v. ts ! j = Settled (ps ! j) (Inr v) \<and> same_account (ps ! j) u \<longrightarrow> us_id v = us_id u))"
proof (intro conjI allI impI)
  note r = sign_ins_run [OF doc ok fresh run]
  show users: "users_ok (rows db')" using r(1) by (simp add: sign_in_inv_def)
  show "accounts_kept ps (rows db) (rows db')" by (rule r(2))
  fix i u assume i: "i < length ps" "ts ! i = Settled (ps ! i) (Inr u)"
  then have a: "same_account (ps ! i) u" "has_account (rows db') (us_id u) (ps ! i)"
    using r(3) [of i] by (simp_all add: sign_in_ok_def)
  then show "has_account (rows db') (us_id u) (ps ! i)" by simp
  fix j v assume j: "j < length ps" "ts ! j = Settled (ps ! j) (Inr v) \<and> same_account (ps ! j) u"
  then have "has_account (rows db') (us_id v) (ps ! j)" using r(3) [of j] by (simp add: sign_in_ok_def)
  moreover have "has_account (rows db') (us_id u) (ps ! j)"
    using a j(2) by (auto simp: has_account_def same_account_def)
  ultimately show "us_id v = us_id u" using one_account [OF users] by blast
qed

text \<open>A sign-in ends at the latest in its third turn, whatever the others do between its turns, and a sign-in that
  nothing comes in between of does what \<open>upsertByProvider\<close> does.\<close>

theorem sign_in_ends:
  assumes "i < length ps" and "3 \<le> count_list is i"
  shows "(\<exists>r. fst (run_schedule (upsert_step repo) is (map Looking ps, (e, db))) ! i = Settled (ps ! i) r)
    \<and> run_schedule (upsert_step repo) [0, 0, 0] ([Looking p], (e, db)) =
        (let (r, e', db') = upsertByProvider repo p e db in ([Settled p r], (e', db')))"
proof -
  let ?c = "(map Looking ps, (e, db))"
  let ?t = "fst (run_schedule (upsert_step repo) is ?c) ! i"
  have "turns_left ?t \<le> 3 - count_list is i"
    using run_rank [of turns_left "upsert_step repo", OF step_turns, of i ?c "is"] assms(1) by simp
  moreover have "sign_in_profile ?t = ps ! i"
    using run_profiles [of repo "is" ?c] assms(1) by (metis (no_types, lifting) fst_conv length_map nth_map run_length sign_in_profile.simps(1))
  ultimately show ?thesis using assms(2) upsert_undisturbed [of repo p e db] by (cases ?t) auto
qed

section \<open>Two first sign-ins\<close>

fun looked_in_vain :: "sign_in \<Rightarrow> bool" where
  "looked_in_vain (Looked p None) = True"
| "looked_in_vain _ = False"

fun has_stored :: "sign_in \<Rightarrow> bool" where
  "has_stored (Created p now u) = True"
| "has_stored (Settled p (Inr u)) = True"
| "has_stored _ = False"

fun was_refused :: "sign_in \<Rightarrow> bool" where
  "was_refused (Settled p (Inl err)) = True"
| "was_refused _ = False"

lemma ended_ways [simp]: "has_stored (Settled p r) = is_ok r" "was_refused (Settled p r) = (\<not> is_ok r)"
  by (cases r; simp)+

lemma three_ways_step:
  "looked_in_vain t \<or> has_stored t \<or> was_refused t \<Longrightarrow>
   has_stored (fst (upsert_step repo t s)) \<or> was_refused (fst (upsert_step repo t s))"
  by (cases "(repo, t, s)" rule: upsert_step.cases) (auto simp: split_def Let_def split: sum.split prod.split sum.splits)

fun_cases has_storedE: "has_stored t"
fun_cases looked_in_vainE: "looked_in_vain t"
fun_cases was_refusedE: "was_refused t"

text \<open>Storing a first account is refused once there is an account of the identity.\<close>

lemma vain_step:
  assumes doc: "repo_documented rows repo" and inv: "sign_in_inv rows s" and t: "looked_in_vain t"
    and a: "has_account (rows (snd s)) k (sign_in_profile t)"
  shows "was_refused (fst (upsert_step repo t s))"
proof -
  obtain e db where s: "s = (e, db)" by fastforce
  from t obtain p where p: "t = Looked p None" by (rule looked_in_vainE)
  let ?u = "\<lparr>us_id = e_uuid e (n_uuid e), us_email = op_email p, us_displayName = op_displayName p,
      us_provider = op_provider p, us_providerSub = op_providerSub p, us_picture = op_picture p, us_lastLoginAt = None\<rparr>"
  obtain r db1 where save: "ur_save repo ?u db = (r, db1)" by fastforce
  have "us_id ?u \<notin> us_id ` set (rows db)" using inv by (simp add: sign_in_inv_def fresh_uuids_def s)
  moreover obtain x where x: "x \<in> set (rows db)" "same_account p x" using a by (auto simp: s p has_account_def)
  ultimately have "us_id x \<noteq> us_id ?u" by (metis image_eqI)
  then have "conflicts ?u x" using x by (simp add: conflicts_def same_account_def)
  with x have "list_ex (conflicts ?u) (rows db)" by (auto simp: list_ex_iff)
  then obtain err where "r = Inl err" using save_doc(2) [OF doc save] by (cases r) auto
  then show ?thesis using save by (simp add: s p create_user_def read_clock_def read_uuid_def Let_def)
qed

definition racing :: "('db \<Rightarrow> user list) \<Rightarrow> oauth_profile list \<Rightarrow> nat \<Rightarrow> nat \<Rightarrow> sign_in list \<times> env \<times> 'db \<Rightarrow> bool" where
  "racing rows P i j c \<longleftrightarrow>
     interleaved.good (sign_in_inv rows) (sign_in_ok rows P) c
     \<and> (\<forall>k \<in> {i, j}. k < length (fst c) \<and> (looked_in_vain (fst c ! k) \<or> has_stored (fst c ! k) \<or> was_refused (fst c ! k)))
     \<and> op_provider (sign_in_profile (fst c ! i)) = op_provider (sign_in_profile (fst c ! j))
     \<and> op_providerSub (sign_in_profile (fst c ! i)) = op_providerSub (sign_in_profile (fst c ! j))
     \<and> \<not> (has_stored (fst c ! i) \<and> has_stored (fst c ! j))"

lemma racing_sym: "racing rows P i j c \<longleftrightarrow> racing rows P j i c"
  by (auto simp: racing_def)

lemma stored_account: "has_stored t \<Longrightarrow> sign_in_knows t R \<Longrightarrow> \<exists>k. has_account R k (sign_in_profile t)"
  by (elim has_storedE) auto

text \<open>The turn of one of the two.\<close>

lemma racing_turn1:
  assumes doc: "repo_documented rows repo" and r: "racing rows P i j c" and ij: "i \<noteq> j"
  shows "racing rows P i j (turn (upsert_step repo) i c)"
proof -
  note il = sign_ins_interleaved [OF doc, of P]
  let ?ts = "fst c" and ?s = "snd c"
  let ?t = "fst (upsert_step repo (?ts ! i) ?s)"
  have g: "interleaved.good (sign_in_inv rows) (sign_in_ok rows P) c" and len: "i < length ?ts" "j < length ?ts"
    using r by (auto simp: racing_def)
  then have inv: "sign_in_inv rows ?s" and kj: "sign_in_knows (?ts ! j) (rows (snd ?s))"
    by (simp_all add: interleaved.good_def [OF il] sign_in_ok_def)
  have c': "turn (upsert_step repo) i c = (?ts[i := ?t], snd (upsert_step repo (?ts ! i) ?s))"
    using len(1) by (simp add: turn_def split_def Let_def)
  have three: "has_stored ?t \<or> was_refused ?t"
    by (rule three_ways_step) (use r in \<open>auto simp: racing_def\<close>)
  have "\<not> has_stored ?t" if st: "has_stored (?ts ! j)"
  proof -
    have same: "has_account R k (sign_in_profile (?ts ! j)) = has_account R k (sign_in_profile (?ts ! i))" for R k
      using r by (simp add: racing_def has_account_def same_account_def)
    obtain k where a: "has_account (rows (snd ?s)) k (sign_in_profile (?ts ! i))"
      using stored_account [OF st kj] same by blast
    have "looked_in_vain (?ts ! i) \<or> was_refused (?ts ! i)" using r st by (auto simp: racing_def)
    then have "was_refused ?t"
    proof
      assume "looked_in_vain (?ts ! i)"
      then show ?thesis by (rule vain_step [OF doc inv]) (rule a)
    next
      assume "was_refused (?ts ! i)"
      then show ?thesis by (elim was_refusedE) (cases ?s; simp)
    qed
    then show ?thesis by (elim was_refusedE) simp
  qed
  then show ?thesis
    using r three ij interleaved.turn_good(1) [OF il g, of i] unfolding racing_def c' by (auto simp: nth_list_update)
qed

lemma racing_turn:
  assumes doc: "repo_documented rows repo" and r: "racing rows P i j c" and ij: "i \<noteq> j"
  shows "racing rows P i j (turn (upsert_step repo) k c)"
proof (cases "k = i \<or> k = j")
  case True
  then show ?thesis
    using racing_turn1 [OF doc r ij] racing_turn1 [OF doc r [unfolded racing_sym [of rows P i]] ij [symmetric]] racing_sym by blast
next
  case False
  have "fst (turn (upsert_step repo) k c) ! m = fst c ! m" if "m \<noteq> k" for m
    using that by (cases rule: turn_cases [of c k "upsert_step repo"]) simp_all
  then show ?thesis
    using r False interleaved.turn_good(1) [OF sign_ins_interleaved [OF doc, of P], of c k] by (auto simp: racing_def)
qed

text \<open>C18: two sign-ins of one identity that have both looked for its account and found none do not both succeed: when
  both have had their turns, at least one of them was refused, for the upsert does not look again for the account that
  the other has made meanwhile.\<close>

theorem first_sign_ins_race:
  assumes doc: "repo_documented rows repo" and ok: "users_ok (rows db)" and fresh: "fresh_uuids e (rows db)"
    and run: "run_schedule (upsert_step repo) is (map Looking ps, (e, db)) = (ts, s)"
    and two: "i \<noteq> j" "i < length ps" "j < length ps" "op_provider (ps ! i) = op_provider (ps ! j)"
      "op_providerSub (ps ! i) = op_providerSub (ps ! j)"
    and vain: "ts ! i = Looked (ps ! i) None" "ts ! j = Looked (ps ! j) None"
    and turns: "2 \<le> count_list js i" "2 \<le> count_list js j"
  shows "\<exists>k \<in> {i, j}. \<exists>err. fst (run_schedule (upsert_step repo) js (ts, s)) ! k = Settled (ps ! k) (Inl err)"
proof -
  note il = sign_ins_interleaved [OF doc, of ps]
  obtain e' db' where s: "s = (e', db')" by fastforce
  note r = sign_ins_run [OF doc ok fresh run [unfolded s]]
  have len: "length ts = length ps" using r(4) by (metis length_map)
  then have g: "interleaved.good (sign_in_inv rows) (sign_in_ok rows ps) (ts, s)"
    using r(1,3) by (simp add: interleaved.good_def [OF il] s)
  let ?c = "run_schedule (upsert_step repo) js (ts, s)"
  have "racing rows ps i j (ts, s)"
    using g two vain len by (auto simp: racing_def)
  then have race: "racing rows ps i j ?c"
    by (rule run_invariant) (rule racing_turn [OF doc _ two(1)])
  have ended: "\<exists>r. fst ?c ! k = Settled (ps ! k) r" if k: "k \<in> {i, j}" for k
  proof -
    have "turns_left (fst ?c ! k) \<le> 2 - count_list js k"
      using run_rank [of turns_left "upsert_step repo", OF step_turns, of k "(ts, s)" js] k two vain len by auto
    moreover have "2 \<le> count_list js k" using k turns by auto
    moreover have "map sign_in_profile (fst ?c) = ps" using run_profiles [of repo js "(ts, s)"] r(4) by simp
    then have "sign_in_profile (fst ?c ! k) = ps ! k" using k two len by (metis insertE fst_conv nth_map run_length singletonD)
    ultimately show ?thesis by (cases "fst ?c ! k") auto
  qed
  have "\<not> (has_stored (fst ?c ! i) \<and> has_stored (fst ?c ! j))" using race by (simp add: racing_def)
  then have "\<exists>k \<in> {i, j}. \<not> has_stored (fst ?c ! k)" by auto
  then obtain k where k: "k \<in> {i, j}" "\<not> has_stored (fst ?c ! k)" by blast
  with ended obtain r1 where r1: "fst ?c ! k = Settled (ps ! k) r1" by blast
  with k(2) obtain err where "r1 = Inl err" by (cases r1) auto
  with k(1) r1 show ?thesis by blast
qed

section \<open>Instances\<close>

text \<open>A double click on an empty table: both look, both try to store.\<close>

abbreviation "double_click \<equiv> map Looking [demo_profile, demo_profile]"

definition demo_account :: "int \<Rightarrow> user" where
  "demo_account t = \<lparr>us_id = ''0'', us_email = Some ''ana@x'', us_displayName = ''Ana'', us_provider = ''google'',
     us_providerSub = ''g1'', us_picture = None, us_lastLoginAt = Some t\<rparr>"

lemma double_click_looks:
  "run_schedule (upsert_step ref_repo) [0, 1] (double_click, (demo_uuid_env, [])) =
     ([Looked demo_profile None, Looked demo_profile None], (demo_uuid_env, []))"
  by (simp add: turn_def findByProviderSub_def ref_repo_def)

lemma demo_fresh: "fresh_uuids demo_uuid_env []"
  by (auto simp: fresh_uuids_def demo_uuid_env_def inj_def show_nat_inj)

lemma first_sign_ins_race_witness:
  "\<exists>k \<in> {0, 1 :: nat}. \<exists>err.
     fst (run_schedule (upsert_step ref_repo) [0, 1, 0, 1] ([Looked demo_profile None, Looked demo_profile None], (demo_uuid_env, []))) ! k
       = Settled ([demo_profile, demo_profile] ! k) (Inl err)"
  by (rule first_sign_ins_race [OF ref_repo_documented _ demo_fresh double_click_looks])
    (simp_all add: users_ok_def)

lemma double_click_in_turn:
  "run_schedule (upsert_step ref_repo) [0, 0, 0, 1, 1] (double_click, (demo_uuid_env, [])) =
     ([Settled demo_profile (Inr (demo_account 5000)), Settled demo_profile (Inr (demo_account 5000))],
      (demo_uuid_env\<lparr>n_clock := 2, n_uuid := 1\<rparr>, [demo_account 5000]))"
  by (simp add: turn_def findByProviderSub_def ref_repo_def create_user_def read_clock_def read_uuid_def
      demo_account_def demo_profile_def demo_uuid_env_def conflicts_def put_row_def show_nat_0 Let_def)

lemma concurrent_sign_ins_witness:
  "users_ok [demo_account 5000] \<and> accounts_kept [demo_profile, demo_profile] [] [demo_account 5000]
   \<and> has_account [demo_account 5000] ''0'' demo_profile"
proof -
  have "users_ok []" by (simp add: users_ok_def)
  note c = concurrent_sign_ins [OF ref_repo_documented this demo_fresh double_click_in_turn]
  have "has_account [demo_account 5000] (us_id (demo_account 5000)) ([demo_profile, demo_profile] ! 0)"
    by (rule c [THEN conjunct2, THEN conjunct2, rule_format, of 0, THEN conjunct1]) simp_all
  then show ?thesis
    using c [THEN conjunct1] c [THEN conjunct2, THEN conjunct1] by (simp add: demo_account_def)
qed

lemma sign_in_ends_witness:
  "\<exists>r. fst (run_schedule (upsert_step ref_repo) [0, 1, 0, 1, 1] (double_click, (demo_uuid_env, []))) ! 1
     = Settled ([demo_profile, demo_profile] ! 1) r"
  using sign_in_ends [of 1 "[demo_profile, demo_profile]" "[0, 1, 0, 1, 1]" ref_repo demo_uuid_env "[]" demo_profile] by simp

end
