(* ===== verification/Deployment.thy ===== *)
theory Deployment
  imports Journeys SignInRace
begin

text \<open>
  The server in use: requests, sockets that connect and leave, restarts, in any order, and the tokens that have
  been handed out. Whoever sends a request or opens a socket may use any token that was ever handed out, or
  any text the library refuses; the tokens of others verify for nobody (signatures cannot be forged). What is
  shown is that whatever acts on the server acts as an account of the users table.
\<close>

section \<open>Sign-ins keep the accounts\<close>

definition account_ids :: "('db \<Rightarrow> user list) \<Rightarrow> 'db auth_state \<Rightarrow> string set" where
  "account_ids rows a = us_id ` set (rows (au_db a))"

definition accounts_good :: "('db \<Rightarrow> user list) \<Rightarrow> 'db auth_state \<Rightarrow> bool" where
  "accounts_good rows a \<longleftrightarrow> sign_in_inv rows (au_env a, au_db a)"

lemma has_account_id: "has_account rows i p \<Longrightarrow> i \<in> us_id ` set rows"
  by (auto simp: has_account_def)

lemma upsert_keeps_accounts:
  assumes doc: "repo_documented rows repo" and inv: "sign_in_inv rows (e, db)"
    and up: "upsertByProvider repo p e db = (r, e', db')"
  shows "sign_in_inv rows (e', db') \<and> us_id ` set (rows db) \<subseteq> us_id ` set (rows db')
    \<and> (case r of Inl err \<Rightarrow> True | Inr u \<Rightarrow> us_id u \<in> us_id ` set (rows db'))"
proof -
  have run: "run_schedule (upsert_step repo) [0, 0, 0] (map Looking [p], (e, db)) = ([Settled p r], (e', db'))"
    using upsert_undisturbed [of repo p e db] up by simp
  note r = sign_ins_run [OF doc _ _ run]
  have i: "users_ok (rows db)" "fresh_uuids e (rows db)" using inv by (simp_all add: sign_in_inv_def)
  have "us_id x \<in> us_id ` set (rows db')" if "x \<in> set (rows db)" for x
    using r(2) [OF i] that unfolding accounts_kept_def by (metis image_eqI)
  moreover have "us_id u \<in> us_id ` set (rows db')" if "r = Inr u" for u
    using r(3) [OF i, of 0] that has_account_id by (auto simp: sign_in_ok_def)
  ultimately show ?thesis using r(1) [OF i] by (auto split: sum.split)
qed

text \<open>What the token of a sign-in is signed for.\<close>

definition signed_for :: "'db auth_ctx \<Rightarrow> string set \<Rightarrow> string \<Rightarrow> bool" where
  "signed_for cx ids t \<longleftrightarrow> (\<exists>c. t = cx_sign cx c \<and> sc_sub c \<in> ids)"

lemma signed_forI: "i \<in> ids \<Longrightarrow> signed_for cx ids (cx_sign cx \<lparr>sc_sub = i, sc_email = m\<rparr>)"
  unfolding signed_for_def by (rule exI [of _ "\<lparr>sc_sub = i, sc_email = m\<rparr>"]) simp

lemma upsert_user_good:
  assumes doc: "repo_documented rows (cx_repo cx)" and g: "accounts_good rows a" and up: "upsert_user cx p a = (r, a')"
  shows "accounts_good rows a' \<and> account_ids rows a \<subseteq> account_ids rows a'
    \<and> (case r of Inl err \<Rightarrow> True | Inr u \<Rightarrow> us_id u \<in> account_ids rows a')"
proof -
  from up obtain e db where u: "upsertByProvider (cx_repo cx) p (au_env a) (au_db a) = (r, e, db)"
    and a': "a' = a\<lparr>au_env := e, au_db := db\<rparr>" by (auto simp: upsert_user_eq)
  show ?thesis
    using upsert_keeps_accounts [OF doc g [unfolded accounts_good_def] u]
    by (cases r) (simp_all add: a' accounts_good_def account_ids_def)
qed

lemma accounts_audit [simp]:
  "accounts_good rows (audit ev a) = accounts_good rows a" "account_ids rows (audit ev a) = account_ids rows a"
  by (simp_all add: accounts_good_def account_ids_def)

lemma complete_good:
  assumes doc: "repo_documented rows (cx_repo cx)" and g: "accounts_good rows a"
    and run: "completeOAuth cx name code a = (r, a')"
  shows "accounts_good rows a' \<and> account_ids rows a \<subseteq> account_ids rows a'
    \<and> (case r of Inl err \<Rightarrow> True | Inr (u, t) \<Rightarrow> signed_for cx (account_ids rows a') t)"
proof (cases r)
  case (Inl err)
  from completeOAuth_Inl [OF run [unfolded Inl]] show ?thesis
    using g upsert_user_good [OF doc g] by (auto simp: Inl)
next
  case (Inr ut)
  obtain u t where ut: "ut = (u, t)" by fastforce
  from completeOAuth_Inr [OF run [unfolded Inr ut]] obtain profile s1 where up: "upsert_user cx profile a = (Inr u, s1)"
    and t: "t = cx_sign cx \<lparr>sc_sub = us_id u, sc_email = us_email u\<rparr>"
    and a': "a' = audit (success_event ''auth.oauth_callback_success'' name (us_id u)) s1" by blast
  show ?thesis using upsert_user_good [OF doc g up] by (auto simp: Inr ut t a' signed_forI)
qed

lemma guest_good:
  assumes doc: "repo_documented rows (cx_repo cx)" and g: "accounts_good rows a"
    and run: "signInAnonymous cx uid dn a = (r, a')"
  shows "accounts_good rows a' \<and> account_ids rows a \<subseteq> account_ids rows a'
    \<and> (case r of Inl err \<Rightarrow> True | Inr si \<Rightarrow> signed_for cx (account_ids rows a') (si_token si))"
proof -
  obtain r1 s1 where up: "upsert_user cx (anonymous_profile uid dn) a = (r1, s1)" by fastforce
  show ?thesis
    using upsert_user_good [OF doc g up] run
    by (cases r1) (auto simp: signInAnonymous_def up signSessionToken_def signed_forI)
qed

section \<open>Tokens an answer hands out\<close>

fun cookie_tokens :: "res_effect list \<Rightarrow> string list" where
  "cookie_tokens [] = []"
| "cookie_tokens (SetCookie n t o1 # effs) = (if n = SESSION_COOKIE then t # cookie_tokens effs else cookie_tokens effs)"
| "cookie_tokens (e # effs) = cookie_tokens effs"

fun body_tokens :: "'e + reply \<Rightarrow> string list" where
  "body_tokens (Inr (WsTokenReply w)) = [wr_token w]"
| "body_tokens r = []"

lemma no_body_tokens: "(\<And>w. r \<noteq> Inr (WsTokenReply w)) \<Longrightarrow> body_tokens r = []"
  by (cases r rule: body_tokens.cases) auto

definition tokens_of :: "http_answer \<Rightarrow> string list" where
  "tokens_of a = cookie_tokens (ha_effects a) @ body_tokens (ha_body a)"

lemma cookie_tokens_simps [simp]:
  "cookie_tokens (xs @ ys) = cookie_tokens xs @ cookie_tokens ys"
  "cookie_tokens (setSessionCookie t b) = [t]"
  "cookie_tokens clearOauthCookies = []" "cookie_tokens (send_page n h) = []" "cookie_tokens logout = []"
  "cookie_tokens (setOauthCookies st ret b) = []"
proof -
  show "cookie_tokens (xs @ ys) = cookie_tokens xs @ cookie_tokens ys"
    by (induction xs rule: cookie_tokens.induct) simp_all
qed (use cookie_names in \<open>auto simp: setSessionCookie_def clearOauthCookies_def send_page_def logout_def clearSessionCookie_def
      setOauthCookies_def\<close>)

lemma start_no_tokens: "cookie_tokens (snd (googleStart cx bytes ret)) = []"
  by (auto simp: googleStart_def Let_def split: option.split sum.split)

lemma map_no_tokens: "(\<And>x w. g x \<noteq> WsTokenReply w) \<Longrightarrow> body_tokens (map_sum f g r) = []"
  by (rule no_body_tokens) (auto simp: map_sum_Inr dest: sym)

lemma callback_good:
  assumes doc: "repo_documented rows (cx_repo cx)" and g: "accounts_good rows a"
    and run: "googleCallback cx code st err cookies a = (effs, a')"
  shows "accounts_good rows a' \<and> account_ids rows a \<subseteq> account_ids rows a'
    \<and> list_all (signed_for cx (account_ids rows a')) (cookie_tokens effs)"
proof -
  obtain r a1 where c: "completeOAuth cx ''google'' (code_text code) a = (r, a1)" by fastforce
  show ?thesis
    using complete_good [OF doc g c] run g
    by (cases r) (auto simp: googleCallback_def c Let_def logOauthFailure_def split: if_splits)
qed

lemma login_good:
  assumes doc: "repo_documented rows (cx_repo cx)" and g: "accounts_good rows a"
    and run: "anonymousLogin cx zod to36 body a = (r, effs, a')"
  shows "accounts_good rows a' \<and> account_ids rows a \<subseteq> account_ids rows a'
    \<and> list_all (signed_for cx (account_ids rows a')) (cookie_tokens effs)"
proof (cases "parseAnonymousDto zod body")
  case (Inr dn)
  obtain sid e1 where sid: "randomShortId to36 (au_env a) = (sid, e1)" by fastforce
  then have "e1 = snd (read_rand (au_env a))" by (auto simp: randomShortId_def Let_def split_def)
  then have g1: "accounts_good rows (a\<lparr>au_env := e1\<rparr>)"
    using g by (simp add: accounts_good_def sign_in_inv_def fresh_uuids_def)
  obtain r1 a1 where s: "signInAnonymous cx (''anon-'' @ sid) (or_default dn ''Guest'') (a\<lparr>au_env := e1\<rparr>) = (r1, a1)"
    by fastforce
  show ?thesis
    using guest_good [OF doc g1 s] run
    by (cases r1) (auto simp: anonymousLogin_def Inr sid s [simplified] account_ids_def)
qed (use run g in \<open>auto simp: anonymousLogin_def\<close>)

section \<open>One request\<close>

definition issued_for :: "'db server_deps \<Rightarrow> string set \<Rightarrow> string \<Rightarrow> bool" where
  "issued_for sd ids t \<longleftrightarrow> signed_for (sd_auth sd) ids t \<or> (\<exists>c ttl. t = sd_sign_ws sd c ttl \<and> wt_sub c \<in> ids)"

lemma issued_for_mono: "issued_for sd ids t \<Longrightarrow> ids \<subseteq> ids' \<Longrightarrow> issued_for sd ids' t"
  by (auto simp: issued_for_def signed_for_def)

lemma handle_auth_good:
  assumes doc: "repo_documented rows (cx_repo (sd_auth sd))" and g: "accounts_good rows (sv_auth s)"
    and user: "\<And>u. user = Some u \<Longrightarrow> u \<in> account_ids rows (sv_auth s)"
    and run: "handle_auth sd h rq user s = (res, effs, s')"
  shows "accounts_good rows (sv_auth s') \<and> account_ids rows (sv_auth s) \<subseteq> account_ids rows (sv_auth s')
    \<and> list_all (issued_for sd (account_ids rows (sv_auth s'))) (cookie_tokens effs @ body_tokens res)"
proof -
  have mono: "list_all (issued_for sd ids) ts" if "list_all (signed_for (sd_auth sd) ids) ts" for ids ts
    using that by (auto simp: list_all_iff issued_for_def)
  show ?thesis
  proof (cases h)
    case HGoogleCallback
    obtain es a' where c: "googleCallback (sd_auth sd) (query_param rq ''code'') (query_param rq ''state'')
        (query_param rq ''error'') (rq_cookies rq) (sv_auth s) = (es, a')" by fastforce
    show ?thesis using callback_good [OF doc g c] run by (auto simp: HGoogleCallback c mono)
  next
    case HGuestLogin
    obtain r es a' where c: "anonymousLogin (sd_auth sd) (sd_zod sd) (sd_to36 sd) (rq_body rq) (sv_auth s) = (r, es, a')"
      using prod_cases3 by blast
    show ?thesis using login_good [OF doc g c] run by (auto simp: HGuestLogin c mono map_no_tokens)
  next
    case HWsToken
    then show ?thesis
      using run g user
      by (cases user) (auto simp: wsToken_def ws_issue_def Let_def issued_for_def; metis ws_token_claims.select_convs(1))+
  qed (use run g in \<open>auto simp: start_no_tokens map_no_tokens split_def Let_def\<close>)
qed

section \<open>Who acts in a call\<close>

text \<open>The events that tell of an act of their user: all but invitations, which name the invitee.\<close>

definition acts_of :: "string set \<Rightarrow> call_event list \<Rightarrow> bool" where
  "acts_of ids evs \<longleftrightarrow> list_all (\<lambda>e. ev_type e = EvInvited \<or> ev_userId e \<in> ids) evs"

lemma acts_of_mono: "acts_of ids evs \<Longrightarrow> ids \<subseteq> ids' \<Longrightarrow> acts_of ids' evs"
  by (auto simp: acts_of_def list_all_iff)

lemma cs_events_put [simp]: "cs_events (put_call c s) = cs_events s"
  by (simp add: put_call_def)

lemma acts_of_record [simp]:
  "acts_of ids (cs_events (snd (record_event k ty u pl s))) \<longleftrightarrow>
     acts_of ids (cs_events s) \<and> (ty = EvInvited \<or> u \<in> ids)"
  by (auto simp: acts_of_def record_event_def cs_now_def Let_def)

lemma acts_of_inviteInternal:
  "acts_of ids (cs_events s) \<Longrightarrow> acts_of ids (cs_events (snd (inviteInternal c i s)))"
  by (simp add: inviteInternal_def Let_def split_def)

lemma acts_of_inviteAll:
  "acts_of ids (cs_events s) \<Longrightarrow> acts_of ids (cs_events (snd (inviteAll is c s)))"
  by (induction "is" arbitrary: c s) (simp_all add: Let_def split_def acts_of_inviteInternal)

lemma acts_of_exec:
  assumes "acts_of ids (cs_events s)" and "op_user op = Some u" and "u \<in> ids"
  shows "acts_of ids (cs_events (snd (exec_op op s)))"
proof (cases op)
  case (OpCreate inp)
  then show ?thesis
    using assms
    by (auto simp: createCall_eq registered_def Let_def split: sum.split intro!: acts_of_inviteAll)
next
  case (OpInvite k u1 i)
  then show ?thesis
    using assms by (auto simp: invite_def Let_def split_def acts_of_inviteInternal split: sum.split)
next
  case (OpJoin k u1)
  then show ?thesis
    using assms by (auto simp: join_def joinAsLinkParticipant_def Let_def split_def split: sum.split)
qed (use assms in \<open>auto simp: accept_def leave_def end_call_def Let_def split_def split: sum.split\<close>)

lemma acts_of_http:
  assumes "acts_of ids (cs_events s)" and "\<And>u. user = Some u \<Longrightarrow> u \<in> ids"
  shows "acts_of ids (cs_events (snd (exec_http req user s)))"
proof (cases "\<exists>op. asks_op user s req op")
  case True
  then obtain op where op: "asks_op user s req op" ..
  then obtain u where u: "user = Some u" "op_user op = Some u" using asks_user by fastforce
  have "snd (exec_http req user s) = snd (exec_op op s)" using http_answers [OF op] by (simp add: answers_op_def)
  then show ?thesis using acts_of_exec [OF assms(1) u(2)] assms(2) u(1) by simp
next
  case False
  then have "refuses s (exec_http req user s)" using http_refuses by blast
  then show ?thesis using assms(1) by (auto simp: refuses_def)
qed

lemma same_calls_acts: "same_calls s s' \<Longrightarrow> acts_of ids (cs_events s') = acts_of ids (cs_events s)"
  by (simp add: same_calls_def)

lemma handle_calls_good:
  assumes acts: "acts_of ids (cs_events (sv_calls s))" and user: "\<And>u. user = Some u \<Longrightarrow> u \<in> ids"
    and run: "handle_calls sd h rq k user s = (res, effs, s')"
  shows "acts_of ids (cs_events (sv_calls s')) \<and> body_tokens res = []"
proof -
  note http = acts_of_http [OF acts user]
  have m: "acts_of ids (cs_events (snd (http_turnCredentials hmac cfg k user (sv_calls s))))"
    "acts_of ids (cs_events (snd (http_sfuToken lk scfg k user (sv_calls s))))" for hmac cfg lk scfg
    using acts by (simp_all add: same_calls_acts [OF media_keeps_calls(1)] same_calls_acts [OF media_keeps_calls(2)])
  have "acts_of ids (cs_events (sv_calls s'))"
    using run acts m http [where req = "HCreate (rq_body rq)"] http [where req = "HInvite k (rq_body rq)"]
      http [where req = "HAccept k"] http [where req = "HJoin k"] http [where req = "HEnd k"]
    by (cases h) (auto simp: calls_result_def)
  moreover have "body_tokens res = []"
    using run by (cases h) (auto simp: calls_result_def map_sum_Inr dest: sym intro!: no_body_tokens)
  ultimately show ?thesis ..
qed

lemma other_no_tokens:
  "handle_other sd h rq k s = (res, effs, s') \<Longrightarrow> body_tokens res = [] \<and> cookie_tokens effs = []"
  by (cases h)
    (auto simp: split_def Let_def getMetrics_def map_sum_Inr dest: sym intro!: no_body_tokens)

text \<open>What holds of the server and of the tokens it has handed out.\<close>

definition server_good :: "('db \<Rightarrow> user list) \<Rightarrow> 'db server_state \<Rightarrow> bool" where
  "server_good rows s \<longleftrightarrow>
     accounts_good rows (sv_auth s) \<and> acts_of (account_ids rows (sv_auth s)) (cs_events (sv_calls s))"

lemma run_handler_good:
  assumes doc: "repo_documented rows (cx_repo (sd_auth sd))" and g: "server_good rows s"
    and user: "\<And>u. user = Some u \<Longrightarrow> u \<in> account_ids rows (sv_auth s)"
    and run: "run_handler sd h rq k user s = (res, effs, s')"
  shows "server_good rows s' \<and> account_ids rows (sv_auth s) \<subseteq> account_ids rows (sv_auth s')
    \<and> list_all (issued_for sd (account_ids rows (sv_auth s'))) (cookie_tokens effs @ body_tokens res)"
proof -
  have g': "accounts_good rows (sv_auth s)" "acts_of (account_ids rows (sv_auth s)) (cs_events (sv_calls s))"
    using g by (simp_all add: server_good_def)
  consider "handle_calls sd h rq k user s = (res, effs, s')" | "handle_auth sd h rq user s = (res, effs, s')"
    | "handle_other sd h rq k s = (res, effs, s')"
    using run by (auto simp: run_handler_def split: if_splits)
  then show ?thesis
  proof cases
    case 1
    then show ?thesis
      using handle_calls_good [OF g'(2) user 1] handle_calls_frame [OF 1] g' by (simp add: server_good_def)
  next
    case 2
    note a = handle_auth_good [OF doc g'(1) user 2]
    then show ?thesis
      using handle_auth_frame [OF 2] acts_of_mono [OF g'(2)] by (simp add: server_good_def)
  next
    case 3
    then show ?thesis
      using other_no_tokens [OF 3] handle_other_frame [OF 3] g' by (simp add: server_good_def)
  qed
qed

lemma body_tokens_same:
  assumes "is_ok (ha_body a) = is_ok res" and "\<And>reply. ha_body a = Inr reply \<longleftrightarrow> res = Inr reply"
  shows "body_tokens (ha_body a) = body_tokens res"
proof (cases res)
  case (Inl x)
  then show ?thesis using assms(1) by (cases "ha_body a") simp_all
next
  case (Inr reply)
  then show ?thesis using assms(2) [of reply] by (cases reply) simp_all
qed

lemma serve_good:
  assumes doc: "repo_documented rows (cx_repo (sd_auth sd))" and g: "server_good rows s"
    and user: "\<And>u. request_user sd rq = Some u \<Longrightarrow> u \<in> account_ids rows (sv_auth s)"
    and run: "serve sd rq s = (a, s')"
  shows "server_good rows s' \<and> account_ids rows (sv_auth s) \<subseteq> account_ids rows (sv_auth s')
    \<and> list_all (issued_for sd (account_ids rows (sv_auth s'))) (tokens_of a)"
  using run
proof (cases rule: serve_cases)
  case no_route
  then show ?thesis using g by (cases "ha_body a") (simp_all add: tokens_of_def)
next
  case (refused r e)
  then show ?thesis using g by (cases "ha_body a") (simp_all add: tokens_of_def)
next
  case (handled r user res effs)
  have u: "u \<in> account_ids rows (sv_auth s)" if "user = Some u" for u
    using that user run_guard_session [of sd rq "Some u"] handled(2)
    by (cases "rt_guard r = Some SessionGuard") (auto simp: run_guard_def stats_guard_def resolveUserId_def admin_guard_def split: option.splits route_guard.splits if_splits)
  note body_tokens_same [OF handled(4,6)]
  then show ?thesis
    using run_handler_good [OF doc g u handled(3)] handled(5) by (simp add: tokens_of_def)
qed

section \<open>The deployment\<close>

text \<open>The state of the process, the tokens handed out so far, the sockets that are connected.\<close>

record 'db deployment =
  dp_server :: "'db server_state"
  dp_tokens :: "string list"
  dp_sockets :: "ws_socket list"

text \<open>
  What can be sent: a token that was handed out, or a text the library refuses with the secret. This is the
  unforgeability of signatures.
\<close>

definition gateway_verify_options :: "auth_config \<Rightarrow> verify_options" where
  "gateway_verify_options cfg =
     jwt_ws_verify_options \<lparr>jo_secret = jc_secret cfg, jo_algorithms = None, jo_userIdClaim = None\<rparr>"

definition can_send :: "jwt_verify \<Rightarrow> auth_config \<Rightarrow> string list \<Rightarrow> string option \<Rightarrow> bool" where
  "can_send verify cfg known tok \<longleftrightarrow>
     (case tok of
        None \<Rightarrow> True
      | Some t \<Rightarrow> t \<in> set known
          \<or> \<not> is_ok (verify t (session_verify_options cfg)) \<and> \<not> is_ok (verify t (gateway_verify_options cfg)))"

text \<open>
  What the library promises of the tokens the server signs: what it verifies them to, while it does, has the claims
  that were signed.
\<close>

definition claims_kept :: "'db server_deps \<Rightarrow> jwt_verify \<Rightarrow> auth_config \<Rightarrow> bool" where
  "claims_kept sd verify cfg \<longleftrightarrow>
     sd_verify sd = session_verifier verify cfg
     \<and> (\<forall>c vo. case verify (cx_sign (sd_auth sd) c) vo of
                 Inl _ \<Rightarrow> True | Inr p \<Rightarrow> \<exists>iat expiry. p = stamped (session_claims_fields c) iat expiry)
     \<and> (\<forall>c ttl vo. case verify (sd_sign_ws sd c ttl) vo of
                 Inl _ \<Rightarrow> True | Inr p \<Rightarrow> \<exists>iat expiry. p = stamped (ws_claims_fields c) iat expiry)"

text \<open>
  The steps: a request is served, and what it answers becomes known; a socket passes the middleware of the
  gateway; a socket leaves; the process is restarted, and keeps its database only.
\<close>

inductive deployed ::
    "'db server_deps \<Rightarrow> jwt_verify \<Rightarrow> auth_config \<Rightarrow> 'db server_state \<Rightarrow> 'db deployment \<Rightarrow> bool"
    for sd verify cfg s0 where
  dep_start: "deployed sd verify cfg s0 \<lparr>dp_server = s0, dp_tokens = [], dp_sockets = []\<rparr>"
| dep_request: "deployed sd verify cfg s0 d \<Longrightarrow>
    can_send verify cfg (dp_tokens d) (session_token (rq_bearer rq) (rq_cookies rq)) \<Longrightarrow>
    serve sd rq (dp_server d) = (a, s') \<Longrightarrow>
    deployed sd verify cfg s0 (d\<lparr>dp_server := s', dp_tokens := dp_tokens d @ tokens_of a\<rparr>)"
| dep_connect: "deployed sd verify cfg s0 d \<Longrightarrow> can_send verify cfg (dp_tokens d) (jwt_extractToken socket) \<Longrightarrow>
    gateway_middleware verify (jc_secret cfg) socket = (Inr (), socket', effs) \<Longrightarrow>
    deployed sd verify cfg s0 (d\<lparr>dp_sockets := socket' # dp_sockets d\<rparr>)"
| dep_disconnect: "deployed sd verify cfg s0 d \<Longrightarrow>
    deployed sd verify cfg s0 (d\<lparr>dp_sockets := filter (\<lambda>so. so_id so \<noteq> sid) (dp_sockets d)\<rparr>)"
| dep_restart: "deployed sd verify cfg s0 d \<Longrightarrow>
    deployed sd verify cfg s0 (d\<lparr>dp_server := boot e (sv_auth (dp_server d)), dp_sockets := []\<rparr>)"

text \<open>The tokens name accounts, and so do the sockets.\<close>

definition socket_user_in :: "string set \<Rightarrow> ws_socket \<Rightarrow> bool" where
  "socket_user_in ids so \<longleftrightarrow> (case getUserId (JObj (so_data so)) of Inl _ \<Rightarrow> False | Inr u \<Rightarrow> u \<in> ids)"

definition deployment_good :: "('db \<Rightarrow> user list) \<Rightarrow> 'db server_deps \<Rightarrow> 'db deployment \<Rightarrow> bool" where
  "deployment_good rows sd d \<longleftrightarrow>
     server_good rows (dp_server d)
     \<and> list_all (issued_for sd (account_ids rows (sv_auth (dp_server d)))) (dp_tokens d)
     \<and> list_all (socket_user_in (account_ids rows (sv_auth (dp_server d)))) (dp_sockets d)"

lemma issued_subject:
  assumes "claims_kept sd verify cfg" and "issued_for sd ids t" and "verify t vo = Inr p"
  shows "\<exists>u. u \<in> ids \<and> js_prop ''sub'' p = JStr u \<and> js_prop ''userId'' p = JUndef \<and> \<not> is_string p"
  using assms unfolding issued_for_def signed_for_def claims_kept_def
  by (fastforce simp: stamped_def session_claims_fields_def ws_claims_fields_def split: sum.splits)

lemma sender_in:
  assumes lib: "claims_kept sd verify cfg" and iss: "list_all (issued_for sd ids) known"
    and send: "can_send verify cfg known (session_token (rq_bearer rq) (rq_cookies rq))"
    and user: "request_user sd rq = Some u"
  shows "u \<in> ids"
proof -
  from user obtain t p claims where t: "session_token (rq_bearer rq) (rq_cookies rq) = Some t"
    and v: "sd_verify sd t = Inr p" and c: "jwt_validate p = Inr claims" and u: "user_id_of claims = Some u"
    by (auto simp: request_user_def session_auth_def split: sum.splits option.splits)
  from v lib have p: "verify t (session_verify_options cfg) = Inr p"
    by (cases "verify t (session_verify_options cfg)") (auto simp: claims_kept_def session_verifier_def)
  then have "t \<in> set known" using send t by (simp add: can_send_def)
  then have "issued_for sd ids t" using iss by (simp add: list_all_iff)
  from issued_subject [OF lib this p] obtain i where i: "i \<in> ids" and sub: "js_prop ''sub'' p = JStr i" by blast
  have "u = i" using c u by (auto simp: jwt_validate_def user_id_of_def sub split: if_splits)
  with i show ?thesis by simp
qed

lemma socket_in:
  assumes lib: "claims_kept sd verify cfg" and iss: "list_all (issued_for sd ids) known"
    and send: "can_send verify cfg known (jwt_extractToken socket)"
    and run: "gateway_middleware verify (jc_secret cfg) socket = (Inr (), socket', effs)"
  shows "socket_user_in ids socket'"
proof -
  have "jwt_ws_use verify \<lparr>jo_secret = jc_secret cfg, jo_algorithms = None, jo_userIdClaim = None\<rparr> socket = (Inr (), socket', effs)"
    using run by (auto simp: gateway_middleware_def split: prod.splits sum.splits)
  then obtain t p u where t: "jwt_extractToken socket = Some t" and v: "verify t (gateway_verify_options cfg) = Inr p"
    and u: "extractUserId ''sub'' p = Some u"
    and s': "socket' = socket\<lparr>so_data := jset ''token'' (JStr t) (jset ''userId'' (JStr u) (so_data socket))\<rparr>"
    by (auto simp: jwt_ws_use_def gateway_verify_options_def or_default_def split: option.splits sum.splits)
  have "t \<in> set known" using send t v by (simp add: can_send_def)
  then have "issued_for sd ids t" using iss by (simp add: list_all_iff)
  from issued_subject [OF lib this v] obtain i where i: "i \<in> ids" "js_prop ''sub'' p = JStr i"
    "js_prop ''userId'' p = JUndef" "\<not> is_string p" by blast
  then have "u = i" using u by (auto simp: extractUserId_def split: if_splits)
  then show ?thesis using i(1) by (simp add: socket_user_in_def getUserId_def js_prop_jget s' del: js_prop.simps)
qed

lemma socket_user_mono: "socket_user_in ids so \<Longrightarrow> ids \<subseteq> ids' \<Longrightarrow> socket_user_in ids' so"
  by (auto simp: socket_user_in_def split: sum.splits)

lemma deployed_good:
  assumes dep: "deployed sd verify cfg s0 d" and doc: "repo_documented rows (cx_repo (sd_auth sd))"
    and lib: "claims_kept sd verify cfg" and start: "server_good rows s0"
  shows "deployment_good rows sd d"
  using dep
proof (induction rule: deployed.induct)
  case dep_start
  show ?case using start by (simp add: deployment_good_def)
next
  case (dep_request d rq a s')
  let ?ids = "account_ids rows (sv_auth (dp_server d))"
  have g: "server_good rows (dp_server d)" "list_all (issued_for sd ?ids) (dp_tokens d)"
    "list_all (socket_user_in ?ids) (dp_sockets d)" using dep_request.IH by (simp_all add: deployment_good_def)
  note st = serve_good [OF doc g(1) sender_in [OF lib g(2) dep_request.hyps(2)] dep_request.hyps(3)]
  have "list_all (issued_for sd (account_ids rows (sv_auth s'))) (dp_tokens d)"
    "list_all (socket_user_in (account_ids rows (sv_auth s'))) (dp_sockets d)"
    using g(2,3) st issued_for_mono [of sd ?ids] socket_user_mono [of ?ids] unfolding list_all_iff by blast+
  then show ?case using st by (simp add: deployment_good_def)
next
  case (dep_connect d socket socket' effs)
  then show ?case using socket_in [OF lib _ dep_connect.hyps(2,3)] by (simp add: deployment_good_def)
next
  case (dep_disconnect d sid)
  then show ?case by (auto simp: deployment_good_def list_all_iff)
next
  case (dep_restart d e)
  then show ?case by (simp add: deployment_good_def server_good_def boot_def acts_of_def init_calls_def)
qed

section \<open>Properties\<close>

text \<open>C7: whatever is requested, whatever sockets come and go and however often the process is restarted: if signatures
  cannot be forged, every token that was ever handed out names an account of the users table, every connected
  socket belongs to such an account, every event of the log but an invitation is the act of one, and so is every
  further request that passes the session guard.\<close>

theorem only_accounts_act:
  assumes dep: "deployed sd verify cfg s0 d" and doc: "repo_documented rows (cx_repo (sd_auth sd))"
    and lib: "claims_kept sd verify cfg" and start: "server_good rows s0"
    and send: "can_send verify cfg (dp_tokens d) (session_token (rq_bearer rq) (rq_cookies rq))"
  shows "list_all (issued_for sd (account_ids rows (sv_auth (dp_server d)))) (dp_tokens d)
    \<and> list_all (socket_user_in (account_ids rows (sv_auth (dp_server d)))) (dp_sockets d)
    \<and> acts_of (account_ids rows (sv_auth (dp_server d))) (cs_events (sv_calls (dp_server d)))
    \<and> (case request_user sd rq of None \<Rightarrow> True | Some u \<Rightarrow> u \<in> account_ids rows (sv_auth (dp_server d)))"
proof -
  have g: "deployment_good rows sd d" by (rule deployed_good [OF dep doc lib start])
  then show ?thesis
    using sender_in [OF lib _ send] by (simp add: deployment_good_def server_good_def split: option.split)
qed

section \<open>Who is handed a token\<close>

text \<open>The session of a stored account.\<close>

definition session_of :: "('db \<Rightarrow> user list) \<Rightarrow> 'db auth_ctx \<Rightarrow> 'db auth_state \<Rightarrow> user \<Rightarrow> string \<Rightarrow> bool" where
  "session_of rows cx a u t \<longleftrightarrow> u \<in> set (rows (au_db a)) \<and> t = cx_sign cx \<lparr>sc_sub = us_id u, sc_email = us_email u\<rparr>"

definition google_user :: "'db auth_ctx \<Rightarrow> http_request \<Rightarrow> user \<Rightarrow> bool" where
  "google_user cx rq u \<longleftrightarrow>
     callback_admits (query_param rq ''code'') (query_param rq ''state'') (query_param rq ''error'') (rq_cookies rq)
     \<and> (case registry_get (cx_providers cx) ''google'' of
          None \<Rightarrow> False
        | Some pv \<Rightarrow> pm_enabled (pv_meta pv)
            \<and> (case pv_exchangeAndVerify pv (code_text (query_param rq ''code'')) of
                 Inl _ \<Rightarrow> False | Inr profile \<Rightarrow> same_account profile u))"

definition guest_user :: "user \<Rightarrow> bool" where
  "guest_user u \<longleftrightarrow> us_provider u = ''anonymous'' \<and> starts_with ''anon-'' (us_providerSub u)"

lemma upsert_stored:
  assumes doc: "repo_documented rows (cx_repo cx)" and g: "accounts_good rows a" and up: "upsert_user cx p a = (Inr u, a')"
  shows "u \<in> set (rows (au_db a')) \<and> same_account p u"
proof -
  from up obtain e db where u: "upsertByProvider (cx_repo cx) p (au_env a) (au_db a) = (Inr u, e, db)"
    and a': "a' = a\<lparr>au_env := e, au_db := db\<rparr>" by (auto simp: upsert_user_eq)
  have "users_ok (rows (au_db a))" "e_uuid (au_env a) (n_uuid (au_env a)) \<notin> us_id ` set (rows (au_db a))"
    using g by (simp_all add: accounts_good_def sign_in_inv_def fresh_uuids_def)
  from upsert_effect [OF doc this u] show ?thesis by (simp add: a')
qed

lemma callback_token:
  assumes doc: "repo_documented rows (cx_repo cx)" and g: "accounts_good rows a"
    and run: "googleCallback cx (query_param rq ''code'') (query_param rq ''state'') (query_param rq ''error'') (rq_cookies rq) a
      = (effs, a')"
    and t: "t \<in> set (cookie_tokens effs)"
  shows "\<exists>u. session_of rows cx a' u t \<and> google_user cx rq u"
proof -
  let ?c = "completeOAuth cx ''google'' (code_text (query_param rq ''code'')) a"
  have adm: "callback_admits (query_param rq ''code'') (query_param rq ''state'') (query_param rq ''error'') (rq_cookies rq)"
    using run t
    by (auto simp: googleCallback_def callback_admits_def state_matches_def Let_def split: if_splits)
  obtain r a1 where c: "?c = (r, a1)" by fastforce
  with run t adm obtain u where r: "r = Inr (u, t)" and a': "a' = a1"
    by (cases r) (auto simp: googleCallback_def callback_admits_def state_matches_def Let_def split: if_splits)
  from completeOAuth_Inr [OF c [unfolded r]] obtain pv profile s1
    where pv: "registry_get (cx_providers cx) ''google'' = Some pv" "pm_enabled (pv_meta pv)"
      "pv_exchangeAndVerify pv (code_text (query_param rq ''code'')) = Inr profile"
    and up: "upsert_user cx profile a = (Inr u, s1)"
    and t: "t = cx_sign cx \<lparr>sc_sub = us_id u, sc_email = us_email u\<rparr>"
    and a1: "a1 = audit (success_event ''auth.oauth_callback_success'' ''google'' (us_id u)) s1" by blast
  show ?thesis
    using upsert_stored [OF doc g up] pv adm by (auto simp: session_of_def google_user_def t a' a1)
qed

lemma login_token:
  assumes doc: "repo_documented rows (cx_repo cx)" and g: "accounts_good rows a"
    and run: "anonymousLogin cx zod to36 body a = (r, effs, a')" and t: "t \<in> set (cookie_tokens effs)"
  shows "\<exists>u. session_of rows cx a' u t \<and> guest_user u"
proof -
  from run t obtain r1 where "r = Inr r1" by (cases r) (auto simp: anonymousLogin_def split: sum.splits prod.splits)
  with run anonymousLogin_Inr obtain dn sid e1 si where sid: "randomShortId to36 (au_env a) = (sid, e1)"
    and si: "signInAnonymous cx (''anon-'' @ sid) (or_default dn ''Guest'') (a\<lparr>au_env := e1\<rparr>) = (Inr si, a')"
    and effs: "effs = setSessionCookie (si_token si) (getCookieSecure cx)" by blast
  have "e1 = snd (read_rand (au_env a))" using sid by (auto simp: randomShortId_def Let_def split_def)
  then have g1: "accounts_good rows (a\<lparr>au_env := e1\<rparr>)"
    using g by (simp add: accounts_good_def sign_in_inv_def fresh_uuids_def)
  obtain uid where uid: "uid = ''anon-'' @ sid" by simp
  from si [folded uid] obtain u s1 where up: "upsert_user cx (anonymous_profile uid (or_default dn ''Guest'')) (a\<lparr>au_env := e1\<rparr>) = (Inr u, s1)"
    and tok: "si_token si = cx_sign cx \<lparr>sc_sub = us_id u, sc_email = us_email u\<rparr>" and a': "au_db a' = au_db s1"
    by (auto simp: signInAnonymous_def signSessionToken_def split: sum.splits prod.splits)
  have "t = si_token si" using t by (simp add: effs)
  then show ?thesis
    using upsert_stored [OF doc g1 up] tok a'
    by (auto simp: session_of_def guest_user_def same_account_def anonymous_profile_def uid starts_with_def)
qed

lemma handled_token:
  assumes doc: "repo_documented rows (cx_repo (sd_auth sd))" and g: "accounts_good rows (sv_auth s)"
    and run: "run_handler sd h rq k user s = (res, effs, s')" and t: "t \<in> set (cookie_tokens effs @ body_tokens res)"
  shows "h = HWsToken \<and> (\<exists>u c ttl. user = Some u \<and> wt_sub c = u \<and> t = sd_sign_ws sd c ttl)
    \<or> (\<exists>u. session_of rows (sd_auth sd) (sv_auth s') u t \<and> (google_user (sd_auth sd) rq u \<or> guest_user u))"
proof -
  consider "handle_calls sd h rq k user s = (res, effs, s')" | "handle_auth sd h rq user s = (res, effs, s')"
    | "handle_other sd h rq k s = (res, effs, s')"
    using run by (auto simp: run_handler_def split: if_splits)
  then show ?thesis
  proof cases
    case 1
    then have "body_tokens res = []"
      by (cases h) (auto simp: calls_result_def map_sum_Inr dest: sym intro!: no_body_tokens)
    then show ?thesis using handle_calls_frame [OF 1] t by simp
  next
    case 3
    then show ?thesis using other_no_tokens [OF 3] t by simp
  next
    case 2
    show ?thesis
    proof (cases h)
      case HGoogleCallback
      obtain es a' where c: "googleCallback (sd_auth sd) (query_param rq ''code'') (query_param rq ''state'')
          (query_param rq ''error'') (rq_cookies rq) (sv_auth s) = (es, a')" by fastforce
      show ?thesis using callback_token [OF doc g c, of t] 2 t by (auto simp: HGoogleCallback c)
    next
      case HGuestLogin
      obtain r es a' where c: "anonymousLogin (sd_auth sd) (sd_zod sd) (sd_to36 sd) (rq_body rq) (sv_auth s) = (r, es, a')"
        using prod_cases3 by blast
      have "body_tokens res = []" using 2 by (auto simp: HGuestLogin c map_sum_Inr dest: sym intro!: no_body_tokens)
      then show ?thesis using login_token [OF doc g c, of t] 2 t by (auto simp: HGuestLogin c)
    next
      case HWsToken
      then show ?thesis
        using 2 t by (cases user) (auto simp: wsToken_def ws_issue_def Let_def; metis ws_token_claims.select_convs(1))+
    qed (use 2 t in \<open>auto simp: split_def Let_def start_no_tokens map_no_tokens\<close>)
  qed
qed

text \<open>C8: A token is handed out only to the one it speaks for: a WebSocket token to a request with a session of that
  user, a session to a browser that has come back from the provider with a code the provider has verified for
  the identity of the account and with the state of its own cookie, or to a guest, for an account of a guest.\<close>

theorem tokens_to_their_users:
  assumes doc: "repo_documented rows (cx_repo (sd_auth sd))" and g: "accounts_good rows (sv_auth s)"
    and run: "serve sd rq s = (a, s')" and t: "t \<in> set (tokens_of a)"
  shows "(\<exists>c ttl. request_user sd rq = Some (wt_sub c) \<and> t = sd_sign_ws sd c ttl)
    \<or> (\<exists>u. session_of rows (sd_auth sd) (sv_auth s') u t \<and> (google_user (sd_auth sd) rq u \<or> guest_user u))"
  using run
proof (cases rule: serve_cases)
  case no_route
  then show ?thesis using t by (cases "ha_body a") (simp_all add: tokens_of_def)
next
  case (refused r e)
  then show ?thesis using t by (cases "ha_body a") (simp_all add: tokens_of_def)
next
  case (handled r user res effs)
  have "t \<in> set (cookie_tokens effs @ body_tokens res)"
    using t handled(5) body_tokens_same [OF handled(4,6)] by (simp add: tokens_of_def)
  note h = handled_token [OF doc g handled(3) this]
  have "user = request_user sd rq" if "rt_handler r = HWsToken"
    using that session_routes [of r] dispatch_Some [OF handled(1)] run_guard_session [of sd rq user] handled(2) by auto
  then show ?thesis using h by (elim disjE conjE) (metis, blast)
qed

section \<open>Guests with one id\<close>

text \<open>
  A guest is identified by eight characters of a random number, and nothing checks that they are new. Who draws the
  characters of an earlier guest is signed in to the account of that guest, and renames it.
\<close>

lemma upsert_finds:
  assumes doc: "repo_documented rows (cx_repo cx)" and g: "accounts_good rows a" and has: "has_account (rows (au_db a)) i p"
    and up: "upsert_user cx p a = (Inr u, a')"
  shows "us_id u = i \<and> u \<in> set (rows (au_db a')) \<and> us_displayName u = op_displayName p"
proof -
  from up obtain e db where u: "upsertByProvider (cx_repo cx) p (au_env a) (au_db a) = (Inr u, e, db)"
    and a': "a' = a\<lparr>au_env := e, au_db := db\<rparr>" by (auto simp: upsert_user_eq)
  have ok: "users_ok (rows (au_db a))" "e_uuid (au_env a) (n_uuid (au_env a)) \<notin> us_id ` set (rows (au_db a))"
    using g by (simp_all add: accounts_good_def sign_in_inv_def fresh_uuids_def)
  note eff = upsert_effect [OF doc ok u]
  obtain r where r: "find (same_account p) (rows (au_db a)) = Some r"
    using has by (cases "find (same_account p) (rows (au_db a))") (auto simp: has_account_def find_None_iff)
  then have "has_account (rows (au_db a)) (us_id r) p" by (auto simp: has_account_def find_Some_iff)
  then have "us_id r = i" by (rule one_account [OF ok(1) _ has])
  then show ?thesis using eff r by (simp add: a')
qed

lemma signInAnonymous_Inr:
  assumes "signInAnonymous cx uid dn a = (Inr r, a')"
  shows "\<exists>u s1. upsert_user cx (anonymous_profile uid dn) a = (Inr u, s1) \<and> si_userId r = us_id u
    \<and> si_token r = cx_sign cx \<lparr>sc_sub = us_id u, sc_email = us_email u\<rparr> \<and> au_db a' = au_db s1"
  using assms by (auto simp: signInAnonymous_def signSessionToken_def split: prod.splits sum.splits)

theorem guests_with_one_id:
  assumes doc: "repo_documented rows (cx_repo cx)" and g: "accounts_good rows a" "accounts_good rows b"
    and first: "signInAnonymous cx uid dn1 a = (Inr r1, a')"
    and kept: "accounts_kept P (rows (au_db a')) (rows (au_db b))"
    and second: "signInAnonymous cx uid dn2 b = (Inr r2, b')"
  shows "si_userId r2 = si_userId r1
    \<and> list_ex (\<lambda>u. us_id u = si_userId r1 \<and> us_displayName u = dn2) (rows (au_db b'))"
proof -
  from signInAnonymous_Inr [OF first] obtain u1 s1 where u1: "upsert_user cx (anonymous_profile uid dn1) a = (Inr u1, s1)"
    "si_userId r1 = us_id u1" "au_db a' = au_db s1" by blast
  from signInAnonymous_Inr [OF second] obtain u2 s2 where u2: "upsert_user cx (anonymous_profile uid dn2) b = (Inr u2, s2)"
    "si_userId r2 = us_id u2" "au_db b' = au_db s2" by blast
  have "has_account (rows (au_db a')) (us_id u1) (anonymous_profile uid dn2)"
    using upsert_stored [OF doc g(1) u1(1)] u1(3) by (auto simp: has_account_def same_account_def anonymous_profile_def)
  then have "has_account (rows (au_db b)) (us_id u1) (anonymous_profile uid dn2)" by (rule has_account_kept) (rule kept)
  from upsert_finds [OF doc g(2) this u2(1)] show ?thesis
    using u1 u2 by (auto simp: list_ex_iff anonymous_profile_def)
qed

section \<open>An instance\<close>

text \<open>The server of the journeys, freshly started on a table with one account, after the login of a guest.\<close>

abbreviation "demo_boot \<equiv> boot demo_env demo_auth"

lemma demo_accounts_good: "accounts_good (\<lambda>db. db) demo_auth"
proof -
  have "show_nat k \<noteq> ''id1''" for k using show_nat_chars(1) [of "CHR ''d''" k] by (auto simp: is_digit_def)
  then show ?thesis
    using demo_users(1)
    by (auto simp: accounts_good_def sign_in_inv_def fresh_uuids_def demo_auth_def demo_uuid_env_def demo_user_def inj_def
        show_nat_inj)
qed

lemma demo_server_good: "server_good (\<lambda>db. db) demo_boot"
  using demo_accounts_good by (simp add: server_good_def boot_def acts_of_def init_calls_def)

lemma demo_claims_kept: "claims_kept demo_journey_deps demo_library demo_auth_config"
  unfolding claims_kept_def
  by (auto simp: demo_journey_deps_def demo_library_def demo_token_verify_def demo_claims_of_def demo_sign_def
      demo_sign_ws_def session_claims_fields_def ws_claims_fields_def split: option.split sum.split)

lemma demo_can_login: "can_send verify cfg known (session_token (rq_bearer demo_login) (rq_cookies demo_login))"
  by (simp add: can_send_def session_token_def demo_login_def demo_request_def)

lemma demo_journey_doc: "repo_documented (\<lambda>db. db) (cx_repo (sd_auth demo_journey_deps))"
  using ref_repo_documented by (simp add: demo_journey_deps_def demo_ctx_def)

lemma demo_logged_in:
  "\<exists>a s'. serve demo_journey_deps demo_login demo_boot = (a, s') \<and> tokens_of a = [''n0'']"
  using demo_login_served [of demo_boot] by (auto simp: boot_def tokens_of_def)

definition demo_next :: http_request where
  "demo_next = demo_request GET ''/api/auth/me'' (Some ''n0'')"

lemma demo_next_user: "request_user demo_journey_deps demo_next = Some ''0''"
  using session_request [OF demo_documented, of "\<lparr>sc_sub = ''0'', sc_email = None\<rparr>" demo_next]
  by (simp add: demo_next_def demo_request_def session_token_def demo_journey_deps_def demo_sign_def)

lemma only_accounts_act_witness:
  "\<exists>a s'. serve demo_journey_deps demo_login demo_boot = (a, s') \<and> ''0'' \<in> account_ids (\<lambda>db. db) (sv_auth s')
    \<and> list_all (issued_for demo_journey_deps (account_ids (\<lambda>db. db) (sv_auth s'))) [''n0'']"
proof -
  obtain a s' where run: "serve demo_journey_deps demo_login demo_boot = (a, s')" and t: "tokens_of a = [''n0'']"
    using demo_logged_in by blast
  let ?d = "\<lparr>dp_server = s', dp_tokens = [''n0''], dp_sockets = []\<rparr>"
  have dep: "deployed demo_journey_deps demo_library demo_auth_config demo_boot ?d"
    using dep_request [OF dep_start demo_can_login, of demo_journey_deps demo_boot a s'] run t by simp
  have send: "can_send demo_library demo_auth_config (dp_tokens ?d) (session_token (rq_bearer demo_next) (rq_cookies demo_next))"
    by (simp add: can_send_def session_token_def demo_next_def demo_request_def)
  show ?thesis
    using only_accounts_act [OF dep demo_journey_doc demo_claims_kept demo_server_good send] run by (simp add: demo_next_user)
qed

lemma tokens_to_their_users_witness:
  "\<exists>a s' u. serve demo_journey_deps demo_login demo_boot = (a, s') \<and> guest_user u
    \<and> session_of (\<lambda>db. db) (sd_auth demo_journey_deps) (sv_auth s') u ''n0''"
proof -
  obtain a s' where run: "serve demo_journey_deps demo_login demo_boot = (a, s')" and t: "tokens_of a = [''n0'']"
    using demo_logged_in by blast
  have "\<not> google_user (sd_auth demo_journey_deps) demo_login u" for u
    by (simp add: google_user_def callback_admits_def state_matches_def demo_login_def demo_request_def query_param_def)
  moreover have "''n0'' \<noteq> sd_sign_ws demo_journey_deps c ttl" for c ttl
    by (simp add: demo_journey_deps_def demo_sign_ws_def)
  ultimately show ?thesis
    using tokens_to_their_users [OF demo_journey_doc _ run, of "''n0''"] demo_accounts_good run t
    by (auto simp: boot_def)
qed

end
