(* ===== verification/Statuses.thy ===== *)
theory Statuses
  imports ServerProps
begin

text \<open>
  The statuses of the server's answers: for each handler those of a success and those of its exceptions, and
  that an error body repeats what the answer and the request say.
\<close>

text \<open>The status of a success, and the statuses of the exceptions, of each handler.\<close>

fun success_statuses :: "handler \<Rightarrow> nat list" where
  "success_statuses HCallCreate = [201]"
| "success_statuses HGoogleStart = [302]"
| "success_statuses HGoogleCallback = [200, 400, 401]"
| "success_statuses HStats = []"
| "success_statuses HFailed = []"
| "success_statuses h = [200]"

fun error_statuses :: "handler \<Rightarrow> nat list" where
  "error_statuses HCallCreate = [400, 401, 503]"
| "error_statuses HCallMine = [400, 401]"
| "error_statuses HCallGet = [401, 403, 404]"
| "error_statuses HCallEvents = [401, 403, 404]"
| "error_statuses HCallInvite = [400, 401, 403, 404, 409]"
| "error_statuses HCallAccept = [401, 403, 404, 409]"
| "error_statuses HCallJoin = [401, 403, 404, 409]"
| "error_statuses HCallEnd = [401, 403, 404]"
| "error_statuses HCallTurn = [401, 403, 404, 409]"
| "error_statuses HCallSfu = [400, 401, 403, 404, 409]"
| "error_statuses HGoogleStart = [400, 401, 403, 404, 409, 500, 503]"
| "error_statuses HGuestLogin = [400, 500]"
| "error_statuses HLogout = [401]"
| "error_statuses HMe = [401, 404, 500]"
| "error_statuses HWsToken = [401]"
| "error_statuses HStats = [403]"
| "error_statuses HFailed = [403]"
| "error_statuses h = []"

subsection \<open>The exceptions of the calls\<close>

abbreviation service_status :: "call_error \<Rightarrow> nat" where
  "service_status e \<equiv> http_status (translateError (TCall e))"

lemma lookup_status:
  "getCall k s = Inl e \<Longrightarrow> service_status e = 404" "getCallByIdOrCode k s = Inl e \<Longrightarrow> service_status e = 404"
  by (auto simp: getCall_def getCallByIdOrCode_def getCallByRoomCode_def split: option.splits if_splits)

lemma participant_status: "requireParticipant c u = Inl e \<Longrightarrow> service_status e = 403"
  by (auto simp: requireParticipant_def split: option.splits)

lemma service_statuses:
  "fst (accept k u s) = Inl e \<Longrightarrow> service_status e \<in> {403, 404, 409}"
  "fst (join k u s) = Inl e \<Longrightarrow> service_status e \<in> {403, 404, 409}"
  "fst (end_call k u s) = Inl e \<Longrightarrow> service_status e \<in> {403, 404}"
  "fst (invite k u i s) = Inl e \<Longrightarrow> service_status e \<in> {403, 404, 409}"
  by (auto simp: accept_def join_def end_call_def invite_def split_def Let_def dest: lookup_status participant_status
      split: sum.splits if_splits)

lemma reserve_status: "fst (reserveRoomCode s) = Inl e \<Longrightarrow> service_status e = 503"
  using reserve_loop_error [of _ "cs_codes s" "cs_env s" e]
  by (force simp: reserveRoomCode_def split_def Let_def)

lemma create_status: "fst (createCall inp s) = Inl e \<Longrightarrow> service_status e = 503"
  using reserve_status by (fastforce simp: createCall_def split_def Let_def split: sum.splits)

lemma on_call_status:
  assumes "fst (on_call act i (Some u) s) = Inl e" and "\<And>k e. fst (act k u s) = Inl e \<Longrightarrow> service_status e \<in> A"
  shows "http_status e \<in> insert 404 A"
  using assms lookup_status(2) [of i s]
  by (cases "getCallByIdOrCode i s"; auto simp: on_call_def of_service_def userIdOrThrow_def split_def Let_def answer_def;
      case_tac "fst (act (c_id b) u s)"; force)

lemma body_status:
  "parseCreateCallDto body = Inl e \<Longrightarrow> http_status (translateError e) = 400"
  "parseInviteCallDto body = Inl e \<Longrightarrow> http_status (translateError e) = 400"
  "parseListStatus st = Inl e \<Longrightarrow> http_status (translateError e) = 400"
  by (auto simp: parseCreateCallDto_def parseInviteCallDto_def parseListStatus_def parse_invitees_def parse_visibility_def
      split: if_splits sum.splits jsval.splits option.splits elim!: res_bind.elims)

lemma media_status: "media_call i (Some u) s = Inl e \<Longrightarrow> http_status (translateError e) \<in> {403, 404, 409}"
  using lookup_status(2) [of i s]
  by (cases "getCallByIdOrCode i s")
    (auto simp: media_call_def userIdOrThrow_def of_service_def not_a_participant_def split: if_splits)

lemma member_status: "member_call i (Some u) s = Inl e \<Longrightarrow> http_status (translateError e) \<in> {403, 404}"
  using lookup_status(2) [of i s]
  by (cases "getCallByIdOrCode i s")
    (auto simp: member_call_def userIdOrThrow_def of_service_def not_a_participant_def split: if_splits)

lemma map_sum_Inl: "map_sum f g r = Inl y \<longleftrightarrow> (\<exists>x. r = Inl x \<and> y = f x)"
  by (cases r) auto

lemma http_statuses:
  "fst (http_create body (Some u) s) = Inl e \<Longrightarrow> http_status e \<in> {400, 503}"
  "http_listMine st (Some u) s = Inl e \<Longrightarrow> http_status e = 400"
  "http_get i (Some u) s = Inl e \<Longrightarrow> http_status e \<in> {403, 404}"
  "http_eventsFor i (Some u) s = Inl e \<Longrightarrow> http_status e \<in> {403, 404}"
  "fst (http_invite i body (Some u) s) = Inl e \<Longrightarrow> http_status e \<in> {400, 403, 404, 409}"
  "fst (http_accept i (Some u) s) = Inl e \<Longrightarrow> http_status e \<in> {403, 404, 409}"
  "fst (http_join i (Some u) s) = Inl e \<Longrightarrow> http_status e \<in> {403, 404, 409}"
  "fst (http_end i (Some u) s) = Inl e \<Longrightarrow> http_status e \<in> {403, 404}"
  "fst (http_turnCredentials hmac cfg i (Some u) s) = Inl e \<Longrightarrow> http_status e \<in> {403, 404, 409}"
  "fst (http_sfuToken lk scfg i (Some u) s) = Inl e \<Longrightarrow> http_status e \<in> {400, 403, 404, 409}"
proof -
  show "fst (http_create body (Some u) s) = Inl e \<Longrightarrow> http_status e \<in> {400, 503}"
    using body_status(1) [of body] create_status
    by (fastforce simp: http_create_def userIdOrThrow_def split_def Let_def answer_def of_service_def map_sum_Inl split: sum.splits)
  show "http_listMine st (Some u) s = Inl e \<Longrightarrow> http_status e = 400"
    using body_status(3) [of st]
    by (cases "parseListStatus st") (auto simp: http_listMine_def userIdOrThrow_def answer_def)
  show "http_get i (Some u) s = Inl e \<Longrightarrow> http_status e \<in> {403, 404}"
    "http_eventsFor i (Some u) s = Inl e \<Longrightarrow> http_status e \<in> {403, 404}"
    using member_status [of i u s]
    by (cases "member_call i (Some u) s"; force simp: http_get_def http_eventsFor_def answer_def)+
  show "fst (http_invite i body (Some u) s) = Inl e \<Longrightarrow> http_status e \<in> {400, 403, 404, 409}"
    using body_status(2) [of body] on_call_status [of "\<lambda>k u. invite k u x" i u s e "{403, 404, 409}" for x] service_statuses(4)
    by (cases "parseInviteCallDto body") (force simp: http_invite_def)+
  show "fst (http_accept i (Some u) s) = Inl e \<Longrightarrow> http_status e \<in> {403, 404, 409}"
    "fst (http_join i (Some u) s) = Inl e \<Longrightarrow> http_status e \<in> {403, 404, 409}"
    "fst (http_end i (Some u) s) = Inl e \<Longrightarrow> http_status e \<in> {403, 404}"
    using on_call_status [of accept i u s e, OF _ service_statuses(1)] on_call_status [of join i u s e, OF _ service_statuses(2)]
      on_call_status [of end_call i u s e, OF _ service_statuses(3)]
    by (auto simp: http_accept_def http_join_def http_end_def)
  show "fst (http_turnCredentials hmac cfg i (Some u) s) = Inl e \<Longrightarrow> http_status e \<in> {403, 404, 409}"
    using media_status [of i u s]
    by (cases "media_call i (Some u) s") (force simp: http_turnCredentials_def split_def Let_def)+
  show "fst (http_sfuToken lk scfg i (Some u) s) = Inl e \<Longrightarrow> http_status e \<in> {400, 403, 404, 409}"
    using media_status [of i u s]
    by (cases "media_call i (Some u) s")
      (force simp: http_sfuToken_def split_def Let_def answer_def map_sum_Inl)+
qed

subsection \<open>All handlers\<close>

text \<open>What a handler does is covered by the tables; \<open>n\<close> is the status its route gives a success.\<close>

fun in_tables :: "handler \<Rightarrow> nat \<Rightarrow> (http_thrown + reply) \<times> res_effect list \<Rightarrow> bool" where
  "in_tables h n (Inl ex, effs) = (resolveStatus ex \<in> set (error_statuses h))"
| "in_tables h n (Inr reply, effs) = (effect_status effs n \<in> set (success_statuses h))"

lemma auth_statuses:
  "googleStart cx bytes ret = (Inr r, effs) \<Longrightarrow> effect_status effs n = 302"
  "effect_status (fst (googleCallback cx code st err cookies a)) n \<in> {200, 400, 401}"
  "anonymousLogin cx zod to36 body a = (Inr x, effs, a') \<Longrightarrow> effect_status effs n = n"
  "effect_status logout n = n"
  by (auto simp: googleStart_def googleCallback_def anonymousLogin_def logout_def Let_def setOauthCookies_def
      clearOauthCookies_def setSessionCookie_def clearSessionCookie_def send_page_def
      split: option.splits sum.splits prod.splits if_splits)

lemma auth_exceptions:
  "fst (anonymousLogin cx zod to36 body a) = Inl e \<Longrightarrow> resolveStatus (thrown_by_auth e) \<in> {400, 500}"
  "me cx user a = Inl e \<Longrightarrow> resolveStatus (thrown_by_auth e) \<in> {404, 500}"
  by (auto simp: anonymousLogin_def parseAnonymousDto_def signInAnonymous_def me_def getProfile_def Let_def resolveStatus_def
      nest_thrown_def split: option.splits sum.splits prod.splits if_splits)

lemma any_status: "resolveStatus (thrown_by_auth e) \<in> {400, 401, 403, 404, 409, 500, 503}"
proof (cases e)
  case (AuthHttp h)
  then show ?thesis by (cases h) simp_all
qed (simp add: resolveStatus_def)

lemma handle_calls_tables:
  assumes "handle_calls sd h rq k (Some u) s = (res, effs, s')" and "h \<in> set call_handlers"
  shows "in_tables h (if h = HCallCreate then 201 else 200) (res, effs)"
  using assms
  by (cases h; cases res)
    (auto simp: calls_result_def call_handlers_def map_sum_Inl dest!: http_statuses)

lemma handle_auth_tables:
  assumes run: "handle_auth sd h rq user s = (res, effs, s')" and h: "h \<in> set auth_handlers"
    and user: "h \<in> {HLogout, HMe, HWsToken} \<Longrightarrow> user \<noteq> None"
  shows "in_tables h 200 (res, effs)"
proof -
  consider "h = HProviders" | "h = HGoogleStart" | "h = HGoogleCallback" | "h = HGuestLogin" | "h = HLogout" | "h = HMe"
    | "h = HWsToken" using h by (auto simp: auth_handlers_def)
  then show ?thesis
  proof cases
    case 2
    obtain r e where g: "googleStart (sd_auth sd) (rq_bytes rq) (query_param rq ''returnTo'') = (r, e)" by fastforce
    show ?thesis using 2 run g auth_statuses(1) [of "sd_auth sd" "rq_bytes rq" "query_param rq ''returnTo''"] any_status
      by (cases r) auto
  next
    case 3
    have "effect_status effs 200 \<in> {200, 400, 401}" "res = Inr SentReply"
      using 3 run auth_statuses(2) [of "sd_auth sd" "query_param rq ''code''" "query_param rq ''state''"
          "query_param rq ''error''" "rq_cookies rq" "sv_auth s" 200] by (auto simp: split_def Let_def)
    then show ?thesis using 3 by auto
  next
    case 4
    obtain r e a where l: "anonymousLogin (sd_auth sd) (sd_zod sd) (sd_to36 sd) (rq_body rq) (sv_auth s) = (r, e, a)"
      using prod_cases3 by blast
    show ?thesis
      using 4 run l auth_statuses(3) [of "sd_auth sd" "sd_zod sd" "sd_to36 sd" "rq_body rq" "sv_auth s"]
        auth_exceptions(1) [of "sd_auth sd" "sd_zod sd" "sd_to36 sd" "rq_body rq" "sv_auth s"]
      by (cases r) auto
  next
    case 6
    then show ?thesis using run auth_exceptions(2) [of "sd_auth sd" user "sv_auth s"]
      by (cases "me (sd_auth sd) user (sv_auth s)") auto
  next
    case 7
    then show ?thesis using run user by (auto simp: wsToken_def split_def Let_def)
  qed (use run auth_statuses(4) in \<open>auto simp: split_def Let_def\<close>)
qed

lemma handle_other_tables:
  assumes "handle_other sd h rq k s = (res, effs, s')" and "h \<in> {HHello, HInfo, HHealth, HMetrics, HLivekit}"
  shows "in_tables h 200 (res, effs)"
  using assms by (auto simp: getMetrics_def)

lemma handler_groups:
  "h \<in> set call_handlers \<or> h \<in> set auth_handlers \<or> h \<in> {HHello, HInfo, HHealth, HMetrics, HLivekit, HStats, HFailed}"
  by (cases h) (simp_all add: call_handlers_def auth_handlers_def)

lemma handler_groups_disjoint:
  "h \<in> set auth_handlers \<Longrightarrow> h \<notin> set call_handlers"
  "h \<in> {HHello, HInfo, HHealth, HMetrics, HLivekit} \<Longrightarrow> h \<notin> set call_handlers \<and> h \<notin> set auth_handlers"
  by (auto simp: call_handlers_def auth_handlers_def)

lemma route_statuses:
  "r \<in> set routes \<Longrightarrow> rt_status r = (if rt_handler r = HCallCreate then 201 else if rt_handler r = HStats then 202 else 200)"
proof -
  have "list_all (\<lambda>r. rt_status r = (if rt_handler r = HCallCreate then 201 else if rt_handler r = HStats then 202 else 200))
      routes" by code_simp
  then show "r \<in> set routes \<Longrightarrow> ?thesis" by (auto simp: list_all_iff)
qed

lemma guarded_statuses:
  "r \<in> set routes \<Longrightarrow> rt_guard r = Some g \<Longrightarrow> (if g = SessionGuard then 401 else 403) \<in> set (error_statuses (rt_handler r))"
proof -
  have "list_all (\<lambda>r. case rt_guard r of None \<Rightarrow> True
      | Some g \<Rightarrow> (if g = SessionGuard then 401 else 403) \<in> set (error_statuses (rt_handler r))) routes" by code_simp
  then show "r \<in> set routes \<Longrightarrow> rt_guard r = Some g \<Longrightarrow> ?thesis" by (auto simp: list_all_iff split: option.splits)
qed

lemma guard_user:
  assumes "run_guard sd (rt_guard r) rq = Inr user" and "r \<in> set routes"
    and "rt_handler r \<in> set (call_handlers @ [HLogout, HMe, HWsToken])"
  shows "\<exists>u. user = Some u"
proof -
  have "rt_guard r = Some SessionGuard" using session_routes [OF assms(2)] assms(3) by simp
  then obtain claims where "session_auth (sd_verify sd) (rq_bearer rq) (rq_cookies rq) = Inr claims" "user = user_id_of claims"
    using assms(1) by (auto simp: run_guard_def map_sum_Inr)
  then show ?thesis using session_user_id by blast
qed

lemma run_handler_tables:
  assumes guard: "run_guard sd (rt_guard r) rq = Inr user" and r: "r \<in> set routes"
    and run: "run_handler sd (rt_handler r) rq k user s = (res, effs, s')"
  shows "in_tables (rt_handler r) (rt_status r) (res, effs)"
proof -
  have no: "rt_handler r \<noteq> HStats \<and> rt_handler r \<noteq> HFailed"
  proof (cases "rt_guard r")
    case None
    then show ?thesis using open_routes [OF r] by (auto simp: open_handlers_def)
  next
    case (Some g)
    then have "g = SessionGuard" using guard by (cases g) simp_all
    then show ?thesis using Some session_routes [OF r] by (auto simp: call_handlers_def)
  qed
  with handler_groups [of "rt_handler r"] consider "rt_handler r \<in> set call_handlers" | "rt_handler r \<in> set auth_handlers"
    | "rt_handler r \<in> {HHello, HInfo, HHealth, HMetrics, HLivekit}" by auto
  then show ?thesis
  proof cases
    case 1
    then have "rt_handler r \<in> set (call_handlers @ [HLogout, HMe, HWsToken])" by simp
    from guard_user [OF guard r this] obtain u where "user = Some u" ..
    with 1 run have "handle_calls sd (rt_handler r) rq k (Some u) s = (res, effs, s')" by (simp add: run_handler_def)
    from handle_calls_tables [OF this 1] show ?thesis using no route_statuses [OF r] by (simp split: if_splits)
  next
    case 2
    then have "rt_handler r \<noteq> HCallCreate" by (auto simp: auth_handlers_def)
    have user: "user \<noteq> None" if "rt_handler r \<in> {HLogout, HMe, HWsToken}"
    proof -
      have "rt_handler r \<in> set (call_handlers @ [HLogout, HMe, HWsToken])" using that by auto
      from guard_user [OF guard r this] show ?thesis by blast
    qed
    have "handle_auth sd (rt_handler r) rq user s = (res, effs, s')"
      using run 2 handler_groups_disjoint(1) [OF 2] by (simp add: run_handler_def)
    from handle_auth_tables [OF this 2 user] show ?thesis using no route_statuses [OF r] \<open>rt_handler r \<noteq> HCallCreate\<close> by simp
  next
    case 3
    then have "rt_handler r \<noteq> HCallCreate" by auto
    moreover have "handle_other sd (rt_handler r) rq k s = (res, effs, s')"
      using run handler_groups_disjoint(2) [OF 3] by (simp add: run_handler_def)
    ultimately show ?thesis using handle_other_tables [OF _ 3] no route_statuses [OF r] by simp
  qed
qed

lemma guard_status: "run_guard sd (Some g) rq = Inl e \<Longrightarrow> http_status e = (if g = SessionGuard then 401 else 403)"
  using session_auth_error by (cases g) (auto simp: run_guard_def map_sum_Inl split: if_splits)

text \<open>C32: a request is answered with a status of the table of its handler: 201 for a call created, 302 for
  the start of a sign-in, 200 for any other success (the page of the callback also with 400 and 401), and an
  exception only with a status the handler or the guard of its route throws; a request no handler takes is a
  404. An error body repeats the status the answer is sent with, the URL asked for and the time. These are
  the answers of the controllers and the filter to GET and POST; what the framework answers by itself (CORS
  preflight, \<open>HEAD\<close>, 304) is not among them.\<close>

theorem answers_known:
  "(let a = fst (serve sd rq s)
    in (case dispatch (rq_method rq) (rq_path rq) of
          None \<Rightarrow> ha_status a = 404 \<and> isl (ha_body a)
        | Some r \<Rightarrow>
            (case ha_body a of
               Inr reply \<Rightarrow> ha_status a \<in> set (success_statuses (rt_handler r))
             | Inl body \<Rightarrow> ha_status a \<in> set (error_statuses (rt_handler r))))
       \<and> (case ha_body a of
            Inr reply \<Rightarrow> True
          | Inl body \<Rightarrow> eb_statusCode body = ha_status a \<and> eb_path body = rq_url rq \<and> eb_timestamp body = rq_now rq))"
proof (cases "dispatch (rq_method rq) (rq_path rq)")
  case None
  then show ?thesis by (simp add: serve_def Let_def)
next
  case (Some r)
  note r = dispatch_Some [OF Some]
  show ?thesis
  proof (cases "run_guard sd (rt_guard r) rq")
    case (Inl e)
    then obtain g where g: "rt_guard r = Some g" by (cases "rt_guard r") auto
    show ?thesis
      using Some Inl r guarded_statuses [of r g] guard_status [of sd g rq e] g by (simp add: serve_def Let_def)
  next
    case (Inr user)
    obtain res effs s' where run: "run_handler sd (rt_handler r) rq (route_param r (rq_path rq)) user s = (res, effs, s')"
      using prod_cases3 by blast
    from run_handler_tables [OF Inr _ run] r have "in_tables (rt_handler r) (rt_status r) (res, effs)" by simp
    then show ?thesis using Some Inr run by (cases res) (simp_all add: serve_def Let_def)
  qed
qed

end
