(* ===== verification/Timers.thy ===== *)
theory Timers
  imports RateLimit WsToken Gateway
begin

text \<open>
  The two interval timers: that of \<open>WsTokenService\<close> (\<open>src/src/auth/ws/ws-token.service.ts\<close>) and that of
  \<open>RateLimitService\<close> (\<open>src/src/security/rate-limit.service.ts\<close>). A timeline says what happens when: the timer
  fires, or somebody uses the service. What both services rely on is one contract, the locale below: whatever is
  still stored was put there recently.
\<close>

section \<open>Timelines\<close>

datatype 'op timed = Tick int | Act int 'op

fun run_timeline :: "(int \<Rightarrow> 'op \<Rightarrow> 's \<Rightarrow> 's) \<Rightarrow> (int \<Rightarrow> 's \<Rightarrow> 's) \<Rightarrow> 'op timed list \<Rightarrow> 's \<Rightarrow> 's" where
  "run_timeline act swp [] s = s"
| "run_timeline act swp (Tick t # evs) s = run_timeline act swp evs (swp t s)"
| "run_timeline act swp (Act t op # evs) s = run_timeline act swp evs (act t op s)"

fun acts :: "'op timed list \<Rightarrow> (int \<times> 'op) list" where
  "acts [] = []"
| "acts (Tick t # evs) = acts evs"
| "acts (Act t op # evs) = (t, op) # acts evs"

text \<open>
  Times do not decrease, and the timer fires at least every \<open>P\<close> milliseconds; it was started, or fired last, at
  \<open>fired\<close>, something happened last at \<open>prev\<close>, and it is \<open>now\<close> in the end. A timer of Node.js fires late rather than early,
  so \<open>P\<close> is its interval and the lag.
\<close>

fun timely :: "int \<Rightarrow> int \<Rightarrow> int \<Rightarrow> 'op timed list \<Rightarrow> int \<Rightarrow> bool" where
  "timely P fired prev [] now \<longleftrightarrow> prev \<le> now \<and> now - fired \<le> P"
| "timely P fired prev (Tick t # evs) now \<longleftrightarrow> prev \<le> t \<and> t - fired \<le> P \<and> timely P t t evs now"
| "timely P fired prev (Act t op # evs) now \<longleftrightarrow> prev \<le> t \<and> timely P fired t evs now"

section \<open>The contract of a swept store\<close>

text \<open>
  \<open>stamp s k\<close> is the time stored for \<open>k\<close>, \<open>puts t op\<close> what an operation at \<open>t\<close> stores, and \<open>dead t x\<close> says that a sweep at \<open>t\<close>
  removes what has the time \<open>x\<close>.
\<close>

locale swept_store =
  fixes good :: "'s \<Rightarrow> bool"
    and stamp :: "'s \<Rightarrow> 'k \<Rightarrow> int option"
    and act :: "int \<Rightarrow> 'op \<Rightarrow> 's \<Rightarrow> 's"
    and swp :: "int \<Rightarrow> 's \<Rightarrow> 's"
    and puts :: "int \<Rightarrow> 'op \<Rightarrow> ('k \<times> int) option"
    and dead :: "int \<Rightarrow> int \<Rightarrow> bool"
  assumes good_act: "good s \<Longrightarrow> good (act t op s)"
    and good_sweep: "good s \<Longrightarrow> good (swp t s)"
    and stamp_act: "good s \<Longrightarrow> stamp (act t op s) k = Some x \<Longrightarrow> stamp s k = Some x \<or> puts t op = Some (k, x)"
    and stamp_sweep: "good s \<Longrightarrow> stamp (swp t s) k = Some x \<Longrightarrow> stamp s k = Some x \<and> \<not> dead t x"
    and dead_later: "dead t x \<Longrightarrow> t \<le> t' \<Longrightarrow> dead t' x"
begin

text \<open>An operation that put \<open>k\<close> there with the time \<open>x\<close>, not before \<open>t\<close> or with a time that is not dead at \<open>t\<close>.\<close>

definition put_by :: "int \<Rightarrow> 'k \<Rightarrow> int \<Rightarrow> int \<times> 'op \<Rightarrow> bool" where
  "put_by t k x h \<longleftrightarrow> puts (fst h) (snd h) = Some (k, x) \<and> (t \<le> fst h \<or> \<not> dead t x)"

lemma run_survivors:
  assumes "good s" and "timely P fired prev evs now" and "fired \<le> prev"
    and "\<And>k x. stamp s k = Some x \<Longrightarrow> list_ex (put_by fired k x) hs"
    and "stamp (run_timeline act swp evs s) k = Some x"
  shows "list_ex (put_by (now - P) k x) (hs @ acts evs)"
  using assms
proof (induction evs arbitrary: s fired prev hs)
  case Nil
  then have "list_ex (put_by fired k x) hs" by simp
  moreover have "now - P \<le> fired" using Nil.prems(2) by simp
  ultimately show ?case using dead_later by (auto simp: list_ex_iff put_by_def)
next
  case (Cons ev evs)
  show ?case
  proof (cases ev)
    case (Tick t)
    have "list_ex (put_by t k' x') hs" if "stamp (swp t s) k' = Some x'" for k' x'
      using stamp_sweep [OF Cons.prems(1) that] Cons.prems(4) [of k' x'] by (auto simp: list_ex_iff put_by_def)
    then show ?thesis
      using Cons.IH [where s = "swp t s" and fired = t and prev = t and hs = hs] Cons.prems good_sweep Tick by simp
  next
    case (Act t op)
    have "list_ex (put_by fired k' x') (hs @ [(t, op)])" if "stamp (act t op s) k' = Some x'" for k' x'
      using stamp_act [OF Cons.prems(1) that] Cons.prems(2,3) Cons.prems(4) [of k' x'] Act by (auto simp: list_ex_iff put_by_def)
    then show ?thesis
      using Cons.IH [where s = "act t op s" and fired = fired and prev = t and hs = "hs @ [(t, op)]"] Cons.prems good_act Act by simp
  qed
qed

lemma survivors:
  assumes "good s" and "\<And>k. stamp s k = None" and "timely P t0 t0 evs now"
    and "stamp (run_timeline act swp evs s) k = Some x"
  shows "list_ex (put_by (now - P) k x) (acts evs)"
  using run_survivors [OF assms(1,3) order_refl, where hs = "[]"] assms(2,4) by simp

lemma run_good: "good s \<Longrightarrow> good (run_timeline act swp evs s)"
proof (induction evs arbitrary: s)
  case (Cons ev evs)
  then show ?case by (cases ev) (simp_all add: good_act good_sweep)
qed simp

text \<open>So there is no more stored than was put recently.\<close>

lemma survivor_count:
  assumes "good s" and "\<And>k. stamp s k = None" and "timely P t0 t0 evs now"
    and recent: "\<And>k x h. h \<in> set (acts evs) \<Longrightarrow> put_by (now - P) k x h \<Longrightarrow> rec h"
  shows "finite {k. stamp (run_timeline act swp evs s) k \<noteq> None}"
    and "card {k. stamp (run_timeline act swp evs s) k \<noteq> None} \<le> length (filter rec (acts evs))"
proof -
  let ?key = "\<lambda>h. fst (the (puts (fst h) (snd h)))" and ?R = "filter rec (acts evs)"
  have sub: "{k. stamp (run_timeline act swp evs s) k \<noteq> None} \<subseteq> ?key ` set ?R"
  proof
    fix k assume "k \<in> {k. stamp (run_timeline act swp evs s) k \<noteq> None}"
    then obtain x where "stamp (run_timeline act swp evs s) k = Some x" by auto
    from survivors [OF assms(1-3) this] obtain h where h: "h \<in> set (acts evs)" "put_by (now - P) k x h"
      by (auto simp: list_ex_iff)
    then have "?key h = k" by (simp add: put_by_def)
    then show "k \<in> ?key ` set ?R" using h recent [OF h] by auto
  qed
  then show "finite {k. stamp (run_timeline act swp evs s) k \<noteq> None}" by (rule finite_subset) simp
  have "card {k. stamp (run_timeline act swp evs s) k \<noteq> None} \<le> card (?key ` set ?R)"
    by (rule card_mono [OF _ sub]) simp
  also have "\<dots> \<le> length ?R" by (metis card_length image_set length_map)
  finally show "card {k. stamp (run_timeline act swp evs s) k \<noteq> None} \<le> length ?R" .
qed

end

text \<open>Where nothing is put that a sweep would remove at once, what is stored would have survived a sweep \<open>P\<close> ago.\<close>

locale fresh_store = swept_store +
  assumes puts_alive: "puts t op = Some (k, x) \<Longrightarrow> \<not> dead t x"
begin

lemma survivors_alive:
  assumes "good s" and "\<And>k. stamp s k = None" and "timely P t0 t0 evs now"
    and "stamp (run_timeline act swp evs s) k = Some x"
  shows "\<not> dead (now - P) x"
proof -
  from survivors [OF assms] obtain h where "puts (fst h) (snd h) = Some (k, x)" "now - P \<le> fst h \<or> \<not> dead (now - P) x"
    by (auto simp: list_ex_iff put_by_def)
  then show ?thesis using puts_alive dead_later by blast
qed

end

section \<open>WebSocket tokens\<close>

definition SWEEP_INTERVAL_MS :: int where
  "SWEEP_INTERVAL_MS = 30000"

text \<open>The service as it is constructed and destroyed: the map, and the interval of the timer while it runs.\<close>

record ws_service =
  wss_used :: ws_used
  wss_sweepTimer :: "int option"

definition ws_construct :: ws_service where
  "ws_construct = \<lparr>wss_used = jempty, wss_sweepTimer = Some SWEEP_INTERVAL_MS\<rparr>"

definition ws_onModuleDestroy :: "ws_service \<Rightarrow> ws_service" where
  "ws_onModuleDestroy sv = sv\<lparr>wss_sweepTimer := None\<rparr>"

text \<open>The uses of the service, with what they read besides the clock.\<close>

datatype token_use = UseIssue "8 word list" string "int option" | UseConsume string "string + jsval"

fun ws_act :: "(ws_token_claims \<Rightarrow> int \<Rightarrow> string) \<Rightarrow> int \<Rightarrow> token_use \<Rightarrow> ws_used \<Rightarrow> ws_used" where
  "ws_act sign now_ms (UseIssue bytes userId ttl) used = snd (ws_issue sign bytes now_ms userId ttl used)"
| "ws_act sign now_ms (UseConsume token result) used = snd (ws_consume (\<lambda>_. result) token used)"

fun ws_puts :: "int \<Rightarrow> token_use \<Rightarrow> (string \<times> int) option" where
  "ws_puts now_ms (UseIssue bytes userId ttl) = Some (base64url bytes, now_ms div 1000 + or_default ttl DEFAULT_TTL_SECONDS)"
| "ws_puts now_ms (UseConsume token result) = None"

definition ws_dead :: "int \<Rightarrow> int \<Rightarrow> bool" where
  "ws_dead now_ms expiry \<longleftrightarrow> expiry \<le> now_ms div 1000"

lemma consume_keeps: "jget (snd (ws_consume verify token used)) j = Some x \<Longrightarrow> jget used j = Some x"
  by (auto simp: ws_consume_def used_get_def used_delete_get split: sum.splits option.splits jsval.splits if_splits)

interpretation ws_store: swept_store jwf jget "ws_act sign" ws_sweep ws_puts ws_dead for sign
proof (unfold_locales, goal_cases)
  case (1 s t op)
  then show ?case by (cases op) (auto simp: ws_issue_def Let_def jwf_intros consume_wf)
next
  case (3 s t op k x)
  then show ?case by (cases op) (auto simp: ws_issue_def Let_def dest: consume_keeps split: if_splits)
next
  case (4 s t k x)
  then show ?case by (auto simp: sweep_get ws_dead_def split: option.splits if_splits)
next
  case (5 t x t')
  then show ?case using zdiv_mono1 [of t t' 1000] by (simp add: ws_dead_def)
qed (rule sweep_wf)

text \<open>An issue at most so long ago. Only the time to live of the default is used by the source.\<close>

fun issued_after :: "int \<Rightarrow> int \<times> token_use \<Rightarrow> bool" where
  "issued_after t (a, UseIssue bytes userId ttl) = (t < a)"
| "issued_after t (a, UseConsume token result) = False"

fun default_ttl :: "int \<times> token_use \<Rightarrow> bool" where
  "default_ttl (a, UseIssue bytes userId ttl) = (ttl = None)"
| "default_ttl (a, UseConsume token result) = True"

lemma ws_put_recent:
  assumes "ws_store.put_by t k x h" and "default_ttl h"
  shows "issued_after (t - (DEFAULT_TTL_SECONDS + 1) * 1000) h"
proof -
  obtain a u where h: "h = (a, u)" by fastforce
  show ?thesis
  proof (cases u)
    case (UseIssue bytes userId ttl)
    then have "t \<le> a \<or> t div 1000 < a div 1000 + 60"
      using assms by (auto simp: h ws_store.put_by_def ws_dead_def DEFAULT_TTL_SECONDS_def or_default_def)
    then show ?thesis unfolding h UseIssue by (auto simp: DEFAULT_TTL_SECONDS_def)
  qed (use assms h in \<open>auto simp: ws_store.put_by_def\<close>)
qed

text \<open>C22: the memory of the token service is bounded by its use: while its timer runs, the map holds no more tokens than
  were issued in the last 61 seconds, the interval of the timer and its lag, whatever was issued and consumed
  before, and when nothing was issued for so long it is empty.\<close>

theorem ws_tokens_bounded:
  assumes timer: "wss_sweepTimer ws_construct = Some interval" and timely: "timely (interval + lag) t0 t0 evs now"
    and ttl: "list_all default_ttl (acts evs)"
  shows "length (run_timeline (ws_act sign) ws_sweep evs (wss_used ws_construct))
    \<le> length (filter (issued_after (now - (interval + lag) - 61000)) (acts evs))"
proof -
  let ?used = "run_timeline (ws_act sign) ws_sweep evs (wss_used ws_construct)"
  have start: "jwf (wss_used ws_construct)" "\<And>k. jget (wss_used ws_construct) k = None"
    by (simp_all add: ws_construct_def jwf_def jempty_def)
  have rec: "issued_after (now - (interval + lag) - 61000) h"
    if "h \<in> set (acts evs)" "ws_store.put_by (now - (interval + lag)) k x h" for k x h
    using ws_put_recent [OF that(2)] that(1) ttl by (simp add: list_all_iff DEFAULT_TTL_SECONDS_def)
  have wf: "jwf ?used" by (rule ws_store.run_good) (rule start(1))
  have "length ?used = card (fst ` set ?used)"
    using wf by (metis distinct_card image_set jwf_def length_map)
  also have "fst ` set ?used = {k. jget ?used k \<noteq> None}" by (simp add: jget_def map_of_eq_None_iff)
  also have "card \<dots> \<le> length (filter (issued_after (now - (interval + lag) - 61000)) (acts evs))"
    by (rule ws_store.survivor_count(2) [OF start timely rec])
  finally show ?thesis .
qed

lemma ws_tokens_bounded_witness:
  "length (run_timeline (ws_act (\<lambda>c ttl. wt_jti c)) ws_sweep
       [Act 1000 (UseIssue [7] ''u1'' None), Tick 30000, Tick 60000, Tick 90000, Tick 120000] (wss_used ws_construct)) \<le> 0"
  using ws_tokens_bounded [where interval = 30000 and lag = 100 and ?t0.0 = 0 and now = 125000
      and evs = "[Act 1000 (UseIssue [7] ''u1'' None), Tick 30000, Tick 60000, Tick 90000, Tick 120000]"
      and sign = "\<lambda>c ttl. wt_jti c"]
  by (simp add: ws_construct_def SWEEP_INTERVAL_MS_def)

section \<open>Buckets of the rate limit service\<close>

record rl_service =
  rls_config :: rl_config
  rls_backend :: rl_backend
  rls_sweepInterval :: "int option"

definition rl_construct :: "rl_config option \<Rightarrow> rl_backend option \<Rightarrow> int option \<Rightarrow> rl_service" where
  "rl_construct config backend sweepIntervalMs =
     \<lparr>rls_config = or_default config DEFAULT_RATE_LIMIT_CONFIG,
      rls_backend = or_default backend createDefaultBackend,
      rls_sweepInterval = Some (or_default sweepIntervalMs 60000)\<rparr>"

definition rl_onModuleDestroy :: "rl_service \<Rightarrow> rl_service" where
  "rl_onModuleDestroy sv = sv\<lparr>rls_sweepInterval := None\<rparr>"

datatype rl_use = UseAcquire string string jsnum int | UseReset "string option" "string option"

fun rl_act :: "rl_config \<Rightarrow> int \<Rightarrow> rl_use \<Rightarrow> rl_backend \<Rightarrow> rl_backend" where
  "rl_act cfg now (UseAcquire scope key cost t0) bs = snd (acquireDetailed cfg scope key cost t0 now bs)"
| "rl_act cfg now (UseReset scope key) bs = rl_reset scope key bs"

definition rl_stamp :: "rl_backend \<Rightarrow> string \<times> string \<Rightarrow> int option" where
  "rl_stamp bs k = map_option bk_updatedAt (rl_bucket bs k)"

fun rl_puts :: "int \<Rightarrow> rl_use \<Rightarrow> ((string \<times> string) \<times> int) option" where
  "rl_puts now (UseAcquire scope key cost t0) = Some ((scope, key), now)"
| "rl_puts now (UseReset scope key) = None"

definition rl_dead :: "int \<Rightarrow> int \<Rightarrow> bool" where
  "rl_dead now t \<longleftrightarrow> now - t > SWEEP_TTL_MS"

definition rl_wf :: "rl_backend \<Rightarrow> bool" where
  "rl_wf bs \<longleftrightarrow> jwf bs \<and> list_all (\<lambda>(scope, scoped). jwf scoped) bs"

lemma rl_wf_iff: "rl_wf bs \<longleftrightarrow> jwf bs \<and> (\<forall>scope scoped. jget bs scope = Some scoped \<longrightarrow> jwf scoped)"
proof (cases "jwf bs")
  case True
  then show ?thesis by (auto simp: rl_wf_def list_all_iff simp flip: jget_in_set)
qed (simp add: rl_wf_def)

lemma rl_wf_jset: "rl_wf bs \<Longrightarrow> jwf scoped \<Longrightarrow> rl_wf (jset scope scoped bs)"
  by (auto simp: rl_wf_iff jwf_intros split: if_splits)

lemma rl_wf_scope: "rl_wf bs \<Longrightarrow> jwf (or_default (jget bs scope) jempty)"
  by (cases "jget bs scope") (auto simp: rl_wf_iff jempty_def)

lemma rl_wf_acquire: "rl_wf bs \<Longrightarrow> rl_wf (snd (acquireDetailed cfg scope key cost t0 now bs))"
proof -
  assume wf: "rl_wf bs"
  have "rl_wf (snd (getOrCreateBucket scope key cap t0 bs))" for cap
    using wf rl_wf_scope [OF wf, of scope]
    by (auto simp: getOrCreateBucket_def Let_def intro!: rl_wf_jset jwf_intros split: option.split)
  then have "rl_wf (snd (acquire_valid cfg scope key c t0 now bs))" for c
    unfolding acquire_valid_def Let_def split_def put_bucket_def
    by (auto intro!: rl_wf_jset jwf_intros rl_wf_scope)
  then show ?thesis using wf by (auto simp: acquireDetailed_def split_def Let_def split: jsnum.split)
qed

lemma rl_wf_reset: "rl_wf bs \<Longrightarrow> rl_wf (rl_reset scope key bs)"
  by (auto simp: rl_wf_iff rl_reset_def jempty_def split: option.split if_splits intro!: jwf_intros)

lemma rl_wf_sweep: "rl_wf bs \<Longrightarrow> rl_wf (sweep now bs)"
proof -
  assume wf: "rl_wf bs"
  then have "jwf (sweep now bs)" by (simp add: rl_wf_iff jwf_def sweep_def comp_def split_def)
  then show "rl_wf (sweep now bs)" using wf by (auto simp: rl_wf_iff jget_sweep jwf_filter)
qed

lemma rl_stamp_acquire:
  "rl_stamp (snd (acquireDetailed cfg scope key cost t0 now bs)) k =
     (if k = (scope, key) \<and> is_ok (fst (acquireDetailed cfg scope key cost t0 now bs)) then Some now else rl_stamp bs k)"
proof (cases "\<exists>c. scope \<in> set VALID_SCOPES \<and> key \<noteq> [] \<and> cost = NFin c \<and> 0 < c")
  case True
  then obtain c where c: "scope \<in> set VALID_SCOPES" "key \<noteq> []" "0 < c" "cost = NFin c" by blast
  note h = rl.hit_bucket [of cfg "(scope, key)" "(c, t0, now)" bs k, simplified]
  show ?thesis
    by (simp add: c(4) acquireDetailed_valid [OF c(1-3)] rl_stamp_def h bucket_step_def take_tokens_time)
next
  case False
  then have "acquireDetailed cfg scope key cost t0 now bs = (fst (acquireDetailed cfg scope key cost t0 now bs), bs)
      \<and> \<not> is_ok (fst (acquireDetailed cfg scope key cost t0 now bs))"
    by (cases cost) (auto simp: acquireDetailed_def)
  then show ?thesis by (metis snd_conv)
qed

lemma rl_stamp_reset: "rl_wf bs \<Longrightarrow> rl_stamp (rl_reset scope key bs) k = Some x \<Longrightarrow> rl_stamp bs k = Some x"
  by (cases k)
    (auto simp: rl_wf_iff rl_stamp_def rl_bucket_def rl_reset_def jempty_def split: option.splits if_splits)

lemma rl_stamp_sweep:
  "rl_wf bs \<Longrightarrow> rl_stamp (sweep now bs) k = Some x \<Longrightarrow> rl_stamp bs k = Some x \<and> \<not> rl_dead now x"
  by (cases k)
    (auto simp: rl_wf_iff rl_stamp_def rl_bucket_def rl_dead_def jget_sweep jget_filter split: option.splits if_splits)

interpretation rl_store: swept_store rl_wf rl_stamp "rl_act cfg" sweep rl_puts rl_dead for cfg
proof (unfold_locales, goal_cases)
  case (1 s t op)
  then show ?case by (cases op) (simp_all add: rl_wf_acquire rl_wf_reset)
next
  case (3 s t op k x)
  then show ?case by (cases op) (auto simp: rl_stamp_acquire dest: rl_stamp_reset split: if_splits)
next
  case (4 s t k x)
  then show ?case by (rule rl_stamp_sweep)
next
  case (5 t x t')
  then show ?case by (simp add: rl_dead_def)
qed (rule rl_wf_sweep)

interpretation rl_fresh: fresh_store rl_wf rl_stamp "rl_act cfg" sweep rl_puts rl_dead for cfg
proof (unfold_locales, goal_cases)
  case (1 t op k x)
  then show ?case by (cases op) (auto simp: rl_dead_def SWEEP_TTL_MS_def)
qed

fun acquired_after :: "int \<Rightarrow> int \<times> rl_use \<Rightarrow> bool" where
  "acquired_after t (a, UseAcquire scope key cost t0) = (t \<le> a)"
| "acquired_after t (a, UseReset scope key) = False"

lemma rl_start: "rl_wf createDefaultBackend" "\<And>k. rl_stamp createDefaultBackend k = None"
  by (auto simp: createDefaultBackend_def VALID_SCOPES_def rl_wf_iff rl_stamp_def rl_bucket_def
      jempty_def intro!: jwf_intros split: if_splits)

text \<open>No bucket is kept that was last used longer ago than five minutes, the interval of the timer and its lag.\<close>

lemma rl_buckets_recent:
  assumes "timely P t0 t0 evs now"
    and "rl_bucket (run_timeline (rl_act cfg) sweep evs createDefaultBackend) k = Some b"
  shows "now - P - SWEEP_TTL_MS \<le> bk_updatedAt b"
  using rl_fresh.survivors_alive [OF rl_start assms(1), of cfg k "bk_updatedAt b"] assms(2)
  by (simp add: rl_stamp_def rl_dead_def)

text \<open>The memory of the rate limit service is bounded by its use: while its timer runs, there are no more buckets than
  there were requests in the last five minutes, the interval of the timer and its lag; a key that is not used
  for so long is forgotten.\<close>

theorem rate_limit_memory_bounded:
  assumes timer: "rls_sweepInterval (rl_construct config None sweepIntervalMs) = Some interval"
    and timely: "timely (interval + lag) t0 t0 evs now"
  shows "card {k. rl_bucket (run_timeline (rl_act cfg) sweep evs (rls_backend (rl_construct config None sweepIntervalMs))) k \<noteq> None}
    \<le> length (filter (acquired_after (now - (interval + lag) - SWEEP_TTL_MS)) (acts evs))"
proof -
  let ?s0 = "rls_backend (rl_construct config None sweepIntervalMs)"
  let ?bs = "run_timeline (rl_act cfg) sweep evs ?s0"
  have start: "rl_wf ?s0" "\<And>k. rl_stamp ?s0 k = None" using rl_start by (simp_all add: rl_construct_def)
  have rec: "acquired_after (now - (interval + lag) - SWEEP_TTL_MS) h"
    if "h \<in> set (acts evs)" "rl_store.put_by (now - (interval + lag)) k x h" for k x h
  proof -
    obtain a u where h: "h = (a, u)" by fastforce
    show ?thesis
      using that(2) by (cases u) (auto simp: h rl_store.put_by_def rl_dead_def SWEEP_TTL_MS_def)
  qed
  have "{k. rl_bucket ?bs k \<noteq> None} = {k. rl_stamp ?bs k \<noteq> None}" by (simp add: rl_stamp_def)
  then show ?thesis using rl_store.survivor_count(2) [OF start timely rec, where cfg = cfg] by simp
qed

lemma rate_limit_memory_bounded_witness:
  "card {k. rl_bucket (run_timeline (rl_act DEFAULT_RATE_LIMIT_CONFIG) sweep
      [Act 5 (UseAcquire ''ip'' ''k'' (NFin 1) 5), Tick 60000, Tick 120000, Tick 180000, Tick 240000, Tick 300000, Tick 360000]
      (rls_backend (rl_construct None None None))) k \<noteq> None} \<le> 0"
  using rate_limit_memory_bounded [where config = None and sweepIntervalMs = None and interval = 60000 and lag = 50
      and ?t0.0 = 0 and now = 361000 and cfg = DEFAULT_RATE_LIMIT_CONFIG
      and evs = "[Act 5 (UseAcquire ''ip'' ''k'' (NFin 1) 5), Tick 60000, Tick 120000, Tick 180000, Tick 240000, Tick 300000, Tick 360000]"]
  by (simp add: rl_construct_def SWEEP_TTL_MS_def)

section \<open>Sweeps cannot be observed\<close>


















section \<open>Buckets nobody sweeps\<close>

text \<open>
  The limiter of the gateway (\<open>src/src/signaling/rate-limit.guard.ts\<close>) has no timer, and the hook for disconnects
  does not remove the bucket of the socket: a visit of a socket that sends something leaves its bucket behind.
\<close>

definition socket_visit :: "zod \<Rightarrow> call_bus \<Rightarrow> client \<times> (gw_msg \<times> jsval \<times> int) list \<Rightarrow> gw_state \<Rightarrow> gw_state" where
  "socket_visit zod bus v s =
     handleDisconnect (fst v) (fold (\<lambda>(msg, payload, now) s. snd (gw_handle zod bus msg payload (fst v) now s)) (snd v) s)"

lemma receive_buckets: "gw_buckets (snd (receive parse v c now s)) = snd (tryConsume gateway_limits (cl_id c) now (gw_buckets s))"
  by (simp add: receive_def enforceRateLimit_def split_def Let_def split: sum.split)

lemma invites_buckets [simp]: "gw_buckets (snd (emitCallInvite bus k from tos ty s)) = gw_buckets s"
  by (induction bus k "from" tos ty s rule: emitCallInvite.induct) (auto simp: split_def Let_def)

lemma invites_sent: "emitCallInvite bus k from tos ty s = (r, s') \<Longrightarrow> gw_buckets s' = gw_buckets s"
  using invites_buckets [of bus k "from" tos ty s] by simp

lemma foldl_emit_buckets [simp]: "gw_buckets (foldl (\<lambda>s x. emit (f x) s) s xs) = gw_buckets s"
  by (induction xs arbitrary: s) simp_all

lemma disconnect_buckets [simp]: "gw_buckets (handleDisconnect c s) = gw_buckets s"
  by (simp add: handleDisconnect_def Let_def split_def)

lemma handle_buckets:
  "gw_buckets (snd (gw_handle zod bus msg v c now s)) = snd (tryConsume gateway_limits (cl_id c) now (gw_buckets s))"
proof -
  have b: "gw_buckets s1 = snd (tryConsume gateway_limits (cl_id c) now (gw_buckets s))"
    if "receive parse v c now s = (r, s1)" for parse :: "jsval \<Rightarrow> string + 'v" and r s1
    using receive_buckets [of parse v c now s] that by simp
  show ?thesis
    by (cases msg) (auto simp: handlePeerLeave_def handlePeerReconnect_def handleCallInvite_def handleCallSignal_def
        handleCallEvent_def handleSfuJoinRoom_def handleSfuPublishTrack_def handleSfuSubscribeTrack_def handleSfu_def
        handleSfuEvent_def Let_def dest!: b dest: invites_sent split: prod.split sum.split option.split)
qed

lemma tryConsume_keys: "set (jkeys (snd (tryConsume opts sid now bs))) = insert sid (set (jkeys bs))"
  using jget_None_iff [of bs sid]
  by (auto simp: tryConsume_def Let_def jkeys_jset split: option.split)

lemma messages_keys:
  "set (jkeys (gw_buckets (fold (\<lambda>(msg, payload, now) s. snd (gw_handle zod bus msg payload c now s)) ms s)))
   = set (jkeys (gw_buckets s)) \<union> (if ms = [] then {} else {cl_id c})"
  by (induction ms arbitrary: s) (auto simp: handle_buckets tryConsume_keys)

theorem buckets_outlive_sockets:
  "set (jkeys (gw_buckets (fold (socket_visit zod bus) vs s)))
   = set (jkeys (gw_buckets s)) \<union> set (map (\<lambda>v. cl_id (fst v)) (filter (\<lambda>v. snd v \<noteq> []) vs))"
  by (induction vs arbitrary: s) (auto simp: socket_visit_def messages_keys)

end
