(* ===== verification/Redaction.thy ===== *)
theory Redaction
  imports JsValue
begin

text \<open>
  The two redactors, \<open>redactPayload\<close> of \<open>src/src/security/redaction.util.ts\<close> and \<open>redact\<close> of
  \<open>src/src/auth/auth-audit.logger.ts\<close>, and the audit logger of
  \<open>src/src/security/audit-logger.service.ts\<close>. Both walk a graph of objects: objects and arrays
  live in a heap and are referred to by address, so that cycles and sharing are there. The
  result is a tree. The one character of the ellipsis is written \<open>CHR 0x85\<close>.
\<close>

section \<open>Values\<close>

datatype pval =
    PUndef | PNull | PBool bool | PNum jsnum | PBig int | PStr string | PFun | PSym | PRef nat

datatype pobj = PArray "pval list" | PObject "(string \<times> pval) list"

type_synonym heap = "pobj list"

datatype rtree =
    RUndef | RNull | RBool bool | RNum jsnum | RBig int | RStr string | RFun | RSym
  | RArray "rtree list" | RObject "(string \<times> rtree) list"

section \<open>\<open>redactPayload\<close>\<close>

definition REDACTED_KEYS :: "string list" where
  "REDACTED_KEYS = [''sdp'', ''iceCandidates'', ''candidate'', ''password'', ''token'', ''authorization'',
     ''auth'', ''jwt'', ''bearer'', ''secret'', ''apiKey'', ''api_key'', ''ice'', ''fingerprint'']"

definition DEFAULT_MAX_STRING_LENGTH :: int where
  "DEFAULT_MAX_STRING_LENGTH = 256"

definition truncate_str :: "string \<Rightarrow> int \<Rightarrow> string" where
  "truncate_str value maxLength =
     (if int (length value) \<le> maxLength then value
      else let suffix = [CHR 0x85]; headroom = max 0 (maxLength - int (length suffix))
           in take (nat headroom) value @ suffix)"

definition isRedactedKey :: "string \<Rightarrow> bool" where
  "isRedactedKey key \<longleftrightarrow> key \<in> set REDACTED_KEYS"

text \<open>
  \<open>seen\<close> holds the objects on the path from the root: each is added before its children are
  visited and removed after. A dangling address does not occur in a JavaScript heap.
\<close>

function walk :: "heap \<Rightarrow> string list \<Rightarrow> int \<Rightarrow> string \<Rightarrow> nat list \<Rightarrow> pval \<Rightarrow> rtree" where
  "walk h ks ml ph seen PUndef = RUndef"
| "walk h ks ml ph seen PNull = RNull"
| "walk h ks ml ph seen (PStr s) = RStr (truncate_str s ml)"
| "walk h ks ml ph seen (PNum n) = RNum n"
| "walk h ks ml ph seen (PBool b) = RBool b"
| "walk h ks ml ph seen (PBig i) = RBig i"
| "walk h ks ml ph seen PFun = RUndef"
| "walk h ks ml ph seen PSym = RUndef"
| "walk h ks ml ph seen (PRef a) =
     (if a \<ge> length h then RUndef
      else if a \<in> set seen then RStr ''[CIRCULAR]''
      else case h ! a of
             PArray vs \<Rightarrow> RArray (map (\<lambda>v. walk h ks ml ph (a # seen) v) vs)
           | PObject fs \<Rightarrow>
               RObject (map (\<lambda>f. (fst f, if fst f \<in> set ks then RStr ph
                                        else walk h ks ml ph (a # seen) (snd f))) fs))"
  by pat_completeness auto

lemma unseen_less:
  "\<not> length h \<le> a \<Longrightarrow> a \<notin> set seen \<Longrightarrow>
   card ({..<length h} - set seen) - Suc 0 < card ({..<length h} - set seen)"
  by (rule diff_less) (auto simp: card_gt_0_iff not_le subset_iff)

termination walk
  by (relation "measure (\<lambda>(h, ks, ml, ph, seen, v). card ({..<length h} - set seen))")
    (auto intro!: unseen_less)

record redaction_options =
  ro_maxStringLength :: "int option"
  ro_extraRedactedKeys :: "string list option"
  ro_redactionPlaceholder :: "string option"

definition redactPayload :: "heap \<Rightarrow> pval \<Rightarrow> redaction_options \<Rightarrow> rtree" where
  "redactPayload h payload options =
     (let maxLength = or_default (ro_maxStringLength options) DEFAULT_MAX_STRING_LENGTH;
          placeholder = or_default (ro_redactionPlaceholder options) ''[REDACTED]'';
          keys = (case ro_extraRedactedKeys options of
                    None \<Rightarrow> REDACTED_KEYS | Some extra \<Rightarrow> REDACTED_KEYS @ extra)
      in walk h keys maxLength placeholder [] payload)"

section \<open>\<open>redact\<close> of the auth audit log\<close>

definition AUTH_REDACTED_KEYS :: "string list" where
  "AUTH_REDACTED_KEYS = [''email'', ''sub'', ''providerSub'', ''name'', ''picture'', ''idToken'', ''token'',
     ''authorization'']"

text \<open>
  Here nothing is removed from \<open>seen\<close>, so it is threaded through the visit. Each level adds an
  object, so the number of objects and one more bounds the depth of the visit.
\<close>

fun redact_fields ::
    "(nat list \<Rightarrow> pval \<Rightarrow> rtree \<times> nat list) \<Rightarrow> nat list \<Rightarrow> (string \<times> pval) list \<Rightarrow> (string \<times> rtree) list \<times> nat list" where
  "redact_fields f seen [] = ([], seen)"
| "redact_fields f seen ((k, v) # fs) =
     (let (r, seen1) = (if k \<in> set AUTH_REDACTED_KEYS then (RStr ''[REDACTED]'', seen) else f seen v);
          (rs, seen2) = redact_fields f seen1 fs
      in ((k, r) # rs, seen2))"

fun redact_items ::
    "(nat list \<Rightarrow> pval \<Rightarrow> rtree \<times> nat list) \<Rightarrow> nat list \<Rightarrow> pval list \<Rightarrow> rtree list \<times> nat list" where
  "redact_items f seen [] = ([], seen)"
| "redact_items f seen (v # vs) =
     (let (r, seen1) = f seen v; (rs, seen2) = redact_items f seen1 vs in (r # rs, seen2))"

fun redact :: "nat \<Rightarrow> heap \<Rightarrow> nat list \<Rightarrow> pval \<Rightarrow> rtree \<times> nat list" where
  "redact n h seen PUndef = (RUndef, seen)"
| "redact n h seen PNull = (RNull, seen)"
| "redact n h seen (PStr s) = (RStr s, seen)"
| "redact n h seen (PNum x) = (RNum x, seen)"
| "redact n h seen (PBool b) = (RBool b, seen)"
| "redact n h seen (PBig i) = (RBig i, seen)"
| "redact n h seen PFun = (RFun, seen)"
| "redact n h seen PSym = (RSym, seen)"
| "redact 0 h seen (PRef a) = (RUndef, seen)"
| "redact (Suc n) h seen (PRef a) =
     (if a \<ge> length h then (RUndef, seen)
      else if a \<in> set seen then (RStr ''[Circular]'', seen)
      else case h ! a of
             PArray vs \<Rightarrow> apfst RArray (redact_items (redact n h) (a # seen) vs)
           | PObject fs \<Rightarrow> apfst RObject (redact_fields (redact n h) (a # seen) fs))"

definition auth_redact :: "heap \<Rightarrow> pval \<Rightarrow> rtree" where
  "auth_redact h v = fst (redact (Suc (length h)) h [] v)"

section \<open>What a redactor promises\<close>

text \<open>Every field under one of the keys holds the placeholder, at every depth.\<close>

fun clean :: "string list \<Rightarrow> string \<Rightarrow> rtree \<Rightarrow> bool" where
  "clean ks ph (RArray ts) = list_all (clean ks ph) ts"
| "clean ks ph (RObject fs) = list_all (\<lambda>(k, t). (k \<in> set ks \<longrightarrow> t = RStr ph) \<and> clean ks ph t) fs"
| "clean ks ph _ = True"

text \<open>The field reached from the root along a path of keys and indices.\<close>

datatype step = Key string | Index nat

fun at_path :: "step list \<Rightarrow> rtree \<Rightarrow> rtree option" where
  "at_path [] t = Some t"
| "at_path (Key k # p) (RObject fs) = (case map_of fs k of None \<Rightarrow> None | Some t \<Rightarrow> at_path p t)"
| "at_path (Index i # p) (RArray ts) = (if i < length ts then at_path p (ts ! i) else None)"
| "at_path _ _ = None"

locale redactor =
  fixes run :: "heap \<Rightarrow> pval \<Rightarrow> rtree"
    and keys :: "string list"
    and placeholder :: string
  assumes run_clean: "clean keys placeholder (run h v)"
begin

lemma nothing_below_key:
  "clean keys placeholder t \<Longrightarrow> k \<in> set keys \<Longrightarrow> at_path (p @ [Key k]) t = Some x \<Longrightarrow> x = RStr placeholder"
proof (induction p arbitrary: t)
  case Nil
  then show ?case by (cases t) (auto simp: list_all_iff split: option.splits dest!: map_of_SomeD)
next
  case (Cons s p)
  then show ?case
    by (cases s; cases t) (fastforce simp: list_all_iff split: option.splits if_splits dest!: map_of_SomeD)+
qed

lemma no_leak: "k \<in> set keys \<Longrightarrow> at_path (p @ [Key k]) (run h v) = Some x \<Longrightarrow> x = RStr placeholder"
  using nothing_below_key run_clean by blast

end


section \<open>Both redactors keep the promise\<close>

lemma clean_walk: "clean ks ph (walk h ks ml ph seen v)"
  by (induction h ks ml ph seen v rule: walk.induct)
    (auto simp: list_all_iff split: pobj.split)

lemma clean_items:
  "(\<And>seen v. clean ks ph (fst (f seen v))) \<Longrightarrow> list_all (clean ks ph) (fst (redact_items f seen vs))"
  by (induction vs arbitrary: seen) (auto simp: split_def Let_def)

lemma clean_fields:
  "(\<And>seen v. clean AUTH_REDACTED_KEYS ''[REDACTED]'' (fst (f seen v))) \<Longrightarrow>
   list_all (\<lambda>(k, t). (k \<in> set AUTH_REDACTED_KEYS \<longrightarrow> t = RStr ''[REDACTED]'') \<and>
       clean AUTH_REDACTED_KEYS ''[REDACTED]'' t) (fst (redact_fields f seen fs))"
proof (induction fs arbitrary: seen)
  case (Cons x fs)
  then show ?case by (cases x) (auto simp: split_def Let_def)
qed simp

lemma clean_redact: "clean AUTH_REDACTED_KEYS ''[REDACTED]'' (fst (redact n h seen v))"
proof (induction n arbitrary: seen v)
  case 0
  show ?case by (cases v) simp_all
next
  case (Suc n)
  show ?case
  proof (cases v)
    case (PRef a)
    then show ?thesis
      using clean_items [of AUTH_REDACTED_KEYS "''[REDACTED]''" "redact n h", OF Suc.IH]
        clean_fields [of "redact n h", OF Suc.IH]
      by (auto split: pobj.split)
  qed simp_all
qed

interpretation rp: redactor "\<lambda>h v. walk h ks ml ph [] v" ks ph for ks ml ph
  by unfold_locales (rule clean_walk)

interpretation ar: redactor auth_redact AUTH_REDACTED_KEYS "''[REDACTED]''"
  by unfold_locales (simp add: auth_redact_def clean_redact)

text \<open>C14: whatever the payload (cyclic or shared objects included), at every depth a field whose name is
  one of the redacted ones holds the placeholder in the result, for the default names and any
  extra ones.\<close>

theorem redactPayload_no_leak:
  assumes "k \<in> set REDACTED_KEYS \<or> k \<in> set (or_default (ro_extraRedactedKeys opts) [])"
    and "at_path (p @ [Key k]) (redactPayload h v opts) = Some x"
  shows "x = RStr (or_default (ro_redactionPlaceholder opts) ''[REDACTED]'')"
proof -
  let ?ks = "case ro_extraRedactedKeys opts of None \<Rightarrow> REDACTED_KEYS | Some extra \<Rightarrow> REDACTED_KEYS @ extra"
  have "k \<in> set ?ks" using assms(1) by (auto split: option.splits)
  then show ?thesis
    using assms(2) unfolding redactPayload_def Let_def by (rule rp.no_leak)
qed

text \<open>An object that refers to itself and to a shared object with a token.\<close>

definition demo_heap :: heap where
  "demo_heap = [PObject [(''self'', PRef 0), (''a'', PRef 1), (''b'', PRef 1)],
                PObject [(''token'', PStr ''t''), (''x'', PNum (NFin 1))]]"

definition demo_redaction :: redaction_options where
  "demo_redaction = \<lparr>ro_maxStringLength = None, ro_extraRedactedKeys = None, ro_redactionPlaceholder = None\<rparr>"

lemma demo_redact:
  "redactPayload demo_heap (PRef 0) demo_redaction =
     RObject [(''self'', RStr ''[CIRCULAR]''),
              (''a'', RObject [(''token'', RStr ''[REDACTED]''), (''x'', RNum (NFin 1))]),
              (''b'', RObject [(''token'', RStr ''[REDACTED]''), (''x'', RNum (NFin 1))])]"
  by (simp add: redactPayload_def demo_heap_def demo_redaction_def REDACTED_KEYS_def Let_def)

theorem redactPayload_no_leak_witness:
  "at_path [Key ''a'', Key ''token''] (redactPayload demo_heap (PRef 0) demo_redaction) = Some (RStr ''[REDACTED]'')"
proof -
  obtain x where x: "at_path ([Key ''a''] @ [Key ''token'']) (redactPayload demo_heap (PRef 0) demo_redaction) = Some x"
    by (simp add: demo_redact)
  have "x = RStr ''[REDACTED]''"
    using redactPayload_no_leak [OF _ x] by (simp add: REDACTED_KEYS_def demo_redaction_def)
  with x show ?thesis by simp
qed

text \<open>The two redactors differ on shared objects that are not cyclic: \<open>redactPayload\<close> shows both
  occurrences, the auth audit log reports the second one as circular and loses it; neither shows
  the token.\<close>

theorem shared_object_lost_in_auth_audit:
  "auth_redact demo_heap (PRef 0) =
     RObject [(''self'', RStr ''[Circular]''),
              (''a'', RObject [(''token'', RStr ''[REDACTED]''), (''x'', RNum (NFin 1))]),
              (''b'', RStr ''[Circular]'')]
   \<and> redactPayload demo_heap (PRef 0) demo_redaction =
     RObject [(''self'', RStr ''[CIRCULAR]''),
              (''a'', RObject [(''token'', RStr ''[REDACTED]''), (''x'', RNum (NFin 1))]),
              (''b'', RObject [(''token'', RStr ''[REDACTED]''), (''x'', RNum (NFin 1))])]"
  using demo_redact
  by (simp add: auth_redact_def demo_heap_def AUTH_REDACTED_KEYS_def eval_nat_numeral)


section \<open>The bound on the depth is enough\<close>

definition unseen :: "heap \<Rightarrow> nat list \<Rightarrow> nat" where
  "unseen h seen = card ({..<length h} - set seen)"

lemma unseen_anti: "set seen \<subseteq> set seen' \<Longrightarrow> unseen h seen' \<le> unseen h seen"
  unfolding unseen_def by (rule card_mono) auto

lemma unseen_visit: "a < length h \<Longrightarrow> a \<notin> set seen \<Longrightarrow> unseen h (a # seen) < unseen h seen"
  unfolding unseen_def by (rule psubset_card_mono) auto

lemma items_grow:
  "(\<And>seen v. set seen \<subseteq> set (snd (f seen v))) \<Longrightarrow> set seen \<subseteq> set (snd (redact_items f seen vs))"
  by (induction vs arbitrary: seen) (auto simp: split_def Let_def, blast)

lemma fields_grow:
  "(\<And>seen v. set seen \<subseteq> set (snd (f seen v))) \<Longrightarrow> set seen \<subseteq> set (snd (redact_fields f seen fs))"
proof (induction fs arbitrary: seen)
  case (Cons x fs)
  from Cons.IH [OF Cons.prems] Cons.prems show ?case
    by (cases x) (auto simp: split_def Let_def, blast+)
qed simp

lemma redact_grow: "set seen \<subseteq> set (snd (redact n h seen v))"
proof (induction n arbitrary: seen v)
  case 0
  show ?case by (cases v) simp_all
next
  case (Suc n)
  show ?case
  proof (cases v)
    case (PRef a)
    then show ?thesis
      using items_grow [of "redact n h", OF Suc.IH, of "a # seen"]
        fields_grow [of "redact n h", OF Suc.IH, of "a # seen"]
      by (auto split: pobj.split)
  qed simp_all
qed

lemma items_cong:
  assumes grow: "\<And>seen v. set seen \<subseteq> set (snd (f seen v))"
    and eq: "\<And>seen v. set s0 \<subseteq> set seen \<Longrightarrow> f seen v = g seen v"
  shows "set s0 \<subseteq> set seen \<Longrightarrow> redact_items f seen vs = redact_items g seen vs"
proof (induction vs arbitrary: seen)
  case (Cons v vs)
  have "set s0 \<subseteq> set (snd (f seen v))" using grow Cons.prems by blast
  with Cons eq [OF Cons.prems] show ?case by (simp add: split_def Let_def)
qed simp

lemma fields_cong:
  assumes grow: "\<And>seen v. set seen \<subseteq> set (snd (f seen v))"
    and eq: "\<And>seen v. set s0 \<subseteq> set seen \<Longrightarrow> f seen v = g seen v"
  shows "set s0 \<subseteq> set seen \<Longrightarrow> redact_fields f seen fs = redact_fields g seen fs"
proof (induction fs arbitrary: seen)
  case (Cons x fs)
  have "set s0 \<subseteq> set (snd (f seen (snd x)))" using grow Cons.prems by blast
  with Cons eq [OF Cons.prems] show ?case by (cases x) (simp add: split_def Let_def)
qed simp

lemma redact_enough: "unseen h seen < n \<Longrightarrow> redact (Suc n) h seen v = redact n h seen v"
proof (induction n arbitrary: seen v)
  case (Suc n)
  show ?case
  proof (cases "\<exists>a. v = PRef a \<and> a < length h \<and> a \<notin> set seen")
    case True
    then obtain a where a: "v = PRef a" "a < length h" "a \<notin> set seen" by blast
    have eq: "set (a # seen) \<subseteq> set seen' \<Longrightarrow> redact (Suc n) h seen' w = redact n h seen' w" for seen' w
      using unseen_anti [of "a # seen" seen' h] unseen_visit [OF a(2,3)] Suc.prems by (intro Suc.IH) simp
    have "redact_items (redact (Suc n) h) (a # seen) vs = redact_items (redact n h) (a # seen) vs" for vs
      by (rule items_cong [where ?s0.0 = "a # seen"]) (rule redact_grow, erule eq, rule subset_refl)
    moreover have "redact_fields (redact (Suc n) h) (a # seen) fs = redact_fields (redact n h) (a # seen) fs" for fs
      by (rule fields_cong [where ?s0.0 = "a # seen"]) (rule redact_grow, erule eq, rule subset_refl)
    ultimately show ?thesis using a
      by (simp only: redact.simps)
  qed (cases v; auto)
qed simp

text \<open>C37: the walk of the auth audit log ends: any bound on its depth above the number of objects gives
  the result of \<open>auth_redact\<close>, however the objects refer to each other.\<close>

theorem auth_redact_terminates:
  assumes "length h < n"
  shows "fst (redact n h [] v) = auth_redact h v"
proof -
  have "redact (Suc (length h) + k) h [] v = redact (Suc (length h)) h [] v" for k
  proof (induction k)
    case (Suc k)
    have "unseen h [] < Suc (length h) + k" by (simp add: unseen_def)
    from redact_enough [OF this, of v] Suc show ?case by simp
  qed simp
  from this [of "n - Suc (length h)"] assms show ?thesis by (simp add: auth_redact_def)
qed

theorem auth_redact_terminates_witness: "fst (redact 9 demo_heap [] (PRef 0)) = auth_redact demo_heap (PRef 0)"
  by (rule auth_redact_terminates) (simp add: demo_heap_def)

section \<open>String length\<close>

fun short_strings :: "nat \<Rightarrow> rtree \<Rightarrow> bool" where
  "short_strings n (RStr s) = (length s \<le> n)"
| "short_strings n (RArray ts) = list_all (short_strings n) ts"
| "short_strings n (RObject fs) = list_all (\<lambda>(k, t). short_strings n t) fs"
| "short_strings n _ = True"

lemma truncate_str_length: "int (length (truncate_str s n)) \<le> max n 1"
  by (auto simp: truncate_str_def Let_def)

text \<open>No string value in a redacted payload is longer than the maximum, the placeholder and
  \<open>[CIRCULAR]\<close> apart; a string within the maximum is kept as it is.\<close>

theorem redacted_strings_short:
  assumes "nat (max 1 (or_default (ro_maxStringLength opts) DEFAULT_MAX_STRING_LENGTH)) \<le> n"
    and "length (or_default (ro_redactionPlaceholder opts) ''[REDACTED]'') \<le> n" and "10 \<le> n"
  shows "short_strings n (redactPayload h v opts)
    \<and> (int (length s) \<le> or_default (ro_maxStringLength opts) DEFAULT_MAX_STRING_LENGTH \<longrightarrow>
        redactPayload h (PStr s) opts = RStr s)"
proof -
  have "length ph \<le> n \<Longrightarrow> nat (max 1 ml) \<le> n \<Longrightarrow> short_strings n (walk h ks ml ph seen v)" for ks ml ph seen
  proof (induction h ks ml ph seen v rule: walk.induct)
    case (3 h ks ml ph seen s)
    then show ?case using truncate_str_length [of s ml] by simp
  next
    case (9 h ks ml ph seen a)
    with assms(3) show ?case by (auto simp: list_all_iff split: pobj.split)
  qed simp_all
  then show ?thesis using assms by (simp add: redactPayload_def Let_def truncate_str_def)
qed

theorem redacted_strings_short_witness:
  "short_strings 256 (redactPayload demo_heap (PRef 0) demo_redaction)"
  using redacted_strings_short [of demo_redaction 256]
  by (simp add: demo_redaction_def DEFAULT_MAX_STRING_LENGTH_def)

end
