(* ===== verification/AuditLog.thy ===== *)
theory AuditLog
  imports Redaction
begin

text \<open>
  The audit logger, \<open>src/src/security/audit-logger.service.ts\<close>. The repository is a parameter:
  what its \<open>insert\<close> throws or rejects with for a record, if it does. The result of
  \<open>logCritical\<close> is the error it rejects with or the record, with what it did on the way.
\<close>

record audit_input =
  ai_callId :: jsval
  ai_userId :: "string option"
  ai_eventType :: jsval
  ai_payload :: pval
  ai_redaction :: "redaction_options option"
  ai_createdAt :: "int option"

record audit_record =
  ar_callId :: string
  ar_userId :: "string option"
  ar_eventType :: string
  ar_payload :: rtree
  ar_createdAt :: int

text \<open>What may be thrown: an \<open>Error\<close> with its message, a string, or a value that
  \<open>JSON.stringify\<close> turns into text or fails on.\<close>

datatype thrown_value = ErrorInstance string | StringValue string | OtherValue "string option"

fun describe :: "thrown_value \<Rightarrow> string" where
  "describe (ErrorInstance m) = m"
| "describe (StringValue s) = s"
| "describe (OtherValue (Some json)) = json"
| "describe (OtherValue None) = ''unknown''"

datatype audit_effect = AuditInsert audit_record | AuditError string | AuditWarn string

type_synonym audit_repository = "audit_record \<Rightarrow> thrown_value option"

definition default_redaction :: redaction_options where
  "default_redaction = \<lparr>ro_maxStringLength = None, ro_extraRedactedKeys = None, ro_redactionPlaceholder = None\<rparr>"

text \<open>
  What the constructor takes from its arguments: a repository of its own comes before that of the options. The clock
  and the logger of the process are arguments.
\<close>

record ('clock, 'log) audit_options =
  ao_repository :: "audit_repository option"
  ao_defaultClock :: "'clock option"
  ao_logger :: "'log option"

definition construct_audit_logger ::
    "audit_repository option \<Rightarrow> ('clock, 'log) audit_options option \<Rightarrow> 'clock \<Rightarrow> 'log
     \<Rightarrow> audit_repository option \<times> 'clock \<times> 'log" where
  "construct_audit_logger repository options systemClock processLogger =
     ((case repository of Some r \<Rightarrow> Some r | None \<Rightarrow> Option.bind options ao_repository),
      or_default (Option.bind options ao_defaultClock) systemClock,
      or_default (Option.bind options ao_logger) processLogger)"

definition logCritical ::
    "audit_repository option \<Rightarrow> int \<Rightarrow> heap \<Rightarrow> audit_input option \<Rightarrow> (string + audit_record) \<times> audit_effect list" where
  "logCritical repository now h input =
     (case input of
        None \<Rightarrow> (Inl ''logCritical requires a LogCriticalInput object'', [])
      | Some i \<Rightarrow>
          (case nonempty_str (ai_callId i) of
             None \<Rightarrow> (Inl ''logCritical requires a non-empty callId string'', [])
           | Some callId \<Rightarrow>
               (case nonempty_str (ai_eventType i) of
                  None \<Rightarrow> (Inl ''logCritical requires a non-empty eventType string'', [])
                | Some eventType \<Rightarrow>
                    let r = \<lparr>ar_callId = callId, ar_userId = ai_userId i, ar_eventType = eventType,
                             ar_payload = redactPayload h (ai_payload i) (or_default (ai_redaction i) default_redaction),
                             ar_createdAt = or_default (ai_createdAt i) now\<rparr>
                    in (Inr r,
                        (case repository of
                           None \<Rightarrow> [AuditWarn (''audit (no repository) callId='' @ callId @ '' eventType='' @ eventType)]
                         | Some ins \<Rightarrow>
                             AuditInsert r #
                             (case ins r of
                                None \<Rightarrow> []
                              | Some err \<Rightarrow>
                                  [AuditError (''audit insert failed callId='' @ callId @ '' eventType='' @ eventType
                                     @ '': '' @ describe err)]))))))"

lemma logCritical_rejects_iff:
  "is_ok (fst (logCritical repository now h input)) \<longleftrightarrow>
     (\<exists>i. input = Some i \<and> nonempty_str (ai_callId i) \<noteq> None \<and> nonempty_str (ai_eventType i) \<noteq> None)"
  by (auto simp: logCritical_def Let_def split: option.splits)

text \<open>Auditing never fails because of the repository: the result is the same without one, with one
  that works and with one that throws; the one insert attempted carries the record returned,
  whose payload is the redacted one.\<close>

theorem audit_independent_of_repository:
  "fst (logCritical (Some repo) now h input) = fst (logCritical None now h input)
   \<and> (case fst (logCritical (Some repo) now h input) of
        Inl e \<Rightarrow> snd (logCritical (Some repo) now h input) = []
      | Inr r \<Rightarrow> (\<exists>i rest. input = Some i \<and> snd (logCritical (Some repo) now h input) = AuditInsert r # rest
          \<and> (\<forall>r'. AuditInsert r' \<notin> set rest)
          \<and> ar_payload r = redactPayload h (ai_payload i) (or_default (ai_redaction i) default_redaction)))"
  by (auto simp: logCritical_def Let_def split: option.splits)

text \<open>
  \<open>AuthAuditLogger.log\<close> of \<open>src/src/auth/auth-audit.logger.ts\<close>: the object whose JSON is the
  line. The fields of the event, redacted, follow \<open>at\<close> and replace it if they have that name.
\<close>

definition auth_audit_fields :: "rtree \<Rightarrow> heap \<Rightarrow> pval \<Rightarrow> (string \<times> rtree) list" where
  "auth_audit_fields stamp h event =
     (case auth_redact h event of
        RObject fs \<Rightarrow> foldl (\<lambda>acc (k, v). jset k v acc) [(''at'', stamp)] fs
      | _ \<Rightarrow> [(''at'', stamp)])"

end
