(* ===== verification/Wiring.thy ===== *)
theory Wiring
  imports Routes
begin

text \<open>
  The modules of the application as the decorators declare them: for each one its imports, controllers,
  providers and exports, and for each controller and provider what its constructor or its factory asks
  for. A name is a class, a token or a module; the modules of the framework keep their own names, and
  what they export is a parameter. A component may ask for what its own module provides, for what the
  imported modules export, and for what a global module exports.
\<close>

section \<open>Names\<close>

text \<open>The modules of the application and those of the framework it imports, and what is provided or asked for.\<close>

datatype nest_name =
    MApp | MAuth | MAppJwt | MCalls | MTurn | MSfu | MSignaling | MSignalingAdapter | MPresence | MMediaProvider
  | MNotifications | MObservability | MSecurity | MConfig | MTypeOrm | MTypeOrmForFeature | MPassport | MJwt
  | MThrottler | MLogger

datatype di_token =
    TSocketIoRedisAdapter | TJwtAuthGuard | TAuthService | TWsTokenService | TCallsService | TCallEventsStore
  | TTurnService | TStaticTurnService | TSfuService | TStaticSfuService | TRoomRegistry | TCallsEventBus
  | TSignalingGateway | TPresenceService | TMediaProvider | TNotificationsService | TNoopNotificationsService
  | TCallMetricsService | TStructuredLoggerService | TCallMetricsRegistry | TRateLimitService
  | TWsAuthMiddleware | TAuditLogger | TRateLimitConfigToken | TTokenTtlToken | TAppService | TConfigService
  | TOAuthProvidersRegistry | TUsersRepository | TJwtService | TAuthAuditLogger | TOauthProviders
  | TUserEntityRepository | TFailedCallsProvider | TPinoLogger | TFunction | TObject | TNumber
  | TWsAuthMiddlewareOptions | TCallEventsRepository | TAppFilter | TAppInterceptor | TJwtStrategy
  | TGoogleService | TMediaProviderBootstrapLogger | TAdminAuthGuard | TObsJwtAuthGuard

datatype export_item = Tok di_token | Mod nest_name

section \<open>Declarations\<close>

text \<open>What something asks for, with \<open>@Optional\<close> marked; the values given to it are not needed here.\<close>

datatype dep = Needs di_token | MayUse di_token

fun dep_name :: "dep \<Rightarrow> di_token" where
  "dep_name (Needs n) = n"
| "dep_name (MayUse n) = n"

fun dep_required :: "dep \<Rightarrow> bool" where
  "dep_required (Needs n) = True"
| "dep_required (MayUse n) = False"

record provider =
  pr_provide :: di_token
  pr_deps :: "dep list"

record controller =
  ct_class :: string
  ct_prefix :: string
  ct_deps :: "dep list"

record nest_module =
  nm_name :: nest_name
  nm_global :: bool
  nm_imports :: "nest_name list"
  nm_controllers :: "controller list"
  nm_providers :: "provider list"
  nm_exports :: "export_item list"
  nm_deps :: "dep list"

definition prov :: "di_token \<Rightarrow> dep list \<Rightarrow> provider" where
  "prov n ds = \<lparr>pr_provide = n, pr_deps = ds\<rparr>"

definition ctrl :: "string \<Rightarrow> string \<Rightarrow> dep list \<Rightarrow> controller" where
  "ctrl c p ds = \<lparr>ct_class = c, ct_prefix = p, ct_deps = ds\<rparr>"

section \<open>Constructors\<close>

text \<open>
  What each class asks for, in the order of its constructor. A parameter without a token is asked for by the
  type the compiler leaves of it: an interface is \<open>Object\<close>, a function type \<open>Function\<close>.
\<close>

definition appController_deps :: "dep list" where "appController_deps = [Needs TAppService]"
definition appService_deps :: "dep list" where "appService_deps = [Needs TConfigService]"
definition authController_deps :: "dep list" where
  "authController_deps = [Needs TAuthService, Needs TOAuthProvidersRegistry, Needs TWsTokenService]"
definition authService_deps :: "dep list" where
  "authService_deps = [Needs TUsersRepository, Needs TJwtService, Needs TAuthAuditLogger, MayUse TOauthProviders,
     Needs TConfigService]"
definition usersRepository_deps :: "dep list" where "usersRepository_deps = [Needs TUserEntityRepository]"
definition jwtStrategy_deps :: "dep list" where "jwtStrategy_deps = [Needs TConfigService]"
definition googleService_deps :: "dep list" where "googleService_deps = [Needs TConfigService]"
definition oAuthProvidersRegistry_deps :: "dep list" where
  "oAuthProvidersRegistry_deps = [MayUse TOauthProviders]"
definition wsTokenService_deps :: "dep list" where "wsTokenService_deps = [Needs TJwtService]"
definition callsController_deps :: "dep list" where
  "callsController_deps = [Needs TCallsService, Needs TCallEventsStore, Needs TTurnService, Needs TSfuService]"
definition callsService_deps :: "dep list" where "callsService_deps = [Needs TCallEventsStore]"
definition staticTurnService_deps :: "dep list" where "staticTurnService_deps = [Needs TConfigService]"
definition staticSfuService_deps :: "dep list" where "staticSfuService_deps = [Needs TConfigService]"
definition signalingGateway_deps :: "dep list" where
  "signalingGateway_deps = [Needs TRoomRegistry, Needs TCallsEventBus, Needs TConfigService]"
definition liveKitHealthController_deps :: "dep list" where
  "liveKitHealthController_deps = [Needs TConfigService, MayUse TMediaProvider]"
definition mediaProviderBootstrapLogger_deps :: "dep list" where
  "mediaProviderBootstrapLogger_deps = [Needs TConfigService]"
definition prometheusController_deps :: "dep list" where "prometheusController_deps = [Needs TCallMetricsService]"
definition callStatsController_deps :: "dep list" where
  "callStatsController_deps = [Needs TCallMetricsService, Needs TStructuredLoggerService]"
definition failedCallsController_deps :: "dep list" where
  "failedCallsController_deps = [Needs TCallMetricsService, Needs TStructuredLoggerService, MayUse TFailedCallsProvider]"
definition callMetricsService_deps :: "dep list" where "callMetricsService_deps = [MayUse TCallMetricsRegistry]"
definition structuredLoggerService_deps :: "dep list" where "structuredLoggerService_deps = [Needs TPinoLogger]"
definition rateLimitService_deps :: "dep list" where
  "rateLimitService_deps = [Needs TRateLimitConfigToken, MayUse TFunction, MayUse TObject, MayUse TNumber]"
definition wsAuthMiddleware_deps :: "dep list" where
  "wsAuthMiddleware_deps = [Needs TConfigService, MayUse TWsAuthMiddlewareOptions]"
definition auditLogger_deps :: "dep list" where
  "auditLogger_deps = [MayUse TCallEventsRepository, MayUse TObject]"

section \<open>The modules\<close>

definition AppModule :: nest_module where
  "AppModule =
     \<lparr>nm_name = MApp, nm_global = False,
      nm_imports = [MConfig, MTypeOrm, MAuth, MCalls, MSignaling,
        MSignalingAdapter, MPresence, MMediaProvider, MNotifications,
        MObservability, MTurn, MSfu, MSecurity],
      nm_controllers = [ctrl ''AppController'' [] appController_deps],
      nm_providers = [prov TAppService appService_deps, prov TSocketIoRedisAdapter [],
        prov TAppFilter [], prov TAppInterceptor []],
      nm_exports = [Tok TSocketIoRedisAdapter], nm_deps = []\<rparr>"

definition AuthModule :: nest_module where
  "AuthModule =
     \<lparr>nm_name = MAuth, nm_global = False,
      nm_imports = [MPassport, MJwt, MThrottler, MTypeOrmForFeature],
      nm_controllers = [ctrl ''AuthController'' ''auth'' authController_deps],
      nm_providers = [prov TJwtStrategy jwtStrategy_deps, prov TJwtAuthGuard [],
        prov TAuthService authService_deps,
        prov TAuthAuditLogger [], prov TUsersRepository usersRepository_deps,
        prov TGoogleService googleService_deps,
        prov TOAuthProvidersRegistry oAuthProvidersRegistry_deps, prov TWsTokenService wsTokenService_deps,
        prov TOauthProviders [Needs TGoogleService]],
      nm_exports = [Tok TJwtAuthGuard, Mod MJwt, Mod MPassport, Tok TAuthService, Tok TWsTokenService], nm_deps = []\<rparr>"

definition AppJwtModule :: nest_module where
  "AppJwtModule =
     \<lparr>nm_name = MAppJwt, nm_global = False, nm_imports = [MAuth, MJwt],
      nm_controllers = [], nm_providers = [], nm_exports = [Mod MAuth, Mod MJwt], nm_deps = []\<rparr>"

definition CallsModule :: nest_module where
  "CallsModule =
     \<lparr>nm_name = MCalls, nm_global = False, nm_imports = [MAuth, MTurn, MSfu],
      nm_controllers = [ctrl ''CallsController'' ''calls'' callsController_deps],
      nm_providers = [prov TCallsService callsService_deps, prov TCallEventsStore []],
      nm_exports = [Tok TCallsService, Tok TCallEventsStore], nm_deps = []\<rparr>"

definition TurnModule :: nest_module where
  "TurnModule =
     \<lparr>nm_name = MTurn, nm_global = False, nm_imports = [], nm_controllers = [],
      nm_providers = [prov TStaticTurnService staticTurnService_deps,
        prov TTurnService [Needs TStaticTurnService]],
      nm_exports = [Tok TTurnService, Tok TStaticTurnService], nm_deps = []\<rparr>"

definition SfuModule :: nest_module where
  "SfuModule =
     \<lparr>nm_name = MSfu, nm_global = False, nm_imports = [], nm_controllers = [],
      nm_providers = [prov TStaticSfuService staticSfuService_deps,
        prov TSfuService [Needs TStaticSfuService]],
      nm_exports = [Tok TSfuService, Tok TStaticSfuService], nm_deps = []\<rparr>"

definition SignalingModule :: nest_module where
  "SignalingModule =
     \<lparr>nm_name = MSignaling, nm_global = False, nm_imports = [], nm_controllers = [],
      nm_providers = [prov TSignalingGateway signalingGateway_deps,
        prov TRoomRegistry [], prov TCallsEventBus []],
      nm_exports = [Tok TRoomRegistry, Tok TCallsEventBus, Tok TSignalingGateway], nm_deps = []\<rparr>"

definition SignalingAdapterModule :: nest_module where
  "SignalingAdapterModule =
     \<lparr>nm_name = MSignalingAdapter, nm_global = False, nm_imports = [], nm_controllers = [],
      nm_providers = [prov TSocketIoRedisAdapter [Needs TConfigService]],
      nm_exports = [Tok TSocketIoRedisAdapter], nm_deps = []\<rparr>"

definition PresenceModule :: nest_module where
  "PresenceModule =
     \<lparr>nm_name = MPresence, nm_global = False, nm_imports = [], nm_controllers = [],
      nm_providers = [prov TPresenceService [Needs TConfigService]],
      nm_exports = [Tok TPresenceService], nm_deps = []\<rparr>"

definition MediaProviderModule :: nest_module where
  "MediaProviderModule =
     \<lparr>nm_name = MMediaProvider, nm_global = True, nm_imports = [],
      nm_controllers = [ctrl ''LiveKitHealthController'' ''info/livekit'' liveKitHealthController_deps],
      nm_providers = [prov TMediaProvider [Needs TConfigService],
        prov TMediaProviderBootstrapLogger mediaProviderBootstrapLogger_deps],
      nm_exports = [Tok TMediaProvider], nm_deps = []\<rparr>"

definition NotificationsModule :: nest_module where
  "NotificationsModule =
     \<lparr>nm_name = MNotifications, nm_global = False, nm_imports = [], nm_controllers = [],
      nm_providers = [prov TNoopNotificationsService [],
        prov TNotificationsService [Needs TNoopNotificationsService]],
      nm_exports = [Tok TNotificationsService, Tok TNoopNotificationsService], nm_deps = []\<rparr>"

definition ObservabilityModule :: nest_module where
  "ObservabilityModule =
     \<lparr>nm_name = MObservability, nm_global = True, nm_imports = [MLogger],
      nm_controllers = [ctrl ''PrometheusController'' ''metrics'' prometheusController_deps,
        ctrl ''CallStatsController'' ''calls'' callStatsController_deps,
        ctrl ''FailedCallsController'' ''observability/calls'' failedCallsController_deps],
      nm_providers = [prov TCallMetricsRegistry [], prov TCallMetricsService callMetricsService_deps,
        prov TStructuredLoggerService structuredLoggerService_deps, prov TObsJwtAuthGuard [],
        prov TAdminAuthGuard []],
      nm_exports = [Tok TCallMetricsService, Tok TStructuredLoggerService, Tok TCallMetricsRegistry],
      nm_deps = [Needs TCallMetricsService]\<rparr>"

definition SecurityModule :: nest_module where
  "SecurityModule =
     \<lparr>nm_name = MSecurity, nm_global = True, nm_imports = [], nm_controllers = [],
      nm_providers = [prov TRateLimitService rateLimitService_deps,
        prov TWsAuthMiddleware wsAuthMiddleware_deps,
        prov TAuditLogger auditLogger_deps,
        prov TRateLimitConfigToken [Needs TConfigService], prov TTokenTtlToken [Needs TConfigService]],
      nm_exports = [Tok TRateLimitService, Tok TWsAuthMiddleware, Tok TAuditLogger, Tok TRateLimitConfigToken, Tok TTokenTtlToken], nm_deps = []\<rparr>"

definition declared_modules :: "nest_module list" where
  "declared_modules = [AppModule, AuthModule, AppJwtModule, CallsModule, TurnModule, SfuModule, SignalingModule,
     SignalingAdapterModule, PresenceModule, MediaProviderModule, NotificationsModule, ObservabilityModule, SecurityModule]"

section \<open>What a module sees\<close>

definition nest_named :: "nest_name \<Rightarrow> nest_module option" where
  "nest_named n = find (\<lambda>m. nm_name m = n) declared_modules"

text \<open>
  The names a module exports; a module among its exports hands on what that one exports. \<open>ext\<close> are the
  exports of the framework's modules. The fuel bounds the modules a name is handed on through: there is
  one, \<open>AppJwtModule\<close>, that hands on a module which hands on another.
\<close>

fun exported :: "nat \<Rightarrow> (nest_name \<Rightarrow> di_token list) \<Rightarrow> nest_name \<Rightarrow> di_token list" where
  "exported 0 ext n = []"
| "exported (Suc k) ext n =
     (case nest_named n of
        None \<Rightarrow> ext n
      | Some m \<Rightarrow> concat (map (\<lambda>e. case e of Tok t \<Rightarrow> [t] | Mod n' \<Rightarrow> exported k ext n') (nm_exports m)))"

text \<open>The modules the application loads: the root, its imports, theirs, and so on.\<close>

definition imports_of :: "nest_name \<Rightarrow> nest_name list" where
  "imports_of n = (case nest_named n of None \<Rightarrow> [] | Some m \<Rightarrow> nm_imports m)"

fun load :: "nat \<Rightarrow> nest_name list \<Rightarrow> nest_name list" where
  "load 0 ns = ns"
| "load (Suc k) ns = load k (remdups (ns @ concat (map imports_of ns)))"

definition loaded_names :: "nest_name list" where
  "loaded_names = load 3 [MApp]"

definition loaded_modules :: "nest_module list" where
  "loaded_modules = filter (\<lambda>m. nm_name m \<in> set loaded_names) declared_modules"

text \<open>\<open>ConfigModule.forRoot\<close> is asked to be global.\<close>

definition global_names :: "nest_name list" where
  "global_names = MConfig # map nm_name (filter nm_global loaded_modules)"

definition visible :: "(nest_name \<Rightarrow> di_token list) \<Rightarrow> nest_module \<Rightarrow> di_token list" where
  "visible ext m =
     map pr_provide (nm_providers m) @ concat (map (exported 4 ext) (nm_imports m @ global_names))"

definition asks :: "nest_module \<Rightarrow> dep list" where
  "asks m = nm_deps m @ concat (map ct_deps (nm_controllers m)) @ concat (map pr_deps (nm_providers m))"

definition satisfied :: "(nest_name \<Rightarrow> di_token list) \<Rightarrow> nest_module \<Rightarrow> dep \<Rightarrow> bool" where
  "satisfied ext m d = (if dep_required d then dep_name d \<in> set (visible ext m) else True)"

text \<open>What the framework's modules export, as their documentation says.\<close>

fun documented_exports :: "nest_name \<Rightarrow> di_token list" where
  "documented_exports MConfig = [TConfigService]"
| "documented_exports MJwt = [TJwtService]"
| "documented_exports MTypeOrmForFeature = [TUserEntityRepository]"
| "documented_exports MLogger = [TPinoLogger]"
| "documented_exports n = []"

definition exports_documented :: "(nest_name \<Rightarrow> di_token list) \<Rightarrow> bool" where
  "exports_documented ext \<longleftrightarrow> (\<forall>n. set (documented_exports n) \<subseteq> set (ext n))"

section \<open>The loaded modules\<close>

lemma loaded_names_eq:
  "loaded_names =
     [MApp, MConfig, MTypeOrm, MCalls, MSignaling, MSignalingAdapter, MPresence, MMediaProvider, MNotifications,
      MObservability, MSecurity, MAuth, MTurn, MSfu, MLogger, MPassport, MJwt, MThrottler, MTypeOrmForFeature]"
  by code_simp

text \<open>Loading is complete: what a loaded module imports is loaded.\<close>

lemma loaded_closed: "list_all (\<lambda>n. list_all (\<lambda>n. n \<in> set loaded_names) (imports_of n)) loaded_names"
  unfolding loaded_names_eq by code_simp

lemma loaded_modules_eq:
  "loaded_modules =
     [AppModule, AuthModule, CallsModule, TurnModule, SfuModule, SignalingModule, SignalingAdapterModule,
      PresenceModule, MediaProviderModule, NotificationsModule, ObservabilityModule, SecurityModule]"
  unfolding loaded_modules_def loaded_names_eq declared_modules_def
  by (simp add: AppModule_def AuthModule_def AppJwtModule_def CallsModule_def TurnModule_def SfuModule_def
      SignalingModule_def SignalingAdapterModule_def PresenceModule_def MediaProviderModule_def
      NotificationsModule_def ObservabilityModule_def SecurityModule_def)

lemma global_names_eq: "global_names = [MConfig, MMediaProvider, MObservability, MSecurity]"
  unfolding global_names_def loaded_modules_eq by code_simp

section \<open>Properties\<close>

lemma exported_mono:
  assumes "exports_documented ext"
  shows "set (exported k documented_exports n) \<subseteq> set (exported k ext n)"
proof (induction k arbitrary: n)
  case (Suc k)
  have keep: "set (documented_exports n) \<subseteq> set (ext n)" for n
    using assms by (simp add: exports_documented_def)
  have step: "set (case e of Tok t \<Rightarrow> [t] | Mod n' \<Rightarrow> exported k documented_exports n')
      \<subseteq> set (case e of Tok t \<Rightarrow> [t] | Mod n' \<Rightarrow> exported k ext n')" for e
    using Suc by (cases e) simp_all
  show ?case using keep step by (simp split: option.split) fastforce
qed simp

lemma satisfied_mono:
  assumes "exports_documented ext" and "satisfied documented_exports m d"
  shows "satisfied ext m d"
proof -
  have "set (visible documented_exports m) \<subseteq> set (visible ext m)"
    using exported_mono [OF assms(1), of 4] unfolding visible_def by fastforce
  then show ?thesis using assms(2) by (auto simp: satisfied_def split: if_splits)
qed

lemma wiring_documented: "list_all (\<lambda>m. list_all (satisfied documented_exports m) (asks m)) loaded_modules"
  unfolding loaded_modules_eq satisfied_def visible_def global_names_eq by code_simp

text \<open>C39: the dependencies of the application can be resolved: when the modules of the framework export what their documentation says,
  everything a controller, a provider or a module of a loaded module must be given is visible to that
  module.\<close>

theorem wiring_resolves:
  assumes "exports_documented ext"
  shows "list_all (\<lambda>m. list_all (satisfied ext m) (asks m)) loaded_modules"
  using wiring_documented satisfied_mono [OF assms] by (auto simp: list_all_iff)

lemma wiring_resolves_witness: "list_all (satisfied documented_exports CallsModule) (asks CallsModule)"
proof -
  have "exports_documented documented_exports" by (simp add: exports_documented_def)
  from wiring_resolves [OF this] show ?thesis by (simp add: loaded_modules_eq)
qed

text \<open>What is provided in a loaded module and what is asked for by one.\<close>

definition provided_tokens :: "di_token list" where
  "provided_tokens = concat (map (\<lambda>m. map pr_provide (nm_providers m)) loaded_modules)"

definition asked_tokens :: "di_token list" where
  "asked_tokens = concat (map (\<lambda>m. map dep_name (asks m)) loaded_modules)"

text \<open>The routes of the server are those of the controllers of the loaded modules. What is provided and
  asked for by nothing are the filter, interceptor, strategy, guards and gateway the framework itself looks
  up and the logger it starts, and also the services of presence, notifications, rate limiting, socket
  authentication and audit, the time to live of media tokens and both adapters of the sockets: no request
  reaches any of these.\<close>

theorem wiring_uses:
  "set (map ct_prefix (concat (map nm_controllers loaded_modules))) = set (map rt_controller routes)
   \<and> filter (\<lambda>t. t \<notin> set asked_tokens) provided_tokens =
       [TSocketIoRedisAdapter, TAppFilter, TAppInterceptor, TJwtStrategy, TJwtAuthGuard, TSignalingGateway,
        TSocketIoRedisAdapter, TPresenceService, TMediaProviderBootstrapLogger, TNotificationsService,
        TObsJwtAuthGuard, TAdminAuthGuard, TRateLimitService, TWsAuthMiddleware, TAuditLogger, TTokenTtlToken]"
proof
  have "list_all (\<lambda>c. c \<in> set (map rt_controller routes)) (map ct_prefix (concat (map nm_controllers loaded_modules)))"
    "list_all (\<lambda>c. c \<in> set (map ct_prefix (concat (map nm_controllers loaded_modules)))) (map rt_controller routes)"
    unfolding loaded_modules_eq by code_simp+
  then show "set (map ct_prefix (concat (map nm_controllers loaded_modules))) = set (map rt_controller routes)"
    by (simp only: list_all_iff) blast
  show "filter (\<lambda>t. t \<notin> set asked_tokens) provided_tokens =
       [TSocketIoRedisAdapter, TAppFilter, TAppInterceptor, TJwtStrategy, TJwtAuthGuard, TSignalingGateway,
        TSocketIoRedisAdapter, TPresenceService, TMediaProviderBootstrapLogger, TNotificationsService,
        TObsJwtAuthGuard, TAdminAuthGuard, TRateLimitService, TWsAuthMiddleware, TAuditLogger, TTokenTtlToken]"
    unfolding asked_tokens_def provided_tokens_def loaded_modules_eq by code_simp
qed

end
