(* ===== verification/Persistence.thy ===== *)
theory Persistence
  imports EnvSchema AuthClaims
begin

text \<open>
  The database: the table of the migration \<open>src/src/persistence/migrations/1781655355076-init.ts\<close>, the columns
  and indexes \<open>src/src/auth/entities/user.entity.ts\<close> declares, and the two data sources, that of the command
  line (\<open>src/src/persistence/data-source.ts\<close>) and that of \<open>app.module.ts\<close>. The query runner of TypeORM is a
  parameter.
\<close>

section \<open>Columns, indexes, tables\<close>

text \<open>A default is SQL text, or a value TypeORM quotes; a type is a name or the class \<open>Date\<close>.\<close>

datatype sql_default = RawSql string | SqlValue string

datatype column_type = TypeName string | DateType

record column =
  cn_name :: string
  cn_type :: column_type
  cn_length :: "nat option"
  cn_primary :: bool
  cn_nullable :: bool
  cn_default :: "sql_default option"

record table_index =
  ix_name :: "string option"
  ix_columns :: "string list"
  ix_unique :: bool

record db_table =
  tb_name :: string
  tb_columns :: "column list"
  tb_indices :: "table_index list"

definition varchar :: "string \<Rightarrow> nat \<Rightarrow> column" where
  "varchar name n = \<lparr>cn_name = name, cn_type = TypeName ''varchar'', cn_length = Some n, cn_primary = False,
     cn_nullable = False, cn_default = None\<rparr>"

section \<open>The migration\<close>

definition users_columns :: "column list" where
  "users_columns =
     [(varchar ''id'' 36)\<lparr>cn_primary := True\<rparr>,
      (varchar ''email'' 255)\<lparr>cn_nullable := True\<rparr>,
      varchar ''display_name'' 255,
      (varchar ''created_at'' 0)\<lparr>cn_type := TypeName ''timestamp'', cn_length := None,
        cn_default := Some (RawSql ''CURRENT_TIMESTAMP'')\<rparr>,
      (varchar ''provider'' 32)\<lparr>cn_default := Some (RawSql (CHR 0x27 # ''dev'' @ [CHR 0x27]))\<rparr>,
      varchar ''provider_sub'' 128,
      (varchar ''picture'' 512)\<lparr>cn_nullable := True\<rparr>,
      (varchar ''last_login_at'' 0)\<lparr>cn_type := TypeName ''timestamp'', cn_length := None, cn_nullable := True\<rparr>]"

definition users_indices :: "table_index list" where
  "users_indices =
     [\<lparr>ix_name = Some ''idx_users_email'', ix_columns = [''email''], ix_unique = True\<rparr>,
      \<lparr>ix_name = Some ''uq_users_provider_provider_sub'', ix_columns = [''provider'', ''provider_sub''], ix_unique = True\<rparr>]"

definition users_table :: db_table where
  "users_table = \<lparr>tb_name = ''users'', tb_columns = users_columns, tb_indices = users_indices\<rparr>"

record 'db query_runner =
  qr_createTable :: "db_table \<Rightarrow> 'db \<Rightarrow> string + 'db"
  qr_dropTable :: "string \<Rightarrow> bool \<Rightarrow> 'db \<Rightarrow> string + 'db"

definition migration_up :: "'db query_runner \<Rightarrow> 'db \<Rightarrow> string + 'db" where
  "migration_up qr db = qr_createTable qr users_table db"

definition migration_down :: "'db query_runner \<Rightarrow> 'db \<Rightarrow> string + 'db" where
  "migration_down qr db = qr_dropTable qr ''users'' True db"

section \<open>The entity\<close>

definition entity_name :: string where
  "entity_name = ''users''"

text \<open>A column of the entity has the name of its property unless it is given one.\<close>

record entity_column =
  ec_property :: string
  ec_column :: column

definition entity_columns :: "entity_column list" where
  "entity_columns =
     [\<lparr>ec_property = ''id'', ec_column = (varchar ''id'' 36)\<lparr>cn_primary := True\<rparr>\<rparr>,
      \<lparr>ec_property = ''email'', ec_column = (varchar ''email'' 255)\<lparr>cn_nullable := True\<rparr>\<rparr>,
      \<lparr>ec_property = ''displayName'', ec_column = varchar ''display_name'' 255\<rparr>,
      \<lparr>ec_property = ''createdAt'', ec_column = (varchar ''created_at'' 0)\<lparr>cn_type := DateType, cn_length := None,
         cn_default := Some (RawSql ''CURRENT_TIMESTAMP'')\<rparr>\<rparr>,
      \<lparr>ec_property = ''provider'', ec_column = (varchar ''provider'' 32)\<lparr>cn_default := Some (SqlValue ''dev'')\<rparr>\<rparr>,
      \<lparr>ec_property = ''providerSub'', ec_column = varchar ''provider_sub'' 128\<rparr>,
      \<lparr>ec_property = ''picture'', ec_column = (varchar ''picture'' 512)\<lparr>cn_nullable := True\<rparr>\<rparr>,
      \<lparr>ec_property = ''lastLoginAt'', ec_column = (varchar ''last_login_at'' 0)\<lparr>cn_type := DateType, cn_length := None,
         cn_nullable := True\<rparr>\<rparr>]"

text \<open>The indexes name properties; the one on \<open>email\<close> has no name of its own.\<close>

definition entity_indices :: "table_index list" where
  "entity_indices =
     [\<lparr>ix_name = Some ''uq_users_provider_provider_sub'', ix_columns = [''provider'', ''providerSub''], ix_unique = True\<rparr>,
      \<lparr>ix_name = None, ix_columns = [''email''], ix_unique = True\<rparr>]"

section \<open>Data sources\<close>

text \<open>An option that is not given is false or empty. With TLS the certificate of the server is not verified (\<open>rejectUnauthorized: false\<close>).\<close>

datatype ds_ssl = NoSsl | SslUnverified

record data_source =
  ds_url :: string
  ds_ssl :: ds_ssl
  ds_synchronize :: bool
  ds_migrationsRun :: bool
  ds_logging :: "string list"

definition app_data_source :: "string \<times> bool \<Rightarrow> data_source" where
  "app_data_source cfg =
     \<lparr>ds_url = fst cfg, ds_ssl = (if snd cfg then SslUnverified else NoSsl), ds_synchronize = False,
      ds_migrationsRun = True, ds_logging = []\<rparr>"

text \<open>The text of a validated variable; \<open>DATABASE_URL\<close> is required.\<close>

fun env_text :: "env_val option \<Rightarrow> string" where
  "env_text (Some (VText t)) = t"
| "env_text _ = []"

definition AppDataSource :: "validated_env \<Rightarrow> data_source" where
  "AppDataSource config =
     \<lparr>ds_url = env_text (config ''DATABASE_URL''),
      ds_ssl = (if env_truthy (config ''DATABASE_SSL'') then SslUnverified else NoSsl), ds_synchronize = False,
      ds_migrationsRun = False, ds_logging = [''error'', ''warn'', ''migration'']\<rparr>"

section \<open>What the libraries document\<close>

definition query_runner_documented :: "('db \<Rightarrow> string \<Rightarrow> db_table option) \<Rightarrow> 'db query_runner \<Rightarrow> bool" where
  "query_runner_documented tables qr \<longleftrightarrow>
     (\<forall>t db. case qr_createTable qr t db of
               Inl err \<Rightarrow> True
             | Inr db' \<Rightarrow> tables db (tb_name t) = None \<and> tables db' = (tables db)(tb_name t \<mapsto> t))
     \<and> (\<forall>n ifExist db. case qr_dropTable qr n ifExist db of
                         Inl err \<Rightarrow> True
                       | Inr db' \<Rightarrow> (ifExist \<or> tables db n \<noteq> None) \<and> tables db' = (tables db)(n := None))"

text \<open>An instance: the tables themselves.\<close>

definition ref_runner :: "(string \<Rightarrow> db_table option) query_runner" where
  "ref_runner =
     \<lparr>qr_createTable = (\<lambda>t db. if db (tb_name t) = None then Inr (db(tb_name t \<mapsto> t)) else Inl ''relation already exists''),
      qr_dropTable = (\<lambda>n ifExist db. if ifExist \<or> db n \<noteq> None then Inr (db(n := None)) else Inl ''does not exist'')\<rparr>"

lemma ref_runner_documented: "query_runner_documented (\<lambda>db. db) ref_runner"
  by (simp add: query_runner_documented_def ref_runner_def)

text \<open>Of the boolean rule: the texts listed are accepted in any case, and no others.\<close>

definition ssl_truthy :: "string list" where
  "ssl_truthy = [''1'', ''true'', ''yes'', ''on'']"

definition ssl_falsy :: "string list" where
  "ssl_falsy = [''0'', ''false'', ''no'', ''off'']"

definition joi_boolean :: "rule_check \<Rightarrow> bool" where
  "joi_boolean joi \<longleftrightarrow>
     (\<forall>r t x. er_kind r = KBoolean \<longrightarrow> joi r (Some t) = Inr x \<longrightarrow>
        map lower t \<in> set (ssl_truthy @ ssl_falsy) \<and> x = Some (VBool (map lower t \<in> set ssl_truthy)))"

text \<open>Of the drivers: the SQL type of a column type and the SQL text of a default.\<close>

definition types_documented :: "(column_type \<Rightarrow> string) \<Rightarrow> (sql_default \<Rightarrow> string) \<Rightarrow> bool" where
  "types_documented sql_type sql_text \<longleftrightarrow>
     sql_type DateType = sql_type (TypeName ''timestamp'')
     \<and> (\<forall>t. sql_text (RawSql t) = t) \<and> (\<forall>v. sql_text (SqlValue v) = CHR 0x27 # v @ [CHR 0x27])"

section \<open>Schema properties\<close>

text \<open>How a column reads in SQL, and the columns an entity's index means.\<close>

definition column_sql ::
    "(column_type \<Rightarrow> string) \<Rightarrow> (sql_default \<Rightarrow> string) \<Rightarrow> column
     \<Rightarrow> string \<times> string \<times> nat option \<times> bool \<times> bool \<times> string option" where
  "column_sql sql_type sql_text c =
     (cn_name c, sql_type (cn_type c), cn_length c, cn_primary c, cn_nullable c, map_option sql_text (cn_default c))"

definition property_column :: "string \<Rightarrow> string" where
  "property_column prop =
     (case find (\<lambda>e. ec_property e = prop) entity_columns of None \<Rightarrow> prop | Some e \<Rightarrow> cn_name (ec_column e))"

text \<open>The entity the repository works with and the table the migration creates have the same columns, with the
  same types, lengths, defaults and constraints, and the same unique indexes, of which only the names
  may differ.\<close>

theorem entity_matches_migration:
  assumes "types_documented sql_type sql_text"
  shows "map (\<lambda>e. column_sql sql_type sql_text (ec_column e)) entity_columns = map (column_sql sql_type sql_text) users_columns
    \<and> set (map (\<lambda>i. (map property_column (ix_columns i), ix_unique i)) entity_indices)
      = set (map (\<lambda>i. (ix_columns i, ix_unique i)) users_indices)"
proof
  show "map (\<lambda>e. column_sql sql_type sql_text (ec_column e)) entity_columns = map (column_sql sql_type sql_text) users_columns"
    using assms by (simp add: types_documented_def entity_columns_def users_columns_def column_sql_def varchar_def)
  show "set (map (\<lambda>i. (map property_column (ix_columns i), ix_unique i)) entity_indices)
      = set (map (\<lambda>i. (ix_columns i, ix_unique i)) users_indices)"
    by (auto simp: entity_indices_def users_indices_def property_column_def entity_columns_def varchar_def)
qed

text \<open>So the table the repository finds under the entity's name, once the migration has run, is the one it
  expects; the migration does not run twice, and its \<open>down\<close> takes the table away again.\<close>

lemma runner_creates:
  assumes "query_runner_documented tables qr" and "qr_createTable qr t db = Inr db'"
  shows "tables db (tb_name t) = None \<and> tables db' = (tables db)(tb_name t \<mapsto> t)"
proof -
  have "case qr_createTable qr t db of Inl err \<Rightarrow> True
      | Inr d' \<Rightarrow> tables db (tb_name t) = None \<and> tables d' = (tables db)(tb_name t \<mapsto> t)"
    using assms(1) unfolding query_runner_documented_def by blast
  with assms(2) show ?thesis by simp
qed

theorem migrated_table_fits_entity:
  assumes doc: "query_runner_documented tables qr" "types_documented sql_type sql_text" and up: "migration_up qr db = Inr db1"
  shows "\<exists>t. tables db1 entity_name = Some t
    \<and> map (\<lambda>e. column_sql sql_type sql_text (ec_column e)) entity_columns = map (column_sql sql_type sql_text) (tb_columns t)
    \<and> set (map (\<lambda>i. (map property_column (ix_columns i), ix_unique i)) entity_indices)
        = set (map (\<lambda>i. (ix_columns i, ix_unique i)) (tb_indices t))
    \<and> isl (migration_up qr db1)
    \<and> (case migration_down qr db1 of Inl err \<Rightarrow> True | Inr db2 \<Rightarrow> tables db2 entity_name = None)"
proof -
  have n: "tb_name users_table = entity_name" by (simp add: users_table_def entity_name_def)
  have one: "tables db1 entity_name = Some users_table"
    using runner_creates [OF doc(1), of users_table db db1] up by (simp add: migration_up_def n)
  have "isl (migration_up qr db1)"
    using runner_creates [OF doc(1), of users_table db1] one
    by (cases "migration_up qr db1") (simp_all add: migration_up_def n)
  moreover have "case migration_down qr db1 of Inl err \<Rightarrow> True | Inr db2 \<Rightarrow> tables db2 entity_name = None"
    using doc(1) unfolding query_runner_documented_def migration_down_def entity_name_def by (force split: sum.splits)
  moreover note entity_matches_migration [OF doc(2)]
  ultimately show ?thesis using one by (simp add: users_table_def)
qed

definition sample_sql_type :: "column_type \<Rightarrow> string" where
  "sample_sql_type t = (case t of DateType \<Rightarrow> ''timestamp'' | TypeName n \<Rightarrow> n)"

definition sample_sql_text :: "sql_default \<Rightarrow> string" where
  "sample_sql_text d = (case d of RawSql t \<Rightarrow> t | SqlValue v \<Rightarrow> CHR 0x27 # v @ [CHR 0x27])"

lemma migrated_table_fits_entity_witness:
  "\<exists>db1 t. migration_up ref_runner (\<lambda>n. None) = Inr db1 \<and> db1 entity_name = Some t
    \<and> map (\<lambda>e. column_sql sample_sql_type sample_sql_text (ec_column e)) entity_columns
      = map (column_sql sample_sql_type sample_sql_text) (tb_columns t)"
proof -
  have "types_documented sample_sql_type sample_sql_text"
    by (simp add: types_documented_def sample_sql_type_def sample_sql_text_def)
  moreover have "migration_up ref_runner (\<lambda>n. None) = Inr ((\<lambda>n. None)(''users'' \<mapsto> users_table))"
    by (simp add: migration_up_def ref_runner_def users_table_def)
  ultimately show ?thesis using migrated_table_fits_entity [OF ref_runner_documented] by blast
qed

section \<open>Rows\<close>

text \<open>What a user writes into a column; \<open>created_at\<close> is left to the default.\<close>

datatype cell = NullCell | TextCell string | TimeCell int | DefaultCell

definition opt_cell :: "('a \<Rightarrow> cell) \<Rightarrow> 'a option \<Rightarrow> cell" where
  "opt_cell f v = (case v of None \<Rightarrow> NullCell | Some x \<Rightarrow> f x)"

definition cell_of :: "user \<Rightarrow> string \<Rightarrow> cell" where
  "cell_of u c =
     (if c = ''id'' then TextCell (us_id u)
      else if c = ''email'' then opt_cell TextCell (us_email u)
      else if c = ''display_name'' then TextCell (us_displayName u)
      else if c = ''provider'' then TextCell (us_provider u)
      else if c = ''provider_sub'' then TextCell (us_providerSub u)
      else if c = ''picture'' then opt_cell TextCell (us_picture u)
      else if c = ''last_login_at'' then opt_cell TimeCell (us_lastLoginAt u)
      else DefaultCell)"

text \<open>A unique index refuses a second row with the same cells, none of them null.\<close>

definition index_clash :: "table_index \<Rightarrow> user \<Rightarrow> user \<Rightarrow> bool" where
  "index_clash i u r \<longleftrightarrow> ix_unique i \<and> list_all (\<lambda>c. cell_of u c \<noteq> NullCell \<and> cell_of u c = cell_of r c) (ix_columns i)"

text \<open>The conflicts the repository's contract speaks of are exactly those the primary key and the unique indexes
  of the migration refuse.\<close>

theorem indexes_are_conflicts:
  "conflicts u r \<longleftrightarrow> us_id r \<noteq> us_id u \<and> list_ex (\<lambda>i. index_clash i u r) users_indices"
  by (auto simp: conflicts_def users_indices_def index_clash_def cell_of_def opt_cell_def split: option.splits)

definition cell_fits :: "column \<Rightarrow> cell \<Rightarrow> bool" where
  "cell_fits c v =
     (case v of
        NullCell \<Rightarrow> cn_nullable c
      | TextCell t \<Rightarrow> (case cn_length c of None \<Rightarrow> True | Some n \<Rightarrow> length t \<le> n)
      | TimeCell i \<Rightarrow> cn_type c = TypeName ''timestamp''
      | DefaultCell \<Rightarrow> cn_default c \<noteq> None)"

text \<open>A row fits when the migration has a column for every column of the entity, and each column of the table can
  hold what the row has there.\<close>

definition row_fits :: "user \<Rightarrow> bool" where
  "row_fits u \<longleftrightarrow>
     list_all (\<lambda>e. list_ex (\<lambda>c. cn_name c = cn_name (ec_column e)) users_columns) entity_columns
     \<and> list_all (\<lambda>c. cell_fits c (cell_of u (cn_name c))) users_columns"

definition fits_within :: "string option \<Rightarrow> nat \<Rightarrow> bool" where
  "fits_within t n = (case t of None \<Rightarrow> True | Some s \<Rightarrow> length s \<le> n)"

lemma row_fits_iff:
  "row_fits u \<longleftrightarrow> length (us_id u) \<le> 36 \<and> fits_within (us_email u) 255 \<and> length (us_displayName u) \<le> 255
     \<and> length (us_provider u) \<le> 32 \<and> length (us_providerSub u) \<le> 128 \<and> fits_within (us_picture u) 512"
  by (auto simp: row_fits_def users_columns_def entity_columns_def cell_fits_def cell_of_def opt_cell_def varchar_def fits_within_def
      split: option.splits)

lemma parse_dto_length:
  assumes "zod_on {anonymousLoginDto} zod" and "parseAnonymousDto zod body = Inr (Some t)"
  shows "length t \<le> 255"
proof -
  let ?v = "if body = JUndef \<or> body = JNull then JObj [] else body"
  from assms(2) obtain d where d: "zod anonymousLoginDto ?v = Inr d" and t: "opt_str (js_prop ''displayName'' d) = Some t"
    by (auto simp: parseAnonymousDto_def split: sum.splits)
  from zod_on_Inr [OF assms(1), of anonymousLoginDto ?v d] d have c: "conforms anonymousLoginDto ?v"
    and s: "d = stripped anonymousLoginDto ?v" by simp_all
  obtain o1 where o1: "?v = JObj o1" using c by (cases ?v) (simp_all add: anonymousLoginDto_def)
  have "js_prop ''displayName'' d = js_prop ''displayName'' ?v"
    unfolding s o1 by (simp add: anonymousLoginDto_def stripped_def) (induction o1; auto simp: jget_def)
  with t c show ?thesis unfolding o1
    by (cases "js_prop ''displayName'' (JObj o1)") (auto simp: anonymousLoginDto_def)
qed

lemma short_id_length: "length (fst (randomShortId to36 e)) \<le> 8"
  by (simp add: randomShortId_def split_def Let_def)

text \<open>C40: a guest who signs in never makes a row that the table of the migration cannot hold. The migration has a
  column for every column of the entity; when the rows of the table fit its columns and a new id is a UUID's 36
  characters, they fit afterwards, whatever display name was asked for.\<close>

theorem guest_rows_fit:
  assumes doc: "repo_documented rows (cx_repo cx)" and fits: "list_all row_fits (rows (au_db s))"
    and zod: "zod_on {anonymousLoginDto} zod" and uuid: "length (e_uuid (au_env s) (n_uuid (au_env s))) = 36"
    and run: "anonymousLogin cx zod to36 body s = (Inr r, effs, s')"
  shows "list_all row_fits (rows (au_db s'))"
proof -
  from anonymousLogin_Inr [OF run] obtain dn sid e1 si where dn: "parseAnonymousDto zod body = Inr dn"
    and sid: "randomShortId to36 (au_env s) = (sid, e1)"
    and si: "signInAnonymous cx (''anon-'' @ sid) (or_default dn ''Guest'') (s\<lparr>au_env := e1\<rparr>) = (Inr si, s')"
    by auto
  let ?p = "anonymous_profile (''anon-'' @ sid) (or_default dn ''Guest'')"
  have e1: "e_uuid e1 (n_uuid e1) = e_uuid (au_env s) (n_uuid (au_env s))"
    using sid by (auto simp: randomShortId_def read_rand_def split_def Let_def)
  have sub: "length sid \<le> 8" using short_id_length [of to36 "au_env s"] sid by simp
  have name: "length (or_default dn ''Guest'') \<le> 255"
    using parse_dto_length [OF zod] dn by (cases dn) simp_all
  obtain u e db where u: "upsertByProvider (cx_repo cx) ?p e1 (au_db s) = (Inr u, e, db)" and s': "au_db s' = db"
    using si by (auto simp: signInAnonymous_def upsert_user_eq split: prod.splits sum.splits)
  obtain f where f: "findByProviderSub (cx_repo cx) (op_provider ?p) (op_providerSub ?p) (au_db s) = Inr f"
    using u by (cases "findByProviderSub (cx_repo cx) (op_provider ?p) (op_providerSub ?p) (au_db s)")
      (auto simp: upsertByProvider_def)
  have "row_fits u \<and> set (rows db) \<subseteq> set (rows (au_db s)) \<union> {u}"
  proof (cases f)
    case None
    note n = upsert_new [OF doc f [unfolded None] u]
    have "row_fits u" unfolding n(2) using uuid e1 sub name by (simp add: row_fits_iff anonymous_profile_def fits_within_def)
    with n(3) show ?thesis by auto
  next
    case (Some w)
    note x = upsert_existing [OF doc f [unfolded Some] u]
    have "row_fits w" using x(1) fits by (simp add: list_all_iff)
    then have "row_fits u" unfolding x(3) using name by (simp add: row_fits_iff anonymous_profile_def fits_within_def)
    with x(4) show ?thesis by auto
  qed
  then show ?thesis using fits by (auto simp: s' list_all_iff)
qed

section \<open>Both data sources\<close>

text \<open>The command line and the application read the same database URL and agree on TLS, for every environment the
  schema accepts, though one reads the validated environment and the other the raw one; only the
  application runs the migrations by itself, and neither alters the schema to fit the entity.\<close>

theorem data_sources_agree:
  assumes joi: "joi_contract joi" "joi_boolean joi" and valid: "validateEnv joi bytes env = Inr v"
  shows "ds_url (AppDataSource v) = ds_url (app_data_source (database_config_of env))
    \<and> ds_ssl (AppDataSource v) = ds_ssl (app_data_source (database_config_of env))
    \<and> \<not> ds_synchronize (AppDataSource v) \<and> \<not> ds_synchronize (app_data_source (database_config_of env))"
proof -
  obtain w where w: "\<And>k r. (k, r) \<in> set env_schema \<Longrightarrow> joi r (env k) = Inr (w k)" and c: "env_custom bytes w = Inr v"
    using validateEnv_Inr [OF valid] by blast
  have v: "v ''DATABASE_URL'' = w ''DATABASE_URL''" "v ''DATABASE_SSL'' = w ''DATABASE_SSL''"
    using c by (auto simp: env_custom_def Let_def split: if_splits option.splits)
  let ?b = "(text_default []) \<lparr>er_kind := KBoolean, er_default := Some (VBool False)\<rparr>"
  have url: "joi postgresUrlSchema (env ''DATABASE_URL'') = Inr (w ''DATABASE_URL'')"
    and ssl: "joi ?b (env ''DATABASE_SSL'') = Inr (w ''DATABASE_SSL'')"
    by (rule w, simp add: env_schema_def)+
  have "env_text (w ''DATABASE_URL'') = or_default (env ''DATABASE_URL'') []"
  proof (cases "env ''DATABASE_URL''")
    case None
    moreover have "er_required postgresUrlSchema" by (simp add: env_rule_defs)
    ultimately have "isl (joi postgresUrlSchema (env ''DATABASE_URL''))" using joi(1) unfolding joi_contract_def by simp
    with url show ?thesis by simp
  next
    case (Some t)
    moreover have "er_kind postgresUrlSchema = KString" by (simp add: env_rule_defs)
    ultimately have "w ''DATABASE_URL'' = Some (VText t)" using joi(1) url unfolding joi_contract_def by metis
    then show ?thesis using Some by simp
  qed
  moreover have "env_truthy (w ''DATABASE_SSL'') = parseBoolean (env ''DATABASE_SSL'') False"
  proof (cases "env ''DATABASE_SSL''")
    case None
    moreover have "\<not> er_required ?b" "er_default ?b = Some (VBool False)" by (simp_all add: env_rule_defs)
    ultimately have "w ''DATABASE_SSL'' = Some (VBool False)" using joi(1) ssl unfolding joi_contract_def by (metis Inr_inject)
    then show ?thesis using None by (simp add: parseBoolean_def)
  next
    case (Some t)
    with ssl have run: "joi ?b (Some t) = Inr (w ''DATABASE_SSL'')" by simp
    have kind: "er_kind ?b = KBoolean" by simp
    have "map lower t \<in> set (ssl_truthy @ ssl_falsy)
        \<and> w ''DATABASE_SSL'' = Some (VBool (map lower t \<in> set ssl_truthy))"
      using joi(2) run kind unfolding joi_boolean_def by blast
    moreover from this have "t \<noteq> []" by (auto simp: ssl_truthy_def ssl_falsy_def)
    ultimately show ?thesis by (simp add: Some parseBoolean_def ssl_truthy_def)
  qed
  ultimately show ?thesis by (simp add: AppDataSource_def app_data_source_def database_config_of_def v)
qed

section \<open>Instances\<close>

lemma guest_rows_fit_witness:
  "\<exists>r effs s'. anonymousLogin demo_ctx zod_ref (\<lambda>r. ''0.k3v9zq'') JUndef
      (demo_auth\<lparr>au_env := demo_uuid_env\<lparr>e_uuid := (\<lambda>n. replicate 36 CHR ''7'')\<rparr>\<rparr>) = (Inr r, effs, s')
    \<and> list_all row_fits (au_db s')"
proof -
  let ?s = "demo_auth\<lparr>au_env := demo_uuid_env\<lparr>e_uuid := (\<lambda>n. replicate 36 CHR ''7'')\<rparr>\<rparr>"
  have ne: "''id1'' \<noteq> replicate 36 CHR ''7''" "replicate 36 CHR ''7'' \<noteq> ''id1''"
    by (simp_all add: numeral_eq_Suc)
  have dto: "parseAnonymousDto zod_ref JUndef = Inr None"
    by (simp add: parseAnonymousDto_def zod_ref_def anonymousLoginDto_def stripped_def jget_def)
  obtain r effs s' where run: "anonymousLogin demo_ctx zod_ref (\<lambda>r. ''0.k3v9zq'') JUndef ?s = (Inr r, effs, s')"
    by (simp add: anonymousLogin_def dto randomShortId_def read_rand_def signInAnonymous_def upsert_user_def
        upsertByProvider_def anonymous_profile_def create_user_def findByProviderSub_def read_clock_def read_uuid_def
        conflicts_def put_row_def demo_defs Let_def ne)
  have "repo_documented (\<lambda>db. db) (cx_repo demo_ctx)"
    using ref_repo_documented by (simp add: demo_ctx_def)
  moreover have "list_all row_fits (au_db ?s)"
    by (simp add: demo_auth_def demo_user_def row_fits_iff fits_within_def)
  ultimately have "list_all row_fits (au_db s')"
    using guest_rows_fit [OF _ _ zod_ref_on _ run, of "\<lambda>db. db"] by simp
  with run show ?thesis by blast
qed

definition sample_boolean :: rule_check where
  "sample_boolean r raw =
     (case raw of
        Some t \<Rightarrow>
          if er_kind r = KBoolean
          then if map lower t \<in> set (ssl_truthy @ ssl_falsy) then Inr (Some (VBool (map lower t \<in> set ssl_truthy)))
               else Inl ''boolean''
          else sample_check r raw
      | None \<Rightarrow> sample_check r raw)"

lemma sample_boolean_contract: "joi_contract sample_boolean" "joi_boolean sample_boolean"
  using sample_check_contract
  by (auto simp: joi_contract_def joi_boolean_def sample_boolean_def split: if_splits)

lemma data_sources_agree_witness:
  "\<exists>v. validateEnv sample_boolean (replicate 48 7) (sample_env(''DATABASE_SSL'' \<mapsto> ''Yes'')) = Inr v
    \<and> ds_url (AppDataSource v) = ''postgres://db'' \<and> ds_ssl (AppDataSource v) = SslUnverified"
proof -
  let ?env = "sample_env(''DATABASE_SSL'' \<mapsto> ''Yes'')"
  have "isl (validateEnv sample_boolean (replicate 48 7) ?env) = False" by code_simp
  then obtain v where v: "validateEnv sample_boolean (replicate 48 7) ?env = Inr v"
    by (cases "validateEnv sample_boolean (replicate 48 7) ?env") simp_all
  have "database_config_of ?env = (''postgres://db'', True)" by code_simp
  with data_sources_agree [OF sample_boolean_contract v] v show ?thesis by (simp add: app_data_source_def)
qed

end
