(* ===== verification/Bootstrap.thy ===== *)
theory Bootstrap
  imports Tokens Persistence
begin

text \<open>
  How the process starts: the configuration the root module loads, what the factories of the modules and the
  constructors of the components make of it, and the steps of \<open>bootstrap\<close> in \<open>src/src/main.ts\<close>. The framework
  that runs the steps is not modelled: they are values, in the order of the calls.
\<close>

section \<open>The configuration service\<close>

text \<open>The namespaces \<open>AppModule\<close> loads.\<close>

record config_service =
  cf_app :: app_config
  cf_auth :: auth_config
  cf_database :: "string \<times> bool"
  cf_google :: "string \<times> string \<times> string"
  cf_livekit :: livekit_config
  cf_presence :: int
  cf_rateLimit :: rl_env_source
  cf_redis :: string
  cf_security :: "int \<times> int"
  cf_signaling :: string
  cf_turn :: turn_env_config

definition load_config :: "process_env \<Rightarrow> config_service" where
  "load_config env =
     \<lparr>cf_app = app_config_of env, cf_auth = auth_config_of env, cf_database = database_config_of env,
      cf_google = google_config_of env, cf_livekit = livekit_config_of env, cf_presence = presence_config_of env,
      cf_rateLimit = rate_limit_config_of env, cf_redis = redis_config_of env, cf_security = security_config_of env,
      cf_signaling = signaling_config_of env, cf_turn = turn_config_of env\<rparr>"

section \<open>Factories of the modules\<close>

text \<open>\<open>AuthModule\<close>: the throttler and the map of the sign-in providers.\<close>

definition throttlers :: "(string \<times> int \<times> int) list" where
  "throttlers = [(''default'', 60000, 10)]"

definition oauth_providers :: "oauth_provider \<Rightarrow> providers_map" where
  "oauth_providers google = (let m = jempty in Some (jset (pm_name (pv_meta google)) google m))"

text \<open>\<open>SecurityModule\<close>: the rate limits and the time to live of media tokens.\<close>

definition module_rate_limits :: "config_service \<Rightarrow> rl_config" where
  "module_rate_limits cfg = security_module_config (cf_rateLimit cfg)"

definition module_token_ttl :: "config_service \<Rightarrow> rat" where
  "module_token_ttl cfg =
     (let (sfu, turn) = cf_security cfg in parseTokenTtl (Some (of_int sfu)) (Some (of_int turn)))"

text \<open>\<open>MediaProviderModule\<close>: the provider, and what its bootstrap logger writes.\<close>

definition media_source :: "livekit_config \<Rightarrow> media_env" where
  "media_source cfg =
     \<lparr>me_url = Some (lc_url cfg), me_httpUrl = Some (lc_httpUrl cfg), me_apiKey = Some (lc_apiKey cfg),
      me_apiSecret = Some (lc_apiSecret cfg)\<rparr>"

definition module_media_provider :: "livekit_config \<Rightarrow> media_provider" where
  "module_media_provider cfg = selectMediaProvider (readMediaProviderEnv (media_source cfg))"

datatype boot_line = BootLog string | BootWarn string

definition onApplicationBootstrap :: "livekit_config \<Rightarrow> boot_line" where
  "onApplicationBootstrap cfg =
     (let url = lc_url cfg; apiKey = lc_apiKey cfg; apiSecret = lc_apiSecret cfg;
          httpUrl = (if lc_httpUrl cfg \<noteq> [] then lc_httpUrl cfg else deriveHttpUrl url)
      in if url \<noteq> [] \<and> apiKey \<noteq> [] \<and> apiSecret \<noteq> []
         then BootLog (''MediaProvider: LiveKit (url='' @ url @ '', httpUrl='' @ httpUrl @ '', key='' @ apiKey @ '')'')
         else BootWarn ''MediaProvider: Noop (LIVEKIT_URL/LIVEKIT_API_KEY/LIVEKIT_API_SECRET not all set)'')"

text \<open>\<open>ObservabilityModule\<close>: the options of the request logger; the function that picks a level is \<open>customLogLevel\<close>.\<close>

record pino_options =
  po_level :: string
  po_redact :: "string list \<times> string"
  po_transport :: "(string \<times> (string \<times> jsval) list) option"

definition structuredLoggerRedaction :: "string list \<times> string" where
  "structuredLoggerRedaction = (REDACT_PATHS, ''[REDACTED]'')"

text \<open>The arguments are what the configuration service gives for \<open>app.nodeEnv\<close> and \<open>app.logLevel\<close>.\<close>

definition pino_options_of :: "string option \<Rightarrow> string option \<Rightarrow> pino_options" where
  "pino_options_of cfg_nodeEnv cfg_logLevel =
     (let nodeEnv = or_default cfg_nodeEnv ''development''; isProduction = (nodeEnv = ''production'');
          logLevel = or_default cfg_logLevel (if isProduction then ''info'' else ''debug'')
      in \<lparr>po_level = logLevel, po_redact = structuredLoggerRedaction,
          po_transport =
            (if isProduction then None
             else Some (''pino-pretty'', [(''singleLine'', JBool True), (''translateTime'', JStr ''SYS:standard''),
                                          (''ignore'', JStr ''pid,hostname,context'')]))\<rparr>)"

definition module_pino_options :: "config_service \<Rightarrow> pino_options" where
  "module_pino_options cfg = pino_options_of (Some (ac_nodeEnv (cf_app cfg))) (Some (ac_logLevel (cf_app cfg)))"

definition autoLogging_ignore :: "jsval \<Rightarrow> bool" where
  "autoLogging_ignore req \<longleftrightarrow> js_prop ''url'' req = JStr ''/metrics'' \<or> js_prop ''url'' req = JStr ''/health''"

definition log_response :: "jsval \<Rightarrow> jsval" where
  "log_response res = JObj [(''statusCode'', js_prop ''statusCode'' res)]"

section \<open>Constructors\<close>

definition gateway_config :: "config_service \<Rightarrow> string \<times> string" where
  "gateway_config cfg = (cf_signaling cfg, ac_corsOrigin (cf_app cfg))"

text \<open>The constructors of the SFU service and of the health probe, from the LiveKit namespace.\<close>

definition sfu_config_of :: "livekit_config \<Rightarrow> sfu_config" where
  "sfu_config_of cfg =
     \<lparr>sfu_apiKey = Some (lc_apiKey cfg), sfu_apiSecret = Some (lc_apiSecret cfg), sfu_url_cfg = Some (lc_sfuUrl cfg)\<rparr>"

definition module_health_config :: "livekit_config \<Rightarrow> health_config" where
  "module_health_config cfg =
     health_config_of (Some (lc_url cfg)) (Some (lc_httpUrl cfg)) (Some (lc_apiKey cfg)) (Some (lc_apiSecret cfg))"

definition createLiveKitClient :: "string \<Rightarrow> string \<Rightarrow> string \<Rightarrow> lk_client" where
  "createLiveKitClient url apiKey apiSecret = \<lparr>lkc_url = url, lkc_apiKey = apiKey, lkc_apiSecret = apiSecret\<rparr>"

definition livekit_defaultTtl :: "int option \<Rightarrow> int" where
  "livekit_defaultTtl option = or_default option DEFAULT_TOKEN_TTL_SECONDS"

definition noop_options :: "string option \<Rightarrow> int option \<Rightarrow> string \<times> int" where
  "noop_options url ttlSeconds = (or_default url NOOP_URL, or_default ttlSeconds NOOP_TOKEN_TTL_SECONDS)"

definition redis_defaultTtl :: "jsnum option \<Rightarrow> int" where
  "redis_defaultTtl defaultTtlSeconds = resolvePresenceTtl defaultTtlSeconds"

text \<open>Closing the Redis presence service: the requests made, given the state of the client and whether it answers.\<close>

definition redis_onModuleDestroy :: "string \<Rightarrow> bool \<Rightarrow> conn_step list" where
  "redis_onModuleDestroy status quit =
     (if status \<noteq> ''end'' then (if quit then [RQuit] else [RQuit, RDisconnect]) else [])"

text \<open>What the handler of connection errors of the Redis client prints, when the caller gives none.\<close>

definition redis_error_line :: "string \<Rightarrow> string \<times> string" where
  "redis_error_line message = (''[presence] redis error'', message)"

record rate_limit_service =
  rs_config :: rl_config
  rs_backend :: rl_backend
  rs_sweepEvery :: int
  rs_sweeping :: bool

definition rate_limit_service_of :: "rl_config option \<Rightarrow> rl_backend option \<Rightarrow> int option \<Rightarrow> rate_limit_service" where
  "rate_limit_service_of config backend sweepIntervalMs =
     \<lparr>rs_config = or_default config DEFAULT_RATE_LIMIT_CONFIG,
      rs_backend = or_default backend createDefaultBackend, rs_sweepEvery = or_default sweepIntervalMs 60000,
      rs_sweeping = True\<rparr>"

definition rate_limit_destroy :: "rate_limit_service \<Rightarrow> rate_limit_service" where
  "rate_limit_destroy s = s\<lparr>rs_sweeping := False\<rparr>"

section \<open>Log lines\<close>

datatype log_method = MLog | MError | MWarn | MDebug | MVerbose | MFatal

fun pino_level :: "log_method \<Rightarrow> string" where
  "pino_level MLog = ''info''"
| "pino_level MError = ''error''"
| "pino_level MWarn = ''warn''"
| "pino_level MDebug = ''debug''"
| "pino_level MVerbose = ''trace''"
| "pino_level MFatal = ''fatal''"

definition structured_log :: "log_method \<Rightarrow> jsval \<Rightarrow> jsval list \<Rightarrow> string \<times> jsval" where
  "structured_log m message optionalParams = (pino_level m, formatOptional optionalParams message)"

definition console_counter :: "(jsval \<Rightarrow> string) \<Rightarrow> string \<Rightarrow> labels option \<Rightarrow> string" where
  "console_counter stringify name ls = ''metric counter '' @ name @ '' '' @ formatLabels stringify ls"

definition console_histogram :: "(jsval \<Rightarrow> string) \<Rightarrow> (jsnum \<Rightarrow> string) \<Rightarrow> string \<Rightarrow> jsnum \<Rightarrow> labels option \<Rightarrow> string" where
  "console_histogram stringify num_str name v ls =
     ''metric histogram '' @ name @ ''='' @ num_str v @ '' '' @ formatLabels stringify ls"

definition console_gauge :: "(jsval \<Rightarrow> string) \<Rightarrow> (jsnum \<Rightarrow> string) \<Rightarrow> string \<Rightarrow> jsnum \<Rightarrow> labels option \<Rightarrow> string" where
  "console_gauge stringify num_str name v ls =
     ''metric gauge '' @ name @ ''='' @ num_str v @ '' '' @ formatLabels stringify ls"

definition noop_onCallEvent :: "string \<Rightarrow> string \<Rightarrow> string \<Rightarrow> string" where
  "noop_onCallEvent callId event actorUserId =
     ''[no-op] onCallEvent callId='' @ callId @ '' event='' @ event @ '' actor='' @ actorUserId"

section \<open>\<open>bootstrap\<close>\<close>

datatype boot_step =
    CreateApp bool
  | UseCookieParser
  | SetGlobalPrefix string "string list"
  | EnableCors string bool
  | UseWebSocketAdapter io_adapter
  | ListenOn int
  | BootLogLine string

definition bootstrap :: "config_service \<Rightarrow> boot_step list" where
  "bootstrap cfg =
     (let httpPort = ac_port (cf_app cfg);
          namespace = cf_signaling cfg;
          corsOrigin = ac_corsOrigin (cf_app cfg)
      in [CreateApp False, UseCookieParser, SetGlobalPrefix ''api'' prefix_exclude,
          EnableCors (parseCorsOrigin (Some corsOrigin)) True,
          UseWebSocketAdapter (createIOServer (bootstrap_adapter (Some (cf_redis cfg)))),
          ListenOn httpPort,
          BootLogLine (''Signaling server listening on http://localhost:'' @ show_int httpPort),
          BootLogLine (''Socket.IO signaling: '' @ namespace @ '' (path /socket.io)'')])"

section \<open>Properties\<close>

text \<open>The parts that depend on LiveKit agree on whether it is configured: the provider is the LiveKit one
  exactly when the log line of the start says so, and then the health probe says so too and asks the
  same server, and SFU tokens are issued and lead to a server. The converse fails for the tokens: with a
  key and a secret and no URL there is no provider, and tokens are issued that lead nowhere.\<close>

theorem livekit_parts_agree:
  "(case module_media_provider (livekit_config_of env) of
      NoopProvider \<Rightarrow>
        onApplicationBootstrap (livekit_config_of env)
          = BootWarn ''MediaProvider: Noop (LIVEKIT_URL/LIVEKIT_API_KEY/LIVEKIT_API_SECRET not all set)''
        \<and> \<not> lh_configured (health_base (module_health_config (livekit_config_of env)))
    | LiveKitProvider c \<Rightarrow>
        onApplicationBootstrap (livekit_config_of env)
          = BootLog (''MediaProvider: LiveKit (url='' @ lc_url (livekit_config_of env) @ '', httpUrl='' @ lkc_url c
                     @ '', key='' @ lkc_apiKey c @ '')'')
        \<and> lh_configured (health_base (module_health_config (livekit_config_of env)))
        \<and> has_direct_client (module_health_config (livekit_config_of env))
        \<and> hc_httpUrl (module_health_config (livekit_config_of env)) = lkc_url c \<and> lkc_url c \<noteq> []
        \<and> (\<exists>t. fst (issueToken lk (sfu_config_of (livekit_config_of env)) k u e) = Inr t \<and> st_url t \<noteq> []))
   \<and> module_media_provider (livekit_config_of [''LIVEKIT_API_KEY'' \<mapsto> ''a'', ''LIVEKIT_API_SECRET'' \<mapsto> ''b'']) = NoopProvider
   \<and> (\<exists>t. fst (issueToken lk (sfu_config_of (livekit_config_of
          [''LIVEKIT_API_KEY'' \<mapsto> ''a'', ''LIVEKIT_API_SECRET'' \<mapsto> ''b''])) k u e) = Inr t \<and> st_url t = [])"
proof -
  have derive: "deriveHttpUrl url \<noteq> []" if "url \<noteq> []" for url
    using that by (auto simp: deriveHttpUrl_def starts_with_def)
  have http: "lc_httpUrl (livekit_config_of env) \<noteq> []" if "lc_url (livekit_config_of env) \<noteq> []"
    using that derive by (auto simp: livekit_config_of_def Let_def or_text_def split: option.splits)
  have sfu: "lc_sfuUrl (livekit_config_of env) \<noteq> []" if "lc_url (livekit_config_of env) \<noteq> []"
    using that by (auto simp: livekit_config_of_def Let_def or_text_def split: option.splits)
  show ?thesis
    using http sfu
    by (auto simp: module_media_provider_def selectMediaProvider_def readMediaProviderEnv_def media_source_def Let_def
        truthy_str_def onApplicationBootstrap_def health_base_def module_health_config_def health_config_of_def
        has_direct_client_def issueToken_def sfu_config_of_def split_def
        livekit_config_of_def [of "[''LIVEKIT_API_KEY'' \<mapsto> ''a'', ''LIVEKIT_API_SECRET'' \<mapsto> ''b'']"] or_text_def deriveHttpUrl_def
        split: media_provider.splits if_splits)
qed

text \<open>Credentials are allowed together with the wildcard origin exactly when no other origin is configured, and
  requests are logged from \<open>debug\<close> on when no level is, in production as elsewhere. The server is set up
  completely before it listens.\<close>

theorem startup_defaults:
  "(EnableCors ''*'' True \<in> set (bootstrap (load_config env)) \<longleftrightarrow> env ''CORS_ORIGIN'' \<in> {None, Some ''*''})
   \<and> po_level (module_pino_options (load_config (env(''LOG_LEVEL'' := None)))) = ''debug''
   \<and> (po_transport (module_pino_options (load_config env)) = None \<longleftrightarrow> env ''NODE_ENV'' = Some ''production'')
   \<and> takeWhile (\<lambda>x. case x of ListenOn p \<Rightarrow> False | _ \<Rightarrow> True) (bootstrap (load_config env))
     = [CreateApp False, UseCookieParser, SetGlobalPrefix ''api'' prefix_exclude,
        EnableCors (or_default (env ''CORS_ORIGIN'') ''*'') True,
        UseWebSocketAdapter (case env ''REDIS_URL'' of None \<Rightarrow> InMemoryAdapter
          | Some url \<Rightarrow> if url = [] then InMemoryAdapter else RedisAdapter url)]"
  by (cases "env ''REDIS_URL''"; cases "env ''NODE_ENV''"; cases "env ''CORS_ORIGIN''")
    (auto simp: bootstrap_def load_config_def Let_def app_config_of_def parseCorsOrigin_def redis_config_of_def
      bootstrap_adapter_def adapter_redisUrl_def createIOServer_def module_pino_options_def pino_options_of_def or_default_def)

text \<open>The limits and the time to live the security module hands out are those of the environment when these are
  positive numbers written in decimal.\<close>

theorem module_security_spec:
  assumes "n > 0"
  shows "module_token_ttl (load_config (env(''SFU_TOKEN_TTL_SECONDS'' \<mapsto> show_int n))) = of_int n
    \<and> ipPerSecond (module_rate_limits (load_config (env(''RATE_LIMIT_IP_PER_SECOND'' \<mapsto> show_int n)))) = of_int n"
  using assms
  by (simp add: module_token_ttl_def module_rate_limits_def load_config_def security_config_of_def parseTokenTtl_def
      parseInteger_def js_number_show js_integer_def security_module_config_def rate_limit_config_of_def
      parseRateLimitConfig_def Let_def)

lemma module_security_spec_witness: "module_token_ttl (load_config [''SFU_TOKEN_TTL_SECONDS'' \<mapsto> show_int 90]) = 90"
  using module_security_spec [of 90 "\<lambda>_. None"] by simp

end
