(* ===== verification/OneShot.thy ===== *)
theory OneShot
  imports Main
begin

text \<open>
  The contract of a promise that is settled from several callbacks: whatever the callbacks are and in
  whatever order they come, the first that settles it decides, and nothing changes the result
  afterwards. \<open>decide\<close> is what an event would settle the promise with, if it does.
\<close>

fun first_some :: "'a option list \<Rightarrow> 'a option" where
  "first_some [] = None"
| "first_some (Some x # xs) = Some x"
| "first_some (None # xs) = first_some xs"

lemma first_some_append: "first_some (xs @ ys) = (case first_some xs of None \<Rightarrow> first_some ys | Some x \<Rightarrow> Some x)"
  by (induction xs rule: first_some.induct) simp_all

lemma first_some_None: "first_some xs = None \<longleftrightarrow> list_all (\<lambda>x. x = None) xs"
  by (induction xs rule: first_some.induct) simp_all

locale one_shot =
  fixes step :: "'ev \<Rightarrow> 's \<Rightarrow> 's"
    and inv :: "'s \<Rightarrow> bool"
    and result :: "'s \<Rightarrow> 'r option"
    and decide :: "'ev \<Rightarrow> 'r option"
  assumes step_inv: "inv s \<Longrightarrow> inv (step e s)"
    and step_result: "inv s \<Longrightarrow> result (step e s) = (case result s of None \<Rightarrow> decide e | Some r \<Rightarrow> Some r)"
begin

lemma run_inv: "inv s \<Longrightarrow> inv (fold step evs s)"
  by (induction evs arbitrary: s) (simp_all add: step_inv)

lemma run_result:
  "inv s \<Longrightarrow> result (fold step evs s) = (case result s of None \<Rightarrow> first_some (map decide evs) | Some r \<Rightarrow> Some r)"
proof (induction evs arbitrary: s)
  case (Cons e evs)
  then show ?case
    by (cases "decide e") (simp_all add: step_inv step_result split: option.split)
qed (simp split: option.split)

lemma settled_for_good: "inv s \<Longrightarrow> result s = Some r \<Longrightarrow> result (fold step evs s) = Some r"
  by (simp add: run_result)

end

end
