(* ===== verification/SmokeClient.thy ===== *)
theory SmokeClient
  imports OneShot ServerProps Base64
begin

text \<open>
  The smoke test, \<open>src/scripts/smoke-call.js\<close> with \<open>src/scripts/smoke-livekit-client.js\<close>: the tokens it signs, the
  requests it sends, the promises it waits on, and the run of its steps. \<open>hmac\<close> is the HMAC of the crypto
  module; events of sockets and timers are the inputs of the machines.
\<close>

section \<open>Tokens\<close>

text \<open>The UTF-8 bytes of a text; a character here is a code point below 256.\<close>

definition utf8_char :: "char \<Rightarrow> 8 word list" where
  "utf8_char c =
     (let n = of_char c :: nat
      in if n < 128 then [of_nat n] else [of_nat (192 + n div 64), of_nat (128 + n mod 64)])"

definition utf8 :: "string \<Rightarrow> 8 word list" where
  "utf8 s = concat (map utf8_char s)"

definition b64url :: "string \<Rightarrow> string" where
  "b64url input = base64url (utf8 input)"

definition signJwtHS256 :: "(string \<Rightarrow> string \<Rightarrow> 8 word list) \<Rightarrow> string \<Rightarrow> string \<Rightarrow> string" where
  "signJwtHS256 hmac payload secret =
     (let header = ''{\"alg\":\"HS256\",\"typ\":\"JWT\"}'';
          encoded = b64url header @ ''.'' @ b64url payload
      in encoded @ ''.'' @ base64url (hmac secret encoded))"

text \<open>\<open>JSON.stringify\<close> of the claims.\<close>

definition claims_text :: "string \<Rightarrow> int \<Rightarrow> string" where
  "claims_text userId iat =
     ''{\"sub\":'' @ json_quote userId @ '',\"iat\":'' @ show_int iat @ '',\"exp\":'' @ show_int (iat + 3600) @
     '',\"iss\":\"smoke-test\"}''"

definition mintToken :: "(string \<Rightarrow> string \<Rightarrow> 8 word list) \<Rightarrow> string \<Rightarrow> int \<Rightarrow> string \<Rightarrow> string" where
  "mintToken hmac JWT_SECRET now userId = signJwtHS256 hmac (claims_text userId (now div 1000)) JWT_SECRET"

text \<open>The check of the step that verifies a token: the signature, then the decoded payload's claims.\<close>

record livekit_claims =
  lc_sub :: string
  lc_room :: "string option"

definition verify_step ::
    "(string \<Rightarrow> string \<Rightarrow> 8 word list) \<Rightarrow> (8 word list \<Rightarrow> livekit_claims option) \<Rightarrow> string \<Rightarrow> string \<Rightarrow> string
     \<Rightarrow> string + string" where
  "verify_step hmac parse secret alice token =
     (case js_split CHR ''.'' token of
        h # p # s # rest \<Rightarrow>
          if s \<noteq> base64url (hmac secret (h @ ''.'' @ p)) then Inl ''LiveKit JWT signature mismatch''
          else (case parse (b64_decode p) of
                  None \<Rightarrow> Inl ''Unexpected token''
                | Some c \<Rightarrow>
                    if lc_sub c \<noteq> alice then Inl (''unexpected sub: '' @ lc_sub c)
                    else (case lc_room c of
                            None \<Rightarrow> Inl ''no video grant''
                          | Some room \<Rightarrow> if room = [] then Inl ''no video grant''
                                         else Inr (''sub='' @ lc_sub c @ '' room='' @ room)))
      | _ \<Rightarrow> Inl ''LiveKit JWT signature mismatch'')"

section \<open>Requests\<close>

text \<open>What is sent: the header of a body counts its bytes; an empty port is port 80.\<close>

record smoke_options =
  sk_method :: string
  sk_port :: string
  sk_path :: string
  sk_headers :: "(string \<times> string) list"
  sk_data :: "string option"

definition httpJson_request ::
    "string \<Rightarrow> string \<Rightarrow> string \<Rightarrow> string option \<Rightarrow> string option \<Rightarrow> smoke_options" where
  "httpJson_request meth port path body token =
     (let headers = [(''Accept'', ''application/json'')] @
            (case body of None \<Rightarrow> []
             | Some data \<Rightarrow> [(''Content-Type'', ''application/json''), (''Content-Length'', show_nat (length (utf8 data)))]) @
            (case token of None \<Rightarrow> [] | Some t \<Rightarrow> if t = [] then [] else [(''Authorization'', ''Bearer '' @ t)])
      in \<lparr>sk_method = meth, sk_port = (if port = [] then ''80'' else port), sk_path = path, sk_headers = headers,
          sk_data = body\<rparr>)"

text \<open>How the promise is settled when the response has ended.\<close>

definition httpJson_settle ::
    "(string \<Rightarrow> jsval option) \<Rightarrow> string \<Rightarrow> string \<Rightarrow> nat \<Rightarrow> string \<Rightarrow> string + jsval" where
  "httpJson_settle parse meth path status text =
     (if status < 200 \<or> status \<ge> 300
      then Inl (meth @ '' '' @ path @ '' -> '' @ show_nat status @ '' '' @ take 200 text)
      else if text = [] then Inr JNull
      else (case parse text of Some v \<Rightarrow> Inr v | None \<Rightarrow> Inr (JStr text)))"

section \<open>Waiting for an acknowledgement\<close>

datatype ack_event = AckTimer | AckResponse jsval | AckException jsval

record ack_state =
  ak_settled :: bool
  ak_timer :: bool
  ak_result :: "(string + jsval) option"

definition ack_start :: ack_state where
  "ack_start = \<lparr>ak_settled = False, ak_timer = True, ak_result = None\<rparr>"

text \<open>A cleared timer does not fire. \<open>str\<close> is what a template prints of a value.\<close>

fun emitAck_step :: "(jsval \<Rightarrow> string) \<Rightarrow> string \<Rightarrow> ack_event \<Rightarrow> ack_state \<Rightarrow> ack_state" where
  "emitAck_step str event AckTimer s =
     (if \<not> ak_timer s \<or> ak_settled s then s
      else s\<lparr>ak_settled := True, ak_timer := False, ak_result := Some (Inl (''emit '' @ event @ '' timed out''))\<rparr>)"
| "emitAck_step str event (AckResponse r) s =
     (if ak_settled s then s
      else s\<lparr>ak_settled := True, ak_timer := False, ak_result :=
        Some (if \<not> js_falsy r \<and> \<not> js_falsy (js_prop ''error'' r)
              then Inl (event @ '' error: '' @ str (js_prop ''error'' r)) else Inr r)\<rparr>)"
| "emitAck_step str event (AckException err) s =
     (if ak_settled s then s
      else s\<lparr>ak_settled := True, ak_timer := False, ak_result :=
        Some (Inl (event @ '' exception: '' @
          (if js_nullish (js_prop ''message'' err) then ''unknown'' else str (js_prop ''message'' err))))\<rparr>)"

definition ack_decide :: "(jsval \<Rightarrow> string) \<Rightarrow> string \<Rightarrow> ack_event \<Rightarrow> (string + jsval) option" where
  "ack_decide str event e = ak_result (emitAck_step str event e ack_start)"

definition ack_inv :: "ack_state \<Rightarrow> bool" where
  "ack_inv s \<longleftrightarrow> (ak_settled s \<longleftrightarrow> ak_result s \<noteq> None) \<and> (ak_timer s \<longleftrightarrow> \<not> ak_settled s)"

interpretation ack: one_shot "emitAck_step str event" ack_inv ak_result "ack_decide str event" for str event
proof
  fix s e assume s: "ack_inv s"
  show "ack_inv (emitAck_step str event e s)"
    using s by (cases e) (auto simp: ack_inv_def)
  show "ak_result (emitAck_step str event e s) = (case ak_result s of None \<Rightarrow> ack_decide str event e | Some r \<Rightarrow> Some r)"
    using s by (cases e) (auto simp: ack_inv_def ack_decide_def ack_start_def)
qed

section \<open>Connecting to the media server\<close>

record ws_url =
  wu_protocol :: string
  wu_host :: string
  wu_path :: string
  wu_params :: "(string, string) jmap"

definition livekit_url :: "ws_url \<Rightarrow> string \<Rightarrow> ws_url" where
  "livekit_url u token =
     u\<lparr>wu_path := ''/rtc'', wu_params := jset ''access_token'' token (wu_params u),
       wu_protocol := if wu_protocol u = ''wss:'' then ''wss:'' else ''ws:''\<rparr>"

text \<open>A message with the bytes of its buffer, or with those of its text.\<close>

datatype lk_event = LkTimer | LkOpen | LkBinary nat | LkText nat | LkError string | LkClose int string

record lk_state =
  lk_closed :: bool
  lk_timer :: bool
  lk_sent :: "string list"
  lk_closes :: nat
  lk_result :: "(string + string) option"

definition lk_start :: lk_state where
  "lk_start = \<lparr>lk_closed = False, lk_timer = True, lk_sent = [], lk_closes = 0, lk_result = None\<rparr>"

definition lk_join_text :: string where
  "lk_join_text = ''{\"msg\":1,\"connect\":true,\"auto_subscribe\":true,\"reconnect\":false}''"

text \<open>A promise that is settled stays as it is.\<close>

definition lk_settle :: "string + string \<Rightarrow> lk_state \<Rightarrow> lk_state" where
  "lk_settle r s = (case lk_result s of None \<Rightarrow> s\<lparr>lk_result := Some r\<rparr> | Some _ \<Rightarrow> s)"

definition lk_answered :: "string \<Rightarrow> lk_state \<Rightarrow> lk_state" where
  "lk_answered summary s =
     (if lk_closed s then s
      else lk_settle (Inr (''LiveKit responded with '' @ summary))
             (s\<lparr>lk_closed := True, lk_timer := False, lk_closes := Suc (lk_closes s)\<rparr>))"

fun connectLiveKit_step :: "int \<Rightarrow> lk_event \<Rightarrow> lk_state \<Rightarrow> lk_state" where
  "connectLiveKit_step timeoutMs LkTimer s =
     (if \<not> lk_timer s \<or> lk_closed s then s
      else lk_settle (Inl (''LiveKit WS connect timeout after '' @ show_int timeoutMs @ ''ms''))
             (s\<lparr>lk_closed := True, lk_timer := False, lk_closes := Suc (lk_closes s)\<rparr>))"
| "connectLiveKit_step timeoutMs LkOpen s = s\<lparr>lk_sent := lk_sent s @ [lk_join_text]\<rparr>"
| "connectLiveKit_step timeoutMs (LkBinary n) s = lk_answered (''binary frame ('' @ show_nat n @ '' bytes)'') s"
| "connectLiveKit_step timeoutMs (LkText n) s = lk_answered (''text frame ('' @ show_nat n @ '' chars)'') s"
| "connectLiveKit_step timeoutMs (LkError err) s =
     (if lk_closed s then s else lk_settle (Inl err) (s\<lparr>lk_closed := True, lk_timer := False\<rparr>))"
| "connectLiveKit_step timeoutMs (LkClose code reason) s =
     (if lk_closed s then s
      else lk_settle (Inl (''LiveKit WS closed before handshake: code='' @ show_int code @ '' reason='' @ take 120 reason))
             (s\<lparr>lk_timer := False\<rparr>))"

definition lk_decide :: "int \<Rightarrow> lk_event \<Rightarrow> (string + string) option" where
  "lk_decide timeoutMs e = lk_result (connectLiveKit_step timeoutMs e lk_start)"

definition lk_inv :: "lk_state \<Rightarrow> bool" where
  "lk_inv s \<longleftrightarrow> (if lk_closed s then lk_result s \<noteq> None else lk_timer s = (lk_result s = None))"

lemma lk_settle_simps [simp]:
  "lk_result (lk_settle r s) = (case lk_result s of None \<Rightarrow> Some r | Some x \<Rightarrow> Some x)"
  "lk_closed (lk_settle r s) = lk_closed s" "lk_timer (lk_settle r s) = lk_timer s" "lk_closes (lk_settle r s) = lk_closes s"
  by (simp_all add: lk_settle_def split: option.split)

interpretation livekit: one_shot "connectLiveKit_step timeoutMs" lk_inv lk_result "lk_decide timeoutMs" for timeoutMs
proof
  fix s e assume s: "lk_inv s"
  show "lk_inv (connectLiveKit_step timeoutMs e s)"
    using s by (cases e) (auto simp: lk_inv_def lk_answered_def split: option.splits if_splits)
  show "lk_result (connectLiveKit_step timeoutMs e s)
      = (case lk_result s of None \<Rightarrow> lk_decide timeoutMs e | Some r \<Rightarrow> Some r)"
    using s by (cases e)
      (auto simp: lk_inv_def lk_answered_def lk_decide_def lk_start_def split: option.splits if_splits)
qed

section \<open>Steps and summary\<close>

datatype step_record = StepOk string string | StepFail string string

fun step_passed :: "step_record \<Rightarrow> bool" where
  "step_passed (StepOk n d) = True"
| "step_passed (StepFail n e) = False"

text \<open>\<open>step\<close>: the outcome is recorded, and an error is thrown again.\<close>

definition smoke_step ::
    "string \<Rightarrow> ('w \<Rightarrow> (string + string) \<times> 'w) \<Rightarrow> 'w \<Rightarrow> step_record list \<Rightarrow> (string + unit) \<times> 'w \<times> step_record list" where
  "smoke_step name fn w results =
     (case fn w of
        (Inr detail, w') \<Rightarrow> (Inr (), w', results @ [StepOk name detail])
      | (Inl err, w') \<Rightarrow> (Inl err, w', results @ [StepFail name err]))"

text \<open>The body of \<open>main\<close> awaits one step after the other.\<close>

fun smoke_steps ::
    "(string \<times> ('w \<Rightarrow> (string + string) \<times> 'w)) list \<Rightarrow> 'w \<Rightarrow> step_record list
     \<Rightarrow> (string + unit) \<times> 'w \<times> step_record list" where
  "smoke_steps [] w results = (Inr (), w, results)"
| "smoke_steps ((name, fn) # rest) w results =
     (case smoke_step name fn w results of
        (Inl err, w', rs) \<Rightarrow> (Inl err, w', rs)
      | (Inr _, w', rs) \<Rightarrow> smoke_steps rest w' rs)"

text \<open>What the process prints at the end and its exit code: the summary, or the error \<open>main\<close> rejects with.\<close>

datatype smoke_end = Summary nat nat nat | Crashed string

definition smoke_summary :: "step_record list \<Rightarrow> smoke_end \<times> int" where
  "smoke_summary results =
     (let passed = length (filter step_passed results);
          failed = length results - passed
      in (Summary passed (length results) failed, if failed > 0 then 1 else 0))"

definition smoke_main :: "(string \<times> ('w \<Rightarrow> (string + string) \<times> 'w)) list \<Rightarrow> 'w \<Rightarrow> smoke_end \<times> int" where
  "smoke_main steps w =
     (case smoke_steps steps w [] of
        (Inl err, _, _) \<Rightarrow> (Crashed err, 1)
      | (Inr _, _, results) \<Rightarrow> smoke_summary results)"

section \<open>The requests of the test\<close>

datatype smoke_user = Alice | Bob

text \<open>A request of the test: its path may name the call created before, and what it returns is read from the reply.\<close>

record smoke_request =
  sr_name :: string
  sr_method :: http_method
  sr_path :: "string \<Rightarrow> string"
  sr_user :: "smoke_user option"
  sr_body :: "string \<Rightarrow> jsval"
  sr_detail :: "reply \<Rightarrow> string + string"

definition smoke_get :: "string \<Rightarrow> (string \<Rightarrow> string) \<Rightarrow> smoke_user option \<Rightarrow> (reply \<Rightarrow> string + string) \<Rightarrow> smoke_request" where
  "smoke_get name path user detail =
     \<lparr>sr_name = name, sr_method = GET, sr_path = path, sr_user = user, sr_body = (\<lambda>bob. JUndef), sr_detail = detail\<rparr>"

definition smoke_post :: "string \<Rightarrow> (string \<Rightarrow> string) \<Rightarrow> smoke_user \<Rightarrow> (reply \<Rightarrow> string + string) \<Rightarrow> smoke_request" where
  "smoke_post name path user detail =
     \<lparr>sr_name = name, sr_method = POST, sr_path = path, sr_user = Some user, sr_body = (\<lambda>bob. JUndef), sr_detail = detail\<rparr>"

text \<open>A reply of another shape makes the callback throw.\<close>

definition type_error :: "string + string" where
  "type_error = Inl ''Cannot read properties of undefined''"

text \<open>How the texts of values the templates show come about: \<open>toFixed(1)\<close>, a template's own, \<open>JSON.stringify\<close>.\<close>

record smoke_texts =
  sx_fixed1 :: "jsval \<Rightarrow> string"
  sx_str :: "jsval \<Rightarrow> string"
  sx_json :: "livekit_health \<Rightarrow> string"

fun health_detail :: "smoke_texts \<Rightarrow> reply \<Rightarrow> string + string" where
  "health_detail tx (InfoReply v) = Inr (''uptime='' @ sx_fixed1 tx (js_prop ''uptime'' v) @ ''s'')"
| "health_detail tx r = type_error"

fun info_detail :: "smoke_texts \<Rightarrow> reply \<Rightarrow> string + string" where
  "info_detail tx (InfoReply v) = Inr (''media='' @ sx_str tx (js_prop ''provider'' (js_prop ''media'' v)))"
| "info_detail tx r = type_error"

fun livekit_detail :: "smoke_texts \<Rightarrow> reply \<Rightarrow> string + string" where
  "livekit_detail tx (ProbeReply h) =
     (let rooms = lh_listRooms h;
          ok = js_join '','' (filter (\<lambda>t. t \<noteq> [])
            [if ct_ok (lh_accessToken h) then ''token'' else [],
             if cm_ok (lh_room h) then ''createRoom'' else [],
             if cr_ok rooms
             then ''listRooms('' @ (case cr_count rooms of None \<Rightarrow> ''undefined'' | Some n \<Rightarrow> show_nat n) @ '')'' else []])
      in if ok = [] then Inl (''all LiveKit checks failed: '' @ sx_json tx h) else Inr ok)"
| "livekit_detail tx r = type_error"

fun created_detail :: "reply \<Rightarrow> string + string" where
  "created_detail (CallReply c) =
     Inr (''id='' @ c_id c @ '' roomId='' @ c_roomId c @ '' status='' @ status_str (c_status c))"
| "created_detail r = type_error"

fun participants_detail :: "reply \<Rightarrow> string + string" where
  "participants_detail (CallReply c) = Inr (''participants='' @ show_nat (length (c_participants c)))"
| "participants_detail r = type_error"

fun status_detail :: "reply \<Rightarrow> string + string" where
  "status_detail (CallReply c) = Inr (''status='' @ status_str (c_status c))"
| "status_detail r = type_error"

fun sfu_detail :: "reply \<Rightarrow> string + string" where
  "sfu_detail (SfuReply t) = Inr (''url='' @ st_url t @ '' roomId='' @ st_roomId t)"
| "sfu_detail r = type_error"

fun turn_detail :: "reply \<Rightarrow> string + string" where
  "turn_detail (TurnReply t) = Inr (''urls='' @ show_nat (length (tc_urls t)) @ '' ttl='' @ show_int (tc_ttl t))"
| "turn_detail r = type_error"

definition public_probes :: "smoke_texts \<Rightarrow> smoke_request list" where
  "public_probes tx =
     [smoke_get ''GET /health'' (\<lambda>k. ''/health'') None (health_detail tx),
      smoke_get ''GET /info'' (\<lambda>k. ''/info'') None (info_detail tx),
      smoke_get ''GET /info/livekit'' (\<lambda>k. ''/info/livekit'') None (livekit_detail tx)]"

definition create_request :: smoke_request where
  "create_request =
     (smoke_post ''alice POST /calls'' (\<lambda>k. ''/calls'') Alice created_detail)\<lparr>sr_body := (\<lambda>bob. JObj [])\<rparr>"

definition call_requests :: "smoke_request list" where
  "call_requests =
     [(smoke_post ''alice POST /calls/:id/invite'' (\<lambda>k. ''/calls/'' @ k @ ''/invite'') Alice participants_detail)
        \<lparr>sr_body := (\<lambda>bob. JObj [(''inviteeId'', JStr bob)])\<rparr>,
      smoke_post ''alice POST /calls/:id/accept'' (\<lambda>k. ''/calls/'' @ k @ ''/accept'') Alice status_detail,
      smoke_post ''bob POST /calls/:id/accept'' (\<lambda>k. ''/calls/'' @ k @ ''/accept'') Bob participants_detail,
      smoke_post ''bob POST /calls/:id/join'' (\<lambda>k. ''/calls/'' @ k @ ''/join'') Bob status_detail,
      smoke_post ''alice POST /calls/:id/sfu-token (HMAC stub)'' (\<lambda>k. ''/calls/'' @ k @ ''/sfu-token'') Alice sfu_detail]"

definition turn_requests :: "smoke_request list" where
  "turn_requests =
     [smoke_get ''alice GET /calls/:id/turn-credentials'' (\<lambda>k. ''/calls/'' @ k @ ''/turn-credentials'') (Some Alice) turn_detail,
      smoke_get ''bob GET /calls/:id/turn-credentials'' (\<lambda>k. ''/calls/'' @ k @ ''/turn-credentials'') (Some Bob) turn_detail]"

section \<open>The test against the server\<close>

text \<open>
  What the test remembers is the call it created; before that no path names one. The tokens and names of its two users, and everything of
  a request that is not the test's to choose, are parameters. The body of an answer is printed and parsed
  again on the way, which gives the reply back.
\<close>

record 'db smoke_world =
  sw_call :: "call option"
  sw_server :: "'db server_state"

record smoke_env =
  sm_token :: "smoke_user \<Rightarrow> string"
  sm_bob :: string
  sm_base :: http_request
  sm_body_text :: "error_body \<Rightarrow> string"

definition smoke_rq :: "smoke_env \<Rightarrow> smoke_request \<Rightarrow> string \<Rightarrow> http_request" where
  "smoke_rq sm r callId =
     (sm_base sm)\<lparr>rq_method := sr_method r, rq_path := segments (sr_path r callId), rq_url := sr_path r callId,
       rq_bearer := map_option (sm_token sm) (sr_user r), rq_cookies := None, rq_body := sr_body r (sm_bob sm)\<rparr>"

definition remember :: "smoke_request \<Rightarrow> reply \<Rightarrow> call option \<Rightarrow> call option" where
  "remember r reply kept =
     (case reply of CallReply c \<Rightarrow> if sr_name r = sr_name create_request then Some c else kept | _ \<Rightarrow> kept)"

definition smoke_http ::
    "'db server_deps \<Rightarrow> smoke_env \<Rightarrow> smoke_request \<Rightarrow> 'db smoke_world \<Rightarrow> (string + string) \<times> 'db smoke_world" where
  "smoke_http sd sm r w =
     (let callId = (case sw_call w of None \<Rightarrow> ''undefined'' | Some c \<Rightarrow> c_id c);
          (a, s') = serve sd (smoke_rq sm r callId) (sw_server w);
          w' = w\<lparr>sw_server := s'\<rparr>
      in if ha_status a < 200 \<or> ha_status a \<ge> 300
         then (Inl (method_text (sr_method r) @ '' '' @ sr_path r callId @ '' -> '' @ show_nat (ha_status a) @ '' '' @
                 take 200 (case ha_body a of Inl b \<Rightarrow> sm_body_text sm b | Inr _ \<Rightarrow> [])), w')
         else (case ha_body a of
                 Inl b \<Rightarrow> (type_error, w')
               | Inr reply \<Rightarrow> (sr_detail r reply, w'\<lparr>sw_call := remember r reply (sw_call w)\<rparr>)))"

section \<open>Properties of the promises\<close>

text \<open>A wait for an acknowledgement ends with the first of the answer, an exception and the timeout, as that event
  says, and no later event changes it; once it has ended its timer is cleared.\<close>

theorem emitAck_settles_once:
  "(let s = fold (emitAck_step str event) evs ack_start
    in ak_result s = first_some (map (ack_decide str event) evs)
       \<and> (ak_result s = None \<longleftrightarrow> evs = []) \<and> ak_timer s = (ak_result s = None))"
proof -
  have start: "ack_inv ack_start" "ak_result ack_start = None" by (simp_all add: ack_inv_def ack_start_def)
  have r: "ak_result (fold (emitAck_step str event) evs ack_start) = first_some (map (ack_decide str event) evs)"
    using ack.run_result [OF start(1), of str event evs] start(2) by simp
  have "ack_decide str event e \<noteq> None" for e by (cases e) (simp_all add: ack_decide_def ack_start_def)
  then have "first_some (map (ack_decide str event) evs) = None \<longleftrightarrow> evs = []"
    by (cases evs) (auto simp: first_some_None)
  with r ack.run_inv [OF start(1), of str event evs] show ?thesis by (auto simp: ack_inv_def Let_def)
qed

text \<open>Connecting to the media server succeeds when the first of a frame, an error, a close and the timeout is a frame,
  and fails with the text of that event otherwise; the join message alone settles nothing, and the socket
  is closed at most once by the client.\<close>

theorem connectLiveKit_settles_once:
  "(let s = fold (connectLiveKit_step timeoutMs) evs lk_start
    in lk_result s = first_some (map (lk_decide timeoutMs) evs)
       \<and> (lk_result s = None \<longleftrightarrow> list_all (\<lambda>e. e = LkOpen) evs)
       \<and> lk_sent s = map (\<lambda>e. lk_join_text) (filter (\<lambda>e. e = LkOpen) evs)
       \<and> lk_closes s \<le> 1)"
proof -
  have start: "lk_inv lk_start" "lk_result lk_start = None" by (simp_all add: lk_inv_def lk_start_def)
  have r: "lk_result (fold (connectLiveKit_step timeoutMs) evs lk_start) = first_some (map (lk_decide timeoutMs) evs)"
    using livekit.run_result [OF start(1), of timeoutMs evs] start(2) by simp
  have d: "lk_decide timeoutMs e = None \<longleftrightarrow> e = LkOpen" for e
    by (cases e) (simp_all add: lk_decide_def lk_start_def lk_answered_def)
  have sent: "lk_sent (fold (connectLiveKit_step timeoutMs) evs s) = lk_sent s @ map (\<lambda>e. lk_join_text) (filter (\<lambda>e. e = LkOpen) evs)" for s
  proof (induction evs arbitrary: s)
    case (Cons e evs)
    have "lk_sent (connectLiveKit_step timeoutMs e s) = lk_sent s @ (if e = LkOpen then [lk_join_text] else [])"
      by (cases e) (auto simp: lk_answered_def lk_settle_def split: option.split)
    with Cons show ?case by simp
  qed simp
  have closes: "lk_closes (fold (connectLiveKit_step timeoutMs) evs s) \<le> 1"
    if "lk_closes s \<le> (if lk_closed s then 1 else 0)" for s
    using that
  proof (induction evs arbitrary: s)
    case (Cons e evs)
    have "lk_closes (connectLiveKit_step timeoutMs e s) \<le> (if lk_closed (connectLiveKit_step timeoutMs e s) then 1 else 0)"
      using Cons.prems by (cases e) (auto simp: lk_answered_def split: if_splits)
    from Cons.IH [OF this] show ?case by simp
  qed (simp split: if_splits)
  from r d sent [of lk_start] closes [of lk_start] show ?thesis
    by (simp add: Let_def first_some_None list_all_length lk_start_def)
qed

section \<open>Properties of the run\<close>

lemma smoke_step_results:
  "smoke_step name fn w results = (Inl err, w', rs) \<Longrightarrow> rs = results @ [StepFail name err]"
  "smoke_step name fn w results = (Inr u, w', rs) \<Longrightarrow> \<exists>d. rs = results @ [StepOk name d]"
  by (auto simp: smoke_step_def split: prod.splits sum.splits)

lemma smoke_steps_results:
  assumes "smoke_steps steps w results = (r, w', rs)"
  shows "\<exists>new. rs = results @ new \<and> (case r of
      Inr _ \<Rightarrow> list_all step_passed new \<and> length new = length steps
    | Inl err \<Rightarrow> \<exists>ok name. new = ok @ [StepFail name err] \<and> list_all step_passed ok)"
  using assms
proof (induction steps arbitrary: w results)
  case (Cons st steps)
  obtain name fn where st: "st = (name, fn)" by fastforce
  obtain r1 w1 rs1 where one: "smoke_step name fn w results = (r1, w1, rs1)" using prod_cases3 by blast
  show ?case
  proof (cases r1)
    case (Inl err)
    then show ?thesis using Cons.prems one smoke_step_results(1) by (fastforce simp: st)
  next
    case (Inr u)
    from smoke_step_results(2) [OF one [unfolded Inr]] obtain d where d: "rs1 = results @ [StepOk name d]" ..
    from Inr one Cons.prems have "smoke_steps steps w1 rs1 = (r, w', rs)" by (simp add: st)
    from Cons.IH [OF this] obtain new where new: "rs = rs1 @ new" and p: "case r of
      Inr _ \<Rightarrow> list_all step_passed new \<and> length new = length steps
    | Inl err \<Rightarrow> \<exists>ok name. new = ok @ [StepFail name err] \<and> list_all step_passed ok" by blast
    have "rs = results @ StepOk name d # new" using new d by simp
    moreover have "case r of
      Inr _ \<Rightarrow> list_all step_passed (StepOk name d # new) \<and> length (StepOk name d # new) = length (st # steps)
    | Inl err \<Rightarrow> \<exists>ok name'. StepOk name d # new = ok @ [StepFail name' err] \<and> list_all step_passed ok"
      using p by (auto split: sum.splits intro: exI [of _ "StepOk name d # x" for x])
    ultimately show ?thesis by blast
  qed
qed (auto split: sum.split)

text \<open>The test exits with 0 exactly when it prints a summary, and then every step has passed: the failures the
  summary would count always end the test before it, so its failed line and the exit code it sets are never
  reached.\<close>

theorem smoke_summary_all_passed:
  "(case smoke_main steps w of
      (Summary passed all failed, code) \<Rightarrow> code = 0 \<and> failed = 0 \<and> passed = length steps \<and> all = length steps
    | (Crashed err, code) \<Rightarrow> code = 1)"
proof -
  obtain r w' rs where run: "smoke_steps steps w [] = (r, w', rs)" using prod_cases3 by blast
  show ?thesis
  proof (cases r)
    case (Inl err)
    then show ?thesis by (simp add: smoke_main_def run)
  next
    case (Inr u)
    with smoke_steps_results [OF run] have "list_all step_passed rs" "length rs = length steps" by auto
    then have "filter step_passed rs = rs" "length rs = length steps" by (simp_all add: list_all_iff filter_id_conv)
    then show ?thesis by (simp add: smoke_main_def run Inr smoke_summary_def Let_def)
  qed
qed

section \<open>Properties of the tokens\<close>

lemma no_dot: "CHR ''.'' \<notin> set (base64url bs)"
proof -
  have "CHR ''.'' \<notin> set b64_alphabet" by code_simp
  then show ?thesis using base64url_chars by blast
qed

lemma signed_parts:
  "js_split CHR ''.'' (signJwtHS256 hmac payload secret) =
     [b64url ''{\"alg\":\"HS256\",\"typ\":\"JWT\"}'', b64url payload,
      base64url (hmac secret (b64url ''{\"alg\":\"HS256\",\"typ\":\"JWT\"}'' @ ''.'' @ b64url payload))]"
  by (simp add: signJwtHS256_def Let_def b64url_def no_dot js_split_sep js_split_plain)

text \<open>A token the test signs passes the test's own check of a token's signature with the same secret, whatever its
  payload, and the check then reads exactly that payload: it reports the subject and the room the payload
  names, when they are the right ones, and refuses it otherwise.\<close>

theorem signed_token_checks:
  "verify_step hmac parse secret alice (signJwtHS256 hmac payload secret) =
     (case parse (utf8 payload) of
        None \<Rightarrow> Inl ''Unexpected token''
      | Some c \<Rightarrow>
          if lc_sub c \<noteq> alice then Inl (''unexpected sub: '' @ lc_sub c)
          else (case lc_room c of
                  None \<Rightarrow> Inl ''no video grant''
                | Some room \<Rightarrow> if room = [] then Inl ''no video grant''
                               else Inr (''sub='' @ lc_sub c @ '' room='' @ room)))"
  unfolding verify_step_def signed_parts list.case by (simp add: b64url_def b64_decode_encode)

section \<open>Properties of the requests\<close>

lemma segments_call:
  assumes "CHR ''/'' \<notin> set k" and "k \<noteq> []" and "CHR ''/'' \<notin> set t" and "t \<noteq> []"
  shows "segments (''/calls/'' @ k @ CHR ''/'' # t) = [''calls'', k, t]"
proof -
  have "CHR ''/'' \<notin> set ''calls''" by simp
  then have "js_split CHR ''/'' ([] @ CHR ''/'' # ''calls'' @ CHR ''/'' # k @ CHR ''/'' # t) = [[], ''calls'', k, t]"
    using assms by (simp add: js_split_sep js_split_plain del: append.simps)
  then show ?thesis using assms by (simp add: segments_def)
qed

definition later_requests :: "smoke_request list" where
  "later_requests = call_requests @ turn_requests"

lemma later_paths:
  assumes "CHR ''/'' \<notin> set k" and "k \<noteq> []"
  shows "map (\<lambda>r. (sr_method r, segments (sr_path r k))) later_requests =
    [(POST, [''calls'', k, ''invite'']), (POST, [''calls'', k, ''accept'']), (POST, [''calls'', k, ''accept'']),
     (POST, [''calls'', k, ''join'']), (POST, [''calls'', k, ''sfu-token'']),
     (GET, [''calls'', k, ''turn-credentials'']), (GET, [''calls'', k, ''turn-credentials''])]"
proof -
  note seg = segments_call [OF assms, of "''invite''"] segments_call [OF assms, of "''accept''"]
    segments_call [OF assms, of "''join''"] segments_call [OF assms, of "''sfu-token''"]
    segments_call [OF assms, of "''turn-credentials''"]
  show ?thesis
    using seg by (simp add: later_requests_def call_requests_def turn_requests_def smoke_post_def smoke_get_def)
qed

lemma call_dispatch:
  assumes "k \<noteq> []"
  shows "dispatch POST [''api'', ''calls'', k, ''invite''] = Some route_invite"
    and "dispatch POST [''api'', ''calls'', k, ''accept''] = Some route_accept"
    and "dispatch POST [''api'', ''calls'', k, ''join''] = Some route_join"
    and "dispatch POST [''api'', ''calls'', k, ''sfu-token''] = Some route_sfu"
    and "dispatch GET [''api'', ''calls'', k, ''turn-credentials''] = Some route_turn"
proof -
  have full: "full_path route_invite = [''api'', ''calls'', '':id'', ''invite'']"
    "full_path route_accept = [''api'', ''calls'', '':id'', ''accept'']"
    "full_path route_join = [''api'', ''calls'', '':id'', ''join'']"
    "full_path route_sfu = [''api'', ''calls'', '':id'', ''sfu-token'']"
    "full_path route_turn = [''api'', ''calls'', '':id'', ''turn-credentials'']" by code_simp+
  have id: "seg_matches '':id'' k" using assms by (simp add: seg_matches_def is_param_def starts_with_def)
  have same: "seg_matches t t" if "t \<noteq> []" for t using that by (simp add: seg_matches_def)
  have go: "dispatch m [''api'', ''calls'', k, t] = Some r"
    if "r \<in> set routes" "rt_method r = m" "full_path r = [''api'', ''calls'', '':id'', t]" "t \<noteq> []" "rt_handler r \<noteq> HCallGet"
    for m t r
    by (rule dispatch_unique) (use that id same in \<open>simp_all add: route_matches_def\<close>)
  show "dispatch POST [''api'', ''calls'', k, ''invite''] = Some route_invite"
    "dispatch POST [''api'', ''calls'', k, ''accept''] = Some route_accept"
    "dispatch POST [''api'', ''calls'', k, ''join''] = Some route_join"
    "dispatch POST [''api'', ''calls'', k, ''sfu-token''] = Some route_sfu"
    "dispatch GET [''api'', ''calls'', k, ''turn-credentials''] = Some route_turn"
    by (rule go, simp add: routes_def,
      simp add: route_invite_def route_accept_def route_join_def route_sfu_def route_turn_def calls_route_def,
      rule full, simp,
      simp add: route_invite_def route_accept_def route_join_def route_sfu_def route_turn_def calls_route_def)+
qed

lemma calls_not_served: "dispatch m (''calls'' # rest) = None"
  by (rule dispatch_None, unfold path_table_eq) code_simp

text \<open>Every request the test makes on a call, as it is written, is a path the server has no route for; under the
  prefix of the server each would reach the handler it means.\<close>

theorem smoke_paths:
  assumes "CHR ''/'' \<notin> set k" and "k \<noteq> []"
  shows "map (\<lambda>r. dispatch (sr_method r) (segments (sr_path r k))) (create_request # later_requests)
      = replicate (length (create_request # later_requests)) None
    \<and> map (\<lambda>r. map_option rt_handler (dispatch (sr_method r) (''api'' # segments (sr_path r k)))) (create_request # later_requests)
      = map Some [HCallCreate, HCallInvite, HCallAccept, HCallAccept, HCallJoin, HCallSfu, HCallTurn, HCallTurn]"
proof -
  let ?later = "map (\<lambda>r. (sr_method r, segments (sr_path r k))) later_requests"
  have c: "sr_method create_request = POST" "segments (sr_path create_request k) = [''calls'']"
    by (simp add: create_request_def smoke_post_def) (simp add: create_request_def smoke_post_def, code_simp)
  have n: "length later_requests = 7" by (simp add: later_requests_def call_requests_def turn_requests_def)
  have one: "map (\<lambda>r. dispatch (sr_method r) (segments (sr_path r k))) later_requests
      = map (\<lambda>(m, p). dispatch m p) ?later" by simp
  have two: "map (\<lambda>r. map_option rt_handler (dispatch (sr_method r) (''api'' # segments (sr_path r k)))) later_requests
      = map (\<lambda>(m, p). map_option rt_handler (dispatch m (''api'' # p))) ?later" by simp
  have h: "dispatch POST [''api'', ''calls''] = Some route_create" by code_simp
  have r: "rt_handler route_create = HCallCreate" "rt_handler route_invite = HCallInvite" "rt_handler route_accept = HCallAccept"
    "rt_handler route_join = HCallJoin" "rt_handler route_sfu = HCallSfu" "rt_handler route_turn = HCallTurn"
    by (simp_all add: route_create_def route_invite_def route_accept_def route_join_def route_sfu_def route_turn_def calls_route_def)
  show ?thesis
    unfolding list.map one two later_paths [OF assms]
    by (simp add: c n h r call_dispatch [OF assms(2)] calls_not_served numeral_eq_Suc)
qed

lemma smoke_paths_witness:
  "map_option rt_handler (dispatch POST (''api'' # segments (sr_path create_request ''u''))) = Some HCallCreate"
proof -
  have "sr_method create_request = POST" by (simp add: create_request_def smoke_post_def)
  with smoke_paths [of "''u''"] show ?thesis by simp
qed

section \<open>Where the test ends\<close>

definition untouched :: "'db smoke_world \<Rightarrow> 'db smoke_world \<Rightarrow> bool" where
  "untouched w w' \<longleftrightarrow> same_calls (sv_calls (sw_server w)) (sv_calls (sw_server w'))
     \<and> sv_auth (sw_server w') = sv_auth (sw_server w) \<and> sv_ws (sw_server w') = sv_ws (sw_server w)"

lemma untouched_refl [simp]: "untouched w w"
  by (simp add: untouched_def)

lemma untouched_trans: "untouched a b \<Longrightarrow> untouched b c \<Longrightarrow> untouched a c"
  by (simp add: untouched_def same_calls_def)

lemma smoke_http_server: "sw_server (snd (smoke_http sd sm r w)) =
    snd (serve sd (smoke_rq sm r (case sw_call w of None \<Rightarrow> ''undefined'' | Some c \<Rightarrow> c_id c)) (sw_server w))"
  by (simp add: smoke_http_def split_def Let_def split: sum.split)

lemma smoke_rq_simps [simp]:
  "rq_method (smoke_rq sm r k) = sr_method r" "rq_path (smoke_rq sm r k) = segments (sr_path r k)"
  by (simp_all add: smoke_rq_def)

lemma probe_routes:
  "dispatch GET (segments ''/health'') = Some route_health"
  "dispatch GET (segments ''/info'') = Some route_info"
  "dispatch GET (segments ''/info/livekit'') = Some route_livekit"
  by code_simp+

lemma probe_untouched:
  assumes "r \<in> set (public_probes tx)"
  shows "untouched w (snd (smoke_http sd sm r w))"
proof -
  let ?k = "case sw_call w of None \<Rightarrow> ''undefined'' | Some c \<Rightarrow> c_id c"
  let ?rq = "smoke_rq sm r ?k"
  obtain a s' where run: "serve sd ?rq (sw_server w) = (a, s')" by fastforce
  have d: "\<exists>q. dispatch (rq_method ?rq) (rq_path ?rq) = Some q \<and> rt_handler q \<in> {HHealth, HInfo, HLivekit}"
    using assms
    by (auto simp: public_probes_def smoke_get_def probe_routes route_health_def route_info_def route_livekit_def public_get_def)
  from run have "same_calls (sv_calls (sw_server w)) (sv_calls s') \<and> sv_auth s' = sv_auth (sw_server w) \<and> sv_ws s' = sv_ws (sw_server w)"
  proof (cases rule: serve_cases)
    case (handled q user res effs)
    with d have "rt_handler q \<in> {HHealth, HInfo, HLivekit}" by auto
    then show ?thesis using run_handler_frame(1-3) [OF handled(3)] by (auto simp: call_writers_def account_writers_def)
  qed auto
  then show ?thesis using run by (simp add: untouched_def smoke_http_server)
qed

lemma create_refused:
  "\<not> is_ok (fst (smoke_http sd sm create_request w)) \<and> untouched w (snd (smoke_http sd sm create_request w))"
proof -
  have p: "segments (sr_path create_request k) = [''calls'']" for k
    by (simp add: create_request_def smoke_post_def) code_simp
  have "dispatch (sr_method create_request) [''calls''] = None" by (rule calls_not_served)
  then have st: "ha_status (fst (serve sd (smoke_rq sm create_request k) s)) = 404"
    and same: "snd (serve sd (smoke_rq sm create_request k) s) = s" for k s
    by (simp_all add: serve_def p)
  have "untouched w (snd (smoke_http sd sm create_request w))"
    unfolding untouched_def smoke_http_server same by simp
  moreover have "\<not> is_ok (fst (smoke_http sd sm create_request w))"
    using st by (simp add: smoke_http_def Let_def split_def)
  ultimately show ?thesis by simp
qed

text \<open>A step that always fails ends the run; what every step up to it keeps, the run keeps.\<close>

lemma smoke_steps_stop:
  assumes trans: "\<And>a b c. R a b \<Longrightarrow> R b c \<Longrightarrow> R a c"
    and "\<And>n f w. (n, f) \<in> set pre \<Longrightarrow> R w (snd (f w))"
    and stop: "\<And>w. \<not> is_ok (fst (f0 w)) \<and> R w (snd (f0 w))"
    and "smoke_steps (pre @ (n0, f0) # rest) w rs = (r, w', rs')"
  shows "\<not> is_ok r \<and> R w w' \<and> length rs' \<le> length rs + Suc (length pre)"
  using assms(2,4)
proof (induction pre arbitrary: w rs)
  case Nil
  show ?case using Nil.prems(2) stop [of w] by (cases "f0 w"; cases "fst (f0 w)") (auto simp: smoke_step_def)
next
  case (Cons st pre)
  obtain n f where st: "st = (n, f)" by fastforce
  have u: "R w (snd (f w))" by (rule Cons.prems(1) [of n]) (simp add: st)
  show ?case
  proof (cases "fst (f w)")
    case (Inl err)
    then show ?thesis using Cons.prems(2) u by (cases "f w") (auto simp: st smoke_step_def)
  next
    case (Inr d)
    have "smoke_steps (pre @ (n0, f0) # rest) (snd (f w)) (rs @ [StepOk n d]) = (r, w', rs')"
      using Cons.prems(2) Inr by (cases "f w") (simp add: st smoke_step_def)
    from Cons.IH [OF _ this] Cons.prems(1)
    have "\<not> is_ok r \<and> R (snd (f w)) w' \<and> length rs' \<le> length (rs @ [StepOk n d]) + Suc (length pre)"
      by auto
    then show ?thesis using trans [OF u] by simp
  qed
qed

end
