(* ===== verification/SmokeSockets.thy ===== *)
theory SmokeSockets
  imports SmokeClient WsAuth
begin

text \<open>
  The steps of the smoke test, \<open>src/scripts/smoke-call.js\<close>, that leave HTTP: tokens minted with the LiveKit SDK, the
  connection of both sockets, \<open>peer:join\<close> against the deployed gateway, and the whole list of steps. The SDK is
  a parameter; what sockets and timers do comes as events.
\<close>

section \<open>Tokens of the LiveKit SDK\<close>

record access_token =
  at_identity :: string
  at_ttl :: int
  at_room :: string
  at_roomJoin :: bool
  at_canPublish :: bool
  at_canSubscribe :: bool

definition smoke_access_token :: "string \<Rightarrow> string \<Rightarrow> access_token" where
  "smoke_access_token identity roomName =
     \<lparr>at_identity = identity, at_ttl = 600, at_room = roomName, at_roomJoin = True, at_canPublish = True,
      at_canSubscribe = True\<rparr>"

text \<open>\<open>replace(/^ws/, 'http')\<close>.\<close>

definition ws_to_http :: "string \<Rightarrow> string" where
  "ws_to_http url = (if starts_with ''ws'' url then ''http'' @ drop 2 url else url)"

text \<open>
  \<open>installed\<close> tells whether the SDK can be required, \<open>createRoom\<close> whether the room was made (a failure is
  ignored), \<open>toJwt\<close> is the token of a signer. The result is the detail with both tokens and the server asked.
\<close>

definition mint_livekit ::
    "bool \<Rightarrow> (string \<Rightarrow> string \<Rightarrow> bool) \<Rightarrow> (access_token \<Rightarrow> string + string) \<Rightarrow> string \<Rightarrow> string \<Rightarrow> string \<Rightarrow> string
     \<Rightarrow> string + (string \<times> string \<times> string)" where
  "mint_livekit installed createRoom toJwt LIVEKIT_URL callId alice bob =
     (if \<not> installed then Inl ''livekit-server-sdk not installed in this workspace''
      else let httpUrl = ws_to_http LIVEKIT_URL;
               roomName = ''koom-call-'' @ callId;
               created = createRoom httpUrl roomName
           in case toJwt (smoke_access_token alice roomName) of
                Inl e \<Rightarrow> Inl e
              | Inr ta \<Rightarrow>
                  (case toJwt (smoke_access_token bob roomName) of
                     Inl e \<Rightarrow> Inl e
                   | Inr tb \<Rightarrow> Inr (''room='' @ roomName @ '' alice.tok.len='' @ show_nat (length ta) @ '' bob.tok.len='' @
                                    show_nat (length tb), ta, tb)))"

section \<open>Connecting both sockets\<close>

text \<open>The options a socket of the test is opened with, and the line printed when that fails.\<close>

record io_options =
  io_url :: string
  io_transports :: "string list"
  io_token :: string
  io_reconnection :: bool
  io_timeout :: int

definition connectSignaling :: "string \<Rightarrow> string \<Rightarrow> string \<Rightarrow> io_options" where
  "connectSignaling API_URL NS token =
     \<lparr>io_url = API_URL @ NS, io_transports = [''websocket''], io_token = token, io_reconnection = False, io_timeout = 5000\<rparr>"

datatype conn_event = Connected smoke_user | ConnectError smoke_user string | ConnectTimeout smoke_user

text \<open>The two promises and \<open>Promise.all\<close> of them: rejected by the first rejection, resolved when both are.\<close>

record conn_state =
  cn_alice :: "(string + unit) option"
  cn_bob :: "(string + unit) option"
  cn_all :: "(string + unit) option"

definition conn_start :: conn_state where
  "conn_start = \<lparr>cn_alice = None, cn_bob = None, cn_all = None\<rparr>"

fun conn_of :: "conn_event \<Rightarrow> smoke_user \<times> (string + unit)" where
  "conn_of (Connected u) = (u, Inr ())"
| "conn_of (ConnectError u e) = (u, Inl e)"
| "conn_of (ConnectTimeout Alice) = (Alice, Inl ''alice connect timeout'')"
| "conn_of (ConnectTimeout Bob) = (Bob, Inl ''bob connect timeout'')"

definition settle :: "'r \<Rightarrow> 'r option \<Rightarrow> 'r option" where
  "settle r old = (case old of None \<Rightarrow> Some r | Some x \<Rightarrow> Some x)"

definition allSockets_step :: "conn_event \<Rightarrow> conn_state \<Rightarrow> conn_state" where
  "allSockets_step e s =
     (let (u, r) = conn_of e;
          mine = (case u of Alice \<Rightarrow> cn_alice s | Bob \<Rightarrow> cn_bob s);
          s1 = (case u of Alice \<Rightarrow> s\<lparr>cn_alice := settle r (cn_alice s)\<rparr> | Bob \<Rightarrow> s\<lparr>cn_bob := settle r (cn_bob s)\<rparr>)
      in if mine \<noteq> None then s1
         else (case r of
                 Inl err \<Rightarrow> s1\<lparr>cn_all := settle (Inl err) (cn_all s1)\<rparr>
               | Inr _ \<Rightarrow>
                   if cn_alice s1 = Some (Inr ()) \<and> cn_bob s1 = Some (Inr ())
                   then s1\<lparr>cn_all := settle (Inr ()) (cn_all s1)\<rparr> else s1))"

section \<open>The join that is meant to fail\<close>

definition join_payload :: "string \<Rightarrow> string \<Rightarrow> string \<Rightarrow> jsval" where
  "join_payload callId alice bob =
     JObj [(''callId'', JStr callId), (''from'', JStr alice), (''to'', JArr [JStr bob]), (''type'', JStr ''video'')]"

fun contains :: "string \<Rightarrow> string \<Rightarrow> bool" where
  "contains p [] = (p = [])"
| "contains p (c # cs) = (starts_with p (c # cs) \<or> contains p cs)"

text \<open>
  The outcome of the acknowledgement decides the step: the error for a success is thrown inside the block whose
  handler looks for \<open>forbidden\<close> in the message.
\<close>

definition join_verdict :: "string + jsval \<Rightarrow> string + string" where
  "join_verdict ack =
     (let thrown = (case ack of Inr _ \<Rightarrow> ''expected forbidden, got success'' | Inl message \<Rightarrow> message)
      in if \<not> contains ''forbidden'' thrown then Inl thrown else Inr ''forbidden as expected (NoopCallsEventBus)'')"

section \<open>The whole test\<close>

text \<open>The tokens are kept beside what the steps over HTTP remember.\<close>

record 'db full_world =
  fw_http :: "'db smoke_world"
  fw_tokenAlice :: string
  fw_tokenBob :: string

type_synonym 'db full_step = "string \<times> ('db full_world \<Rightarrow> (string + string) \<times> 'db full_world)"

definition full_http :: "'db server_deps \<Rightarrow> smoke_env \<Rightarrow> smoke_request list \<Rightarrow> 'db full_step list" where
  "full_http sd sm rs =
     map (\<lambda>r. (sr_name r, \<lambda>w. let (res, h) = smoke_http sd sm r (fw_http w) in (res, w\<lparr>fw_http := h\<rparr>))) rs"

definition call_id_of :: "'db full_world \<Rightarrow> string" where
  "call_id_of w = (case sw_call (fw_http w) of None \<Rightarrow> ''undefined'' | Some c \<Rightarrow> c_id c)"

text \<open>What the libraries and the network answer: the SDK, the events of the connections, of the acknowledgement, of LiveKit.\<close>

record smoke_outside =
  sy_installed :: bool
  sy_createRoom :: "string \<Rightarrow> string \<Rightarrow> bool"
  sy_toJwt :: "access_token \<Rightarrow> string + string"
  sy_hmac :: "string \<Rightarrow> string \<Rightarrow> 8 word list"
  sy_parse :: "8 word list \<Rightarrow> livekit_claims option"
  sy_livekitUrl :: string
  sy_secret :: string
  sy_connect :: "conn_event list"
  sy_str :: "jsval \<Rightarrow> string"
  sy_ack :: "jsval \<Rightarrow> ack_event list"
  sy_livekit :: "lk_event list"

text \<open>A promise nothing settles leaves the test waiting; the events given for a step settle its promise.\<close>

definition awaited :: "(string + 'a) option \<Rightarrow> string + 'a" where
  "awaited r = (case r of None \<Rightarrow> Inl [] | Some x \<Rightarrow> x)"

definition socket_steps :: "smoke_outside \<Rightarrow> string \<Rightarrow> string \<Rightarrow> 'db full_step list" where
  "socket_steps sy alice bob =
     [(''Socket.IO connect (alice & bob)'',
        \<lambda>w. (map_sum id (\<lambda>_. ''connected'') (awaited (cn_all (fold allSockets_step (sy_connect sy) conn_start))), w)),
      (''peer:join (expected forbidden with NoopCallsEventBus)'',
        \<lambda>w. let payload = join_payload (call_id_of w) alice bob
             in (join_verdict (awaited (ak_result (fold (emitAck_step (sy_str sy) ''peer:join'') (sy_ack sy payload) ack_start))), w)),
      (''alice connect to LiveKit over WS'',
        \<lambda>w. (awaited (lk_result (fold (connectLiveKit_step 5000) (sy_livekit sy) lk_start)), w))]"

definition livekit_steps :: "smoke_outside \<Rightarrow> string \<Rightarrow> string \<Rightarrow> 'db full_step list" where
  "livekit_steps sy alice bob =
     [(''mint real LiveKit tokens (MediaProvider / livekit-server-sdk)'',
        \<lambda>w. case mint_livekit (sy_installed sy) (sy_createRoom sy) (sy_toJwt sy) (sy_livekitUrl sy) (call_id_of w) alice bob of
               Inl e \<Rightarrow> (Inl e, w)
             | Inr (detail, ta, tb) \<Rightarrow> (Inr detail, w\<lparr>fw_tokenAlice := ta, fw_tokenBob := tb\<rparr>)),
      (''verify LiveKit JWT signature'',
        \<lambda>w. (verify_step (sy_hmac sy) (sy_parse sy) (sy_secret sy) alice (fw_tokenAlice w), w))]"

definition smoke_test_steps ::
    "'db server_deps \<Rightarrow> smoke_env \<Rightarrow> smoke_texts \<Rightarrow> smoke_outside \<Rightarrow> string \<Rightarrow> 'db full_step list" where
  "smoke_test_steps sd sm tx sy alice =
     full_http sd sm (public_probes tx @ create_request # call_requests) @ livekit_steps sy alice (sm_bob sm)
     @ full_http sd sm turn_requests @ socket_steps sy alice (sm_bob sm)"

section \<open>Properties\<close>

text \<open>Each socket's promise is settled by its first event; \<open>Promise.all\<close> is resolved when both are resolved,
  rejected with the failure of one of them, and pending only while one is pending and none has failed.\<close>

definition conn_decide :: "smoke_user \<Rightarrow> conn_event \<Rightarrow> (string + unit) option" where
  "conn_decide u e = (if fst (conn_of e) = u then Some (snd (conn_of e)) else None)"

interpretation alice_conn: one_shot allSockets_step "\<lambda>s. True" cn_alice "conn_decide Alice"
  by unfold_locales
    (auto simp: allSockets_step_def conn_decide_def settle_def Let_def split_def split: smoke_user.splits sum.splits option.splits)

interpretation bob_conn: one_shot allSockets_step "\<lambda>s. True" cn_bob "conn_decide Bob"
  by unfold_locales
    (auto simp: allSockets_step_def conn_decide_def settle_def Let_def split_def split: smoke_user.splits sum.splits option.splits)

definition conn_inv :: "conn_state \<Rightarrow> bool" where
  "conn_inv s \<longleftrightarrow>
     (case cn_all s of
        None \<Rightarrow> (cn_alice s = None \<or> cn_bob s = None) \<and> cn_alice s \<in> {None, Some (Inr ())} \<and> cn_bob s \<in> {None, Some (Inr ())}
      | Some (Inr _) \<Rightarrow> cn_alice s = Some (Inr ()) \<and> cn_bob s = Some (Inr ())
      | Some (Inl e) \<Rightarrow> cn_alice s = Some (Inl e) \<or> cn_bob s = Some (Inl e))"

lemma allSockets_inv: "conn_inv s \<Longrightarrow> conn_inv (allSockets_step e s)"
  by (auto simp: conn_inv_def allSockets_step_def settle_def Let_def split_def split: smoke_user.splits sum.splits option.splits)

theorem connect_both_spec:
  "(let s = fold allSockets_step evs conn_start
    in conn_inv s \<and> cn_alice s = first_some (map (conn_decide Alice) evs) \<and> cn_bob s = first_some (map (conn_decide Bob) evs))"
proof -
  have "conn_inv s \<Longrightarrow> conn_inv (fold allSockets_step evs s)" for s
    by (induction evs arbitrary: s) (simp_all add: allSockets_inv)
  moreover have "conn_inv conn_start" by (simp add: conn_inv_def conn_start_def)
  ultimately show ?thesis
    using alice_conn.run_result [where s = conn_start and evs = evs] bob_conn.run_result [where s = conn_start and evs = evs]
    by (simp add: conn_start_def Let_def)
qed

text \<open>The step that expects to be refused passes on a success as well: the message of the error thrown for it has the word
  that is looked for.\<close>

theorem join_step_blind:
  "is_ok (join_verdict ack) \<longleftrightarrow> is_ok ack \<or> (\<exists>m. ack = Inl m \<and> contains ''forbidden'' m)"
proof (cases ack)
  case (Inr v)
  have "contains ''forbidden'' ''expected forbidden, got success''" by code_simp
  then show ?thesis by (simp add: Inr join_verdict_def Let_def)
qed (simp add: join_verdict_def Let_def)

text \<open>The join of the test is refused by the deployed gateway in every state it can be in, whatever sockets did before
  and whatever is under way, and changes nothing but the rate limit of the socket; told of that, the step passes.\<close>

theorem smoke_join_refused:
  assumes "gw_reach zod (\<lambda>k u. ar_authorized (noop_isParticipant k u)) s ps" and "zod_correct zod"
    and "k \<noteq> []" and "alice \<noteq> []" and "bob \<noteq> []" and "getUserId (cl_data client) = Inr alice"
    and "fst (tryConsume gateway_limits (cl_id client) now (gw_buckets s))"
    and "js_prop ''message'' err = JStr ''forbidden''" and "str (JStr ''forbidden'') = ''forbidden''"
  shows "\<exists>s'. handlePeerJoin zod noop_isParticipant (join_payload k alice bob) client now t s = (Inl ''forbidden'', s')
    \<and> gw_registry s' = gw_registry s \<and> gw_out s' = gw_out s
    \<and> join_verdict (awaited (ak_result (fold (emitAck_step str ''peer:join'') (AckException err # evs) ack_start)))
      = Inr ''forbidden as expected (NoopCallsEventBus)''"
proof -
  have parse: "parseCallInvitePayload zod (join_payload k alice bob)
      = Inr \<lparr>ip_callId = k, ip_from = alice, ip_to = [bob], ip_type = ''video''\<rparr>"
    by (subst parseCallInvitePayload_spec [OF assms(2)]) (use assms(3-5) in \<open>simp add: join_payload_def\<close>)
  obtain bs where lim: "tryConsume gateway_limits (cl_id client) now (gw_buckets s) = (True, bs)"
    using assms(7) by (cases "tryConsume gateway_limits (cl_id client) now (gw_buckets s)") auto
  let ?s1 = "s\<lparr>gw_buckets := bs\<rparr>"
  have start: "peer_join_start zod (join_payload k alice bob) client now s = (Inr (k, alice), ?s1)"
    using assms(6) by (simp add: peer_join_start_def receive_def enforceRateLimit_def lim parse)
  have "\<not> is_ok (fst (peer_join_resume (noop_isParticipant k alice) k alice client t ?s1))"
    using noop_bus_empty [OF gw_reach.join_waits [OF assms(1) start]]
    by (simp add: peer_join_resume_def reg_isParticipant_def noop_isParticipant_def)
  then have "peer_join_resume (noop_isParticipant k alice) k alice client t ?s1 = (Inl ''forbidden'', ?s1)"
    by (simp add: peer_join_resume_def Let_def split_def split: if_splits)
  then have "handlePeerJoin zod noop_isParticipant (join_payload k alice bob) client now t s = (Inl ''forbidden'', ?s1)"
    by (simp add: handlePeerJoin_def start)
  moreover have "ak_result (fold (emitAck_step str ''peer:join'') (AckException err # evs) ack_start)
      = Some (Inl ''peer:join exception: forbidden'')"
  proof -
    have "ack_inv ack_start" "ak_result ack_start = None" by (simp_all add: ack_inv_def ack_start_def)
    with ack.run_result [of ack_start str "''peer:join''" "AckException err # evs"] show ?thesis
      using assms(8,9) by (simp add: ack_decide_def ack_start_def)
  qed
  moreover have "contains ''forbidden'' ''peer:join exception: forbidden''" by code_simp
  ultimately show ?thesis by (intro exI [of _ ?s1]) (simp add: awaited_def join_verdict_def Let_def)
qed

lemma smoke_join_refused_witness:
  "\<exists>s'. handlePeerJoin zod_ref noop_isParticipant (join_payload ''c1'' ''ana'' ''ben'') demo_client 0 7 init_gateway
    = (Inl ''forbidden'', s')"
proof -
  have "gw_reach zod_ref (\<lambda>k u. ar_authorized (noop_isParticipant k u)) init_gateway []" by (rule gw_reach.start)
  moreover have "getUserId (cl_data demo_client) = Inr ''ana''" by (simp add: demo_client_def getUserId_def)
  moreover have "fst (tryConsume gateway_limits (cl_id demo_client) 0 (gw_buckets init_gateway))"
    by (simp add: tryConsume_def init_gateway_def jget_def jempty_def)
  ultimately show ?thesis
    using smoke_join_refused [of zod_ref init_gateway "[]" "''c1''" "''ana''" "''ben''" demo_client 0
        "JObj [(''message'', JStr ''forbidden'')]" the_str 7 "[]"] zod_ref_correct by auto
qed

text \<open>Whatever the server's libraries, its state and what everything outside answers: the test ends with exit code 1
  when it means to create its call, or at a probe before, and it has changed no call, no account and no token by then.\<close>

theorem smoke_stops_at_create:
  "(let steps = smoke_test_steps sd sm tx sy alice;
        (r, w', results) = smoke_steps steps w []
    in snd (smoke_main steps w) = 1 \<and> \<not> is_ok r \<and> length results \<le> 4
       \<and> same_calls (sv_calls (sw_server (fw_http w))) (sv_calls (sw_server (fw_http w')))
       \<and> sv_auth (sw_server (fw_http w')) = sv_auth (sw_server (fw_http w))
       \<and> sv_ws (sw_server (fw_http w')) = sv_ws (sw_server (fw_http w)))"
proof -
  let ?steps = "smoke_test_steps sd sm tx sy alice"
  let ?R = "\<lambda>v v'. untouched (fw_http v) (fw_http v')"
  define pre where "pre = full_http sd sm (public_probes tx)"
  obtain n0 f0 rest where eq: "?steps = pre @ (n0, f0) # rest"
    and f0: "f0 = (\<lambda>w. let (res, h) = smoke_http sd sm create_request (fw_http w) in (res, w\<lparr>fw_http := h\<rparr>))"
    by (simp add: smoke_test_steps_def full_http_def pre_def)
  obtain r w' rs where run: "smoke_steps ?steps w [] = (r, w', rs)" using prod_cases3 by blast
  have "\<not> is_ok r \<and> ?R w w' \<and> length rs \<le> length ([] :: step_record list) + Suc (length pre)"
  proof (rule smoke_steps_stop [of ?R])
    show "?R v (snd (f v))" if "(n, f) \<in> set pre" for n f v
      using that probe_untouched by (auto simp: pre_def full_http_def split_def Let_def)
    show "\<not> is_ok (fst (f0 v)) \<and> ?R v (snd (f0 v))" for v
      using create_refused by (simp add: f0 split_def Let_def)
    show "smoke_steps (pre @ (n0, f0) # rest) w [] = (r, w', rs)" using run by (simp add: eq)
  qed (rule untouched_trans)
  moreover have "length pre = 3" by (simp add: pre_def full_http_def public_probes_def)
  ultimately have n: "\<not> is_ok r" "untouched (fw_http w) (fw_http w')" "length rs \<le> 4" by simp_all
  from n(1) obtain err where "r = Inl err" by (cases r) simp_all
  then have "snd (smoke_main ?steps w) = 1" by (simp add: smoke_main_def run)
  then show ?thesis using n run by (simp add: untouched_def Let_def)
qed

end
