(* ===== verification/DevTools.thy ===== *)
theory DevTools
  imports SmokeSockets
begin

text \<open>
  What stands beside the server: the settings of the smoke test (\<open>scripts/smoke-call.js\<close>), the script that prints a
  token and a join request for a manual test of LiveKit (\<open>gen-validate-curl.mjs\<close>), and the helpers of the end to
  end tests (\<open>test/helpers/\<close>): test tokens, a client that connects once, a poll with a time limit, and the fakes of the
  media services.
\<close>

section \<open>Settings of the smoke test\<close>

record smoke_settings =
  ss_API_URL :: string
  ss_LIVEKIT_URL :: string
  ss_LIVEKIT_API_KEY :: string
  ss_LIVEKIT_API_SECRET :: string
  ss_JWT_SECRET :: string
  ss_NS :: string
  ss_ALICE :: string
  ss_BOB :: string

text \<open>\<open>process.env.X || d\<close>.\<close>

definition env_or :: "(string \<Rightarrow> string option) \<Rightarrow> string \<Rightarrow> string \<Rightarrow> string" where
  "env_or penv k d = (case penv k of None \<Rightarrow> d | Some v \<Rightarrow> if v = [] then d else v)"

text \<open>Without a secret the script ends with status 2. \<open>to36\<close> is the text of a number in base 36.\<close>

definition read_smoke_settings :: "(string \<Rightarrow> string option) \<Rightarrow> (int \<Rightarrow> string) \<Rightarrow> int \<Rightarrow> int \<Rightarrow> int + smoke_settings" where
  "read_smoke_settings penv to36 t1 t2 =
     (if env_or penv ''JWT_SECRET'' [] = [] then Inl 2
      else Inr \<lparr>ss_API_URL = env_or penv ''API_URL'' ''http://localhost:8090'',
                ss_LIVEKIT_URL = env_or penv ''LIVEKIT_URL'' ''ws://localhost:7880'',
                ss_LIVEKIT_API_KEY = env_or penv ''LIVEKIT_API_KEY'' ''devkey'',
                ss_LIVEKIT_API_SECRET = env_or penv ''LIVEKIT_API_SECRET'' ''secret'',
                ss_JWT_SECRET = env_or penv ''JWT_SECRET'' [], ss_NS = env_or penv ''SIGNALING_NAMESPACE'' [],
                ss_ALICE = ''alice-'' @ to36 t1, ss_BOB = ''bob-'' @ to36 t2\<rparr>)"

section \<open>The manual test of LiveKit\<close>

text \<open>\<open>toString('base64')\<close>: the other two characters, and padding to a multiple of four.\<close>

definition b64_std_char :: "char \<Rightarrow> char" where
  "b64_std_char c = (if c = CHR ''-'' then CHR ''+'' else if c = CHR ''_'' then CHR ''/'' else c)"

definition base64 :: "8 word list \<Rightarrow> string" where
  "base64 bs = (let t = map b64_std_char (base64url bs) in t @ replicate ((4 - length t mod 4) mod 4) (CHR ''=''))"

definition gen_payload :: "int \<Rightarrow> string" where
  "gen_payload now =
     ''{\"iss\":\"devkey\",\"sub\":\"user-test-1\",\"iat\":'' @ show_int now @ '',\"exp\":'' @ show_int (now + 3600) @
     '',\"video\":{\"room\":\"sfu-test-123\",\"roomJoin\":true,\"canPublish\":true,\"canSubscribe\":true,\"canPublishData\":true}}''"

definition gen_jwt :: "(string \<Rightarrow> string \<Rightarrow> 8 word list) \<Rightarrow> int \<Rightarrow> string" where
  "gen_jwt hmac now_ms =
     (let now = now_ms div 1000;
          h = base64url (utf8 ''{\"alg\":\"HS256\",\"typ\":\"JWT\"}'');
          p = base64url (utf8 (gen_payload now));
          sig = base64url (hmac ''secret'' (h @ ''.'' @ p))
      in h @ ''.'' @ p @ ''.'' @ sig)"

text \<open>The two lines it prints; the protobuf message of the join request is a parameter.\<close>

definition gen_validate_curl :: "(string \<Rightarrow> string \<Rightarrow> 8 word list) \<Rightarrow> 8 word list \<Rightarrow> int \<Rightarrow> string list" where
  "gen_validate_curl hmac join_request now_ms =
     [''JWT='' @ gen_jwt hmac now_ms, ''JOIN_REQ='' @ base64 join_request]"

section \<open>Test tokens\<close>

record test_jwt_options =
  tj_userId :: string
  tj_expiresInSeconds :: "int option"
  tj_secret :: "string option"
  tj_issuer :: "string option"

record test_sign_options =
  ts_algorithm :: string
  ts_expiresIn :: int
  ts_issuer :: "string option"

definition first_of :: "'a option \<Rightarrow> 'a option \<Rightarrow> 'a option" where
  "first_of x y = (case x of None \<Rightarrow> y | Some v \<Rightarrow> Some v)"

definition signTestJwt ::
    "(string \<Rightarrow> string \<Rightarrow> test_sign_options \<Rightarrow> string) \<Rightarrow> (string \<Rightarrow> string option) \<Rightarrow> test_jwt_options \<Rightarrow> string" where
  "signTestJwt sign penv opts =
     (let secret = or_default (first_of (tj_secret opts) (penv ''JWT_SECRET'')) ''dev-jwt-secret'';
          issuer = first_of (tj_issuer opts) (penv ''JWT_ISSUER'');
          expiresIn = or_default (tj_expiresInSeconds opts) 3600
      in sign (tj_userId opts) secret
           \<lparr>ts_algorithm = ''HS256'', ts_expiresIn = expiresIn, ts_issuer = (if issuer = Some [] then None else issuer)\<rparr>)"

section \<open>A client that connects once\<close>

text \<open>The listeners are removed by each other, so the first of the two events settles the promise.\<close>

datatype client_event = ClientConnect | ClientError string

record client_state =
  cl_listening :: bool
  cl_result :: "(string + unit) option"

definition client_start :: client_state where
  "client_start = \<lparr>cl_listening = True, cl_result = None\<rparr>"

fun connectWsClient_step :: "client_event \<Rightarrow> client_state \<Rightarrow> client_state" where
  "connectWsClient_step ClientConnect s =
     (if cl_listening s then s\<lparr>cl_listening := False, cl_result := Some (Inr ())\<rparr> else s)"
| "connectWsClient_step (ClientError e) s =
     (if cl_listening s then s\<lparr>cl_listening := False, cl_result := Some (Inl e)\<rparr> else s)"

fun client_decide :: "client_event \<Rightarrow> (string + unit) option" where
  "client_decide ClientConnect = Some (Inr ())"
| "client_decide (ClientError e) = Some (Inl e)"

definition client_inv :: "client_state \<Rightarrow> bool" where
  "client_inv s \<longleftrightarrow> cl_listening s = (cl_result s = None)"

interpretation client: one_shot connectWsClient_step client_inv cl_result client_decide
proof (unfold_locales, goal_cases)
  case (1 s e)
  then show ?case by (cases e) (auto simp: client_inv_def)
next
  case (2 s e)
  then show ?case by (cases e) (auto simp: client_inv_def split: option.split)
qed

section \<open>A poll with a time limit\<close>

text \<open>
  \<open>poll k\<close> is what the function gives the \<open>k\<close>-th time (\<open>None\<close> when it throws or gives \<open>undefined\<close>, \<open>null\<close> or \<open>false\<close>),
  \<open>clock k\<close> the time read after it.
\<close>

partial_function (option) wait_tick :: "(nat \<Rightarrow> 'a option) \<Rightarrow> (nat \<Rightarrow> int) \<Rightarrow> int \<Rightarrow> int \<Rightarrow> string \<Rightarrow> nat \<Rightarrow> (string + 'a) option" where
  "wait_tick poll clock start timeoutMs label k =
     (case poll k of
        Some v \<Rightarrow> Some (Inr v)
      | None \<Rightarrow>
          if timeoutMs \<le> clock k - start then Some (Inl (''waitFor: timed out waiting for '' @ label))
          else wait_tick poll clock start timeoutMs label (Suc k))"

definition waitFor :: "(nat \<Rightarrow> 'a option) \<Rightarrow> (nat \<Rightarrow> int) \<Rightarrow> int \<Rightarrow> int option \<Rightarrow> string option \<Rightarrow> (string + 'a) option" where
  "waitFor poll clock start timeoutMs label =
     wait_tick poll clock start (or_default timeoutMs 3000) (or_default label ''condition'') 0"

section \<open>Fakes of the media services\<close>

record fake_turn =
  ft_calls :: "(string \<times> string) list"
  ft_next :: turn_credentials

definition fake_turn_start :: "int \<Rightarrow> fake_turn" where
  "fake_turn_start now =
     \<lparr>ft_calls = [],
      ft_next = \<lparr>tc_urls = [''turn:turn.test.local:3478?transport=udp''], tc_username = ''placeholder'',
        tc_credential = ''fake-cred'', tc_ttl = 3600, tc_expiresAt = now + 3600000\<rparr>\<rparr>"

definition fake_generateCredentials :: "string \<Rightarrow> string \<Rightarrow> int \<Rightarrow> fake_turn \<Rightarrow> turn_credentials \<times> fake_turn" where
  "fake_generateCredentials userId callId now f =
     (let expiresAt = now + tc_ttl (ft_next f) * 1000
      in ((ft_next f)\<lparr>tc_username := userId @ '':'' @ show_int (expiresAt div 1000),
                     tc_credential := ''cred-'' @ userId @ ''-'' @ take 8 callId, tc_expiresAt := expiresAt\<rparr>,
          f\<lparr>ft_calls := ft_calls f @ [(userId, callId)]\<rparr>))"

record fake_sfu =
  fs_calls :: "(string \<times> string) list"
  fs_next :: sfu_token

definition fake_sfu_start :: "int \<Rightarrow> fake_sfu" where
  "fake_sfu_start now =
     \<lparr>fs_calls = [],
      fs_next = \<lparr>st_token = ''placeholder'', st_url = ''wss://sfu.test.local/v1/rtc'', st_roomId = ''sfu-room'',
        st_callId = ''call-id'', st_userId = ''user'', st_expiresAt = now + 1800000\<rparr>\<rparr>"

definition fake_issueToken :: "string \<Rightarrow> string \<Rightarrow> int \<Rightarrow> fake_sfu \<Rightarrow> sfu_token \<times> fake_sfu" where
  "fake_issueToken callId userId now f =
     ((fs_next f)\<lparr>st_token := ''sfu-token-'' @ userId @ ''-'' @ take 8 callId, st_roomId := ''sfu-'' @ callId,
                 st_callId := callId, st_userId := userId, st_expiresAt := now + 1800000\<rparr>,
      f\<lparr>fs_calls := fs_calls f @ [(callId, userId)]\<rparr>)"

section \<open>What they do\<close>

text \<open>The token of the manual test is what the signing of the smoke test makes of the same payload and secret.\<close>

lemma gen_jwt_signs: "gen_jwt hmac now_ms = signJwtHS256 hmac (gen_payload (now_ms div 1000)) ''secret''"
  unfolding gen_jwt_def signJwtHS256_def b64url_def Let_def
  by (subst append_assoc, subst append_assoc, rule refl)

lemma base64_padded: "length (base64 bs) mod 4 = 0"
proof -
  have "(n + (4 - n mod 4) mod 4) mod 4 = 0" for n :: nat
  proof -
    have "(m + (4 - m) mod 4) mod 4 = 0" if "m < 4" for m :: nat
    proof -
      have "m = 0 \<or> m = 1 \<or> m = 2 \<or> m = 3" using that by linarith
      then show ?thesis by (elim disjE) simp_all
    qed
    from this [of "n mod 4"] show ?thesis by (simp add: mod_add_left_eq)
  qed
  then show ?thesis by (simp add: base64_def Let_def)
qed

text \<open>The poll ends: the time it reads passes by the interval from one try to the next, so that after at most as many tries
  as intervals fit into the limit, and one, it has a value or has timed out; it has the value of the first try that gave one.\<close>

lemma wait_tick_skip:
  "(\<And>j. k \<le> j \<Longrightarrow> j < n \<Longrightarrow> poll j = None \<and> clock j - start < timeoutMs) \<Longrightarrow> k \<le> n \<Longrightarrow>
   wait_tick poll clock start timeoutMs label k = wait_tick poll clock start timeoutMs label n"
proof (induction "n - k" arbitrary: k)
  case (Suc d)
  then have "poll k = None \<and> clock k - start < timeoutMs" by simp
  then have "wait_tick poll clock start timeoutMs label k = wait_tick poll clock start timeoutMs label (Suc k)"
    by (subst wait_tick.simps) simp
  then show ?case using Suc.hyps(1) [of "Suc k"] Suc.hyps(2) Suc.prems by simp
qed simp

lemma clock_passes:
  fixes clock :: "nat \<Rightarrow> int"
  assumes "\<And>k. clock k + interval \<le> clock (Suc k)" and "start \<le> clock 0"
  shows "int n * interval \<le> clock n - start"
proof (induction n)
  case (Suc n)
  then show ?case using assms(1) [of n] by (simp add: distrib_right)
qed (use assms(2) in simp)

lemma waitFor_ends:
  assumes step: "\<And>k. clock k + interval \<le> clock (Suc k)" and start: "start \<le> clock 0" and pos: "0 < interval"
    and limit: "T = or_default timeoutMs 3000"
  shows "\<exists>n. (int n - 1) * interval < max 0 T
    \<and> (\<forall>j < n. poll j = None \<and> clock j - start < T)
    \<and> waitFor poll clock start timeoutMs label =
        Some (case poll n of Some v \<Rightarrow> Inr v
              | None \<Rightarrow> Inl (''waitFor: timed out waiting for '' @ or_default label ''condition''))"
proof -
  let ?stop = "\<lambda>k. poll k \<noteq> None \<or> T \<le> clock k - start"
  have "T \<le> int (nat T) * interval"
    using pos by (cases "T \<le> 0") (auto simp: mult_le_cancel_left1 intro: order_trans [OF _ mult_nonneg_nonneg])
  then have "?stop (nat T)" using clock_passes [of clock, OF step start, of "nat T"] by simp
  then obtain n where n: "?stop n" and before: "\<And>j. j < n \<Longrightarrow> \<not> ?stop j" using exists_least_iff [of ?stop] by blast
  have "wait_tick poll clock start T (or_default label ''condition'') 0 = wait_tick poll clock start T (or_default label ''condition'') n"
    by (rule wait_tick_skip) (use before in \<open>simp_all add: not_le\<close>)
  also have "\<dots> = Some (case poll n of Some v \<Rightarrow> Inr v
      | None \<Rightarrow> Inl (''waitFor: timed out waiting for '' @ or_default label ''condition''))"
    using n by (subst wait_tick.simps) (auto split: option.split)
  finally have w: "waitFor poll clock start timeoutMs label = Some (case poll n of Some v \<Rightarrow> Inr v
      | None \<Rightarrow> Inl (''waitFor: timed out waiting for '' @ or_default label ''condition''))"
    by (simp add: waitFor_def limit)
  have "(int n - 1) * interval < max 0 T"
  proof (cases n)
    case (Suc m)
    then show ?thesis using before [of m] clock_passes [of clock, OF step start, of m] by (simp add: less_max_iff_disj)
  qed (use pos in \<open>simp add: less_max_iff_disj\<close>)
  then show ?thesis using w before by (auto simp: not_le)
qed

text \<open>The fakes answer in the form of the services they stand for.\<close>

lemma fake_turn_form:
  assumes "turn_ttl cfg = None"
  shows "tc_username (fst (fake_generateCredentials u k (fst (read_clock e)) (fake_turn_start t0)))
      = tc_username (fst (generateCredentials hmac cfg u k' e))"
    and "tc_expiresAt (fst (fake_generateCredentials u k (fst (read_clock e)) (fake_turn_start t0))) div 1000 * 1000
      = tc_expiresAt (fst (generateCredentials hmac cfg u k' e))"
proof -
  have "(x + 3600000) div 1000 = x div 1000 + 3600" for x :: int by simp
  then show "tc_username (fst (fake_generateCredentials u k (fst (read_clock e)) (fake_turn_start t0)))
      = tc_username (fst (generateCredentials hmac cfg u k' e))"
    and "tc_expiresAt (fst (fake_generateCredentials u k (fst (read_clock e)) (fake_turn_start t0))) div 1000 * 1000
      = tc_expiresAt (fst (generateCredentials hmac cfg u k' e))"
    using assms
    by (simp_all add: fake_generateCredentials_def fake_turn_start_def generateCredentials_def turn_ttlSeconds_def Let_def split_def)
qed

end
