(* ===== verification/Spec2Isabelle.thy ===== *)
theory Spec2Isabelle
  imports Deployment Statuses Timers AuditLog Wiring Persistence Bootstrap DevTools
begin

text \<open>
  \<^bold>\<open>koom-calls-server\<close>: a verification development.

  The server lets signed-in users make calls. HTTP controllers own the calls and hand out media
  credentials; a socket.io gateway carries the signalling between the users of a call; media goes
  through LiveKit and TURN. State is in memory, except the accounts (PostgreSQL) and, when Redis is
  configured, presence.

  \<^bold>\<open>Library\<close>
  \<^item> \<open>Prelude\<close>: collections of rewrite rules, insertion-ordered maps (\<open>Map\<close> and objects of the language) with
    the locale \<open>map_store\<close>, results, and the environment every effect reads from: clock, random
    numbers and UUIDs as streams with a position.
  \<^item> \<open>JsValue\<close>, \<open>JsNumber\<close>, \<open>Json\<close>, \<open>Base64\<close>, \<open>Http\<close>: values and truth, strings, \<open>Number\<close>, JSON text, base64url,
    and the HTTP exceptions with their status.
  \<^item> \<open>KeyedLimit\<close>: limiters that keep one bucket per key (locale \<open>keyed_limiter\<close>).

  \<^bold>\<open>Calls\<close> (\<open>src/src/calls\<close>)
  \<^item> \<open>CallTypes\<close>, \<open>CallsService\<close>: the records of \<open>call.types.ts\<close>; \<open>CallEventsStore\<close> and every operation of
    \<open>CallsService\<close>, as functions on \<open>calls_state\<close> (the two maps, the event log, the environment).
  \<^item> \<open>CallsInv\<close>, \<open>CallsSteps\<close>: well-formedness \<open>store_ok\<close> and the agreement of the event log with the
    calls, for every operation; \<open>calls_reach\<close>, the states reached by any sequence of operations.
  \<^item> \<open>CallsProps\<close>, \<open>CallsClaims\<close>: how a call evolves, admission to private calls, room codes, and what
    each operation does on every branch.
  \<^item> \<open>CallsController\<close> (\<open>calls.controller.ts\<close>, \<open>dto.ts\<close>): handlers, body parsers and the translation of errors;
    each mutating handler runs exactly the operation of the service its request names, or refuses.

  \<^bold>\<open>Media\<close> (\<open>turn\<close>, \<open>sfu\<close>, \<open>media-provider\<close>)
  \<^item> \<open>MediaTokens\<close>: TURN credentials, SFU tokens, both media providers (locale \<open>media_contract\<close>) and the
    choice between them; \<open>LivekitHealth\<close>: the health probe.

  \<^bold>\<open>Signalling\<close> (\<open>signaling\<close>, \<open>security/ws-auth.middleware.ts\<close>, \<open>auth/ws-jwt.guard.ts\<close>)
  \<^item> \<open>RoomRegistry\<close> (locale \<open>membership\<close>), \<open>SignalLimit\<close> (\<open>rate-limit.guard.ts\<close>), \<open>SignalDto\<close> (payload schemas).
  \<^item> \<open>Gateway\<close>: every handler of \<open>signaling.gateway.ts\<close>. A \<open>peer:join\<close> is two steps with the answer of the
    event bus between them, and \<open>gw_reach\<close> interleaves them with all other messages and disconnects.
  \<^item> \<open>WsAuth\<close>: both socket middlewares and the guard.

  \<^bold>\<open>Accounts and sign-in\<close> (\<open>auth\<close>)
  \<^item> \<open>Users\<close> (\<open>users.repository.ts\<close>), \<open>OAuth\<close> (the provider registry and Google's service, locale
    \<open>provider_contract\<close>), \<open>AuthService\<close> with \<open>AuthProps\<close>, \<open>WsToken\<close>, and \<open>AuthController\<close> with \<open>AuthClaims\<close>: the
    handlers as lists of effects on the response.
  \<^item> \<open>Interleave\<close>: tasks that take turns on a shared state (locale \<open>interleaved\<close>, by rely and guarantee). \<open>SignInRace\<close>:
    the sign-in of \<open>users.repository.ts\<close> await by await, and what any interleaving of sign-ins keeps.

  \<^bold>\<open>Presence\<close> (\<open>presence\<close>)
  \<^item> \<open>Presence\<close>, \<open>PresenceProps\<close>, \<open>PresenceClaims\<close>: the in-memory service with its timers, as an index by
    deadline (locale \<open>presence_index\<close>); \<open>RedisPresence\<close>: the Redis service and its agreement with it.

  \<^bold>\<open>Protection, observation, configuration\<close>
  \<^item> \<open>RateLimit\<close> (\<open>rate-limit.service.ts\<close>): token buckets over rationals; \<open>Redaction\<close> and \<open>AuditLog\<close>: both
    redactors over an explicit object heap with cycles and sharing (locale \<open>redactor\<close>), and the audit loggers.
  \<^item> \<open>Timers\<close>: the interval timers of the WebSocket tokens and of the rate limit service as timelines (locales
    \<open>swept_store\<close>, \<open>fresh_store\<close>): what their memory is bounded by, that a sweep changes no answer, and that
    nothing sweeps the buckets of the gateway.
  \<^item> \<open>Metrics\<close>, \<open>CallStats\<close>, \<open>HttpFilter\<close>: the metrics service, the statistics routes with their guards,
    the exception filter and the request log.
  \<^item> \<open>Config\<close>, \<open>EnvSchema\<close>: every configuration namespace and the schema of the environment; \<open>Platform\<close>:
    Redis connection, socket adapters, logs, information endpoints.

  \<^bold>\<open>The whole server\<close>
  \<^item> \<open>Routes\<close>: the decorators of the controllers with the prefix of \<open>main.ts\<close>, and how a request finds its route.
    \<open>Server\<close>: the request cycle \<open>serve\<close> (route, guard, handler, exception filter) over the states of all
    components. \<open>ServerProps\<close>: what holds whatever is requested, and \<open>server_reach\<close>, the states reached by any
    sequence of requests; \<open>Statuses\<close>: the statuses each handler answers with. \<open>Journeys\<close>: what one answer hands
    out is what the next request needs.
  \<^item> \<open>Deployment\<close>: the server in use (\<open>deployed\<close>): requests with tokens that were handed out, sockets that come and
    go, restarts that keep the database. Whoever acts has an account, and who is handed a token is shown.
  \<^item> \<open>Wiring\<close>: the declarations of every module, what each constructor asks for, and what a module sees
    (\<open>*.module.ts\<close>). \<open>Bootstrap\<close>: the loaded configuration, the factories and constructors, the steps of
    \<open>bootstrap\<close>. \<open>Tokens\<close>: which options tokens are signed and verified with, and who accepts which token.
  \<^item> \<open>Persistence\<close> (\<open>persistence\<close>, \<open>user.entity.ts\<close>): the migration in both directions, the entity, both data
    sources; the table of the migration is the one the entity expects, its unique indexes are the conflicts
    \<open>repo_documented\<close> speaks of, and the row of a guest fits its columns.
  \<^item> \<open>OneShot\<close>, \<open>SmokeClient\<close>, \<open>SmokeSockets\<close> (\<open>src/scripts\<close>): promises settled once (locale \<open>one_shot\<close>) and the
    smoke test, its requests run against \<open>serve\<close> and its \<open>peer:join\<close> against the gateway. \<open>DevTools\<close>: its settings, the script
    \<open>gen-validate-curl.mjs\<close>, and the helpers of the tests (\<open>src/test/helpers\<close>).

  \<^bold>\<open>Parameters\<close>. Code that is not in the repository is an argument of the definitions, with its documented
  behaviour as a named hypothesis where a property needs it: \<open>zod\<close> and \<open>joi_contract\<close> (schema libraries),
  \<open>repo_documented\<close> (TypeORM with its unique indexes), \<open>query_runner_documented\<close> (its query runner),
  \<open>redis_documented\<close> (commands and transactions, also on values of another type), \<open>verify\<close> and \<open>sign\<close> with \<open>live_token\<close> and \<open>claims_kept\<close> (JSON Web Tokens),
  \<open>exports_documented\<close> (the modules of the framework), \<open>hmac\<close>, \<open>lk_signer\<close>, the answers of LiveKit and of Google.
  Each hypothesis is met by a concrete function in the witness of the property.

  \<^bold>\<open>Bounds\<close>. Recursion is structural or has a measure, with three exceptions. \<open>waitFor\<close> polls as long as it may
  and is shown to end where the clock passes. \<open>reserve_loop\<close> counts the
  attempts the source allows. \<open>redact\<close> takes a bound on its depth; \<open>auth_redact\<close> gives it one more than the
  number of objects of the heap, and any larger bound gives the same result, because every step down marks
  an object as seen. Times are integer milliseconds, quantities of tokens are rationals: rounding of
  floating-point numbers is not modelled, neither are characters outside Latin-1.

  \<^bold>\<open>Not modelled\<close>. What the framework does inside a step of \<open>bootstrap\<close>, the parsing of HTTP messages, the
  answers it gives by itself (CORS preflight, \<open>HEAD\<close>, 304: a request of the model is a \<open>GET\<close> or a \<open>POST\<close>), and
  the execution of SQL, of log lines and of metrics by their libraries. A request is
  one step of the server except for the awaits of a sign-in (\<open>SignInRace\<close>) and of a \<open>peer:join\<close> (\<open>Gateway\<close>).
  \<open>bootstrapTestApp\<close> besides its fakes and the lint settings only call or configure third-party tools. Presence
  by Redis is stated between expirations.

  The properties below join components: the identity of a token on both transports, sessions and the
  administrators' route, and the way from the link of a call to its media. The others stand in the theory of the
  component that is last in them.
\<close>

section \<open>Properties that span components\<close>

subsection \<open>One identity for a token\<close>

lemma validate_Inr:
  assumes "jwt_validate payload = Inr u"
  obtains sub where "js_prop ''sub'' payload = JStr sub" and "sub \<noteq> []"
    and "jget u = (jget (own_props payload))(''sub'' \<mapsto> JStr sub, ''userId'' \<mapsto> JStr sub,
           ''email'' \<mapsto> js_prop ''email'' payload)"
  using assms by (auto simp: jwt_validate_def nonempty_str_Some fun_upd_def fun_eq_iff split: option.splits if_splits)

text \<open>C27: a token with which requests over HTTP are made as some user opens a socket as the same user, and is
  seen as that user by the statistics guard.\<close>

theorem one_token_one_user:
  assumes http: "jwt_validate payload = Inr u" and "jwt_extractToken socket = Some token"
    and "verify token (jwt_ws_verify_options \<lparr>jo_secret = secret, jo_algorithms = None, jo_userIdClaim = None\<rparr>) = Inr payload"
  shows "\<exists>i s'. i \<noteq> [] \<and> jget u ''userId'' = Some (JStr i) \<and> resolveUserId (JObj u) = JStr i
    \<and> gateway_middleware verify secret socket = (Inr (), s', []) \<and> getUserId (JObj (so_data s')) = Inr i"
proof -
  from http obtain i where i: "js_prop ''sub'' payload = JStr i" "i \<noteq> []"
    and u: "jget u = (jget (own_props payload))(''sub'' \<mapsto> JStr i, ''userId'' \<mapsto> JStr i,
           ''email'' \<mapsto> js_prop ''email'' payload)"
    by (rule validate_Inr)
  have "extractUserId ''sub'' payload = Some i"
    using i by (cases payload) (auto simp: extractUserId_def)
  then have "gateway_middleware verify secret socket =
      (Inr (), socket\<lparr>so_data := jset ''token'' (JStr token) (jset ''userId'' (JStr i) (so_data socket))\<rparr>, [])"
    using assms(2,3) by (simp add: gateway_middleware_def jwt_ws_use_def or_default_def)
  moreover have "resolveUserId (JObj u) = JStr i"
    using u by (simp add: resolveUserId_def js_prop_jget del: js_prop.simps)
  ultimately show ?thesis
    using i u by (simp add: getUserId_def js_prop_jget del: js_prop.simps)
qed

text \<open>C38: no session the service signs opens the administrators' route: neither the claims it signs nor what
  validation adds to them make the user an administrator.\<close>

theorem no_session_is_admin:
  assumes "jwt_validate (session_payload c iat expiry) = Inr u"
  shows "\<not> admin_guard (JObj u) \<and> stats_guard (JObj u)
    \<and> route_listFailed provider (JObj u) = Inl (Inl (Forbidden ''Forbidden resource''))"
  using assms
proof (rule validate_Inr)
  fix i assume "i \<noteq> []" and u: "jget u = (jget (own_props (session_payload c iat expiry)))
    (''sub'' \<mapsto> JStr i, ''userId'' \<mapsto> JStr i, ''email'' \<mapsto> js_prop ''email'' (session_payload c iat expiry))"
  have "js_prop k (JObj u) = JUndef" if "k \<in> {''isAdmin'', ''role'', ''roles''}" for k
  proof -
    have "jget (own_props (session_payload c iat expiry)) k = None"
      using that by (auto simp: session_payload_def jget_def)
    with that u show ?thesis by (auto simp: js_prop_jget simp del: js_prop.simps)
  qed
  then have "\<not> admin_guard (JObj u)" by (simp add: admin_guard_def)
  moreover have "resolveUserId (JObj u) = JStr i"
    using u by (simp add: resolveUserId_def js_prop_jget del: js_prop.simps)
  ultimately show ?thesis using \<open>i \<noteq> []\<close> by (simp add: route_listFailed_def stats_guard_def)
qed

subsection \<open>From a link to a running call\<close>

text \<open>C24: in every reachable state a signed-in user with the id of a live \<open>link\<close> call gets in: joining succeeds,
  and afterwards the call is served to that user and listed among the user's calls, and the user
  gets TURN credentials, and an SFU token when the SFU is configured.\<close>

theorem link_call_is_open:
  assumes "calls_reach e s" and "uuid_ok e" and "jget (cs_calls s) k = Some c"
    and "c_status c \<noteq> Ended" and "c_visibility c = Link"
  shows "\<exists>c' s'. http_join k (Some u) s = (Inr c', s') \<and> isParticipant c' u \<and> c_status c' \<noteq> Ended
    \<and> http_get k (Some u) s' = Inr c' \<and> c' \<in> set (listForUser u None s')
    \<and> is_ok (fst (http_turnCredentials hmac tcfg k (Some u) s'))
    \<and> fst (http_sfuToken lk scfg k (Some u) s') = answer (map_sum THttp id (fst (issueToken lk scfg k u (cs_env s'))))"
proof -
  have get: "getCall k s = Inr c" using assms(3) by (simp add: getCall_def)
  have at0: "at_call s k c" using calls_reach_ok [OF assms(1,2)] get by (rule at_callI)
  have id: "c_id c = k" using at0 by (rule at_call_facts)
  have look: "getCallByIdOrCode k s = Inr c" using assms(3) by (simp add: getCallByIdOrCode_def)
  obtain c' s' where join: "join k u s = (Inr c', s')" and at: "at_call s' k c'"
    and p: "isParticipant c' u" "c_status c' \<noteq> Ended"
  proof (cases "isParticipant c u")
    case True
    then show thesis using that [of c s] get at0 assms(4) by (simp add: join_def)
  next
    case False
    show thesis
      by (rule that [OF _ at_call_joinLink [OF at0 False assms(4)]])
        (use get assms(4,5) False in \<open>auto simp: join_def joinAsLinkParticipant_def Let_def split_def isParticipant_def\<close>)
  qed
  have c': "getCallByIdOrCode k s' = Inr c'" "c_id c' = k" "jget (cs_calls s') k = Some c'"
    using at at_call_facts(1) [OF at] by (simp_all add: at_call_def getCallByIdOrCode_def)
  have "c' \<in> set (listForUser u None s')"
    using c'(3) p(1) by (force simp: listForUser_def jvals_def jget_def dest: map_of_SomeD)
  then show ?thesis
    using join c' p look id
    by (auto simp: http_join_def on_call_def userIdOrThrow_def of_service_def http_get_def member_call_def media_call_def
        http_turnCredentials_def http_sfuToken_def answer_def split_def Let_def)
qed

subsection \<open>Instances\<close>

definition demo_handshake :: ws_socket where
  "demo_handshake = \<lparr>so_id = ''s1'', so_auth = JObj [(''token'', JStr ''t'')], so_headers = JObj [], so_query = JObj [],
     so_data = jempty\<rparr>"

definition demo_claims :: jsval where
  "demo_claims = session_payload \<lparr>sc_sub = ''ana'', sc_email = Some ''ana@koom.app''\<rparr> 1 3601"

lemma one_token_one_user_witness:
  "\<exists>i s'. gateway_middleware (\<lambda>t vo. Inr demo_claims) ''secret'' demo_handshake = (Inr (), s', [])
    \<and> getUserId (JObj (so_data s')) = Inr i \<and> i \<noteq> []"
proof -
  obtain u where "jwt_validate demo_claims = Inr u"
    using validate_session [of "\<lparr>sc_sub = ''ana'', sc_email = Some ''ana@koom.app''\<rparr>" 1 3601]
    by (auto simp: demo_claims_def)
  moreover have "jwt_extractToken demo_handshake = Some ''t''"
    by (simp add: jwt_extractToken_def pickToken_def demo_handshake_def starts_with_def)
  ultimately show ?thesis
    using one_token_one_user [of demo_claims u demo_handshake "''t''" "\<lambda>t vo. Inr demo_claims" "''secret''"] by auto
qed

lemma no_session_is_admin_witness:
  "\<exists>u. jwt_validate demo_claims = Inr u \<and> \<not> admin_guard (JObj u)"
proof -
  obtain u where u: "jwt_validate (session_payload \<lparr>sc_sub = ''ana'', sc_email = Some ''ana@koom.app''\<rparr> 1 3601) = Inr u"
    using validate_session [of "\<lparr>sc_sub = ''ana'', sc_email = Some ''ana@koom.app''\<rparr>" 1 3601] by auto
  from no_session_is_admin [OF u] u show ?thesis by (auto simp: demo_claims_def)
qed

definition demo_link_store :: calls_state where
  "demo_link_store = snd (exec_op (OpCreate (demo_input\<lparr>ci_visibility := None\<rparr>)) (init_calls demo_env))"

lemma demo_link_reach: "calls_reach demo_env demo_link_store"
  unfolding demo_link_store_def by (intro reach_exec reach_init)

lemma link_call_is_open_witness:
  "\<exists>c' s'. http_join ''u'' (Some ''eve'') demo_link_store = (Inr c', s') \<and> isParticipant c' ''eve''"
proof -
  have "jget (cs_calls demo_link_store) ''u'' = Some (demo_call\<lparr>c_visibility := Link\<rparr>)"
    by (simp add: demo_link_store_def demo_call_def demo_eval)
  moreover have "c_status (demo_call\<lparr>c_visibility := Link\<rparr>) \<noteq> Ended" by (simp add: demo_call_def)
  ultimately show ?thesis
    using link_call_is_open [OF demo_link_reach demo_uuid, of "''u''" "demo_call\<lparr>c_visibility := Link\<rparr>" "''eve''"]
    by simp blast
qed

end
